(* ===== verification/Prelude.thy ===== *)
theory Prelude
  imports Main "HOL-Library.Word" "HOL-Library.AList"
begin

text \<open>
  Shared vocabulary of the development: Python strings as lists of code points, byte strings
  as lists of 8-bit words, results of operations that may raise (\<open>'e + 'a\<close>, the exception on
  the left), the sequencing of such operations, and dictionaries that keep their insertion
  order (association lists).  Everything a component proof needs by default is declared
  \<open>simp\<close> here or collected in \<open>res_simps\<close> (facts about sequencing),
  \<open>py_defs\<close> (evaluation of the modelled parts of Python's standard library).
\<close>

named_theorems res_simps \<open>facts about operations that may raise\<close>
named_theorems py_defs \<open>definitions that evaluate the modelled parts of Python\<close>

section \<open>Strings and bytes\<close>

text \<open>A Python \<open>str\<close> is a sequence of code points; ASCII constants are written with \<open>lit\<close>.\<close>

type_synonym str = "nat list"
type_synonym bytes = "8 word list"

definition lit :: "string \<Rightarrow> str" where
  "lit s = map of_char s"

lemma inj_of_char_nat: "inj (of_char :: char \<Rightarrow> nat)"
  by (rule injI) simp

lemma lit_eq_iff [simp]: "lit s = lit t \<longleftrightarrow> s = t"
  unfolding lit_def by (simp add: inj_map_eq_map [OF inj_of_char_nat])

lemma lit_eq_Nil [simp]: "lit s = [] \<longleftrightarrow> s = []" "[] = lit s \<longleftrightarrow> s = []" "lit [] = []"
  by (auto simp: lit_def)

lemma lit_append: "lit (s @ t) = lit s @ lit t"
  by (simp add: lit_def)

lemma length_lit [simp]: "length (lit s) = length s"
  by (simp add: lit_def)

lemma of_char_less_256: "(of_char c :: nat) < 256"
  by simp

lemma lit_less_256: "c \<in> set (lit s) \<Longrightarrow> c < 256"
  by (auto simp: lit_def)

section \<open>Operations that may raise\<close>

definition bind_res :: "'e + 'a \<Rightarrow> ('a \<Rightarrow> 'e + 'b) \<Rightarrow> 'e + 'b" where
  "bind_res r f = (case r of Inl e \<Rightarrow> Inl e | Inr a \<Rightarrow> f a)"

lemma bind_res_simps [simp]:
  "bind_res (Inl e) f = Inl e"
  "bind_res (Inr a) f = f a"
  by (simp_all add: bind_res_def)

lemma bind_res_cong [fundef_cong]:
  assumes "r = r'" and "\<And>a. r' = Inr a \<Longrightarrow> f a = g a"
  shows "bind_res r f = bind_res r' g"
  using assms by (cases r') simp_all

lemma bind_res_assoc: "bind_res (bind_res r f) g = bind_res r (\<lambda>a. bind_res (f a) g)"
  by (cases r) simp_all

lemma bind_res_case_option:
  "bind_res (case x of None \<Rightarrow> r | Some a \<Rightarrow> f a) g =
     (case x of None \<Rightarrow> bind_res r g | Some a \<Rightarrow> bind_res (f a) g)"
  by (cases x) simp_all

lemma bind_res_eq_Inr [res_simps]: "bind_res r f = Inr b \<longleftrightarrow> (\<exists>a. r = Inr a \<and> f a = Inr b)"
  by (cases r) simp_all

lemma bind_res_InrE:
  assumes "bind_res r f = Inr y"
  obtains x where "r = Inr x" "f x = Inr y"
  using assms by (auto simp: bind_res_eq_Inr)

lemma bind_res_eq_Inl [res_simps]:
  "bind_res r f = Inl e \<longleftrightarrow> r = Inl e \<or> (\<exists>a. r = Inr a \<and> f a = Inl e)"
  by (cases r) simp_all

fun map_res :: "('a \<Rightarrow> 'e + 'b) \<Rightarrow> 'a list \<Rightarrow> 'e + 'b list" where
  "map_res f [] = Inr []"
| "map_res f (x # xs) = bind_res (f x) (\<lambda>y. bind_res (map_res f xs) (\<lambda>ys. Inr (y # ys)))"

lemma map_res_cong [fundef_cong]:
  assumes "xs = ys" and "\<And>x. x \<in> set ys \<Longrightarrow> f x = g x"
  shows "map_res f xs = map_res g ys"
  unfolding assms(1) using assms(2)
  by (induction ys) simp_all

lemma map_res_eq_Inr: "map_res f xs = Inr ys \<longleftrightarrow> list_all2 (\<lambda>x y. f x = Inr y) xs ys"
proof (induction xs arbitrary: ys)
  case Nil
  then show ?case by auto
next
  case (Cons x xs)
  then show ?case
    by (cases ys) (auto simp: bind_res_eq_Inr)
qed

lemma map_res_total:
  assumes "\<And>x. x \<in> set xs \<Longrightarrow> \<exists>y. f x = Inr y"
  shows "\<exists>ys. map_res f xs = Inr ys"
  using assms
proof (induction xs)
  case Nil
  then show ?case by simp
next
  case (Cons x xs)
  from Cons.prems obtain y where "f x = Inr y" by auto
  moreover from Cons obtain ys where "map_res f xs = Inr ys" by auto
  ultimately show ?case by simp
qed

lemma map_res_pure [simp]: "map_res (\<lambda>x. Inr (h x)) xs = Inr (map h xs)"
  by (induction xs) simp_all

lemma map_res_length: "map_res f xs = Inr ys \<Longrightarrow> length ys = length xs"
  by (simp add: map_res_eq_Inr list_all2_lengthD [symmetric])

lemma map_res_InlD: "map_res f xs = Inl e \<Longrightarrow> \<exists>x \<in> set xs. f x = Inl e"
  by (induction xs) (auto simp: bind_res_eq_Inl)

lemma map_res_memD:
  assumes "map_res f xs = Inr ys" and "y \<in> set ys"
  shows "\<exists>x \<in> set xs. f x = Inr y"
  using assms unfolding map_res_eq_Inr
  by (induction rule: list_all2_induct) auto

definition option_res :: "'e \<Rightarrow> 'a option \<Rightarrow> 'e + 'a" where
  "option_res e r = (case r of None \<Rightarrow> Inl e | Some a \<Rightarrow> Inr a)"

lemma option_res_simps [simp]:
  "option_res e None = Inl e"
  "option_res e (Some a) = Inr a"
  by (simp_all add: option_res_def)

lemma option_res_eq_Inr [res_simps]: "option_res e r = Inr a \<longleftrightarrow> r = Some a"
  by (cases r) simp_all

lemma map_res_option_mem:
  "map_res (\<lambda>k. option_res (e k) (f k)) xs = Inr ws \<Longrightarrow> w \<in> set ws \<longleftrightarrow> (\<exists>k \<in> set xs. f k = Some w)"
  by (induction xs arbitrary: ws) (auto simp: bind_res_eq_Inr option_res_eq_Inr)

section \<open>Dictionaries in insertion order\<close>

text \<open>
  \<open>d[k] = v\<close> of a Python dict keeps the position of an existing key and appends a new one,
  which is what \<^const>\<open>AList.update\<close> does.
\<close>

type_synonym ('k, 'v) dict = "('k \<times> 'v) list"

abbreviation dict_get :: "('k, 'v) dict \<Rightarrow> 'k \<Rightarrow> 'v option" where
  "dict_get d k \<equiv> map_of d k"

abbreviation dict_set :: "'k \<Rightarrow> 'v \<Rightarrow> ('k, 'v) dict \<Rightarrow> ('k, 'v) dict" where
  "dict_set \<equiv> AList.update"

lemma dict_get_set [simp]:
  "dict_get (dict_set k v d) k' = (if k' = k then Some v else dict_get d k')"
  by (simp add: update_conv')

lemma dict_keys_set [simp]: "fst ` set (dict_set k v d) = insert k (fst ` set d)"
  by (simp add: dom_update flip: dom_map_of_conv_image_fst) (auto simp: update_conv')

lemma dict_get_map_values [simp]:
  "dict_get (map (\<lambda>(k, v). (k, f v)) d) k = map_option f (dict_get d k)"
  by (induction d) auto

section \<open>Lists\<close>

lemma sorted_wrt_filterI: "sorted_wrt P xs \<Longrightarrow> sorted_wrt P (filter Q xs)"
  by (rule sorted_wrt_filter)

lemma sort_key_filter_mem [simp]: "x \<in> set (sort_key f (filter P xs)) \<longleftrightarrow> x \<in> set xs \<and> P x"
  by simp

lemma list_all2_mem1: "list_all2 P xs ys \<Longrightarrow> x \<in> set xs \<Longrightarrow> \<exists>y \<in> set ys. P x y"
  by (induction rule: list_all2_induct) auto

lemma list_all2_mem2: "list_all2 P xs ys \<Longrightarrow> y \<in> set ys \<Longrightarrow> \<exists>x \<in> set xs. P x y"
  by (induction rule: list_all2_induct) auto

lemma list_all2_insort_key:
  assumes "\<And>x y. R x y \<Longrightarrow> f x = g y" and "R a b" and "list_all2 R xs ys"
  shows "list_all2 R (insort_key f a xs) (insort_key g b ys)"
  using assms(3)
proof (induction rule: list_all2_induct)
  case Nil
  show ?case using assms(2) by simp
next
  case (Cons x xs y ys)
  moreover have "f x = g y" using Cons.hyps by (intro assms(1))
  moreover have "f a = g b" using assms(2) by (intro assms(1))
  ultimately show ?case using assms(2) by simp
qed

lemma list_all2_sort_key:
  assumes "\<And>x y. R x y \<Longrightarrow> f x = g y" and "list_all2 R xs ys"
  shows "list_all2 R (sort_key f xs) (sort_key g ys)"
  using assms(2)
proof (induction rule: list_all2_induct)
  case (Cons x xs y ys)
  then show ?case by (simp add: list_all2_insort_key [OF assms(1)])
qed simp

lemma find_Some_iff_mem: "find P xs = Some x \<Longrightarrow> P x \<and> x \<in> set xs"
  by (auto simp: find_Some_iff)

lemma find_append: "find P (xs @ ys) = (case find P xs of None \<Rightarrow> find P ys | Some x \<Rightarrow> Some x)"
  by (induction xs) simp_all

end
