(* ===== verification/PyStr.thy ===== *)
theory PyStr
  imports Prelude
begin

text \<open>
  The parts of Python's \<open>str\<close>, \<open>bytes\<close>, \<open>posixpath\<close> and \<open>urllib.parse\<close> that the modelled
  code uses, on strings as code points: splitting and joining, \<open>int()\<close>, \<open>isdigit()\<close>,
  \<open>bytes.hex\<close>/\<open>fromhex\<close>, decimal formatting, \<open>posixpath.normpath\<close>, percent decoding, \<open>parse_qs\<close>
  and the path and query of \<open>urlparse\<close>.  They follow CPython 3.11.
\<close>

section \<open>Splitting and joining\<close>

fun split_on :: "nat \<Rightarrow> str \<Rightarrow> str list" where
  "split_on sep [] = [[]]"
| "split_on sep (c # cs) =
     (if c = sep then [] # split_on sep cs
      else (case split_on sep cs of [] \<Rightarrow> [[c]] | w # ws \<Rightarrow> (c # w) # ws))"

fun join_with :: "nat \<Rightarrow> str list \<Rightarrow> str" where
  "join_with sep [] = []"
| "join_with sep [w] = w"
| "join_with sep (w # ws) = w @ sep # join_with sep ws"

lemma split_on_neq_Nil [simp]: "split_on sep s \<noteq> []"
  by (cases s) (auto split: list.splits)

lemma join_with_Cons: "ws \<noteq> [] \<Longrightarrow> join_with sep (w # ws) = w @ sep # join_with sep ws"
  by (cases ws) simp_all

lemma join_split [simp]: "join_with sep (split_on sep s) = s"
proof (induction s)
  case Nil
  then show ?case by simp
next
  case (Cons c cs)
  obtain w ws where sp: "split_on sep cs = w # ws"
    by (cases "split_on sep cs") auto
  with Cons show ?case
    by (cases ws) (auto simp: join_with_Cons)
qed

lemma split_on_no_sep: "w \<in> set (split_on sep s) \<Longrightarrow> sep \<notin> set w"
  by (induction s arbitrary: w) (auto split: list.splits if_splits)

lemma split_on_id: "sep \<notin> set w \<Longrightarrow> split_on sep w = [w]"
  by (induction w) auto

lemma split_on_append: "sep \<notin> set w \<Longrightarrow> split_on sep (w @ sep # s) = w # split_on sep s"
  by (induction w) auto

lemma split_join:
  assumes "ws \<noteq> []" and "\<forall>w \<in> set ws. sep \<notin> set w"
  shows "split_on sep (join_with sep ws) = ws"
  using assms
proof (induction ws)
  case Nil
  then show ?case by simp
next
  case (Cons w ws)
  then show ?case
    by (cases ws) (auto simp: split_on_id split_on_append)
qed

text \<open>\<open>sep.join(words)\<close> for a separator of any length.\<close>

fun join_text :: "str \<Rightarrow> str list \<Rightarrow> str" where
  "join_text sep [] = []"
| "join_text sep [w] = w"
| "join_text sep (w # ws) = w @ sep @ join_text sep ws"

lemma join_text_Cons: "ws \<noteq> [] \<Longrightarrow> join_text sep (w # ws) = w @ sep @ join_text sep ws"
  by (cases ws) simp_all

text \<open>\<open>s.partition(c)\<close> and \<open>s.rpartition(c)\<close>; the flag says whether the separator was found.\<close>

definition partition_on :: "nat \<Rightarrow> str \<Rightarrow> str \<times> bool \<times> str" where
  "partition_on sep s =
     (if sep \<in> set s
      then (takeWhile (\<lambda>c. c \<noteq> sep) s, True, tl (dropWhile (\<lambda>c. c \<noteq> sep) s))
      else (s, False, []))"

definition rpartition_on :: "nat \<Rightarrow> str \<Rightarrow> str \<times> bool \<times> str" where
  "rpartition_on sep s =
     (if sep \<in> set s
      then (rev (tl (dropWhile (\<lambda>c. c \<noteq> sep) (rev s))), True, rev (takeWhile (\<lambda>c. c \<noteq> sep) (rev s)))
      else ([], False, s))"

lemma dropWhile_neq_mem:
  "sep \<in> set s \<Longrightarrow> dropWhile (\<lambda>c. c \<noteq> sep) s = sep # tl (dropWhile (\<lambda>c. c \<noteq> sep) s)"
  by (induction s) auto

lemma partition_on_True: "partition_on sep s = (a, True, b) \<Longrightarrow> s = a @ sep # b \<and> sep \<notin> set a"
  by (auto simp: partition_on_def split: if_splits dest: set_takeWhileD
      simp flip: dropWhile_neq_mem)

lemma rpartition_on_True: "rpartition_on sep s = (a, True, b) \<Longrightarrow> s = a @ sep # b \<and> sep \<notin> set b"
proof -
  assume eq: "rpartition_on sep s = (a, True, b)"
  then have mem: "sep \<in> set s" and a: "rev a = tl (dropWhile (\<lambda>c. c \<noteq> sep) (rev s))"
    and b: "rev b = takeWhile (\<lambda>c. c \<noteq> sep) (rev s)"
    by (auto simp: rpartition_on_def split: if_splits)
  have "rev s = rev b @ sep # rev a"
    unfolding a b using mem by (simp flip: dropWhile_neq_mem)
  then have "s = a @ sep # b" by (simp add: rev_swap)
  moreover from b have "sep \<notin> set b"
    by (metis set_rev set_takeWhileD)
  ultimately show ?thesis by simp
qed

lemma rpartition_on_append:
  "sep \<notin> set b \<Longrightarrow> rpartition_on sep (a @ sep # b) = (a, True, b)"
  by (simp add: rpartition_on_def takeWhile_append dropWhile_append)

definition lstrip_of :: "nat set \<Rightarrow> str \<Rightarrow> str" where
  "lstrip_of cs s = dropWhile (\<lambda>c. c \<in> cs) s"

definition strip_of :: "nat set \<Rightarrow> str \<Rightarrow> str" where
  "strip_of cs s = rev (lstrip_of cs (rev (lstrip_of cs s)))"

section \<open>Decimal digits, \<open>isdigit\<close> and \<open>int\<close>\<close>

text \<open>
  First code points of the blocks of ten decimal digits (Unicode 14, the database of Python
  3.11), the other code points with a digit value, and the white space that \<open>int\<close> ignores
  outside ASCII.
\<close>

definition nd_starts :: "nat list" where
  "nd_starts = [48, 1632, 1776, 1984, 2406, 2534, 2662, 2790, 2918, 3046, 3174, 3302, 3430, 3558,
     3664, 3792, 3872, 4160, 4240, 6112, 6160, 6470, 6608, 6784, 6800, 6992, 7088, 7232, 7248,
     42528, 43216, 43264, 43472, 43504, 43600, 44016, 65296, 66720, 68912, 69734, 69872, 69942,
     70096, 70384, 70736, 70864, 71248, 71360, 71472, 71904, 72016, 72784, 73040, 73120, 92768,
     92864, 93008, 120782, 120792, 120802, 120812, 120822, 123200, 123632, 125264, 130032]"

definition other_digits :: "(nat \<times> nat) list" where
  "other_digits = [(178, 179), (185, 185), (4969, 4977), (6618, 6618), (8304, 8304), (8308, 8313),
     (8320, 8329), (9312, 9320), (9332, 9340), (9352, 9360), (9450, 9450), (9461, 9469),
     (9471, 9471), (10102, 10110), (10112, 10120), (10122, 10130), (68160, 68163), (69216, 69224),
     (69714, 69722), (127232, 127242)]"

definition decimal_value :: "nat \<Rightarrow> nat option" where
  "decimal_value c = map_option (\<lambda>s. c - s) (find (\<lambda>s. s \<le> c \<and> c < s + 10) nd_starts)"

definition isdigit_cp :: "nat \<Rightarrow> bool" where
  "isdigit_cp c \<longleftrightarrow> decimal_value c \<noteq> None \<or> list_ex (\<lambda>(a, b). a \<le> c \<and> c \<le> b) other_digits"

definition isdigit :: "str \<Rightarrow> bool" where
  "isdigit s \<longleftrightarrow> s \<noteq> [] \<and> list_all isdigit_cp s"

definition ascii_space :: "nat \<Rightarrow> bool" where
  "ascii_space c \<longleftrightarrow> c = 32 \<or> (9 \<le> c \<and> c \<le> 13)"

definition wide_space :: "nat \<Rightarrow> bool" where
  "wide_space c \<longleftrightarrow> c \<in> {133, 160, 5760, 8232, 8233, 8239, 8287, 12288} \<or> (8192 \<le> c \<and> c \<le> 8202)"

text \<open>
  \<open>int(s)\<close>: non-ASCII white space and decimal digits are mapped to ASCII first, surrounding
  white space is ignored, one sign may follow, then digits with single underscores between
  them; more than 4300 digits are refused.  \<open>None\<close> is \<open>ValueError\<close>.
\<close>

definition to_ascii_cp :: "nat \<Rightarrow> nat" where
  "to_ascii_cp c =
     (if c < 127 then c
      else if wide_space c then 32
      else (case decimal_value c of Some d \<Rightarrow> 48 + d | None \<Rightarrow> 63))"

fun int_digits :: "bool \<Rightarrow> str \<Rightarrow> nat list option" where
  "int_digits after_digit [] = (if after_digit then Some [] else None)"
| "int_digits after_digit (c # cs) =
     (if 48 \<le> c \<and> c \<le> 57 then map_option ((#) (c - 48)) (int_digits True cs)
      else if c = 95 \<and> after_digit \<and> cs \<noteq> [] then int_digits False cs
      else None)"

definition digits_value :: "nat list \<Rightarrow> nat" where
  "digits_value ds = foldl (\<lambda>a d. 10 * a + d) 0 ds"

definition max_int_digits :: nat where
  "max_int_digits = 4300"

definition unsigned_int :: "str \<Rightarrow> nat option" where
  "unsigned_int s =
     (case int_digits False s of
        None \<Rightarrow> None
      | Some ds \<Rightarrow> if length ds \<le> max_int_digits then Some (digits_value ds) else None)"

definition strip_space :: "str \<Rightarrow> str" where
  "strip_space s = rev (dropWhile ascii_space (rev (dropWhile ascii_space s)))"

definition py_int :: "str \<Rightarrow> int option" where
  "py_int s =
     (case strip_space (map to_ascii_cp s) of
        [] \<Rightarrow> None
      | c # cs \<Rightarrow>
          if c = 45 then map_option (\<lambda>n. - int n) (unsigned_int cs)
          else if c = 43 then map_option int (unsigned_int cs)
          else map_option int (unsigned_int (c # cs)))"

text \<open>Decimal output, plain and zero-padded to a fixed width.\<close>

fun pad_nat :: "nat \<Rightarrow> nat \<Rightarrow> str" where
  "pad_nat 0 n = []"
| "pad_nat (Suc k) n = pad_nat k (n div 10) @ [48 + n mod 10]"

lemma length_pad_nat [simp]: "length (pad_nat k n) = k"
  by (induction k arbitrary: n) simp_all

fun nat_str :: "nat \<Rightarrow> str" where
  "nat_str n = (if n < 10 then [48 + n] else nat_str (n div 10) @ [48 + n mod 10])"

declare nat_str.simps [simp del]

definition int_str :: "int \<Rightarrow> str" where
  "int_str i = (if i < 0 then 45 # nat_str (nat (- i)) else nat_str (nat i))"

lemma nat_str_digits: "c \<in> set (nat_str n) \<Longrightarrow> 48 \<le> c \<and> c \<le> 57"
proof (induction n rule: nat_str.induct)
  case (1 n)
  then show ?case
    by (subst (asm) nat_str.simps) (auto split: if_splits)
qed

lemma nat_str_neq_Nil [simp]: "nat_str n \<noteq> []"
  by (subst nat_str.simps) simp

text \<open>What \<open>isdigit\<close> and \<open>int\<close> do on ASCII digits, and on digits without a decimal value.\<close>

lemma isdigit_cp_ascii: "c < 178 \<Longrightarrow> isdigit_cp c \<longleftrightarrow> 48 \<le> c \<and> c \<le> 57"
  by (auto simp: isdigit_cp_def decimal_value_def nd_starts_def other_digits_def)

lemma isdigit_nat_str [simp]: "isdigit (nat_str n)"
proof -
  have "isdigit_cp c" if "c \<in> set (nat_str n)" for c
    using nat_str_digits [OF that] isdigit_cp_ascii [of c] by simp
  then show ?thesis by (simp add: isdigit_def list_all_iff)
qed

lemma int_digits_ascii:
  "\<forall>c \<in> set s. 48 \<le> c \<and> c \<le> 57 \<Longrightarrow>
     int_digits b s = (if s = [] \<and> \<not> b then None else Some (map (\<lambda>c. c - 48) s))"
  by (induction b s rule: int_digits.induct) auto

lemma int_digits_other: "c \<in> set s \<Longrightarrow> \<not> (48 \<le> c \<and> c \<le> 57) \<Longrightarrow> c \<noteq> 95 \<Longrightarrow> int_digits b s = None"
  by (induction b s rule: int_digits.induct) auto

lemma strip_space_id: "\<forall>c \<in> set s. \<not> ascii_space c \<Longrightarrow> strip_space s = s"
proof -
  assume *: "\<forall>c \<in> set s. \<not> ascii_space c"
  have drop: "dropWhile ascii_space t = t" if "\<forall>c \<in> set t. \<not> ascii_space c" for t
    using that by (cases t) auto
  from * show ?thesis by (simp add: strip_space_def drop)
qed

lemma py_int_ascii:
  assumes "\<forall>c \<in> set s. 48 \<le> c \<and> c \<le> 57" and "s \<noteq> []" and "length s \<le> max_int_digits"
  shows "py_int s = Some (int (digits_value (map (\<lambda>c. c - 48) s)))"
proof -
  have "map to_ascii_cp s = s"
    using assms(1) by (induction s) (auto simp: to_ascii_cp_def)
  moreover have "strip_space s = s"
    using assms(1) by (intro strip_space_id) (auto simp: ascii_space_def)
  moreover obtain c cs where "s = c # cs" using assms(2) by (cases s) auto
  ultimately show ?thesis
    using assms by (simp add: py_int_def unsigned_int_def int_digits_ascii)
qed

lemma digits_value_nat_str: "digits_value (map (\<lambda>c. c - 48) (nat_str n)) = n"
proof (induction n rule: nat_str.induct)
  case (1 n)
  then show ?case
    by (subst nat_str.simps) (auto simp: digits_value_def)
qed

lemma length_nat_str: "n < 10 ^ Suc k \<Longrightarrow> length (nat_str n) \<le> Suc k"
proof (induction k arbitrary: n)
  case 0
  then show ?case by (subst nat_str.simps) simp
next
  case (Suc k)
  have "length (nat_str (n div 10)) \<le> Suc k"
    by (rule Suc.IH) (use Suc.prems in \<open>simp add: less_mult_imp_div_less\<close>)
  then show ?case by (subst nat_str.simps) simp
qed

lemma py_int_nat_str: "length (nat_str n) \<le> max_int_digits \<Longrightarrow> py_int (nat_str n) = Some (int n)"
  using py_int_ascii [of "nat_str n"] nat_str_digits digits_value_nat_str by simp

lemma py_int_valueless:
  assumes "isdigit s" and "c \<in> set s" and "decimal_value c = None" and "\<not> wide_space c"
  shows "py_int s = None"
proof -
  have ascii: "\<not> ascii_space (to_ascii_cp d) \<and> to_ascii_cp d \<noteq> 45 \<and> to_ascii_cp d \<noteq> 43"
    if "d \<in> set s" for d
  proof -
    from that assms(1) have d: "isdigit_cp d" by (simp add: isdigit_def list_all_iff)
    have "\<not> wide_space d"
    proof
      assume "wide_space d"
      with d show False
        by (auto simp: wide_space_def isdigit_cp_def decimal_value_def nd_starts_def other_digits_def)
    qed
    with d show ?thesis
      using isdigit_cp_ascii [of d]
      by (auto simp: to_ascii_cp_def ascii_space_def decimal_value_def find_Some_iff split: option.splits)
  qed
  have "c \<ge> 127"
  proof (rule ccontr)
    assume "\<not> c \<ge> 127"
    with assms(1,2) isdigit_cp_ascii [of c] have "48 \<le> c \<and> c \<le> 57"
      by (simp add: isdigit_def list_all_iff)
    with assms(3) show False by (auto simp: decimal_value_def nd_starts_def)
  qed
  then have c: "to_ascii_cp c = 63" using assms(3,4) by (simp add: to_ascii_cp_def)
  let ?t = "map to_ascii_cp s"
  have mem: "63 \<in> set ?t" using c assms(2) by force
  have "strip_space ?t = ?t" using ascii by (intro strip_space_id) auto
  moreover have "int_digits False ?t = None" using mem by (rule int_digits_other) simp_all
  moreover obtain d ds where "?t = d # ds" using mem by (cases ?t) auto
  moreover have "d \<noteq> 45" "d \<noteq> 43" using ascii calculation(3) by auto
  ultimately show ?thesis by (simp add: py_int_def unsigned_int_def)
qed

section \<open>Hexadecimal\<close>

definition hex_digit :: "nat \<Rightarrow> nat" where
  "hex_digit n = (if n < 10 then 48 + n else 87 + n)"

definition hex_value :: "nat \<Rightarrow> nat option" where
  "hex_value c =
     (if 48 \<le> c \<and> c \<le> 57 then Some (c - 48)
      else if 97 \<le> c \<and> c \<le> 102 then Some (c - 87)
      else if 65 \<le> c \<and> c \<le> 70 then Some (c - 55)
      else None)"

definition is_hex :: "nat \<Rightarrow> bool" where
  "is_hex c \<longleftrightarrow> hex_value c \<noteq> None"

text \<open>\<open>bytes.hex()\<close>: two lower-case digits per byte.\<close>

definition hex_byte :: "8 word \<Rightarrow> str" where
  "hex_byte b = [hex_digit (unat b div 16), hex_digit (unat b mod 16)]"

definition hex :: "bytes \<Rightarrow> str" where
  "hex bs = concat (map hex_byte bs)"

text \<open>\<open>bytes.fromhex\<close>: ASCII white space is skipped between bytes, either case is accepted.\<close>

fun fromhex :: "str \<Rightarrow> bytes option" where
  "fromhex [] = Some []"
| "fromhex (c # cs) =
     (if ascii_space c then fromhex cs
      else (case cs of
              [] \<Rightarrow> None
            | d # ds \<Rightarrow>
                (case (hex_value c, hex_value d) of
                   (Some h, Some l) \<Rightarrow>
                     map_option ((#) (word_of_nat (16 * h + l))) (fromhex ds)
                 | _ \<Rightarrow> None)))"

lemma hex_value_digit [simp]: "n < 16 \<Longrightarrow> hex_value (hex_digit n) = Some n"
  by (auto simp: hex_value_def hex_digit_def)

lemma not_space_hex_digit [simp]: "n < 16 \<Longrightarrow> \<not> ascii_space (hex_digit n)"
  by (auto simp: ascii_space_def hex_digit_def)

lemma unat_byte_less: "unat (b :: 8 word) < 256"
  using unsigned_less [of b, where ?'a = nat] by simp

lemma unat_byte_div_16: "unat (b :: 8 word) div 16 < 16"
  using unat_byte_less [of b] by simp

lemma hex_Cons: "hex (b # bs) =
    hex_digit (unat b div 16) # hex_digit (unat b mod 16) # hex bs"
  by (simp add: hex_def hex_byte_def)

lemma hex_Nil [simp]: "hex [] = []"
  by (simp add: hex_def)

lemma length_hex [simp]: "length (hex bs) = 2 * length bs"
  by (induction bs) (simp_all add: hex_Cons)

lemma fromhex_hex [simp]: "fromhex (hex bs) = Some bs"
proof (induction bs)
  case Nil
  then show ?case by simp
next
  case (Cons b bs)
  have "(word_of_nat (16 * (unat b div 16) + unat b mod 16) :: 8 word) = b"
    by (simp only: mult_div_mod_eq of_nat_unat ucast_id)
  with Cons show ?case
    by (simp add: hex_Cons unat_byte_div_16)
qed

lemma hex_eq_iff [simp]: "hex a = hex b \<longleftrightarrow> a = b"
  by (metis fromhex_hex option.inject)

lemma hex_digit_range:
  "n < 16 \<Longrightarrow> (48 \<le> hex_digit n \<and> hex_digit n \<le> 57) \<or> (97 \<le> hex_digit n \<and> hex_digit n \<le> 102)"
  by (auto simp: hex_digit_def)

text \<open>Lower-case hex digits only, so a string with an upper-case one is no \<open>hex\<close>.\<close>

lemma hex_digits_lower: "c \<in> set (hex bs) \<Longrightarrow> (48 \<le> c \<and> c \<le> 57) \<or> (97 \<le> c \<and> c \<le> 102)"
proof (induction bs)
  case Nil
  then show ?case by simp
next
  case (Cons b bs)
  then consider "c = hex_digit (unat b div 16)" | "c = hex_digit (unat b mod 16)" | "c \<in> set (hex bs)"
    by (auto simp: hex_Cons)
  then show ?case
    using Cons.IH hex_digit_range [OF unat_byte_div_16 [of b]] hex_digit_range [of "unat b mod 16"]
    by cases simp_all
qed

end
