(* ===== verification/PyUrl.thy ===== *)
theory PyUrl
  imports PyStr
begin

text \<open>
  \<open>posixpath.normpath\<close> and the parts of \<open>urllib.parse\<close> that routing uses: the path and query
  of \<open>urlparse\<close> on an origin-form request target, percent decoding with replacement of
  malformed UTF-8, and \<open>parse_qs\<close>.
\<close>

section \<open>\<open>posixpath.normpath\<close>\<close>

definition dot :: str where "dot = [46]"
definition dotdot :: str where "dotdot = [46, 46]"
abbreviation slash :: nat where "slash \<equiv> 47"

lemma dot_simps [simp]: "dot \<noteq> []" "dotdot \<noteq> []" "dot \<noteq> dotdot" "dotdot \<noteq> dot"
  by (simp_all add: dot_def dotdot_def)

text \<open>One round of the loop; \<open>acc\<close> is \<open>new_comps\<close> reversed, its head the last component.\<close>

definition norm_comp :: "bool \<Rightarrow> str list \<Rightarrow> str \<Rightarrow> str list" where
  "norm_comp rooted acc seg =
     (if seg = [] \<or> seg = dot then acc
      else if seg \<noteq> dotdot \<or> (\<not> rooted \<and> acc = []) \<or> (acc \<noteq> [] \<and> hd acc = dotdot) then seg # acc
      else if acc \<noteq> [] then tl acc
      else acc)"

definition norm_comps :: "bool \<Rightarrow> str list \<Rightarrow> str list" where
  "norm_comps rooted comps = rev (foldl (norm_comp rooted) [] comps)"

definition leading_slashes :: "str \<Rightarrow> nat" where
  "leading_slashes p =
     (case p of
        a # b # c # _ \<Rightarrow> if a \<noteq> slash then 0 else if b = slash \<and> c \<noteq> slash then 2 else 1
      | [a, b] \<Rightarrow> if a \<noteq> slash then 0 else if b = slash then 2 else 1
      | [a] \<Rightarrow> if a = slash then 1 else 0
      | [] \<Rightarrow> 0)"

definition normpath :: "str \<Rightarrow> str" where
  "normpath p =
     (if p = [] then dot
      else let n = leading_slashes p;
               q = replicate n slash @ join_with slash (norm_comps (n > 0) (split_on slash p))
           in if q = [] then dot else q)"

text \<open>
  The components of a relative path after normalisation: parent steps first, then plain
  components, none empty and none a dot.
\<close>

definition plain_comp :: "str \<Rightarrow> bool" where
  "plain_comp c \<longleftrightarrow> c \<noteq> [] \<and> c \<noteq> dot \<and> slash \<notin> set c"

definition norm_acc :: "str list \<Rightarrow> bool" where
  "norm_acc acc \<longleftrightarrow> (\<exists>plain n. acc = plain @ replicate n dotdot \<and>
      (\<forall>c \<in> set plain. plain_comp c \<and> c \<noteq> dotdot))"

lemma norm_acc_Nil [simp]: "norm_acc []"
  by (simp add: norm_acc_def)

lemma norm_acc_step:
  assumes "norm_acc acc" and "slash \<notin> set seg"
  shows "norm_acc (norm_comp rooted acc seg)"
proof -
  obtain plain n where acc: "acc = plain @ replicate n dotdot"
    and plain: "\<forall>c \<in> set plain. plain_comp c \<and> c \<noteq> dotdot"
    using assms(1) by (auto simp: norm_acc_def)
  consider "seg = [] \<or> seg = dot" | "plain_comp seg" "seg \<noteq> dotdot" | "seg = dotdot"
    using assms(2) by (auto simp: plain_comp_def)
  then show ?thesis
  proof cases
    case 1
    with assms(1) show ?thesis by (auto simp: norm_comp_def)
  next
    case 2
    then have "norm_comp rooted acc seg = (seg # plain) @ replicate n dotdot"
      by (auto simp: norm_comp_def acc plain_comp_def)
    moreover have "\<forall>c \<in> set (seg # plain). plain_comp c \<and> c \<noteq> dotdot"
      using plain 2 by simp
    ultimately show ?thesis unfolding norm_acc_def by blast
  next
    case 3
    show ?thesis
    proof (cases plain)
      case Nil
      have "\<exists>m. norm_comp rooted acc seg = replicate m dotdot"
      proof (cases "norm_comp rooted acc seg = acc")
        case True
        then show ?thesis using acc Nil by auto
      next
        case False
        then have "norm_comp rooted acc seg = replicate (Suc n) dotdot \<or>
            norm_comp rooted acc seg = replicate (n - 1) dotdot"
          using 3 by (cases n) (auto simp: norm_comp_def acc Nil split: if_splits)
        then show ?thesis by blast
      qed
      then show ?thesis
        by (auto simp: norm_acc_def intro: exI [of _ "[]"])
    next
      case (Cons p ps)
      then have "norm_comp rooted acc seg = ps @ replicate n dotdot"
        using plain 3 by (simp add: norm_comp_def acc)
      then show ?thesis
        using plain Cons unfolding norm_acc_def by auto
    qed
  qed
qed

lemma norm_acc_foldl:
  assumes "norm_acc acc" and "\<forall>c \<in> set comps. slash \<notin> set c"
  shows "norm_acc (foldl (norm_comp rooted) acc comps)"
  using assms by (induction comps arbitrary: acc) (simp_all add: norm_acc_step)

lemma norm_comps_split:
  "\<exists>n plain. norm_comps rooted (split_on slash p) = replicate n dotdot @ plain \<and>
     (\<forall>c \<in> set plain. plain_comp c \<and> c \<noteq> dotdot)"
proof -
  have "norm_acc (foldl (norm_comp rooted) [] (split_on slash p))"
    by (rule norm_acc_foldl) (simp_all add: split_on_no_sep)
  then obtain plain n where
    "foldl (norm_comp rooted) [] (split_on slash p) = plain @ replicate n dotdot"
    and "\<forall>c \<in> set plain. plain_comp c \<and> c \<noteq> dotdot"
    by (auto simp: norm_acc_def)
  then have "norm_comps rooted (split_on slash p) = replicate n dotdot @ rev plain \<and>
      (\<forall>c \<in> set (rev plain). plain_comp c \<and> c \<noteq> dotdot)"
    by (simp add: norm_comps_def)
  then show ?thesis by blast
qed

lemma norm_comps_no_slash:
  "c \<in> set (norm_comps rooted (split_on slash p)) \<Longrightarrow> slash \<notin> set c \<and> c \<noteq> []"
proof -
  assume c: "c \<in> set (norm_comps rooted (split_on slash p))"
  obtain n plain where "norm_comps rooted (split_on slash p) = replicate n dotdot @ plain"
    and "\<forall>c \<in> set plain. plain_comp c \<and> c \<noteq> dotdot"
    using norm_comps_split by blast
  with c have "c = dotdot \<or> plain_comp c" by fastforce
  then show ?thesis
    by (auto simp: plain_comp_def dotdot_def)
qed

text \<open>A relative path normalises to a dot or to the joined components.\<close>

lemma normpath_relative:
  assumes "p \<noteq> []" and "hd p \<noteq> slash"
  shows "normpath p =
    (let cs = norm_comps False (split_on slash p) in if cs = [] then dot else join_with slash cs)"
proof -
  have "leading_slashes p = 0"
    using assms by (auto simp: leading_slashes_def split: list.splits)
  moreover have "join_with slash cs = [] \<longleftrightarrow> cs = []"
    if "\<forall>c \<in> set cs. c \<noteq> []" for cs
    using that by (cases cs; cases "tl cs") auto
  ultimately show ?thesis
    using assms(1) norm_comps_no_slash by (auto simp: normpath_def Let_def)
qed

lemma split_normpath_relative:
  assumes "p \<noteq> []" and "hd p \<noteq> slash" and "normpath p \<noteq> dot"
  shows "split_on slash (normpath p) = norm_comps False (split_on slash p)"
  using assms norm_comps_no_slash [of _ False p]
  by (auto simp: normpath_relative Let_def split_join split: if_splits)

section \<open>Percent decoding\<close>

text \<open>
  UTF-8 decoding with \<open>errors='replace'\<close>: each maximal malformed prefix becomes U+FFFD.
\<close>

definition cont :: "nat \<Rightarrow> bool" where
  "cont b \<longleftrightarrow> 128 \<le> b \<and> b < 192"

definition second_ok :: "nat \<Rightarrow> nat \<Rightarrow> bool" where
  "second_ok a b \<longleftrightarrow>
     (if a = 224 then 160 \<le> b \<and> b < 192
      else if a = 237 then 128 \<le> b \<and> b < 160
      else if a = 240 then 144 \<le> b \<and> b < 192
      else if a = 244 then 128 \<le> b \<and> b < 144
      else cont b)"

definition well_formed_tail :: "nat \<Rightarrow> nat list \<Rightarrow> nat" where
  \<comment> \<open>how many bytes after the lead byte continue the sequence, at most the number it announces\<close>
  "well_formed_tail a bs =
     (let want = (if a < 224 then 1 else if a < 240 then 2 else 3 :: nat)
      in case bs of
           [] \<Rightarrow> 0
         | b # cs \<Rightarrow>
             if \<not> second_ok a b then 0
             else Suc (length (takeWhile cont (take (want - 1) cs))))"

text \<open>
  One step: the code point, \<open>None\<close> where the bytes are malformed, and the number of bytes
  consumed (at least one).
\<close>

definition utf8_step :: "nat \<Rightarrow> nat list \<Rightarrow> nat option \<times> nat" where
  "utf8_step a bs =
     (let k = well_formed_tail a bs
      in if a < 128 then (Some a, 1)
         else if 194 \<le> a \<and> a < 224 then
           (if k = 1 then (Some ((a - 192) * 64 + (bs ! 0 - 128)), 2) else (None, 1))
         else if 224 \<le> a \<and> a < 240 then
           (if k = 2 then (Some ((a - 224) * 4096 + (bs ! 0 - 128) * 64 + (bs ! 1 - 128)), 3)
            else (None, Suc k))
         else if 240 \<le> a \<and> a < 245 then
           (if k = 3
            then (Some ((a - 240) * 262144 + (bs ! 0 - 128) * 4096 + (bs ! 1 - 128) * 64
                    + (bs ! 2 - 128)), 4)
            else (None, Suc k))
         else (None, 1))"

text \<open>The decoded sequence, \<open>None\<close> at each malformed place.\<close>

function utf8_points :: "nat list \<Rightarrow> nat option list" where
  "utf8_points [] = []"
| "utf8_points (a # bs) =
     (case utf8_step a bs of (p, n) \<Rightarrow> p # utf8_points (drop (n - 1) bs))"
  by pat_completeness auto
termination
  by (relation "measure length") auto

text \<open>\<open>decode('utf-8', 'replace')\<close> and the strict \<open>decode('utf-8')\<close>.\<close>

definition utf8_replace :: "nat list \<Rightarrow> str" where
  "utf8_replace bs = map (\<lambda>p. case p of None \<Rightarrow> 65533 | Some c \<Rightarrow> c) (utf8_points bs)"

definition utf8_strict :: "nat list \<Rightarrow> str option" where
  "utf8_strict bs =
     (let ps = utf8_points bs in if None \<in> set ps then None else Some (map the ps))"

lemma utf8_points_ascii: "\<forall>b \<in> set bs. b < 128 \<Longrightarrow> utf8_points bs = map Some bs"
  by (induction bs) (simp_all add: utf8_step_def Let_def)

lemma utf8_strict_ascii: "\<forall>b \<in> set bs. b < 128 \<Longrightarrow> utf8_strict bs = Some bs"
  by (simp add: utf8_strict_def utf8_points_ascii Let_def image_iff comp_def)

text \<open>\<open>unquote_to_bytes\<close> on an ASCII run: a percent sign not followed by two hex digits stays.\<close>

fun percent_bytes :: "str \<Rightarrow> nat list" where
  "percent_bytes (p # h # l # cs) =
     (if p = 37
      then (case (hex_value h, hex_value l) of
              (Some a, Some b) \<Rightarrow> (16 * a + b) # percent_bytes cs
            | _ \<Rightarrow> p # percent_bytes (h # l # cs))
      else p # percent_bytes (h # l # cs))"
| "percent_bytes (p # cs) = p # percent_bytes cs"
| "percent_bytes [] = []"

text \<open>The runs of ASCII characters are decoded, everything else is kept.\<close>

function unquote_runs :: "str \<Rightarrow> str" where
  "unquote_runs s =
     (case s of
        [] \<Rightarrow> []
      | c # cs \<Rightarrow>
          if c < 128
          then utf8_replace (percent_bytes (takeWhile (\<lambda>c. c < 128) s))
                 @ unquote_runs (dropWhile (\<lambda>c. c < 128) s)
          else c # unquote_runs cs)"
  by pat_completeness auto
termination
proof (relation "measure length")
  fix s :: str and c cs
  assume "s = c # cs" and "c < 128"
  then have "length (dropWhile (\<lambda>c. c < 128) s) \<le> length cs"
    by (simp add: length_dropWhile_le)
  with \<open>s = c # cs\<close> show "(dropWhile (\<lambda>c. c < 128) s, s) \<in> measure length"
    by simp
qed simp_all

declare unquote_runs.simps [simp del]

definition unquote :: "str \<Rightarrow> str" where
  "unquote s = (if 37 \<in> set s then unquote_runs s else s)"

lemma unquote_no_percent [simp]: "37 \<notin> set s \<Longrightarrow> unquote s = s"
  by (simp add: unquote_def)

section \<open>\<open>parse_qs\<close> and \<open>urlparse\<close>\<close>

text \<open>Fields without a value are dropped; the plus sign is a space.\<close>

definition unquote_plus :: "str \<Rightarrow> str" where
  "unquote_plus s = unquote (map (\<lambda>c. if c = 43 then 32 else c) s)"

definition parse_qsl :: "str \<Rightarrow> (str \<times> str) list" where
  "parse_qsl qs =
     concat (map (\<lambda>nv. case partition_on 61 nv of
                         (name, _, val) \<Rightarrow>
                           if nv \<noteq> [] \<and> val \<noteq> [] then [(unquote_plus name, unquote_plus val)] else [])
                 (if qs = [] then [] else split_on 38 qs))"

text \<open>\<open>params.get(name)\<close> of \<open>parse_qs\<close>: the list of the values of a name, if any.\<close>

definition qs_values :: "(str \<times> str) list \<Rightarrow> str \<Rightarrow> str list" where
  "qs_values ps name = map snd (filter (\<lambda>p. fst p = name) ps)"

text \<open>
  Path and query of \<open>urlparse\<close> for an origin-form target (the handler's \<open>self.path\<close> starts with
  exactly one slash): the fragment, the query and the parameters of the last segment are cut.
\<close>

definition split_params :: "str \<Rightarrow> str" where
  "split_params p =
     (case rpartition_on slash p of
        (before, True, last_seg) \<Rightarrow> before @ slash # takeWhile (\<lambda>c. c \<noteq> 59) last_seg
      | _ \<Rightarrow> takeWhile (\<lambda>c. c \<noteq> 59) p)"

definition urlparse :: "str \<Rightarrow> str \<times> str" where
  "urlparse u =
     (case partition_on 35 (filter (\<lambda>c. c \<notin> {9, 10, 13}) u) of
        (no_frag, _, _) \<Rightarrow>
          (case partition_on 63 no_frag of
             (path, _, query) \<Rightarrow> (split_params path, query)))"

end
