(* ===== verification/Values.thy ===== *)
theory Values
  imports PyUrl "HOL-Library.Product_Lexorder" "HOL-Library.List_Lexorder"
begin

text \<open>
  Values that cross the query layer \<open>mfviz/dbq.py\<close>: database values, timestamps and their
  ISO rendering, JSON values, the exceptions of the backend, the state codes and their filter,
  and the decoding of rows (\<open>_decode_value\<close>, \<open>_decode_row\<close>, \<open>_decode_json_field\<close>, \<open>_hex_bytes\<close>).
\<close>

section \<open>Timestamps\<close>

text \<open>A naive \<open>datetime\<close>, as PyMySQL returns a \<open>datetime(6)\<close> column; ordered chronologically.\<close>

datatype datetime = DateTime
  (dt_year: nat) (dt_month: nat) (dt_day: nat)
  (dt_hour: nat) (dt_minute: nat) (dt_second: nat) (dt_micro: nat)

fun dt_key :: "datetime \<Rightarrow> nat \<times> nat \<times> nat \<times> nat \<times> nat \<times> nat \<times> nat" where
  "dt_key (DateTime y mo d h mi s us) = (y, mo, d, h, mi, s, us)"

lemma dt_key_inject [simp]: "dt_key a = dt_key b \<longleftrightarrow> a = b"
  by (cases a; cases b) simp

instantiation datetime :: linorder
begin

definition less_eq_datetime :: "datetime \<Rightarrow> datetime \<Rightarrow> bool" where
  "a \<le> b \<longleftrightarrow> dt_key a \<le> dt_key b"

definition less_datetime :: "datetime \<Rightarrow> datetime \<Rightarrow> bool" where
  "a < b \<longleftrightarrow> dt_key a < dt_key b"

instance
  by standard (auto simp: less_eq_datetime_def less_datetime_def order.strict_iff_order
      simp del: less_prod_simp less_eq_prod_simp)

end

definition valid_datetime :: "datetime \<Rightarrow> bool" where
  "valid_datetime t \<longleftrightarrow> 1 \<le> dt_year t \<and> dt_year t \<le> 9999 \<and> 1 \<le> dt_month t \<and> dt_month t \<le> 12 \<and>
     1 \<le> dt_day t \<and> dt_day t \<le> 31 \<and> dt_hour t < 24 \<and> dt_minute t < 60 \<and> dt_second t < 60 \<and>
     dt_micro t < 1000000"

text \<open>\<open>v.isoformat(timespec="microseconds") + "Z"\<close>.\<close>

definition iso_z :: "datetime \<Rightarrow> str" where
  "iso_z t =
     pad_nat 4 (dt_year t) @ [45] @ pad_nat 2 (dt_month t) @ [45] @ pad_nat 2 (dt_day t) @ [84]
     @ pad_nat 2 (dt_hour t) @ [58] @ pad_nat 2 (dt_minute t) @ [58] @ pad_nat 2 (dt_second t)
     @ [46] @ pad_nat 6 (dt_micro t) @ [90]"

lemma length_iso_z [simp]: "length (iso_z t) = 27"
  by (simp add: iso_z_def)

text \<open>Fixed-width decimal fields compare as their numbers, and fields one after the other.\<close>

lemma list_less_append:
  "length xs = length ys \<Longrightarrow> xs @ us < ys @ vs \<longleftrightarrow> xs < ys \<or> xs = ys \<and> us < vs"
  for xs ys us vs :: "nat list"
  by (induction xs ys rule: list_induct2) auto

lemma nat_div_mod_less:
  "m < n \<longleftrightarrow> m div 10 < n div 10 \<or> m div 10 = n div 10 \<and> m mod 10 < n mod (10 :: nat)"
proof -
  have "10 * a + b < 10 * c + d \<longleftrightarrow> a < c \<or> a = c \<and> b < d" if "b < 10" "d < 10" for a b c d :: nat
    using that by auto
  from this [of "m mod 10" "n mod 10" "m div 10" "n div 10"] show ?thesis
    by simp
qed

lemma pad_nat_less: "m < 10 ^ k \<Longrightarrow> n < 10 ^ k \<Longrightarrow> pad_nat k m < pad_nat k n \<longleftrightarrow> m < n"
  and pad_nat_eq: "m < 10 ^ k \<Longrightarrow> n < 10 ^ k \<Longrightarrow> pad_nat k m = pad_nat k n \<longleftrightarrow> m = n"
proof (induction k arbitrary: m n)
  case 0
  case 1
  then show ?case by simp
next
  case 0
  case 2
  then show ?case by simp
next
  case (Suc k)
  case 1
  then have "m div 10 < 10 ^ k" and "n div 10 < 10 ^ k" by auto
  with Suc.IH show ?case
    by (subst nat_div_mod_less) (simp add: list_less_append)
next
  case (Suc k)
  case 2
  then have "m div 10 < 10 ^ k" and "n div 10 < 10 ^ k" by auto
  with Suc.IH show ?case
    by auto (metis div_mult_mod_eq)
qed

lemma pair_less: "(a, b) < (c, d) \<longleftrightarrow> a < c \<or> a = c \<and> b < d"
  for a c :: nat
  by auto

lemma iso_z_less:
  assumes "valid_datetime a" and "valid_datetime b"
  shows "iso_z a < iso_z b \<longleftrightarrow> a < b"
  using assms
  by (cases a; cases b)
     (simp add: iso_z_def valid_datetime_def list_less_append pad_nat_less pad_nat_eq
        less_datetime_def pair_less del: less_prod_simp)

section \<open>JSON and database values\<close>

datatype json =
    JNull
  | JBool bool
  | JInt int
  | JFloat str
  | JStr str
  | JArr "json list"
  | JObj "(str \<times> json) list"

datatype dbval =
    DNull
  | DInt int
  | DText str
  | DBytes bytes
  | DTime datetime

text \<open>A row of PyMySQL's \<open>DictCursor\<close> and its decoded form, by column name.\<close>

type_synonym row = "(string, dbval) dict"
type_synonym jrow = "(string, json) dict"

section \<open>Exceptions\<close>

text \<open>
  User-facing errors carry the values their message interpolates; \<open>Mfviz\<close> is
  \<open>dbq.MfvizError\<close>, \<open>Db_Not_Utc\<close> is \<open>dbq.DbNotUtcError\<close> with the offset in seconds, the
  others are Python's own exceptions and the driver's.
\<close>

datatype mfviz_error =
    Unknown_State_Code str
  | Unknown_State_Name str
  | Invalid_Hex string str
  | Wrong_Hex_Length string nat str
  | No_PyMySQL
  | Env_Var_Not_Set str
  | Listen_Shape str
  | Listen_Port_Not_Integer str
  | Listen_Port_Range str
  | No_Static_UI
  | Refused_Non_Loopback str
  | No_Index_Html str
  | Startup_Db_Not_Utc int

datatype exn =
    Mfviz mfviz_error
  | Db_Not_Utc int
  | Value_Error str
  | Key_Error str
  | Json_Decode_Error str
  | Unicode_Decode_Error
  | Type_Error
  | Driver_Error str

type_synonym 'a result = "exn + 'a"

section \<open>State codes\<close>

definition STATE_NAMES :: "(int, string) dict" where
  "STATE_NAMES = [(1, ''forward''), (2, ''reversing''), (3, ''blocked_resolution''),
     (4, ''completed''), (5, ''reversed''), (6, ''resolved_exception''), (7, ''failed'')]"

definition STATE_CODES :: "(string, int) dict" where
  "STATE_CODES = map (\<lambda>(code, name). (name, code)) STATE_NAMES"

text \<open>
  \<open>str.lower\<close> as far as it can produce ASCII: upper-case ASCII letters, the Kelvin sign and the
  dotted capital I; other letters never compare equal to a state name and are left alone.
\<close>

definition lower :: "str \<Rightarrow> str" where
  "lower s = concat (map (\<lambda>c. if 65 \<le> c \<and> c \<le> 90 then [c + 32]
                             else if c = 8490 then [107]
                             else if c = 304 then [105, 775]
                             else [c]) s)"

definition state_code_of_name :: "str \<Rightarrow> int option" where
  "state_code_of_name name =
     map_option snd (find (\<lambda>(n, _). lit n = name) STATE_CODES)"

definition resolve_state :: "str option \<Rightarrow> int option result" where
  "resolve_state v =
     (case v of
        None \<Rightarrow> Inr None
      | Some value \<Rightarrow>
          if isdigit value then
            (case py_int value of
               None \<Rightarrow> Inl (Value_Error value)
             | Some code \<Rightarrow>
                 if dict_get STATE_NAMES code = None then Inl (Mfviz (Unknown_State_Code value))
                 else Inr (Some code))
          else
            (case state_code_of_name (lower value) of
               None \<Rightarrow> Inl (Mfviz (Unknown_State_Name value))
             | Some code \<Rightarrow> Inr (Some code)))"

section \<open>Decoding\<close>

definition hex_bytes :: "str \<Rightarrow> string \<Rightarrow> bytes result" where
  "hex_bytes value_hex field =
     (case fromhex value_hex of
        None \<Rightarrow> Inl (Mfviz (Invalid_Hex field value_hex))
      | Some b \<Rightarrow>
          if length b \<noteq> 16 then Inl (Mfviz (Wrong_Hex_Length field (length b) value_hex))
          else Inr b)"

definition decode_value :: "dbval \<Rightarrow> json" where
  "decode_value v =
     (case v of
        DNull \<Rightarrow> JNull
      | DBytes b \<Rightarrow> JStr (hex b)
      | DTime t \<Rightarrow> JStr (iso_z t)
      | DInt i \<Rightarrow> JInt i
      | DText s \<Rightarrow> JStr s)"

definition decode_cols :: "row \<Rightarrow> jrow" where
  "decode_cols r = map (\<lambda>(k, v). (k, decode_value v)) r"

definition decode_row :: "row option \<Rightarrow> jrow option" where
  "decode_row r = (case r of None \<Rightarrow> None | Some cols \<Rightarrow> Some (decode_cols cols))"

text \<open>
  \<open>_decode_json_field\<close>; \<open>loads\<close> stands for \<open>json.loads\<close> on the text of a document column.
\<close>

definition decode_json_field :: "(str \<Rightarrow> json result) \<Rightarrow> row option \<Rightarrow> string \<Rightarrow> json result" where
  "decode_json_field loads r key =
     (case r of
        None \<Rightarrow> Inr JNull
      | Some cols \<Rightarrow>
          (case dict_get cols key of
             None \<Rightarrow> Inr JNull
           | Some DNull \<Rightarrow> Inr JNull
           | Some (DText raw) \<Rightarrow> loads raw
           | Some _ \<Rightarrow> Inl Type_Error))"

lemma decode_value_simps [simp]:
  "decode_value DNull = JNull"
  "decode_value (DBytes b) = JStr (hex b)"
  "decode_value (DTime t) = JStr (iso_z t)"
  "decode_value (DInt i) = JInt i"
  "decode_value (DText s) = JStr s"
  by (simp_all add: decode_value_def)

lemma decode_row_simps [simp]:
  "decode_row None = None"
  "decode_row (Some cols) = Some (decode_cols cols)"
  by (simp_all add: decode_row_def)

lemma dict_get_decode_cols [simp]:
  "dict_get (decode_cols r) k = map_option decode_value (dict_get r k)"
  by (simp add: decode_cols_def)

lemma hex_bytes_hex: "length b = 16 \<Longrightarrow> hex_bytes (hex b) field = Inr b"
  by (simp add: hex_bytes_def)

lemma hex_bytes_eq_Inr [res_simps]:
  "hex_bytes h field = Inr b \<longleftrightarrow> fromhex h = Some b \<and> length b = 16"
  by (auto simp: hex_bytes_def split: option.splits if_splits)

lemma hex_bytes_eq_Inl:
  "hex_bytes h field = Inl e \<Longrightarrow> \<exists>m. e = Mfviz m"
  by (auto simp: hex_bytes_def split: option.splits if_splits)

end
