(* ===== verification/Coord_DB.thy ===== *)
theory Coord_DB
  imports Values
begin

text \<open>
  The coordinator database as the backend reads it: one record per table of
  \<open>microflows/db/schema\<close> with the columns' types and nullability, a database as the tables'
  rows, one definition per SELECT of \<open>mfviz/dbq.py\<close>, and the fetch functions that decode the
  rows.  A request reads one database state.  What the server decides and the sources do not
  (text collation, the comparison of a timestamp with a text bound) is the record \<open>sql_env\<close>,
  and \<open>loads\<close> is \<open>json.loads\<close> on the text of a document column.
\<close>

section \<open>Tables\<close>

definition nullable :: "('a \<Rightarrow> dbval) \<Rightarrow> 'a option \<Rightarrow> dbval" where
  "nullable f v = (case v of None \<Rightarrow> DNull | Some a \<Rightarrow> f a)"

lemma nullable_simps [simp]: "nullable f None = DNull" "nullable f (Some a) = f a"
  by (simp_all add: nullable_def)

record workflow_row =
  w_workflow_id :: bytes
  w_script_name :: str
  w_script_revision :: int
  w_state :: int
  w_execution_direction :: int
  w_current_disposition :: int
  w_current_event_ts :: datetime
  w_fencing_token :: int
  w_lease_owner :: "bytes option"
  w_lease_expires_at :: "datetime option"
  w_next_attempt_at :: datetime
  w_current_operation_attempt :: int
  w_continuation :: str
  w_reversal_trigger_operation_id :: "bytes option"
  w_terminal_reason :: "str option"
  w_workflow_return_json :: "str option"
  w_parent_workflow_id :: "bytes option"
  w_parent_node_id :: "str option"
  w_root_workflow_id :: "bytes option"
  w_call_depth :: "int option"
  w_created_at :: datetime
  w_updated_at :: datetime

definition workflow_cols :: "workflow_row \<Rightarrow> row" where
  "workflow_cols r =
    [(''workflow_id'', DBytes (w_workflow_id r)),
     (''script_name'', DText (w_script_name r)),
     (''script_revision'', DInt (w_script_revision r)),
     (''state'', DInt (w_state r)),
     (''execution_direction'', DInt (w_execution_direction r)),
     (''current_disposition'', DInt (w_current_disposition r)),
     (''current_event_ts'', DTime (w_current_event_ts r)),
     (''fencing_token'', DInt (w_fencing_token r)),
     (''lease_owner'', nullable DBytes (w_lease_owner r)),
     (''lease_expires_at'', nullable DTime (w_lease_expires_at r)),
     (''next_attempt_at'', DTime (w_next_attempt_at r)),
     (''current_operation_attempt'', DInt (w_current_operation_attempt r)),
     (''continuation'', DText (w_continuation r)),
     (''reversal_trigger_operation_id'', nullable DBytes (w_reversal_trigger_operation_id r)),
     (''terminal_reason'', nullable DText (w_terminal_reason r)),
     (''workflow_return_json'', nullable DText (w_workflow_return_json r)),
     (''parent_workflow_id'', nullable DBytes (w_parent_workflow_id r)),
     (''parent_node_id'', nullable DText (w_parent_node_id r)),
     (''root_workflow_id'', nullable DBytes (w_root_workflow_id r)),
     (''call_depth'', nullable DInt (w_call_depth r)),
     (''created_at'', DTime (w_created_at r)),
     (''updated_at'', DTime (w_updated_at r))]"

record plan_row =
  p_workflow_id :: bytes
  p_plan_version :: str
  p_content_hash :: bytes
  p_plan_length :: int
  p_created_at :: datetime

definition plan_cols :: "plan_row \<Rightarrow> row" where
  "plan_cols r =
    [(''workflow_id'', DBytes (p_workflow_id r)),
     (''plan_version'', DText (p_plan_version r)),
     (''content_hash'', DBytes (p_content_hash r)),
     (''plan_length'', DInt (p_plan_length r)),
     (''created_at'', DTime (p_created_at r))]"

record args_row =
  a_workflow_id :: bytes
  a_args_canonical :: bytes
  a_created_at :: datetime

definition args_cols :: "args_row \<Rightarrow> row" where
  "args_cols r =
    [(''workflow_id'', DBytes (a_workflow_id r)),
     (''args_canonical'', DBytes (a_args_canonical r)),
     (''created_at'', DTime (a_created_at r))]"

record operation_row =
  o_workflow_id :: bytes
  o_operation_seq :: int
  o_operation_id :: bytes
  o_operation_name :: str
  o_schema_version :: int
  o_input_json :: str
  o_input_hash :: str
  o_call_kind :: int
  o_status :: int
  o_result_json :: "str option"
  o_created_at :: datetime
  o_updated_at :: datetime
  o_reconcile_attempts :: int
  o_reconcile_first_seen_at :: "datetime option"
  o_reconcile_last_seen_at :: "datetime option"
  o_reconcile_reason :: "str option"
  o_redispatch_first_seen_at :: "datetime option"
  o_redispatch_last_at :: "datetime option"
  o_redispatch_count :: int

definition operation_cols :: "operation_row \<Rightarrow> row" where
  "operation_cols r =
    [(''workflow_id'', DBytes (o_workflow_id r)),
     (''operation_seq'', DInt (o_operation_seq r)),
     (''operation_id'', DBytes (o_operation_id r)),
     (''operation_name'', DText (o_operation_name r)),
     (''schema_version'', DInt (o_schema_version r)),
     (''input_json'', DText (o_input_json r)),
     (''input_hash'', DText (o_input_hash r)),
     (''call_kind'', DInt (o_call_kind r)),
     (''status'', DInt (o_status r)),
     (''result_json'', nullable DText (o_result_json r)),
     (''created_at'', DTime (o_created_at r)),
     (''updated_at'', DTime (o_updated_at r)),
     (''reconcile_attempts'', DInt (o_reconcile_attempts r)),
     (''reconcile_first_seen_at'', nullable DTime (o_reconcile_first_seen_at r)),
     (''reconcile_last_seen_at'', nullable DTime (o_reconcile_last_seen_at r)),
     (''reconcile_reason'', nullable DText (o_reconcile_reason r)),
     (''redispatch_first_seen_at'', nullable DTime (o_redispatch_first_seen_at r)),
     (''redispatch_last_at'', nullable DTime (o_redispatch_last_at r)),
     (''redispatch_count'', DInt (o_redispatch_count r))]"

record call_row =
  c_workflow_id :: bytes
  c_operation_seq :: int
  c_child_workflow_id :: bytes
  c_child_script_name :: str
  c_child_plan_version :: str
  c_child_content_hash :: bytes
  c_child_status :: int
  c_first_requested_at :: datetime
  c_last_inspected_at :: "datetime option"
  c_created_at :: datetime
  c_updated_at :: datetime

definition call_cols :: "call_row \<Rightarrow> row" where
  "call_cols r =
    [(''workflow_id'', DBytes (c_workflow_id r)),
     (''operation_seq'', DInt (c_operation_seq r)),
     (''child_workflow_id'', DBytes (c_child_workflow_id r)),
     (''child_script_name'', DText (c_child_script_name r)),
     (''child_plan_version'', DText (c_child_plan_version r)),
     (''child_content_hash'', DBytes (c_child_content_hash r)),
     (''child_status'', DInt (c_child_status r)),
     (''first_requested_at'', DTime (c_first_requested_at r)),
     (''last_inspected_at'', nullable DTime (c_last_inspected_at r)),
     (''created_at'', DTime (c_created_at r)),
     (''updated_at'', DTime (c_updated_at r))]"

record checkpoint_row =
  k_workflow_id :: bytes
  k_seq :: int
  k_operation_name :: str
  k_operation_id :: bytes
  k_payload :: str
  k_reversal_state :: int
  k_reverse_invocation_id :: "bytes option"
  k_reverse_operation_name :: "str option"
  k_reverse_schema_version :: "int option"
  k_reverse_input_json :: "str option"
  k_reverse_input_hash :: "str option"
  k_reversed_at :: "datetime option"
  k_resolution_event_ts :: "datetime option"
  k_created_at :: datetime
  k_updated_at :: datetime
  k_reconcile_attempts :: int
  k_reconcile_first_seen_at :: "datetime option"
  k_reconcile_last_seen_at :: "datetime option"
  k_reconcile_reason :: "str option"
  k_redispatch_first_seen_at :: "datetime option"
  k_redispatch_last_at :: "datetime option"
  k_redispatch_count :: int

definition checkpoint_cols :: "checkpoint_row \<Rightarrow> row" where
  "checkpoint_cols r =
    [(''workflow_id'', DBytes (k_workflow_id r)),
     (''seq'', DInt (k_seq r)),
     (''operation_name'', DText (k_operation_name r)),
     (''operation_id'', DBytes (k_operation_id r)),
     (''payload'', DText (k_payload r)),
     (''reversal_state'', DInt (k_reversal_state r)),
     (''reverse_invocation_id'', nullable DBytes (k_reverse_invocation_id r)),
     (''reverse_operation_name'', nullable DText (k_reverse_operation_name r)),
     (''reverse_schema_version'', nullable DInt (k_reverse_schema_version r)),
     (''reverse_input_json'', nullable DText (k_reverse_input_json r)),
     (''reverse_input_hash'', nullable DText (k_reverse_input_hash r)),
     (''reversed_at'', nullable DTime (k_reversed_at r)),
     (''resolution_event_ts'', nullable DTime (k_resolution_event_ts r)),
     (''created_at'', DTime (k_created_at r)),
     (''updated_at'', DTime (k_updated_at r)),
     (''reconcile_attempts'', DInt (k_reconcile_attempts r)),
     (''reconcile_first_seen_at'', nullable DTime (k_reconcile_first_seen_at r)),
     (''reconcile_last_seen_at'', nullable DTime (k_reconcile_last_seen_at r)),
     (''reconcile_reason'', nullable DText (k_reconcile_reason r)),
     (''redispatch_first_seen_at'', nullable DTime (k_redispatch_first_seen_at r)),
     (''redispatch_last_at'', nullable DTime (k_redispatch_last_at r)),
     (''redispatch_count'', DInt (k_redispatch_count r))]"

record event_row =
  e_workflow_id :: bytes
  e_event_ts :: datetime
  e_kind :: str
  e_actor :: "bytes option"
  e_request_id :: "bytes option"
  e_payload :: str

definition event_cols :: "event_row \<Rightarrow> row" where
  "event_cols r =
    [(''workflow_id'', DBytes (e_workflow_id r)),
     (''event_ts'', DTime (e_event_ts r)),
     (''kind'', DText (e_kind r)),
     (''actor'', nullable DBytes (e_actor r)),
     (''request_id'', nullable DBytes (e_request_id r)),
     (''payload'', DText (e_payload r))]"

record database =
  tb_workflow :: "workflow_row list"
  tb_plan :: "plan_row list"
  tb_args :: "args_row list"
  tb_operation :: "operation_row list"
  tb_call :: "call_row list"
  tb_checkpoint :: "checkpoint_row list"
  tb_event :: "event_row list"
  db_clock :: datetime

record sql_env =
  text_eq :: "str \<Rightarrow> str \<Rightarrow> bool"
  ts_ge :: "datetime \<Rightarrow> str \<Rightarrow> bool"
  ts_le :: "datetime \<Rightarrow> str \<Rightarrow> bool"

section \<open>The SELECT statements\<close>

text \<open>\<open>fetchone\<close> on a table keyed by the workflow id.\<close>

definition select_workflow :: "database \<Rightarrow> bytes \<Rightarrow> workflow_row option" where
  "select_workflow db wid = find (\<lambda>r. w_workflow_id r = wid) (tb_workflow db)"

definition select_plan :: "database \<Rightarrow> bytes \<Rightarrow> plan_row option" where
  "select_plan db wid = find (\<lambda>r. p_workflow_id r = wid) (tb_plan db)"

definition select_args :: "database \<Rightarrow> bytes \<Rightarrow> args_row option" where
  "select_args db wid = find (\<lambda>r. a_workflow_id r = wid) (tb_args db)"

definition select_operations :: "database \<Rightarrow> bytes \<Rightarrow> operation_row list" where
  "select_operations db wid =
     sort_key o_operation_seq (filter (\<lambda>r. o_workflow_id r = wid) (tb_operation db))"

definition select_calls :: "database \<Rightarrow> bytes \<Rightarrow> call_row list" where
  "select_calls db wid =
     sort_key c_operation_seq (filter (\<lambda>r. c_workflow_id r = wid) (tb_call db))"

text \<open>\<open>SELECT operation_seq, child_workflow_id\<close>, the statement of \<open>_fetch_child_ids\<close>.\<close>

definition select_child_ids :: "database \<Rightarrow> bytes \<Rightarrow> (int \<times> bytes) list" where
  "select_child_ids db wid =
     sort_key fst (map (\<lambda>r. (c_operation_seq r, c_child_workflow_id r))
       (filter (\<lambda>r. c_workflow_id r = wid) (tb_call db)))"

definition select_checkpoints :: "database \<Rightarrow> bytes \<Rightarrow> checkpoint_row list" where
  "select_checkpoints db wid =
     sort_key k_seq (filter (\<lambda>r. k_workflow_id r = wid) (tb_checkpoint db))"

definition select_events :: "database \<Rightarrow> bytes \<Rightarrow> event_row list" where
  "select_events db wid =
     sort_key e_event_ts (filter (\<lambda>r. e_workflow_id r = wid) (tb_event db))"

text \<open>
  \<open>WHERE workflow_id IN (...) ORDER BY event_ts, workflow_id\<close> of the timeline.
\<close>

definition select_events_of :: "database \<Rightarrow> bytes list \<Rightarrow> event_row list" where
  "select_events_of db wids =
     sort_key (\<lambda>r. (e_event_ts r, e_workflow_id r))
       (filter (\<lambda>r. e_workflow_id r \<in> set wids) (tb_event db))"

section \<open>Fetching and decoding\<close>

definition fetch_workflow :: "(str \<Rightarrow> json result) \<Rightarrow> database \<Rightarrow> bytes \<Rightarrow> jrow option result" where
  "fetch_workflow loads db wid =
     (case select_workflow db wid of
        None \<Rightarrow> Inr None
      | Some r \<Rightarrow>
          let cols = workflow_cols r; out = decode_cols cols
          in bind_res (decode_json_field loads (Some cols) ''continuation'') (\<lambda>c.
             bind_res (decode_json_field loads (Some cols) ''workflow_return_json'') (\<lambda>v.
             Inr (Some (dict_set ''workflow_return_json'' v (dict_set ''continuation'' c out))))))"

definition fetch_plan :: "database \<Rightarrow> bytes \<Rightarrow> jrow option" where
  "fetch_plan db wid = decode_row (map_option plan_cols (select_plan db wid))"

definition fetch_args :: "(str \<Rightarrow> json result) \<Rightarrow> database \<Rightarrow> bytes \<Rightarrow> jrow option result" where
  "fetch_args loads db wid =
     (case select_args db wid of
        None \<Rightarrow> Inr None
      | Some r \<Rightarrow>
          bind_res (option_res Unicode_Decode_Error (utf8_strict (map unat (a_args_canonical r)))) (\<lambda>text.
          bind_res (loads text) (\<lambda>v.
          Inr (Some (dict_set ''args_canonical'' v (decode_cols (args_cols r)))))))"

definition fetch_operations :: "(str \<Rightarrow> json result) \<Rightarrow> database \<Rightarrow> bytes \<Rightarrow> jrow list result" where
  "fetch_operations loads db wid =
     map_res (\<lambda>r.
       bind_res (decode_json_field loads (Some (operation_cols r)) ''input_json'') (\<lambda>i.
       bind_res (decode_json_field loads (Some (operation_cols r)) ''result_json'') (\<lambda>v.
       Inr (dict_set ''result_json'' v (dict_set ''input_json'' i (decode_cols (operation_cols r)))))))
       (select_operations db wid)"

definition fetch_calls :: "database \<Rightarrow> bytes \<Rightarrow> jrow list" where
  "fetch_calls db wid = map (\<lambda>r. decode_cols (call_cols r)) (select_calls db wid)"

definition fetch_checkpoints :: "(str \<Rightarrow> json result) \<Rightarrow> database \<Rightarrow> bytes \<Rightarrow> jrow list result" where
  "fetch_checkpoints loads db wid =
     map_res (\<lambda>r.
       bind_res (decode_json_field loads (Some (checkpoint_cols r)) ''payload'') (\<lambda>p.
       bind_res (decode_json_field loads (Some (checkpoint_cols r)) ''reverse_input_json'') (\<lambda>v.
       Inr (dict_set ''reverse_input_json'' v (dict_set ''payload'' p (decode_cols (checkpoint_cols r)))))))
       (select_checkpoints db wid)"

definition fetch_events :: "(str \<Rightarrow> json result) \<Rightarrow> database \<Rightarrow> bytes \<Rightarrow> jrow list result" where
  "fetch_events loads db wid =
     map_res (\<lambda>r.
       bind_res (decode_json_field loads (Some (event_cols r)) ''payload'') (\<lambda>p.
       Inr (dict_set ''payload'' p (decode_cols (event_cols r)))))
       (select_events db wid)"

text \<open>\<open>_fetch_child_ids\<close>: the call sidecar in operation order.\<close>

definition fetch_child_ids :: "database \<Rightarrow> bytes \<Rightarrow> (int \<times> str) list" where
  "fetch_child_ids db wid =
     map (\<lambda>(seq, child). (seq, hex child)) (select_child_ids db wid)"

section \<open>Facts shared by the walks\<close>

lemma select_workflow_Some:
  "select_workflow db wid = Some r \<Longrightarrow> r \<in> set (tb_workflow db) \<and> w_workflow_id r = wid"
  by (auto simp: select_workflow_def find_Some_iff)

lemma fetch_workflow_None [simp]:
  "fetch_workflow loads db wid = Inr None \<longleftrightarrow> select_workflow db wid = None"
  by (auto simp: fetch_workflow_def Let_def bind_res_eq_Inr split: option.splits)

text \<open>The two SELECTs on the call table see the same rows in the same order.\<close>

lemma insort_key_map: "insort_key g (f x) (map f xs) = map f (insort_key (\<lambda>y. g (f y)) x xs)"
  by (induction xs) simp_all

lemma sort_key_map: "sort_key g (map f xs) = map f (sort_key (\<lambda>y. g (f y)) xs)"
  by (induction xs) (simp_all add: insort_key_map)

lemma fetch_child_ids_calls:
  "fetch_child_ids db wid = map (\<lambda>r. (c_operation_seq r, hex (c_child_workflow_id r))) (select_calls db wid)"
  by (simp add: fetch_child_ids_def select_child_ids_def select_calls_def sort_key_map)

lemma set_fetch_child_ids:
  "set (fetch_child_ids db wid) =
     (\<lambda>r. (c_operation_seq r, hex (c_child_workflow_id r))) ` {r \<in> set (tb_call db). c_workflow_id r = wid}"
  by (auto simp: fetch_child_ids_calls select_calls_def)

lemma child_id_col [simp]:
  "dict_get (decode_cols (call_cols r)) ''child_workflow_id'' = Some (JStr (hex (c_child_workflow_id r)))"
  by (simp add: call_cols_def)

text \<open>
  The documents of a database that \<open>json.loads\<close> accepts: what the schema's
  \<open>CHECK json_valid\<close> constraints promise for every document column, and what the writer of
  \<open>args_canonical\<close> promises for the one column without such a constraint.
\<close>

definition accepts :: "(str \<Rightarrow> json result) \<Rightarrow> str \<Rightarrow> bool" where
  "accepts loads s \<longleftrightarrow> (case loads s of Inl _ \<Rightarrow> False | Inr _ \<Rightarrow> True)"

definition accepts_opt :: "(str \<Rightarrow> json result) \<Rightarrow> str option \<Rightarrow> bool" where
  "accepts_opt loads v = (case v of None \<Rightarrow> True | Some s \<Rightarrow> accepts loads s)"

definition accepts_blob :: "(str \<Rightarrow> json result) \<Rightarrow> bytes \<Rightarrow> bool" where
  "accepts_blob loads b = (case utf8_strict (map unat b) of None \<Rightarrow> False | Some s \<Rightarrow> accepts loads s)"

definition documents_ok :: "(str \<Rightarrow> json result) \<Rightarrow> database \<Rightarrow> bool" where
  "documents_ok loads db \<longleftrightarrow>
     list_all (\<lambda>r. accepts loads (w_continuation r) \<and> accepts_opt loads (w_workflow_return_json r))
       (tb_workflow db) \<and>
     list_all (\<lambda>r. accepts_blob loads (a_args_canonical r)) (tb_args db) \<and>
     list_all (\<lambda>r. accepts loads (o_input_json r) \<and> accepts_opt loads (o_result_json r))
       (tb_operation db) \<and>
     list_all (\<lambda>r. accepts loads (k_payload r) \<and> accepts_opt loads (k_reverse_input_json r))
       (tb_checkpoint db) \<and>
     list_all (\<lambda>r. accepts loads (e_payload r)) (tb_event db)"

lemma acceptsE: "accepts loads s \<Longrightarrow> \<exists>v. loads s = Inr v"
  by (auto simp: accepts_def split: sum.splits)

lemma accepts_field:
  assumes "dict_get cols key = Some (DText s)" and "accepts loads s"
  shows "\<exists>v. decode_json_field loads (Some cols) key = Inr v"
  using assms acceptsE by (simp add: decode_json_field_def)

lemma accepts_opt_field:
  assumes "dict_get cols key = Some (nullable DText v)" and "accepts_opt loads v"
  shows "\<exists>j. decode_json_field loads (Some cols) key = Inr j"
  using assms acceptsE by (cases v) (auto simp: decode_json_field_def accepts_opt_def)

lemma two_fields_total:
  assumes "\<exists>v. decode_json_field loads r k1 = Inr v" and "\<exists>v. decode_json_field loads r k2 = Inr v"
  shows "\<exists>y. bind_res (decode_json_field loads r k1) (\<lambda>a.
               bind_res (decode_json_field loads r k2) (\<lambda>b. Inr (f a b))) = Inr y"
  using assms by (auto simp: res_simps)

lemma fetch_workflow_total:
  assumes "documents_ok loads db"
  shows "\<exists>w. fetch_workflow loads db wid = Inr w"
proof (cases "select_workflow db wid")
  case None
  then show ?thesis by (simp add: fetch_workflow_def)
next
  case (Some r)
  then have "r \<in> set (tb_workflow db)" by (simp add: select_workflow_Some)
  with assms have c: "accepts loads (w_continuation r)"
    and v: "accepts_opt loads (w_workflow_return_json r)"
    by (auto simp: documents_ok_def list_all_iff)
  have "\<exists>v. decode_json_field loads (Some (workflow_cols r)) ''continuation'' = Inr v"
    by (rule accepts_field [OF _ c]) (simp add: workflow_cols_def)
  moreover have "\<exists>v. decode_json_field loads (Some (workflow_cols r)) ''workflow_return_json'' = Inr v"
    by (rule accepts_opt_field [OF _ v]) (simp add: workflow_cols_def)
  ultimately show ?thesis
    using Some by (simp add: fetch_workflow_def Let_def two_fields_total)
qed

lemma fetch_args_total:
  assumes "documents_ok loads db"
  shows "\<exists>a. fetch_args loads db wid = Inr a"
proof (cases "select_args db wid")
  case None
  then show ?thesis by (simp add: fetch_args_def)
next
  case (Some r)
  then have "r \<in> set (tb_args db)" by (auto simp: select_args_def find_Some_iff)
  with assms have "accepts_blob loads (a_args_canonical r)"
    by (auto simp: documents_ok_def list_all_iff)
  then show ?thesis
    using Some by (auto simp: fetch_args_def accepts_blob_def res_simps dest!: acceptsE split: option.splits)
qed

lemma fetch_operations_total:
  assumes "documents_ok loads db"
  shows "\<exists>rs. fetch_operations loads db wid = Inr rs"
  unfolding fetch_operations_def
proof (rule map_res_total, rule two_fields_total)
  fix r
  assume "r \<in> set (select_operations db wid)"
  with assms have i: "accepts loads (o_input_json r)" and v: "accepts_opt loads (o_result_json r)"
    by (auto simp: documents_ok_def list_all_iff select_operations_def)
  show "\<exists>v. decode_json_field loads (Some (operation_cols r)) ''input_json'' = Inr v"
    by (rule accepts_field [OF _ i]) (simp add: operation_cols_def)
  show "\<exists>v. decode_json_field loads (Some (operation_cols r)) ''result_json'' = Inr v"
    by (rule accepts_opt_field [OF _ v]) (simp add: operation_cols_def)
qed

lemma fetch_checkpoints_total:
  assumes "documents_ok loads db"
  shows "\<exists>rs. fetch_checkpoints loads db wid = Inr rs"
  unfolding fetch_checkpoints_def
proof (rule map_res_total, rule two_fields_total)
  fix r
  assume "r \<in> set (select_checkpoints db wid)"
  with assms have p: "accepts loads (k_payload r)" and v: "accepts_opt loads (k_reverse_input_json r)"
    by (auto simp: documents_ok_def list_all_iff select_checkpoints_def)
  show "\<exists>v. decode_json_field loads (Some (checkpoint_cols r)) ''payload'' = Inr v"
    by (rule accepts_field [OF _ p]) (simp add: checkpoint_cols_def)
  show "\<exists>v. decode_json_field loads (Some (checkpoint_cols r)) ''reverse_input_json'' = Inr v"
    by (rule accepts_opt_field [OF _ v]) (simp add: checkpoint_cols_def)
qed

lemma event_payload_total:
  assumes "documents_ok loads db" and "r \<in> set (tb_event db)"
  shows "\<exists>v. decode_json_field loads (Some (event_cols r)) ''payload'' = Inr v"
proof -
  from assms have p: "accepts loads (e_payload r)"
    by (auto simp: documents_ok_def list_all_iff)
  show ?thesis
    by (rule accepts_field [OF _ p]) (simp add: event_cols_def)
qed

lemma fetch_events_total:
  assumes "documents_ok loads db"
  shows "\<exists>rs. fetch_events loads db wid = Inr rs"
  unfolding fetch_events_def
  using event_payload_total [OF assms]
  by (intro map_res_total) (auto simp: select_events_def res_simps)

end
