(* ===== verification/Fixture.thy ===== *)
theory Fixture
  imports Coord_DB
begin

text \<open>
  A small concrete database on which the properties are evaluated: a parent with a terminal
  and a running child, the running child with a child of its own (the shape of the call
  tree seeded by \<open>microflows-viz/tests/test_slice2.py\<close>).
\<close>

definition ex_id :: "8 word \<Rightarrow> bytes" where
  "ex_id b = replicate 16 b"

definition ex_time :: "nat \<Rightarrow> datetime" where
  "ex_time s = DateTime 2026 1 1 12 0 s 0"

definition ex_workflow :: "8 word \<Rightarrow> int \<Rightarrow> nat \<Rightarrow> workflow_row" where
  "ex_workflow b state due =
     \<lparr>w_workflow_id = ex_id b, w_script_name = [112], w_script_revision = 1, w_state = state,
      w_execution_direction = 1, w_current_disposition = 0, w_current_event_ts = ex_time 2,
      w_fencing_token = 1, w_lease_owner = None, w_lease_expires_at = None,
      w_next_attempt_at = ex_time due, w_current_operation_attempt = 0, w_continuation = [123, 125],
      w_reversal_trigger_operation_id = None, w_terminal_reason = None,
      w_workflow_return_json = None, w_parent_workflow_id = None, w_parent_node_id = None,
      w_root_workflow_id = None, w_call_depth = None, w_created_at = ex_time 0,
      w_updated_at = ex_time 2\<rparr>"

definition ex_call :: "8 word \<Rightarrow> int \<Rightarrow> 8 word \<Rightarrow> call_row" where
  "ex_call parent seq child =
     \<lparr>c_workflow_id = ex_id parent, c_operation_seq = seq, c_child_workflow_id = ex_id child,
      c_child_script_name = [112], c_child_plan_version = [49], c_child_content_hash = replicate 33 2,
      c_child_status = 1, c_first_requested_at = ex_time 0, c_last_inspected_at = None,
      c_created_at = ex_time 0, c_updated_at = ex_time 1\<rparr>"

definition ex_event :: "8 word \<Rightarrow> nat \<Rightarrow> event_row" where
  "ex_event b s =
     \<lparr>e_workflow_id = ex_id b, e_event_ts = ex_time s, e_kind = [107], e_actor = None,
      e_request_id = None, e_payload = [123, 125]\<rparr>"

definition ex_db :: database where
  "ex_db =
     \<lparr>tb_workflow = [ex_workflow 0xe1 1 50, ex_workflow 0xe2 4 0, ex_workflow 0xe3 1 50,
                     ex_workflow 0xe4 1 2],
      tb_plan = [], tb_args = [], tb_operation = [],
      tb_call = [ex_call 0xe3 1 0xe4, ex_call 0xe1 2 0xe3, ex_call 0xe1 1 0xe2],
      tb_checkpoint = [],
      tb_event = [ex_event 0xe1 0, ex_event 0xe1 3, ex_event 0xe3 1, ex_event 0xe4 2],
      db_clock = ex_time 30\<rparr>"

text \<open>Every document of the example is the empty object.\<close>

definition ex_loads :: "str \<Rightarrow> json result" where
  "ex_loads s = (if s = [123, 125] then Inr (JObj []) else Inl (Json_Decode_Error s))"

definition ex_root :: str where
  "ex_root = hex (ex_id 0xe1)"

lemma ex_documents_ok: "documents_ok ex_loads ex_db"
  by (simp add: documents_ok_def ex_db_def ex_workflow_def ex_event_def ex_loads_def
      accepts_def accepts_opt_def)

end
