(* ===== verification/Listing.thy ===== *)
theory Listing
  imports Fixture "HOL-Library.Multiset"
begin

text \<open>
  \<open>list_workflows\<close> and \<open>resolve_state\<close> of \<open>mfviz/dbq.py\<close>, the bounded search: a WHERE clause
  built from three mandatory and two optional conditions over the workflow table left-joined
  to the plan table, newest first.  Also here: what the rendering of ids and timestamps
  guarantees to a client that compares them as text.
\<close>

section \<open>The search\<close>

text \<open>\<open>tb_mf_workflow w LEFT JOIN tb_mf_workflow_plan p ON p.workflow_id = w.workflow_id\<close>.\<close>

definition left_join_plan :: "database \<Rightarrow> (workflow_row \<times> plan_row option) list" where
  "left_join_plan db =
     concat (map (\<lambda>w.
       let plans = filter (\<lambda>p. p_workflow_id p = w_workflow_id w) (tb_plan db)
       in if plans = [] then [(w, None)] else map (\<lambda>p. (w, Some p)) plans) (tb_workflow db))"

definition list_cols :: "workflow_row \<times> plan_row option \<Rightarrow> row" where
  "list_cols wp =
     (let w = fst wp in
      [(''workflow_id'', DBytes (w_workflow_id w)),
       (''script_name'', DText (w_script_name w)),
       (''plan_version'', nullable DText (map_option p_plan_version (snd wp))),
       (''state'', DInt (w_state w)),
       (''execution_direction'', DInt (w_execution_direction w)),
       (''current_disposition'', DInt (w_current_disposition w)),
       (''created_at'', DTime (w_created_at w)),
       (''updated_at'', DTime (w_updated_at w)),
       (''current_event_ts'', DTime (w_current_event_ts w)),
       (''parent_workflow_id'', nullable DBytes (w_parent_workflow_id w)),
       (''root_workflow_id'', nullable DBytes (w_root_workflow_id w)),
       (''terminal_reason'', nullable DText (w_terminal_reason w))])"

text \<open>The WHERE clause as the list of its conjuncts, in the order they are appended.\<close>

definition list_where ::
    "sql_env \<Rightarrow> str \<Rightarrow> str \<Rightarrow> str \<Rightarrow> str option \<Rightarrow> int option \<Rightarrow> (workflow_row \<times> plan_row option \<Rightarrow> bool) list"
  where
  "list_where env script since until plan_version state_code =
     [\<lambda>(w, p). text_eq env (w_script_name w) script,
      \<lambda>(w, p). ts_ge env (w_created_at w) since,
      \<lambda>(w, p). ts_le env (w_created_at w) until] @
     (case plan_version of
        None \<Rightarrow> []
      | Some v \<Rightarrow> [\<lambda>(w, p). case p of None \<Rightarrow> False | Some q \<Rightarrow> text_eq env (p_plan_version q) v]) @
     (case state_code of None \<Rightarrow> [] | Some code \<Rightarrow> [\<lambda>(w, p). w_state w = code])"

definition created_desc :: "(workflow_row \<times> plan_row option) list \<Rightarrow> (workflow_row \<times> plan_row option) list"
  where
  "created_desc rows = rev (sort_key (\<lambda>(w, p). w_created_at w) (rev rows))"

definition state_name_json :: "int \<Rightarrow> json" where
  "state_name_json state = (case dict_get STATE_NAMES state of None \<Rightarrow> JNull | Some n \<Rightarrow> JStr (lit n))"

definition list_summary :: "workflow_row \<times> plan_row option \<Rightarrow> jrow" where
  "list_summary wp =
     dict_set ''state_name'' (state_name_json (w_state (fst wp))) (decode_cols (list_cols wp))"

definition list_workflows ::
    "sql_env \<Rightarrow> database \<Rightarrow> str \<Rightarrow> str \<Rightarrow> str \<Rightarrow> str option \<Rightarrow> str option \<Rightarrow> jrow list result" where
  "list_workflows env db script since until plan_version state =
     bind_res (resolve_state state) (\<lambda>state_code.
       let conds = list_where env script since until plan_version state_code
       in Inr (map list_summary
            (created_desc (filter (\<lambda>row. list_all (\<lambda>c. c row) conds) (left_join_plan db)))))"

section \<open>The state filter\<close>

lemma lower_names: "(code, name) \<in> set STATE_NAMES \<Longrightarrow> lower (lit name) = lit name"
  by (auto simp: STATE_NAMES_def lower_def lit_def)

lemma isdigit_names: "(code, name) \<in> set STATE_NAMES \<Longrightarrow> \<not> isdigit (lit name)"
  by (auto simp: STATE_NAMES_def isdigit_def lit_def isdigit_cp_ascii)

lemma STATE_NAMES_get:
  "dict_get STATE_NAMES code = Some name \<longleftrightarrow> (code, name) \<in> set STATE_NAMES"
  by (auto simp: STATE_NAMES_def)

lemma state_code_of_name_iff:
  "state_code_of_name s = Some code \<longleftrightarrow> (\<exists>name. (code, name) \<in> set STATE_NAMES \<and> s = lit name)"
proof -
  have mem: "(n, c) \<in> set STATE_CODES \<longleftrightarrow> (c, n) \<in> set STATE_NAMES" for n c
    by (force simp: STATE_CODES_def)
  have "distinct (map fst STATE_CODES)" by (simp add: STATE_CODES_def STATE_NAMES_def)
  then have unique: "(n, c) \<in> set STATE_CODES \<Longrightarrow> (n, d) \<in> set STATE_CODES \<Longrightarrow> c = d" for n c d
    by (rule eq_key_imp_eq_value)
  show ?thesis
  proof (cases "find (\<lambda>(n, _). lit n = s) STATE_CODES")
    case None
    then have "lit n \<noteq> s" if "(n, c) \<in> set STATE_CODES" for n c
      using that by (auto simp: find_None_iff)
    with None show ?thesis using mem by (auto simp: state_code_of_name_def)
  next
    case (Some nc)
    then obtain n c where nc: "nc = (n, c)" "lit n = s" "(n, c) \<in> set STATE_CODES"
      using find_Some_iff_mem [OF Some] by (cases nc) auto
    have "state_code_of_name s = Some c" by (simp add: state_code_of_name_def Some nc(1))
    then show ?thesis using nc mem unique by auto
  qed
qed

text \<open>A string of digits is never the spelling of a state name, whatever its case.\<close>

lemma lower_digit: "isdigit s \<Longrightarrow> lower s = s"
proof -
  assume "isdigit s"
  then have "\<forall>c \<in> set s. isdigit_cp c" by (simp add: isdigit_def list_all_iff)
  then show ?thesis
  proof (induction s)
    case Nil
    then show ?case by (simp add: lower_def)
  next
    case (Cons c s)
    have "c \<noteq> 8490 \<and> c \<noteq> 304"
      using Cons.prems by (auto simp: isdigit_cp_def decimal_value_def nd_starts_def other_digits_def)
    with Cons isdigit_cp_ascii [of c] show ?case by (auto simp: lower_def)
  qed
qed


lemma state_code_range: "(code, name) \<in> set STATE_NAMES \<Longrightarrow> 1 \<le> code \<and> code \<le> 7"
  by (auto simp: STATE_NAMES_def)

lemma state_code_has_name: "dict_get STATE_NAMES code \<noteq> None \<longleftrightarrow> 1 \<le> code \<and> code \<le> 7"
proof -
  have "1 \<le> code \<and> code \<le> 7 \<Longrightarrow> code \<in> {1, 2, 3, 4, 5, 6, 7}" by auto
  then show ?thesis by (auto simp: STATE_NAMES_def split: if_splits)
qed

lemma resolve_state_name: "\<not> isdigit v \<Longrightarrow> resolve_state (Some v) = Inr (Some code) \<longleftrightarrow>
    (\<exists>name. (code, name) \<in> set STATE_NAMES \<and> lower v = lit name)"
  by (auto simp: resolve_state_def state_code_of_name_iff [symmetric] split: option.splits)

section \<open>Properties of the search\<close>

text \<open>
  The state filter accepts exactly the documented spellings: a digit string denoting one
  of the codes 1 to 7, or a state name in any case, and yields that state's code; so each
  state can be asked for by its number and by its name with the same result.
\<close>

theorem resolve_state_spec:
  "(resolve_state (Some v) = Inr (Some code) \<longleftrightarrow>
      isdigit v \<and> py_int v = Some code \<and> 1 \<le> code \<and> code \<le> 7 \<or>
      (\<exists>name. (code, name) \<in> set STATE_NAMES \<and> lower v = lit name)) \<and>
   ((n, name) \<in> set STATE_NAMES \<longrightarrow>
      resolve_state (Some (lit name)) = Inr (Some n) \<and> resolve_state (Some (nat_str (nat n))) = Inr (Some n))"
proof (intro conjI impI)
  show "resolve_state (Some v) = Inr (Some code) \<longleftrightarrow>
      isdigit v \<and> py_int v = Some code \<and> 1 \<le> code \<and> code \<le> 7 \<or>
      (\<exists>name. (code, name) \<in> set STATE_NAMES \<and> lower v = lit name)"
  proof (cases "isdigit v")
    case True
    then have "\<not> (\<exists>name. (code, name) \<in> set STATE_NAMES \<and> lower v = lit name)"
      using isdigit_names by (auto simp: lower_digit)
    with True state_code_has_name [of code] show ?thesis
      by (auto simp: resolve_state_def split: option.splits)
  qed (simp add: resolve_state_name)
  assume n: "(n, name) \<in> set STATE_NAMES"
  then show "resolve_state (Some (lit name)) = Inr (Some n)"
    using isdigit_names lower_names by (subst resolve_state_name) auto
  from n have "1 \<le> n \<and> n \<le> 7" by (rule state_code_range)
  moreover then have "length (nat_str (nat n)) \<le> Suc 0" by (intro length_nat_str) auto
  then have "length (nat_str (nat n)) \<le> max_int_digits" by (simp add: max_int_digits_def)
  ultimately show "resolve_state (Some (nat_str (nat n))) = Inr (Some n)"
    using state_code_has_name [of n] by (auto simp: resolve_state_def py_int_nat_str)
qed

theorem resolve_state_spec_witness:
  "resolve_state (Some (lit ''reversing'')) = Inr (Some 2) \<and> resolve_state (Some (nat_str (nat 2))) = Inr (Some 2)"
proof -
  have "(2, ''reversing'') \<in> set STATE_NAMES" by (simp add: STATE_NAMES_def)
  with resolve_state_spec [of "[]" 0 2 "''reversing''"] show ?thesis by blast
qed

text \<open>
  A digit that \<open>int\<close> cannot read (a superscript, a circled digit) passes the
  \<open>isdigit\<close> test and then raises \<open>ValueError\<close>, not the \<open>MfvizError\<close> of an unknown state.
\<close>

theorem resolve_state_valueless_digit:
  assumes "isdigit v" and "c \<in> set v" and "decimal_value c = None" and "\<not> wide_space c"
  shows "resolve_state (Some v) = Inl (Value_Error v)"
  using assms py_int_valueless [OF assms] by (simp add: resolve_state_def)

theorem resolve_state_valueless_digit_witness: "resolve_state (Some [178]) = Inl (Value_Error [178])"
  by (rule resolve_state_valueless_digit [of _ 178])
     (simp_all add: isdigit_def isdigit_cp_def decimal_value_def nd_starts_def other_digits_def wide_space_def)

lemma mset_created_desc [simp]: "mset (created_desc rows) = mset rows"
  by (simp add: created_desc_def)

lemma created_desc_sorted:
  "sorted_wrt (\<lambda>a b. w_created_at (fst a) \<ge> w_created_at (fst b)) (created_desc rows)"
proof -
  have "sorted (map (\<lambda>(w, p). w_created_at w) (sort_key (\<lambda>(w, p). w_created_at w) (rev rows)))"
    by simp
  then show ?thesis
    unfolding created_desc_def sorted_wrt_rev sorted_map
    by (rule sorted_wrt_mono_rel [rotated]) (auto simp: case_prod_unfold)
qed

lemma left_join_plan_mem:
  "(w, p) \<in> set (left_join_plan db) \<longleftrightarrow> w \<in> set (tb_workflow db) \<and>
     (case p of
        None \<Rightarrow> \<forall>q \<in> set (tb_plan db). p_workflow_id q \<noteq> w_workflow_id w
      | Some q \<Rightarrow> q \<in> set (tb_plan db) \<and> p_workflow_id q = w_workflow_id w)"
  by (auto simp: left_join_plan_def Let_def filter_empty_conv image_iff split: option.splits if_splits)

text \<open>The join, said of the tables: every workflow with each of its plans, or once without one.\<close>

definition with_plans :: "database \<Rightarrow> workflow_row \<Rightarrow> (workflow_row \<times> plan_row option) multiset" where
  "with_plans db w =
     (if \<exists>q \<in> set (tb_plan db). p_workflow_id q = w_workflow_id w
      then {#(w, Some q). q \<in># {#q \<in># mset (tb_plan db). p_workflow_id q = w_workflow_id w#}#}
      else {#(w, None)#})"

lemma mset_left_join: "mset (left_join_plan db) = (\<Sum>w \<in># mset (tb_workflow db). with_plans db w)"
proof -
  have "mset (let plans = filter (\<lambda>p. p_workflow_id p = w_workflow_id w) (tb_plan db)
      in if plans = [] then [(w, None)] else map (\<lambda>p. (w, Some p)) plans) = with_plans db w" for w
    by (auto simp: with_plans_def Let_def filter_empty_conv)
  then have "mset (left_join_plan db) = sum_list (map (with_plans db) (tb_workflow db))"
    by (simp add: left_join_plan_def mset_concat comp_def)
  then show ?thesis by (simp flip: sum_mset_sum_list)
qed

lemma list_summary_fields:
  "dict_get (list_summary (w, p)) ''workflow_id'' = Some (JStr (hex (w_workflow_id w)))"
  "dict_get (list_summary (w, p)) ''script_name'' = Some (JStr (w_script_name w))"
  "dict_get (list_summary (w, p)) ''plan_version'' =
     Some (case p of None \<Rightarrow> JNull | Some q \<Rightarrow> JStr (p_plan_version q))"
  "dict_get (list_summary (w, p)) ''state'' = Some (JInt (w_state w))"
  "dict_get (list_summary (w, p)) ''created_at'' = Some (JStr (iso_z (w_created_at w)))"
  by (simp_all add: list_summary_def list_cols_def Let_def split: option.split)

text \<open>
  C31. The listing is exactly the search it is given: a summary appears for every row of the
  workflow table (with each of its plans, or once with a null plan version when it has none)
  that satisfies the script, both bounds of the creation time and every optional filter
  present, for no other row, newest first; and the summary carries the row's id, script,
  state, creation time and plan version.
\<close>

theorem list_workflows_spec:
  assumes "list_workflows env db script since until plan_version state = Inr out"
  shows "\<exists>rows code. resolve_state state = Inr code \<and> length out = length rows \<and>
    mset rows = filter_mset (\<lambda>(w, p).
        text_eq env (w_script_name w) script \<and> ts_ge env (w_created_at w) since \<and>
        ts_le env (w_created_at w) until \<and>
        (\<forall>v. plan_version = Some v \<longrightarrow> (\<exists>q. p = Some q \<and> text_eq env (p_plan_version q) v)) \<and>
        (\<forall>c. code = Some c \<longrightarrow> w_state w = c))
      (\<Sum>w \<in># mset (tb_workflow db).
         if \<exists>q \<in> set (tb_plan db). p_workflow_id q = w_workflow_id w
         then {#(w, Some q). q \<in># {#q \<in># mset (tb_plan db). p_workflow_id q = w_workflow_id w#}#}
         else {#(w, None)#}) \<and>
    sorted_wrt (\<lambda>a b. w_created_at (fst a) \<ge> w_created_at (fst b)) rows \<and>
    list_all2 (\<lambda>e (w, p).
        dict_get e ''workflow_id'' = Some (JStr (hex (w_workflow_id w))) \<and>
        dict_get e ''script_name'' = Some (JStr (w_script_name w)) \<and>
        dict_get e ''plan_version'' = Some (case p of None \<Rightarrow> JNull | Some q \<Rightarrow> JStr (p_plan_version q)) \<and>
        dict_get e ''state'' = Some (JInt (w_state w)) \<and>
        dict_get e ''created_at'' = Some (JStr (iso_z (w_created_at w)))) out rows"
proof -
  from assms obtain code where code: "resolve_state state = Inr code"
    by (auto simp: list_workflows_def bind_res_eq_Inr)
  let ?conds = "list_where env script since until plan_version code"
  let ?rows = "created_desc (filter (\<lambda>row. list_all (\<lambda>c. c row) ?conds) (left_join_plan db))"
  have out: "out = map list_summary ?rows"
    using assms code by (simp add: list_workflows_def Let_def)
  have "(\<lambda>row. list_all (\<lambda>c. c row) ?conds) = (\<lambda>(w, p).
        text_eq env (w_script_name w) script \<and> ts_ge env (w_created_at w) since \<and>
        ts_le env (w_created_at w) until \<and>
        (\<forall>v. plan_version = Some v \<longrightarrow> (\<exists>q. p = Some q \<and> text_eq env (p_plan_version q) v)) \<and>
        (\<forall>c. code = Some c \<longrightarrow> w_state w = c))"
    by (rule ext) (auto simp: list_where_def split: option.splits)
  then have rows: "mset ?rows = filter_mset (\<lambda>(w, p).
        text_eq env (w_script_name w) script \<and> ts_ge env (w_created_at w) since \<and>
        ts_le env (w_created_at w) until \<and>
        (\<forall>v. plan_version = Some v \<longrightarrow> (\<exists>q. p = Some q \<and> text_eq env (p_plan_version q) v)) \<and>
        (\<forall>c. code = Some c \<longrightarrow> w_state w = c)) (\<Sum>w \<in># mset (tb_workflow db). with_plans db w)"
    by (simp add: mset_left_join)
  have "list_all2 (\<lambda>e (w, p).
        dict_get e ''workflow_id'' = Some (JStr (hex (w_workflow_id w))) \<and>
        dict_get e ''script_name'' = Some (JStr (w_script_name w)) \<and>
        dict_get e ''plan_version'' = Some (case p of None \<Rightarrow> JNull | Some q \<Rightarrow> JStr (p_plan_version q)) \<and>
        dict_get e ''state'' = Some (JInt (w_state w)) \<and>
        dict_get e ''created_at'' = Some (JStr (iso_z (w_created_at w)))) out ?rows"
    unfolding out list.rel_map by (rule list.rel_refl) (auto simp: list_summary_fields split_paired_all)
  with code created_desc_sorted rows out show ?thesis
    unfolding with_plans_def by (intro exI [of _ ?rows] exI [of _ code]) simp
qed

text \<open>An environment for the example: text compared exactly, bounds by their ISO rendering.\<close>

definition ex_env :: sql_env where
  "ex_env = \<lparr>text_eq = (=), ts_ge = (\<lambda>t s. s \<le> iso_z t), ts_le = (\<lambda>t s. iso_z t \<le> s)\<rparr>"

theorem list_workflows_spec_witness:
  "\<exists>rows out. list_workflows ex_env ex_db [112] (iso_z (ex_time 0)) (iso_z (ex_time 59)) None None = Inr out \<and>
     length out = length rows \<and>
     sorted_wrt (\<lambda>a b. w_created_at (fst a) \<ge> w_created_at (fst b)) (rows :: (workflow_row \<times> plan_row option) list)"
proof -
  obtain out where
    "list_workflows ex_env ex_db [112] (iso_z (ex_time 0)) (iso_z (ex_time 59)) None None = Inr out"
    by (simp add: list_workflows_def resolve_state_def)
  with list_workflows_spec [OF this] show ?thesis by blast
qed

text \<open>
  Timestamps can be compared as text: the fixed-width rendering of \<open>_decode_value\<close> puts
  two database timestamps in the same order as the instants, so a client that sorts the
  strings gets the chronology (what the fixed six fractional digits are for).
\<close>

theorem decoded_timestamps_sort:
  assumes "valid_datetime a" and "valid_datetime b"
    and "decode_value (DTime a) = JStr x" and "decode_value (DTime b) = JStr y"
  shows "(x < y \<longleftrightarrow> a < b) \<and> (x = y \<longleftrightarrow> a = b)"
proof -
  have xy: "x = iso_z a" "y = iso_z b" using assms(3,4) by simp_all
  have "a = b" if "iso_z a = iso_z b"
    using iso_z_less [OF assms(1,2)] iso_z_less [OF assms(2,1)] that by (metis less_irrefl linorder_neqE)
  with iso_z_less [OF assms(1,2)] show ?thesis unfolding xy by blast
qed

theorem decoded_timestamps_sort_witness: "iso_z (ex_time 9) < iso_z (ex_time 10)"
proof -
  have "valid_datetime (ex_time 9)" "valid_datetime (ex_time 10)" "ex_time 9 < ex_time 10"
    by (simp_all add: valid_datetime_def ex_time_def less_datetime_def)
  with decoded_timestamps_sort [of "ex_time 9" "ex_time 10"] show ?thesis by simp
qed

text \<open>
  Workflow ids travel as hex and come back: rendering an id and reading it gives the id;
  whatever spelling is accepted (either case, white space between bytes) names a 16-byte id
  whose rendering is accepted as the same id; every other text is a user error, never another
  exception.
\<close>

theorem hex_ids_round_trip:
  "(length b = 16 \<longrightarrow> hex_bytes (hex b) field = Inr b) \<and>
   (case hex_bytes h field of
      Inl e \<Rightarrow> (\<exists>m. e = Mfviz m)
    | Inr b' \<Rightarrow> length b' = 16 \<and> decode_value (DBytes b') = JStr (hex b') \<and> hex_bytes (hex b') field = Inr b')"
  using hex_bytes_eq_Inl [of h field]
  by (auto simp: hex_bytes_hex hex_bytes_eq_Inr split: sum.splits)

theorem hex_ids_round_trip_witness: "hex_bytes ex_root ''workflow_id'' = Inr (ex_id 0xe1)"
  using hex_ids_round_trip [of "ex_id 0xe1" "''workflow_id''" "[]"] by (simp add: ex_root_def ex_id_def)

end
