(* ===== verification/Call_Walk.thy ===== *)
theory Call_Walk
  imports Coord_DB
begin

text \<open>
  The recursive walks over the workflow call graph: \<open>inspect_workflow\<close> (full payload) and
  \<open>tree_workflow\<close> (skeleton).  Both follow one recursion, stated once as the locale
  \<open>call_walk\<close>: an id without a row is an explicit \<open>not_found\<close>, an ancestor met again is a
  \<open>cycle_detected\<close> stub, a child beyond \<open>max_depth\<close> is a \<open>truncated\<close> stub, every other
  child is walked.  The facts proved inside the locale (no child omitted, depth bound, no id
  twice on a path, which ids are expanded) are interpreted for both functions.
\<close>

section \<open>Nodes\<close>

datatype 'a call_node =
    Not_Found str
  | Node str 'a "'a call_node list"
  | Cycle_Detected str
  | Truncated str

fun node_id :: "'a call_node \<Rightarrow> str" where
  "node_id (Not_Found h) = h"
| "node_id (Node h a ns) = h"
| "node_id (Cycle_Detected h) = h"
| "node_id (Truncated h) = h"

text \<open>The nodes of a result that are expanded, with their depth below the root.\<close>

fun expanded :: "nat \<Rightarrow> 'a call_node \<Rightarrow> (str \<times> nat) list" where
  "expanded d (Node h a ns) = (h, d) # concat (map (expanded (Suc d)) ns)"
| "expanded d _ = []"

text \<open>Levels of a result below its root, stubs included.\<close>

fun levels :: "'a call_node \<Rightarrow> nat" where
  "levels (Node h a ns) = foldr (\<lambda>n m. max (Suc (levels n)) m) ns 0"
| "levels _ = 0"

text \<open>Every path from the root downwards meets an id at most once among its expanded nodes.\<close>

fun path_distinct :: "str set \<Rightarrow> 'a call_node \<Rightarrow> bool" where
  "path_distinct anc (Node h a ns) \<longleftrightarrow> h \<notin> anc \<and> list_all (path_distinct (insert h anc)) ns"
| "path_distinct anc (Cycle_Detected h) \<longleftrightarrow> h \<in> anc"
| "path_distinct anc _ \<longleftrightarrow> True"

text \<open>The children of every expanded node are its calls, in order, none omitted.\<close>

fun children_complete :: "(str \<Rightarrow> str list) \<Rightarrow> 'a call_node \<Rightarrow> bool" where
  "children_complete kids (Node h a ns) \<longleftrightarrow>
     map node_id ns = kids h \<and> list_all (children_complete kids) ns"
| "children_complete kids _ \<longleftrightarrow> True"

fun children_listed :: "(str \<Rightarrow> str list \<Rightarrow> bool) \<Rightarrow> 'a call_node \<Rightarrow> bool" where
  "children_listed P (Node h a ns) \<longleftrightarrow> P h (map node_id ns) \<and> list_all (children_listed P) ns"
| "children_listed P _ \<longleftrightarrow> True"

lemma children_complete_listed:
  "children_complete kids n \<Longrightarrow> (\<And>h. P h (kids h)) \<Longrightarrow> children_listed P n"
  by (induction n) (auto simp: list_all_iff)

text \<open>A condition on the ids of a result and one on the data of its expanded nodes.\<close>

fun all_nodes :: "(str \<Rightarrow> bool) \<Rightarrow> ('a \<Rightarrow> bool) \<Rightarrow> 'a call_node \<Rightarrow> bool" where
  "all_nodes I P (Node h a ns) \<longleftrightarrow> I h \<and> P a \<and> list_all (all_nodes I P) ns"
| "all_nodes I P (Not_Found h) \<longleftrightarrow> I h"
| "all_nodes I P (Cycle_Detected h) \<longleftrightarrow> I h"
| "all_nodes I P (Truncated h) \<longleftrightarrow> I h"

lemma levels_le:
  "levels (Node h a ns) \<le> k \<longleftrightarrow> (\<forall>n \<in> set ns. Suc (levels n) \<le> k)"
  by (simp, induction ns) auto

lemma expanded_shift: "expanded d n = map (\<lambda>(h, k). (h, k + d)) (expanded 0 n)"
proof (induction n arbitrary: d)
  case (Node h a ns)
  have "map (expanded (Suc d)) ns = map (map (\<lambda>(h, k). (h, k + d)) \<circ> expanded (Suc 0)) ns"
  proof (rule map_cong [OF refl])
    fix n
    assume n: "n \<in> set ns"
    show "expanded (Suc d) n = (map (\<lambda>(h, k). (h, k + d)) \<circ> expanded (Suc 0)) n"
      using Node.IH [OF n, of "Suc d"] Node.IH [OF n, of "Suc 0"] by (auto simp: comp_def)
  qed
  then show ?case
    by (simp add: map_concat del: map_eq_conv)
qed simp_all

section \<open>The shared recursion\<close>

text \<open>The decision taken for one child of a node.\<close>

definition walk_child ::
    "int \<Rightarrow> (str \<Rightarrow> int \<Rightarrow> str set \<Rightarrow> 'a call_node result) \<Rightarrow> int \<Rightarrow> str set \<Rightarrow> str \<Rightarrow> 'a call_node result"
  where
  "walk_child max_depth walk depth seen child =
     (if child \<in> seen then Inr (Cycle_Detected child)
      else if depth + 1 > max_depth then Inr (Truncated child)
      else walk child (depth + 1) seen)"

lemma walk_child_abs:
  "walk_child max_depth walk depth seen =
     (\<lambda>child. if child \<in> seen then Inr (Cycle_Detected child)
              else if depth + 1 > max_depth then Inr (Truncated child)
              else walk child (depth + 1) seen)"
  by (rule ext) (simp add: walk_child_def)

lemma walk_child_cong [fundef_cong]:
  assumes "max_depth = max_depth'" "depth = depth'" "seen = seen'" "child = child'"
    and "child' \<notin> seen' \<Longrightarrow> \<not> depth' + 1 > max_depth' \<Longrightarrow>
           w child' (depth' + 1) seen' = w' child' (depth' + 1) seen'"
  shows "walk_child max_depth w depth seen child = walk_child max_depth' w' depth' seen' child'"
  using assms by (simp add: walk_child_def)

locale call_walk =
  fixes walk :: "str \<Rightarrow> int \<Rightarrow> str set \<Rightarrow> 'a call_node result"
    and info :: "str \<Rightarrow> 'a option result"
    and kids :: "str \<Rightarrow> str list"
    and max_depth :: int
  assumes walk_eq:
    "walk h depth seen =
       bind_res (info h) (\<lambda>i.
         case i of
           None \<Rightarrow> Inr (Not_Found h)
         | Some a \<Rightarrow>
             bind_res (map_res (walk_child max_depth walk depth (insert h seen)) (kids h)) (\<lambda>ns.
             Inr (Node h a ns)))"
begin

text \<open>Inversion: what a successful walk returned.\<close>

lemma walk_cases:
  assumes "walk h depth seen = Inr n"
  obtains (not_found) "info h = Inr None" "n = Not_Found h"
  | (node) a ns where "info h = Inr (Some a)" "n = Node h a ns"
      "list_all2 (\<lambda>c m. walk_child max_depth walk depth (insert h seen) c = Inr m) (kids h) ns"
  using assms walk_eq [of h depth seen]
  by (auto simp: bind_res_eq_Inr map_res_eq_Inr split: option.splits)

lemma walk_child_id:
  assumes "walk_child max_depth walk depth seen c = Inr m"
  shows "node_id m = c"
  using assms by (auto simp: walk_child_def split: if_splits elim: walk_cases)

text \<open>
  Induction on the depth that is left: a property of results that holds for \<open>Not_Found\<close>
  and is passed from the children to their node holds for every result.
\<close>

lemma walk_induct [consumes 1, case_names not_found node]:
  assumes "walk h depth seen = Inr n"
    and nf: "\<And>h depth seen. info h = Inr None \<Longrightarrow> P h depth seen (Not_Found h)"
    and nd: "\<And>h depth seen a ns. info h = Inr (Some a) \<Longrightarrow>
        list_all2 (\<lambda>c m. walk_child max_depth walk depth (insert h seen) c = Inr m \<and>
          (c \<notin> insert h seen \<and> depth + 1 \<le> max_depth \<longrightarrow> P c (depth + 1) (insert h seen) m)) (kids h) ns \<Longrightarrow>
        P h depth seen (Node h a ns)"
  shows "P h depth seen n"
  using assms(1)
proof (induction "nat (max_depth - depth)" arbitrary: h depth seen n rule: less_induct)
  case less
  from less.prems show ?case
  proof (cases rule: walk_cases)
    case not_found
    with nf show ?thesis by simp
  next
    case (node a ns)
    have "list_all2 (\<lambda>c m. walk_child max_depth walk depth (insert h seen) c = Inr m \<and>
          (c \<notin> insert h seen \<and> depth + 1 \<le> max_depth \<longrightarrow> P c (depth + 1) (insert h seen) m)) (kids h) ns"
    proof (rule list_all2_mono [OF node(3)], intro conjI impI)
      fix c m
      assume m: "walk_child max_depth walk depth (insert h seen) c = Inr m"
      then show "walk_child max_depth walk depth (insert h seen) c = Inr m" .
      assume "c \<notin> insert h seen \<and> depth + 1 \<le> max_depth"
      with m show "P c (depth + 1) (insert h seen) m"
        by (intro less.hyps) (auto simp: walk_child_def)
    qed
    with node nd show ?thesis by simp
  qed
qed

lemma walk_children_complete:
  "walk h depth seen = Inr n \<Longrightarrow> children_complete kids n"
proof (induction rule: walk_induct)
  case (not_found h depth seen)
  show ?case by simp
next
  case (node h depth seen a ns)
  have "map node_id ns = kids h"
    using node(2) by (induction rule: list_all2_induct) (auto simp: walk_child_id)
  moreover have "list_all (children_complete kids) ns"
    using node(2)
    by (induction rule: list_all2_induct) (auto simp: walk_child_def split: if_splits)
  ultimately show ?case by simp
qed

lemma walk_levels:
  "walk h depth seen = Inr n \<Longrightarrow> depth \<le> max_depth \<Longrightarrow> int (levels n) \<le> max_depth - depth + 1"
proof (induction rule: walk_induct)
  case (not_found h depth seen)
  then show ?case by simp
next
  case (node h depth seen a ns)
  have "\<forall>m \<in> set ns. Suc (levels m) \<le> nat (max_depth - depth + 1)"
    using node(2) node.prems
    by (induction rule: list_all2_induct) (auto simp: walk_child_def split: if_splits)
  then have "levels (Node h a ns) \<le> nat (max_depth - depth + 1)"
    by (simp only: levels_le)
  with node.prems show ?case by linarith
qed

lemma walk_path_distinct:
  "walk h depth seen = Inr n \<Longrightarrow> h \<notin> seen \<Longrightarrow> path_distinct seen n"
proof (induction rule: walk_induct)
  case (not_found h depth seen)
  then show ?case by simp
next
  case (node h depth seen a ns)
  have "list_all (path_distinct (insert h seen)) ns"
    using node(2)
    by (induction rule: list_all2_induct) (auto simp: walk_child_def split: if_splits)
  with node.prems show ?case by simp
qed

lemma walk_all_nodes:
  assumes "\<And>h c. c \<in> set (kids h) \<Longrightarrow> I c" and "\<And>h a. info h = Inr (Some a) \<Longrightarrow> P a"
  shows "walk h depth seen = Inr n \<Longrightarrow> I h \<Longrightarrow> all_nodes I P n"
proof (induction rule: walk_induct)
  case (not_found h depth seen)
  then show ?case by simp
next
  case (node h depth seen a ns)
  have "all_nodes I P m" if m: "m \<in> set ns" for m
  proof -
    obtain c where c: "c \<in> set (kids h)" "walk_child max_depth walk depth (insert h seen) c = Inr m"
      "c \<notin> insert h seen \<and> depth + 1 \<le> max_depth \<Longrightarrow> I c \<Longrightarrow> all_nodes I P m"
      using list_all2_mem2 [OF node(2) m] by blast
    with assms(1) [OF c(1)] show ?thesis by (auto simp: walk_child_def split: if_splits)
  qed
  with node assms(2) show ?case by (simp add: list_all_iff)
qed

lemma walk_raises:
  assumes "\<And>h c. c \<in> set (kids h) \<Longrightarrow> I c" and "I h" and "walk h depth seen = Inl e"
  shows "\<exists>g. I g \<and> info g = Inl e"
  using assms(2,3)
proof (induction "nat (max_depth - depth)" arbitrary: h depth seen rule: less_induct)
  case less
  show ?case
  proof (cases "info h = Inl e")
    case False
    with less.prems(2) walk_eq [of h depth seen]
    obtain c where c: "c \<in> set (kids h)" "walk_child max_depth walk depth (insert h seen) c = Inl e"
      by (auto simp: bind_res_eq_Inl split: option.splits dest!: map_res_InlD)
    then have "walk c (depth + 1) (insert h seen) = Inl e" "depth + 1 \<le> max_depth"
      by (auto simp: walk_child_def split: if_splits)
    with assms(1) [OF c(1)] show ?thesis by (intro less.hyps) auto
  qed (use less.prems in blast)
qed

text \<open>The walk raises only what reading a node raises.\<close>

lemma walk_total:
  assumes "\<And>h. (\<exists>b. fromhex h = Some b \<and> length b = 16) \<Longrightarrow> \<exists>i. info h = Inr i"
    and "\<And>h c. c \<in> set (kids h) \<Longrightarrow> \<exists>b. fromhex c = Some b \<and> length b = 16"
    and "\<exists>b. fromhex h = Some b \<and> length b = 16"
  shows "\<exists>n. walk h depth seen = Inr n"
  using assms(3)
proof (induction "nat (max_depth - depth)" arbitrary: h depth seen rule: less_induct)
  case less
  from assms(1) [OF less.prems] obtain i where i: "info h = Inr i" by blast
  have "\<exists>ns. map_res (walk_child max_depth walk depth (insert h seen)) (kids h) = Inr ns"
  proof (rule map_res_total)
    fix c
    assume "c \<in> set (kids h)"
    then have "\<exists>b. fromhex c = Some b \<and> length b = 16" by (rule assms(2))
    then show "\<exists>m. walk_child max_depth walk depth (insert h seen) c = Inr m"
      using less.hyps [of "depth + 1" c "insert h seen"] by (auto simp: walk_child_def)
  qed
  with i show ?case
    by (subst walk_eq) (auto split: option.splits)
qed

end

text \<open>
  Simple call chains: \<open>chain kids h cs\<close> holds when \<open>cs\<close> lists the ids met going down from
  \<open>h\<close>, each a call of the one before; \<open>call_chain\<close> adds that no id repeats, none is in
  \<open>seen\<close>, and every one has a row.
\<close>

fun chain :: "(str \<Rightarrow> str list) \<Rightarrow> str \<Rightarrow> str list \<Rightarrow> bool" where
  "chain kids h [] = True"
| "chain kids h (c # cs) = (c \<in> set (kids h) \<and> chain kids c cs)"

definition call_chain ::
    "(str \<Rightarrow> 'a option result) \<Rightarrow> (str \<Rightarrow> str list) \<Rightarrow> str set \<Rightarrow> str \<Rightarrow> str list \<Rightarrow> bool" where
  "call_chain info kids seen h cs \<longleftrightarrow>
     chain kids h cs \<and> distinct (h # cs) \<and> set cs \<inter> seen = {} \<and>
     (\<forall>c \<in> set (h # cs). \<exists>a. info c = Inr (Some a))"

lemma call_chain_Nil: "call_chain info kids seen h [] \<longleftrightarrow> (\<exists>a. info h = Inr (Some a))"
  by (simp add: call_chain_def)

lemma call_chain_Cons:
  "call_chain info kids seen h (c # cs) \<longleftrightarrow>
     (\<exists>a. info h = Inr (Some a)) \<and> c \<in> set (kids h) \<and> c \<notin> insert h seen \<and>
     call_chain info kids (insert h seen) c cs"
  by (auto simp: call_chain_def)

text \<open>
  Soundness and completeness of the expansion: exactly the ids that end a simple call chain
  no longer than the depth that is left.
\<close>

context call_walk
begin

lemma walk_Node:
  "walk h depth seen = Inr (Node g a ns) \<Longrightarrow> g = h \<and> info h = Inr (Some a)"
  by (auto elim: walk_cases)

lemma walk_expanded_sound:
  "walk h depth seen = Inr n \<Longrightarrow> (x, k) \<in> set (expanded 0 n) \<Longrightarrow>
     \<exists>cs. call_chain info kids seen h cs \<and> last (h # cs) = x \<and> length cs = k \<and>
       (cs \<noteq> [] \<longrightarrow> depth + int k \<le> max_depth)"
proof (induction arbitrary: k rule: walk_induct)
  case (not_found h depth seen)
  then show ?case by simp
next
  case (node h depth seen a ns)
  show ?case
  proof (cases "(x, k) = (h, 0)")
    case True
    with node(1) show ?thesis by (auto simp: call_chain_Nil intro!: exI [of _ "[]"])
  next
    case False
    with node.prems obtain m where m: "m \<in> set ns" and mk: "(x, k) \<in> set (expanded (Suc 0) m)"
      by auto
    from mk obtain k' where k: "k = Suc k'" and xk: "(x, k') \<in> set (expanded 0 m)"
      by (subst (asm) expanded_shift) auto
    from list_all2_mem2 [OF node(2) m] obtain c where c: "c \<in> set (kids h)"
      and wc: "walk_child max_depth walk depth (insert h seen) c = Inr m"
      and IH: "c \<notin> insert h seen \<and> depth + 1 \<le> max_depth \<longrightarrow>
        (\<forall>k. (x, k) \<in> set (expanded 0 m) \<longrightarrow>
          (\<exists>cs. call_chain info kids (insert h seen) c cs \<and> last (c # cs) = x \<and> length cs = k \<and>
            (cs \<noteq> [] \<longrightarrow> depth + 1 + int k \<le> max_depth)))"
      by auto
    from wc xk have ok: "c \<notin> insert h seen" "depth + 1 \<le> max_depth"
      by (auto simp: walk_child_def split: if_splits)
    with IH xk obtain cs where "call_chain info kids (insert h seen) c cs" "last (c # cs) = x"
      "length cs = k'" "cs \<noteq> [] \<longrightarrow> depth + 1 + int k' \<le> max_depth"
      by blast
    with c ok k node(1) show ?thesis
      by (intro exI [of _ "c # cs"]) (auto simp: call_chain_Cons)
  qed
qed

lemma walk_expanded_complete:
  assumes "walk h depth seen = Inr n" and "call_chain info kids seen h cs"
    and "depth + int (length cs) \<le> max_depth"
  shows "(last (h # cs), length cs) \<in> set (expanded 0 n)"
  using assms
proof (induction cs arbitrary: h depth seen n)
  case Nil
  from Nil.prems(1) show ?case
    using Nil.prems(2) by (cases rule: walk_cases) (auto simp: call_chain_Nil)
next
  case (Cons c cs)
  from Cons.prems(1) Cons.prems(2) obtain a ns where n: "n = Node h a ns"
    and ns: "list_all2 (\<lambda>c m. walk_child max_depth walk depth (insert h seen) c = Inr m) (kids h) ns"
    by (cases rule: walk_cases) (auto simp: call_chain_Cons)
  from Cons.prems(2) have c: "c \<in> set (kids h)" "c \<notin> insert h seen"
    "call_chain info kids (insert h seen) c cs"
    by (auto simp: call_chain_Cons)
  obtain m where m: "m \<in> set ns"
    and wc: "walk_child max_depth walk depth (insert h seen) c = Inr m"
    using list_all2_mem1 [OF ns c(1)] by blast
  have "walk c (depth + 1) (insert h seen) = Inr m"
    using wc c(2) Cons.prems(3) by (auto simp: walk_child_def split: if_splits)
  then have "(last (c # cs), length cs) \<in> set (expanded 0 m)"
    by (rule Cons.IH) (use Cons.prems(3) c(3) in auto)
  then have "(last (c # cs), Suc (length cs)) \<in> set (expanded (Suc 0) m)"
    by (subst expanded_shift) force
  with m n show ?case by auto
qed

end

text \<open>
  Two walks of the same calls, the second able to read every node the first can: where the
  first returns, the second returns a result of the same shape.
\<close>

abbreviation skeleton :: "'a call_node \<Rightarrow> unit call_node" where
  "skeleton \<equiv> map_call_node (\<lambda>_. ())"

locale walk_pair =
  fst: call_walk walk1 info1 kids max_depth + snd: call_walk walk2 info2 kids max_depth
  for walk1 :: "str \<Rightarrow> int \<Rightarrow> str set \<Rightarrow> 'a call_node result"
    and info1 :: "str \<Rightarrow> 'a option result"
    and walk2 :: "str \<Rightarrow> int \<Rightarrow> str set \<Rightarrow> 'b call_node result"
    and info2 :: "str \<Rightarrow> 'b option result"
    and kids :: "str \<Rightarrow> str list"
    and max_depth :: int +
  assumes reads: "info1 h = Inr i \<Longrightarrow> \<exists>j. info2 h = Inr j \<and> (j = None \<longleftrightarrow> i = None)"
begin

lemma same_shape:
  "walk1 h depth seen = Inr n \<Longrightarrow> \<exists>t. walk2 h depth seen = Inr t \<and> skeleton t = skeleton n"
proof (induction rule: fst.walk_induct)
  case (not_found h depth seen)
  from reads [OF not_found] show ?case
    by (subst snd.walk_eq) auto
next
  case (node h depth seen a ns)
  have "\<exists>ts. map_res (walk_child max_depth walk2 depth (insert h seen)) (kids h) = Inr ts \<and>
      map skeleton ts = map skeleton ns"
    using node(2)
  proof (induction rule: list_all2_induct)
    case Nil
    then show ?case by simp
  next
    case (Cons c cs m ms)
    have "\<exists>t. walk_child max_depth walk2 depth (insert h seen) c = Inr t \<and> skeleton t = skeleton m"
      using Cons(1) by (auto simp: walk_child_def split: if_splits)
    with Cons.IH show ?case
      by auto
  qed
  with reads [OF node(1)] show ?case
    by (subst snd.walk_eq) auto
qed

end

end
