(* ===== verification/Inspect.thy ===== *)
theory Inspect
  imports Call_Walk Fixture "HOL-Library.Multiset"
begin

text \<open>
  \<open>inspect_workflow\<close> and \<open>tree_workflow\<close> of \<open>mfviz/dbq.py\<close>, as written, and their
  interpretation as walks: both discharge the equation of the locale \<open>call_walk\<close>, so the
  facts about what is shown, how deep and how often hold for both.
\<close>

section \<open>Full inspection\<close>

record inspect_info =
  i_workflow :: jrow
  i_plan :: "jrow option"
  i_args :: "jrow option"
  i_operations :: "jrow list"
  i_calls :: "jrow list"
  i_checkpoints :: "jrow list"
  i_events :: "jrow list"

text \<open>\<open>call["child_workflow_id"]\<close> of a decoded call row, used as a string.\<close>

definition jrow_str :: "jrow \<Rightarrow> string \<Rightarrow> str result" where
  "jrow_str r key =
     (case dict_get r key of
        None \<Rightarrow> Inl (Key_Error (lit key))
      | Some (JStr s) \<Rightarrow> Inr s
      | Some _ \<Rightarrow> Inl Type_Error)"

function inspect_workflow ::
    "(str \<Rightarrow> json result) \<Rightarrow> database \<Rightarrow> int \<Rightarrow> str \<Rightarrow> int \<Rightarrow> str set \<Rightarrow> inspect_info call_node result"
  where
  "inspect_workflow loads db max_depth h depth seen =
     bind_res (hex_bytes h ''workflow_id'') (\<lambda>wid.
     bind_res (fetch_workflow loads db wid) (\<lambda>found.
     case found of
       None \<Rightarrow> Inr (Not_Found h)
     | Some workflow \<Rightarrow>
         bind_res (fetch_args loads db wid) (\<lambda>args.
         bind_res (fetch_operations loads db wid) (\<lambda>operations.
         bind_res (fetch_checkpoints loads db wid) (\<lambda>checkpoints.
         bind_res (fetch_events loads db wid) (\<lambda>events.
           let calls = fetch_calls db wid;
               node = \<lparr>i_workflow = workflow, i_plan = fetch_plan db wid, i_args = args,
                       i_operations = operations, i_calls = calls,
                       i_checkpoints = checkpoints, i_events = events\<rparr>;
               seen' = insert h seen
           in bind_res
                (map_res (\<lambda>call.
                   bind_res (jrow_str call ''child_workflow_id'') (\<lambda>child.
                     if child \<in> seen' then Inr (Cycle_Detected child)
                     else if depth + 1 > max_depth then Inr (Truncated child)
                     else inspect_workflow loads db max_depth child (depth + 1) seen')) calls)
                (\<lambda>children. Inr (Node h node children))))))))"
  by pat_completeness auto
termination
  by (relation "measure (\<lambda>(loads, db, max_depth, h, depth, seen). nat (max_depth - depth))") auto

declare inspect_workflow.simps [simp del]

section \<open>The call tree\<close>

record tree_info =
  t_parent_workflow_id :: "str option"
  t_depth :: int
  t_script_name :: str
  t_state :: int
  t_state_name :: "string option"
  t_current_disposition :: int
  t_terminal_reason :: "str option"

text \<open>
  \<open>_fetch_workflow_skeleton\<close> projects the row on the columns the tree and stuck walks read;
  the projection is left to the fields they use.
\<close>

definition fetch_workflow_skeleton :: "database \<Rightarrow> bytes \<Rightarrow> workflow_row option" where
  "fetch_workflow_skeleton db wid = select_workflow db wid"

definition tree_info_of :: "workflow_row \<Rightarrow> tree_info" where
  "tree_info_of row =
     \<lparr>t_parent_workflow_id = map_option hex (w_parent_workflow_id row),
      t_depth = (case w_call_depth row of None \<Rightarrow> 0 | Some d \<Rightarrow> d),
      t_script_name = w_script_name row,
      t_state = w_state row,
      t_state_name = dict_get STATE_NAMES (w_state row),
      t_current_disposition = w_current_disposition row,
      t_terminal_reason = w_terminal_reason row\<rparr>"

function tree_workflow ::
    "database \<Rightarrow> int \<Rightarrow> str \<Rightarrow> int \<Rightarrow> str set \<Rightarrow> tree_info call_node result"
  where
  "tree_workflow db max_depth h depth seen =
     bind_res (hex_bytes h ''workflow_id'') (\<lambda>wid.
     case fetch_workflow_skeleton db wid of
       None \<Rightarrow> Inr (Not_Found h)
     | Some row \<Rightarrow>
         let seen' = insert h seen
         in bind_res
              (map_res (\<lambda>(seq, child).
                 if child \<in> seen' then Inr (Cycle_Detected child)
                 else if depth + 1 > max_depth then Inr (Truncated child)
                 else tree_workflow db max_depth child (depth + 1) seen') (fetch_child_ids db wid))
              (\<lambda>children. Inr (Node h (tree_info_of row) children)))"
  by pat_completeness auto
termination
  by (relation "measure (\<lambda>(db, max_depth, h, depth, seen). nat (max_depth - depth))") auto

declare tree_workflow.simps [simp del]

section \<open>Both are walks\<close>

definition child_ids :: "database \<Rightarrow> str \<Rightarrow> str list" where
  "child_ids db h = (case fromhex h of None \<Rightarrow> [] | Some wid \<Rightarrow> map snd (fetch_child_ids db wid))"

text \<open>What a node shows, \<open>None\<close> when the id has no row.\<close>

definition inspect_node :: "(str \<Rightarrow> json result) \<Rightarrow> database \<Rightarrow> str \<Rightarrow> inspect_info option result" where
  "inspect_node loads db h =
     bind_res (hex_bytes h ''workflow_id'') (\<lambda>wid.
     bind_res (fetch_workflow loads db wid) (\<lambda>found.
     case found of
       None \<Rightarrow> Inr None
     | Some workflow \<Rightarrow>
         bind_res (fetch_args loads db wid) (\<lambda>args.
         bind_res (fetch_operations loads db wid) (\<lambda>operations.
         bind_res (fetch_checkpoints loads db wid) (\<lambda>checkpoints.
         bind_res (fetch_events loads db wid) (\<lambda>events.
           Inr (Some \<lparr>i_workflow = workflow, i_plan = fetch_plan db wid, i_args = args,
                       i_operations = operations, i_calls = fetch_calls db wid,
                       i_checkpoints = checkpoints, i_events = events\<rparr>)))))))"

definition tree_node :: "database \<Rightarrow> str \<Rightarrow> tree_info option result" where
  "tree_node db h =
     bind_res (hex_bytes h ''workflow_id'') (\<lambda>wid.
       Inr (map_option tree_info_of (fetch_workflow_skeleton db wid)))"

lemma snd_fetch_child_ids: "map snd (fetch_child_ids db wid) =
    map (\<lambda>r. hex (c_child_workflow_id r)) (select_calls db wid)"
  by (simp add: fetch_child_ids_calls)

lemma child_ids_hex: "c \<in> set (child_ids db h) \<Longrightarrow> \<exists>r \<in> set (tb_call db). c = hex (c_child_workflow_id r)"
  by (auto simp: child_ids_def set_fetch_child_ids split: option.splits)

lemma map_res_map: "map_res f (map g xs) = map_res (\<lambda>x. f (g x)) xs"
  by (induction xs) simp_all

lemma map_res_fetch_calls:
  "map_res (\<lambda>call. bind_res (jrow_str call ''child_workflow_id'') f) (fetch_calls db wid) =
   map_res f (map snd (fetch_child_ids db wid))"
  by (simp add: fetch_calls_def snd_fetch_child_ids map_res_map jrow_str_def del: dict_get_decode_cols)

lemma map_res_fetch_child_ids:
  "map_res (\<lambda>(seq, child). f child) (fetch_child_ids db wid) = map_res f (map snd (fetch_child_ids db wid))"
  by (simp add: map_res_map case_prod_unfold)

interpretation inspect: call_walk
  "inspect_workflow loads db max_depth" "inspect_node loads db" "child_ids db" max_depth
  for loads db max_depth
proof
  fix h depth seen
  show "inspect_workflow loads db max_depth h depth seen =
    bind_res (inspect_node loads db h) (\<lambda>i. case i of None \<Rightarrow> Inr (Not_Found h)
      | Some a \<Rightarrow> bind_res (map_res (walk_child max_depth (inspect_workflow loads db max_depth)
          depth (insert h seen)) (child_ids db h)) (\<lambda>ns. Inr (Node h a ns)))"
    by (subst inspect_workflow.simps, cases "fromhex h")
       (simp_all add: inspect_node_def Let_def map_res_fetch_calls child_ids_def walk_child_abs
          hex_bytes_def bind_res_assoc bind_res_case_option cong: option.case_cong)
qed

interpretation tree: call_walk
  "tree_workflow db max_depth" "tree_node db" "child_ids db" max_depth
  for db max_depth
proof
  fix h depth seen
  show "tree_workflow db max_depth h depth seen =
    bind_res (tree_node db h) (\<lambda>i. case i of None \<Rightarrow> Inr (Not_Found h)
      | Some a \<Rightarrow> bind_res (map_res (walk_child max_depth (tree_workflow db max_depth)
          depth (insert h seen)) (child_ids db h)) (\<lambda>ns. Inr (Node h a ns)))"
    by (subst tree_workflow.simps, cases "fromhex h")
       (simp_all add: tree_node_def Let_def map_res_fetch_child_ids child_ids_def
          walk_child_abs hex_bytes_def split: option.split)
qed

section \<open>The calls of a workflow, read off the tables\<close>

text \<open>
  What the walks should see, without their queries: \<open>calls db h c\<close> when a row of \<open>tb_mf_call\<close> has
  \<open>h\<close> as its workflow and \<open>c\<close> as its child, \<open>stored db h\<close> when \<open>tb_mf_workflow\<close> has a row of
  \<open>h\<close>, and \<open>lists_calls db h cs\<close> when \<open>cs\<close> are the children of all rows of \<open>h\<close>, by rising
  operation number.
\<close>

definition calls :: "database \<Rightarrow> str \<Rightarrow> str \<Rightarrow> bool" where
  "calls db h c \<longleftrightarrow>
     (\<exists>r \<in> set (tb_call db). fromhex h = Some (c_workflow_id r) \<and> c = hex (c_child_workflow_id r))"

definition in_store :: "database \<Rightarrow> str \<Rightarrow> bool" where
  "in_store db h \<longleftrightarrow> 
     (\<exists>w \<in> set (tb_workflow db). fromhex h = Some (w_workflow_id w) \<and> length (w_workflow_id w) = 16)"

definition lists_calls :: "database \<Rightarrow> str \<Rightarrow> str list \<Rightarrow> bool" where
  "lists_calls db h cs \<longleftrightarrow>
     (\<exists>rows. mset rows = {#r \<in># mset (tb_call db). fromhex h = Some (c_workflow_id r)#} \<and>
        sorted (map c_operation_seq rows) \<and> cs = map (\<lambda>r. hex (c_child_workflow_id r)) rows)"

lemma calls_child_ids: "c \<in> set (child_ids db h) \<longleftrightarrow> calls db h c"
proof (cases "fromhex h")
  case (Some wid)
  then have "calls db h c \<longleftrightarrow> (\<exists>r \<in> set (tb_call db). c_workflow_id r = wid \<and> c = hex (c_child_workflow_id r))"
    unfolding calls_def by auto
  with Some show ?thesis by (auto simp: child_ids_def set_fetch_child_ids image_image)
qed (simp add: child_ids_def calls_def)

lemma child_ids_listed: "lists_calls db h (child_ids db h)"
proof (cases "fromhex h")
  case None
  then show ?thesis by (simp add: lists_calls_def child_ids_def)
next
  case (Some wid)
  have "mset (select_calls db wid) = {#r \<in># mset (tb_call db). fromhex h = Some (c_workflow_id r)#}"
    by (simp add: select_calls_def Some eq_commute)
  moreover have "sorted (map c_operation_seq (select_calls db wid))" by (simp add: select_calls_def)
  ultimately show ?thesis
    using Some by (auto simp: lists_calls_def child_ids_def snd_fetch_child_ids)
qed

lemma chain_calls: "chain (child_ids db) h cs \<longleftrightarrow> successively (calls db) (h # cs)"
  by (induction cs arbitrary: h) (simp_all add: calls_child_ids)

lemma tree_node_stored: "(\<exists>a. tree_node db h = Inr (Some a)) \<longleftrightarrow> in_store db h"
proof -
  have "(\<exists>r. select_workflow db wid = Some r) \<longleftrightarrow> (\<exists>w \<in> set (tb_workflow db). w_workflow_id w = wid)" for wid
    unfolding select_workflow_def not_None_eq [symmetric] find_None_iff by blast
  then show ?thesis
    by (auto simp: tree_node_def in_store_def fetch_workflow_skeleton_def hex_bytes_def split: option.splits)
qed

section \<open>Properties of the walks\<close>

text \<open>
  Child ids of calls are whole workflow ids, which the foreign key of \<open>tb_mf_call\<close> to
  \<open>tb_mf_workflow\<close> gives for every row the coordinator writes.
\<close>

definition call_ids_ok :: "database \<Rightarrow> bool" where
  "call_ids_ok db \<longleftrightarrow> list_all (\<lambda>r. length (c_child_workflow_id r) = 16) (tb_call db)"

lemma child_ids_ok:
  "call_ids_ok db \<Longrightarrow> c \<in> set (child_ids db h) \<Longrightarrow> \<exists>b. fromhex c = Some b \<and> length b = 16"
  by (auto simp: call_ids_ok_def list_all_iff dest!: child_ids_hex)

interpretation inspect_tree: walk_pair
  "inspect_workflow loads db max_depth" "inspect_node loads db"
  "tree_workflow db max_depth" "tree_node db" "child_ids db" max_depth
  for loads db max_depth
proof
  fix h i
  assume "inspect_node loads db h = Inr i"
  then obtain wid found where wid: "hex_bytes h ''workflow_id'' = Inr wid"
    and found: "fetch_workflow loads db wid = Inr found" and i: "i = None \<longleftrightarrow> found = None"
    by (auto simp: inspect_node_def bind_res_eq_Inr split: option.splits)
  from found have "select_workflow db wid = None \<longleftrightarrow> found = None"
    using fetch_workflow_None [of loads db wid] by auto
  with wid i show "\<exists>j. tree_node db h = Inr j \<and> (j = None \<longleftrightarrow> i = None)"
    by (simp add: tree_node_def fetch_workflow_skeleton_def)
qed

lemma inspect_node_total:
  assumes "documents_ok loads db" and "\<exists>b. fromhex h = Some b \<and> length b = 16"
  shows "\<exists>i. inspect_node loads db h = Inr i"
proof -
  from assms(2) obtain b where b: "hex_bytes h ''workflow_id'' = Inr b"
    by (auto simp: res_simps)
  show ?thesis
    using fetch_workflow_total [OF assms(1), of b] fetch_args_total [OF assms(1), of b]
      fetch_operations_total [OF assms(1), of b] fetch_checkpoints_total [OF assms(1), of b]
      fetch_events_total [OF assms(1), of b]
    by (auto simp: inspect_node_def b split: option.splits)
qed

lemma inspect_total:
  assumes "documents_ok loads db" and "call_ids_ok db"
    and "\<exists>b. fromhex h = Some b \<and> length b = 16"
  shows "\<exists>n. inspect_workflow loads db max_depth h depth seen = Inr n"
  by (rule inspect.walk_total)
     (use assms in \<open>auto intro: inspect_node_total child_ids_ok\<close>)

lemma tree_total:
  assumes "call_ids_ok db" and "\<exists>b. fromhex h = Some b \<and> length b = 16"
  shows "\<exists>n. tree_workflow db max_depth h depth seen = Inr n"
  by (rule tree.walk_total)
     (use assms in \<open>auto simp: tree_node_def res_simps intro: child_ids_ok\<close>)

lemma ex_call_ids_ok: "call_ids_ok ex_db"
  by (simp add: call_ids_ok_def ex_db_def ex_call_def ex_id_def)

lemma ex_root_ok: "\<exists>b. fromhex ex_root = Some b \<and> length b = 16"
  by (simp add: ex_root_def ex_id_def)

lemmas ex_inspect = inspect_total [OF ex_documents_ok ex_call_ids_ok ex_root_ok]
lemmas ex_tree = tree_total [OF ex_call_ids_ok ex_root_ok]

text \<open>
  C1. Nothing is silently omitted: in a successful inspection every expanded node lists
  exactly its calls, in operation order, each as an expanded child, a not-found entry or an
  explicit stub; and those calls are all the rows the call table has for the workflow.
\<close>

theorem inspect_omits_nothing:
  assumes "inspect_workflow loads db max_depth h 0 {} = Inr n"
  shows "children_complete (child_ids db) n \<and> children_listed (lists_calls db) n"
  using inspect.walk_children_complete [OF assms] children_complete_listed child_ids_listed by blast

theorem inspect_omits_nothing_witness:
  "\<exists>n. inspect_workflow ex_loads ex_db 1 ex_root 0 {} = Inr n \<and>
     children_complete (child_ids ex_db) n \<and> children_listed (lists_calls ex_db) n"
  using ex_inspect inspect_omits_nothing by blast

text \<open>
  C2. What is expanded is exactly what the tables and the depth limit say: an id appears
  expanded at depth k below the root iff a chain of k rows of the call table, through workflows
  that have a row and without repeating an id, leads from the requested workflow to it, with k
  at most \<open>max_depth\<close>; and every expanded node has one entry for every call row of its workflow,
  by rising operation number.
\<close>

theorem tree_expands_exactly:
  assumes "tree_workflow db max_depth h 0 {} = Inr n" and "0 \<le> max_depth"
  shows "((x, k) \<in> set (expanded 0 n) \<longleftrightarrow>
      (\<exists>cs. successively (calls db) (h # cs) \<and> distinct (h # cs) \<and> (\<forall>c \<in> set (h # cs). in_store db c) \<and>
          last (h # cs) = x \<and> length cs = k \<and> int k \<le> max_depth)) \<and>
    children_listed (lists_calls db) n"
proof -
  have "call_chain (tree_node db) (child_ids db) {} h cs \<longleftrightarrow>
      successively (calls db) (h # cs) \<and> distinct (h # cs) \<and> (\<forall>c \<in> set (h # cs). in_store db c)" for cs
    by (auto simp: call_chain_def chain_calls tree_node_stored)
  moreover have "(x, k) \<in> set (expanded 0 n) \<longleftrightarrow>
      (\<exists>cs. call_chain (tree_node db) (child_ids db) {} h cs \<and> last (h # cs) = x \<and> length cs = k \<and> int k \<le> max_depth)"
    using tree.walk_expanded_sound [OF assms(1)] tree.walk_expanded_complete [OF assms(1)] assms(2) by fastforce
  moreover have "children_listed (lists_calls db) n"
    using tree.walk_children_complete [OF assms(1)] children_complete_listed child_ids_listed by blast
  ultimately show ?thesis by auto
qed

theorem tree_expands_exactly_witness:
  "\<exists>n. tree_workflow ex_db 1 ex_root 0 {} = Inr n \<and> children_listed (lists_calls ex_db) n \<and>
     ((hex (ex_id 0xe3), 1) \<in> set (expanded 0 n) \<longleftrightarrow>
       (\<exists>cs. successively (calls ex_db) (ex_root # cs) \<and> distinct (ex_root # cs) \<and>
             (\<forall>c \<in> set (ex_root # cs). in_store ex_db c) \<and>
             last (ex_root # cs) = hex (ex_id 0xe3) \<and> length cs = 1))"
proof -
  obtain n where n: "tree_workflow ex_db 1 ex_root 0 {} = Inr n"
    using ex_tree by blast
  with tree_expands_exactly [OF n, of "hex (ex_id 0xe3)" 1] show ?thesis
    by auto
qed

text \<open>
  C3. Cyclic call data cannot make the walk repeat itself or run away: along every path of a
  result no id is expanded twice, a cycle stub names an ancestor, and the result, stubs
  included, has at most \<open>max_depth + 1\<close> levels below its root.
\<close>

theorem inspect_bounded:
  assumes "inspect_workflow loads db max_depth h 0 {} = Inr n" and "0 \<le> max_depth"
  shows "path_distinct {} n \<and> int (levels n) \<le> max_depth + 1"
  using inspect.walk_path_distinct [OF assms(1)] inspect.walk_levels [OF assms(1)] assms(2)
  by simp

theorem inspect_bounded_witness:
  "\<exists>n. inspect_workflow ex_loads ex_db 1 ex_root 0 {} = Inr n \<and> path_distinct {} n \<and> int (levels n) \<le> 2"
proof -
  obtain n where n: "inspect_workflow ex_loads ex_db 1 ex_root 0 {} = Inr n"
    using ex_inspect by blast
  with inspect_bounded [OF n] show ?thesis by auto
qed

text \<open>
  C4. The tree endpoint shows the shape of the full inspection: where the inspection
  returns, the tree returns, with the same nodes, stubs and not-found entries in the same
  places.
\<close>

theorem tree_same_shape_as_inspect:
  assumes "inspect_workflow loads db max_depth h 0 {} = Inr n"
  shows "\<exists>t. tree_workflow db max_depth h 0 {} = Inr t \<and> skeleton t = skeleton n"
  using assms by (rule inspect_tree.same_shape)

theorem tree_same_shape_as_inspect_witness:
  "\<exists>n t. inspect_workflow ex_loads ex_db 1 ex_root 0 {} = Inr n \<and>
     tree_workflow ex_db 1 ex_root 0 {} = Inr t \<and> skeleton t = skeleton n"
  using ex_inspect tree_same_shape_as_inspect [of ex_loads ex_db 1 ex_root] by blast

text \<open>
  C5. The inspection of a well-formed id returns: when every stored document is valid JSON
  and every call names a whole workflow id, \<open>inspect_workflow\<close> raises nothing, whatever the
  shape of the call graph, cycles included.
\<close>

theorem inspect_returns:
  assumes "documents_ok loads db" and "call_ids_ok db"
    and "fromhex h = Some b" and "length b = 16"
  shows "\<exists>n. inspect_workflow loads db max_depth h 0 {} = Inr n"
  using assms by (auto intro: inspect_total)

theorem inspect_returns_witness:
  "\<exists>n. inspect_workflow ex_loads ex_db 10 ex_root 0 {} = Inr n"
  by (rule inspect_returns [of ex_loads ex_db ex_root "ex_id 0xe1"])
     (simp_all add: ex_documents_ok ex_call_ids_ok ex_id_def ex_root_def)

end
