(* ===== verification/Timeline.thy ===== *)
theory Timeline
  imports Inspect "HOL-Library.Multiset"
begin

text \<open>
  \<open>_collect_tree_nodes\<close> and \<open>timeline_workflow\<close> of \<open>mfviz/dbq.py\<close>: the merged event history
  of a call tree.  The properties fix which events appear and in what order, when the
  timeline returns, and the one well-formed request on which it raises: an id spelled with
  an upper-case digit.
\<close>

section \<open>The nodes of a tree\<close>

text \<open>The flattened walk, \<open>{hex: {depth, script_name}}\<close>; stubs are skipped.\<close>

fun collect_nodes :: "int \<Rightarrow> tree_info call_node \<Rightarrow> (str, int \<times> str) dict \<Rightarrow> (str, int \<times> str) dict" where
  "collect_nodes depth (Node h a ns) nodes =
     fold (collect_nodes (depth + 1)) ns (dict_set h (depth, t_script_name a) nodes)"
| "collect_nodes depth _ nodes = nodes"

definition collect_tree_nodes ::
    "database \<Rightarrow> int \<Rightarrow> str \<Rightarrow> (tree_info call_node \<times> (str, int \<times> str) dict) result" where
  "collect_tree_nodes db max_depth h =
     bind_res (tree_workflow db max_depth h 0 {}) (\<lambda>root. Inr (root, collect_nodes 0 root []))"

lemma fold_dict_keys:
  assumes "\<And>n nodes. n \<in> set ns \<Longrightarrow> fst ` set (f n nodes) = ids n \<union> fst ` set nodes"
  shows "fst ` set (fold f ns nodes) = (\<Union>n \<in> set ns. ids n) \<union> fst ` set nodes"
  using assms by (induction ns arbitrary: nodes) auto

lemma collect_nodes_keys:
  "fst ` set (collect_nodes depth n nodes) = fst ` set (expanded k n) \<union> fst ` set nodes"
proof (induction n arbitrary: depth k nodes)
  case (Node h a ns)
  have "fst ` set (fold (collect_nodes (depth + 1)) ns (dict_set h (depth, t_script_name a) nodes)) =
      (\<Union>n \<in> set ns. fst ` set (expanded (Suc k) n)) \<union>
      fst ` set (dict_set h (depth, t_script_name a) nodes)"
    by (rule fold_dict_keys) (rule Node.IH)
  then show ?case
    by (simp add: image_UN)
qed simp_all

section \<open>The timeline\<close>

datatype timeline =
    Timeline_Not_Found str
  | Timeline (tl_workflow_id: str) (tl_workflows: "(str, int \<times> str) dict") (tl_events: "jrow list")

definition timeline_entry ::
    "(str \<Rightarrow> json result) \<Rightarrow> (str, int \<times> str) dict \<Rightarrow> event_row \<Rightarrow> jrow result" where
  "timeline_entry loads nodes r =
     bind_res (decode_json_field loads (Some (event_cols r)) ''payload'') (\<lambda>p.
       let d = dict_set ''payload'' p (decode_cols (event_cols r))
       in bind_res (jrow_str d ''workflow_id'') (\<lambda>w.
          bind_res (option_res (Key_Error w) (dict_get nodes w)) (\<lambda>(depth, script).
          Inr (dict_set ''script_name'' (JStr script) (dict_set ''depth'' (JInt depth) d)))))"

definition timeline_workflow ::
    "(str \<Rightarrow> json result) \<Rightarrow> database \<Rightarrow> int \<Rightarrow> str \<Rightarrow> timeline result" where
  "timeline_workflow loads db max_depth h =
     bind_res (collect_tree_nodes db max_depth h) (\<lambda>(root, nodes).
     case root of
       Not_Found h' \<Rightarrow> Inr (Timeline_Not_Found h')
     | _ \<Rightarrow>
         bind_res (map_res (\<lambda>k. option_res (Value_Error k) (fromhex k)) (map fst nodes)) (\<lambda>id_bytes.
         bind_res (map_res (timeline_entry loads nodes) (select_events_of db id_bytes)) (\<lambda>events.
         Inr (Timeline h nodes events))))"

section \<open>Which ids a tree shows\<close>

definition tree_ids :: "tree_info call_node \<Rightarrow> str set" where
  "tree_ids root = fst ` set (expanded 0 root)"

lemma chain_last: "chain kids h cs \<Longrightarrow> cs \<noteq> [] \<Longrightarrow> \<exists>g. last cs \<in> set (kids g)"
proof (induction cs arbitrary: h)
  case Nil
  then show ?case by simp
next
  case (Cons c cs)
  then show ?case by (cases "cs = []") auto
qed

text \<open>Every id below the root is stored in a call row, hence in lower case.\<close>

lemma tree_ids_cases:
  assumes "tree_workflow db max_depth h 0 {} = Inr n" and "x \<in> tree_ids n"
  shows "x = h \<or> (\<exists>r \<in> set (tb_call db). x = hex (c_child_workflow_id r))"
proof -
  from assms(2) obtain k where "(x, k) \<in> set (expanded 0 n)"
    by (auto simp: tree_ids_def)
  from tree.walk_expanded_sound [OF assms(1) this] obtain cs where
    "call_chain (tree_node db) (child_ids db) {} h cs" and x: "last (h # cs) = x"
    by blast
  then have "chain (child_ids db) h cs" by (simp add: call_chain_def)
  with x show ?thesis
    by (cases "cs = []") (auto dest!: chain_last child_ids_hex)
qed

lemma tree_ids_root:
  assumes "tree_workflow db max_depth h 0 {} = Inr (Node g a ns)"
  shows "g = h \<and> h \<in> tree_ids (Node g a ns)"
  using tree.walk_Node [OF assms] by (auto simp: tree_ids_def)

lemma collect_tree_nodes_keys:
  "fst ` set (collect_nodes 0 n []) = tree_ids n"
  by (simp add: tree_ids_def collect_nodes_keys [where k = 0])

lemma tree_ids_fromhex:
  assumes "tree_workflow db max_depth h 0 {} = Inr n" and "fromhex h = Some b" and "x \<in> tree_ids n"
  shows "\<exists>w. fromhex x = Some w"
  using tree_ids_cases [OF assms(1,3)] assms(2) by auto

lemma id_bytes_total:
  assumes "tree_workflow db max_depth h 0 {} = Inr n" and "fromhex h = Some b"
  obtains ws where "map_res (\<lambda>k. option_res (Value_Error k) (fromhex k))
      (map fst (collect_nodes 0 n [])) = Inr ws"
    and "set ws = (the \<circ> fromhex) ` tree_ids n"
proof -
  have "\<exists>ws. map_res (\<lambda>k. option_res (Value_Error k) (fromhex k)) (map fst (collect_nodes 0 n [])) = Inr ws"
    by (rule map_res_total)
       (use tree_ids_fromhex [OF assms] in \<open>auto simp: collect_tree_nodes_keys option_res_eq_Inr\<close>)
  then obtain ws where ws: "map_res (\<lambda>k. option_res (Value_Error k) (fromhex k))
      (map fst (collect_nodes 0 n [])) = Inr ws" ..
  then have "list_all2 (\<lambda>k w. fromhex k = Some w) (map fst (collect_nodes 0 n [])) ws"
    by (simp add: map_res_eq_Inr option_res_eq_Inr)
  then have "set ws = (the \<circ> fromhex) ` set (map fst (collect_nodes 0 n []))"
    by (induction rule: list_all2_induct) auto
  with ws that show thesis by (simp add: collect_tree_nodes_keys)
qed

lemma timeline_entry_eq_Inr:
  assumes "timeline_entry loads nodes r = Inr e"
  shows "dict_get e ''workflow_id'' = Some (JStr (hex (e_workflow_id r)))"
    and "dict_get e ''event_ts'' = Some (JStr (iso_z (e_event_ts r)))"
    and "\<exists>d s. dict_get nodes (hex (e_workflow_id r)) = Some (d, s) \<and>
           dict_get e ''depth'' = Some (JInt d) \<and> dict_get e ''script_name'' = Some (JStr s)"
  using assms
  by (auto simp: timeline_entry_def Let_def res_simps jrow_str_def event_cols_def
      split: prod.splits)

lemma timeline_entry_known:
  assumes "documents_ok loads db" and "r \<in> set (tb_event db)"
    and "hex (e_workflow_id r) \<in> fst ` set nodes"
  shows "\<exists>e. timeline_entry loads nodes r = Inr e"
proof -
  from event_payload_total [OF assms(1,2)] obtain p where
    p: "decode_json_field loads (Some (event_cols r)) ''payload'' = Inr p" ..
  from assms(3) obtain v where "dict_get nodes (hex (e_workflow_id r)) = Some v"
    using map_of_eq_None_iff [of nodes] by fastforce
  with p show ?thesis
    by (auto simp: timeline_entry_def Let_def jrow_str_def event_cols_def split: prod.splits)
qed

lemma timeline_entry_unknown:
  assumes "documents_ok loads db" and "r \<in> set (tb_event db)"
    and "hex (e_workflow_id r) \<notin> fst ` set nodes"
  shows "timeline_entry loads nodes r = Inl (Key_Error (hex (e_workflow_id r)))"
proof -
  from event_payload_total [OF assms(1,2)] obtain p where
    p: "decode_json_field loads (Some (event_cols r)) ''payload'' = Inr p" ..
  from assms(3) have "dict_get nodes (hex (e_workflow_id r)) = None"
    by (simp add: map_of_eq_None_iff)
  with p show ?thesis
    by (simp add: timeline_entry_def Let_def jrow_str_def event_cols_def)
qed

lemma map_res_Inl_unique:
  assumes "x \<in> set xs" and "f x = Inl e"
    and "\<And>y. y \<in> set xs \<Longrightarrow> f y = Inl e \<or> (\<exists>b. f y = Inr b)"
  shows "map_res f xs = Inl e"
  using assms
proof (induction xs)
  case Nil
  then show ?case by simp
next
  case (Cons y ys)
  from Cons.prems(3) [of y] show ?case
    using Cons by (auto simp: bind_res_eq_Inl)
qed

section \<open>Properties of the timeline\<close>

lemma timeline_cases:
  assumes "timeline_workflow loads db max_depth h = Inr t"
  obtains (not_found) "t = Timeline_Not_Found h" "tree_workflow db max_depth h 0 {} = Inr (Not_Found h)"
  | (found) a ns ws evs where "tree_workflow db max_depth h 0 {} = Inr (Node h a ns)"
      "map_res (\<lambda>k. option_res (Value_Error k) (fromhex k))
         (map fst (collect_nodes 0 (Node h a ns) [])) = Inr ws"
      "map_res (timeline_entry loads (collect_nodes 0 (Node h a ns) [])) (select_events_of db ws) = Inr evs"
      "t = Timeline h (collect_nodes 0 (Node h a ns) []) evs"
proof -
  from assms obtain root where root: "tree_workflow db max_depth h 0 {} = Inr root"
    by (auto simp: timeline_workflow_def collect_tree_nodes_def res_simps)
  from root show thesis
  proof (cases rule: tree.walk_cases)
    case not_found
    with assms root that(1) show ?thesis
      by (simp add: timeline_workflow_def collect_tree_nodes_def)
  next
    case (node a ns)
    with assms root that(2) [of a ns] show ?thesis
      by (auto simp: timeline_workflow_def collect_tree_nodes_def res_simps)
  qed
qed

lemma select_events_of_mem [simp]:
  "r \<in> set (select_events_of db ws) \<longleftrightarrow> r \<in> set (tb_event db) \<and> e_workflow_id r \<in> set ws"
  by (auto simp: select_events_of_def)

lemma select_events_of_sorted:
  "sorted_wrt (\<lambda>r s. e_event_ts r < e_event_ts s \<or>
      e_event_ts r = e_event_ts s \<and> e_workflow_id r \<le> e_workflow_id s) (select_events_of db ws)"
proof -
  have "sorted (map (\<lambda>r. (e_event_ts r, e_workflow_id r)) (select_events_of db ws))"
    by (simp add: select_events_of_def)
  then show ?thesis
    unfolding sorted_map
    by (rule sorted_wrt_mono_rel [rotated]) auto
qed

text \<open>
  C6. The timeline is the whole history of the tree in chronological order: its entries are
  exactly the events of the workflows the tree shows, sorted by \<open>event_ts\<close> with the workflow
  id as tie-breaker, each carrying its workflow's id and timestamp.
\<close>

theorem timeline_is_chronology:
  assumes "timeline_workflow loads db max_depth h = Inr (Timeline h' nodes evs)"
  shows "\<exists>root rows.
    tree_workflow db max_depth h 0 {} = Inr root \<and>
    mset rows = filter_mset (\<lambda>r. hex (e_workflow_id r) \<in> tree_ids root) (mset (tb_event db)) \<and>
    sorted_wrt (\<lambda>r s. e_event_ts r < e_event_ts s \<or>
      e_event_ts r = e_event_ts s \<and> e_workflow_id r \<le> e_workflow_id s) rows \<and>
    list_all2 (\<lambda>r e. dict_get e ''workflow_id'' = Some (JStr (hex (e_workflow_id r))) \<and>
      dict_get e ''event_ts'' = Some (JStr (iso_z (e_event_ts r)))) rows evs"
  using assms
proof (cases rule: timeline_cases)
  case not_found
  then show ?thesis by simp
next
  case (found a ns ws evs')
  let ?root = "Node h a ns" and ?rows = "select_events_of db ws"
  have entries: "list_all2 (\<lambda>r e. timeline_entry loads (collect_nodes 0 ?root []) r = Inr e) ?rows evs"
    using found(3,4) by (simp add: map_res_eq_Inr)
  have known: "hex (e_workflow_id r) \<in> tree_ids ?root" if "r \<in> set ?rows" for r
    using list_all2_mem1 [OF entries that] timeline_entry_eq_Inr(3)
      collect_tree_nodes_keys [of ?root] by (metis domI dom_map_of_conv_image_fst)
  have ws: "w \<in> set ws \<longleftrightarrow> (\<exists>k \<in> tree_ids ?root. fromhex k = Some w)" for w
    using map_res_option_mem [OF found(2), of w] collect_tree_nodes_keys [of ?root]
    by (simp del: collect_nodes.simps)
  have "filter (\<lambda>r. e_workflow_id r \<in> set ws) (tb_event db) =
      filter (\<lambda>r. hex (e_workflow_id r) \<in> tree_ids ?root) (tb_event db)"
  proof (rule filter_cong [OF refl])
    fix r
    assume "r \<in> set (tb_event db)"
    then show "e_workflow_id r \<in> set ws \<longleftrightarrow> hex (e_workflow_id r) \<in> tree_ids ?root"
      using known [of r] ws [of "e_workflow_id r"] fromhex_hex [of "e_workflow_id r"]
        select_events_of_mem [of r db ws] by blast
  qed
  then have "mset ?rows = filter_mset (\<lambda>r. hex (e_workflow_id r) \<in> tree_ids ?root) (mset (tb_event db))"
    by (simp add: select_events_of_def flip: mset_filter)
  moreover have "list_all2 (\<lambda>r e. dict_get e ''workflow_id'' = Some (JStr (hex (e_workflow_id r))) \<and>
      dict_get e ''event_ts'' = Some (JStr (iso_z (e_event_ts r)))) ?rows evs"
    using entries by (rule list_all2_mono) (simp add: timeline_entry_eq_Inr)
  ultimately show ?thesis
    using found(1) select_events_of_sorted by blast
qed

lemma timeline_total:
  assumes "documents_ok loads db" and "call_ids_ok db" and "length b = 16"
  shows "\<exists>t. timeline_workflow loads db max_depth (hex b) = Inr t"
proof -
  obtain root where root: "tree_workflow db max_depth (hex b) 0 {} = Inr root"
    using tree_total [OF assms(2)] assms(3) fromhex_hex by blast
  show ?thesis
  proof (cases root)
    case (Node g a ns)
    let ?nodes = "collect_nodes 0 root []"
    obtain ws where ws: "map_res (\<lambda>k. option_res (Value_Error k) (fromhex k)) (map fst ?nodes) = Inr ws"
      and ids: "set ws = (the \<circ> fromhex) ` tree_ids root"
      using id_bytes_total [OF root fromhex_hex] .
    have "\<exists>evs. map_res (timeline_entry loads ?nodes) (select_events_of db ws) = Inr evs"
    proof (rule map_res_total, rule timeline_entry_known [OF assms(1)])
      fix r
      assume r: "r \<in> set (select_events_of db ws)"
      then show "r \<in> set (tb_event db)" by simp
      from r ids obtain k where k: "k \<in> tree_ids root" "e_workflow_id r = the (fromhex k)"
        by auto
      with tree_ids_cases [OF root k(1)] show "hex (e_workflow_id r) \<in> fst ` set ?nodes"
        by (auto simp: collect_tree_nodes_keys)
    qed
    with root ws Node show ?thesis
      by (auto simp: timeline_workflow_def collect_tree_nodes_def res_simps)
  qed (use root in \<open>auto simp: timeline_workflow_def collect_tree_nodes_def res_simps elim: tree.walk_cases\<close>)
qed

lemma timeline_upper_raises:
  assumes "documents_ok loads db" and "call_ids_ok db"
    and "fromhex h = Some b" and "length b = 16" and "h \<noteq> hex b"
    and "select_workflow db b = Some row"
    and "\<forall>c \<in> set (tb_call db). c_child_workflow_id c \<noteq> b"
    and "ev \<in> set (tb_event db)" and "e_workflow_id ev = b"
  shows "timeline_workflow loads db max_depth h = Inl (Key_Error (hex b))"
proof -
  obtain a ns where root: "tree_workflow db max_depth h 0 {} = Inr (Node h a ns)"
  proof -
    obtain n where n: "tree_workflow db max_depth h 0 {} = Inr n"
      using tree_total [OF assms(2)] assms(3,4) by blast
    from n show thesis
      using that n assms(3,4,6)
      by (cases rule: tree.walk_cases)
         (auto simp: tree_node_def res_simps fetch_workflow_skeleton_def hex_bytes_def)
  qed
  define root where "root = Node h a ns"
  define nodes where "nodes = collect_nodes 0 root []"
  have walk: "tree_workflow db max_depth h 0 {} = Inr root"
    and keys: "fst ` set nodes = tree_ids root"
    using root by (simp_all add: root_def nodes_def collect_tree_nodes_keys del: collect_nodes.simps)
  obtain ws where ws: "map_res (\<lambda>k. option_res (Value_Error k) (fromhex k)) (map fst nodes) = Inr ws"
    and ids: "set ws = (the \<circ> fromhex) ` tree_ids root"
    using id_bytes_total [OF walk assms(3)] unfolding nodes_def .
  note cases = tree_ids_cases [OF walk]
  have unknown: "hex b \<notin> fst ` set nodes"
    using cases [of "hex b"] assms(5,7) by (auto simp: keys)
  have ev: "ev \<in> set (select_events_of db ws)"
    using ids tree_ids_root [OF root] assms(3,8,9) by (force simp: root_def)
  have known: "hex w \<in> fst ` set nodes" if "w \<in> set ws" "w \<noteq> b" for w
    using that ids cases assms(3) by (fastforce simp: keys)
  have "map_res (timeline_entry loads nodes) (select_events_of db ws) = Inl (Key_Error (hex b))"
  proof (rule map_res_Inl_unique [OF ev])
    show "timeline_entry loads nodes ev = Inl (Key_Error (hex b))"
      using timeline_entry_unknown [OF assms(1,8), of nodes] unknown assms(9) by simp
  next
    fix r
    assume r: "r \<in> set (select_events_of db ws)"
    then show "timeline_entry loads nodes r = Inl (Key_Error (hex b)) \<or>
        (\<exists>e. timeline_entry loads nodes r = Inr e)"
      using timeline_entry_unknown [OF assms(1), of r nodes] timeline_entry_known [OF assms(1), of r nodes]
        unknown known by (cases "e_workflow_id r = b") simp_all
  qed
  with walk ws show ?thesis
    by (simp add: timeline_workflow_def collect_tree_nodes_def root_def nodes_def
        del: collect_nodes.simps)
qed

text \<open>
  C7. A timeline asked for by a lower-case id returns, whatever the call graph, when every
  stored document is valid JSON and every call names a whole workflow id.
\<close>

theorem timeline_returns:
  assumes "documents_ok loads db" and "call_ids_ok db" and "length b = 16"
  shows "\<exists>t. timeline_workflow loads db max_depth (hex b) = Inr t"
  using assms by (rule timeline_total)

lemma ex_timeline: "\<exists>nodes evs. timeline_workflow ex_loads ex_db 10 ex_root = Inr (Timeline ex_root nodes evs)"
proof -
  obtain t where t: "timeline_workflow ex_loads ex_db 10 ex_root = Inr t"
    using timeline_total [OF ex_documents_ok ex_call_ids_ok, of "ex_id 0xe1"]
    by (auto simp: ex_root_def ex_id_def)
  then show ?thesis
  proof (cases rule: timeline_cases)
    case not_found
    from tree.walk_eq [of ex_db 10 ex_root 0 "{}"] not_found(2) show ?thesis
      by (auto simp: tree_node_def ex_root_def ex_id_def hex_bytes_def fetch_workflow_skeleton_def
          select_workflow_def ex_db_def ex_workflow_def res_simps)
  next
    case (found a ns ws evs)
    with t show ?thesis by metis
  qed
qed

theorem timeline_is_chronology_witness:
  "\<exists>root rows evs.
    tree_workflow ex_db 10 ex_root 0 {} = Inr root \<and>
    mset rows = filter_mset (\<lambda>r. hex (e_workflow_id r) \<in> tree_ids root) (mset (tb_event ex_db)) \<and>
    list_all2 (\<lambda>r e. dict_get e ''event_ts'' = Some (JStr (iso_z (e_event_ts r)))) rows evs"
proof -
  obtain nodes evs where "timeline_workflow ex_loads ex_db 10 ex_root = Inr (Timeline ex_root nodes evs)"
    using ex_timeline by blast
  from timeline_is_chronology [OF this] obtain root rows where
    "tree_workflow ex_db 10 ex_root 0 {} = Inr root"
    and "mset rows = filter_mset (\<lambda>r. hex (e_workflow_id r) \<in> tree_ids root) (mset (tb_event ex_db))"
    and l: "list_all2 (\<lambda>r e. dict_get e ''workflow_id'' = Some (JStr (hex (e_workflow_id r))) \<and>
      dict_get e ''event_ts'' = Some (JStr (iso_z (e_event_ts r)))) rows evs"
    by blast
  moreover from l have "list_all2 (\<lambda>r e. dict_get e ''event_ts'' = Some (JStr (iso_z (e_event_ts r)))) rows evs"
    by (rule list_all2_mono) simp
  ultimately show ?thesis by blast
qed

theorem timeline_returns_witness:
  "\<exists>t. timeline_workflow ex_loads ex_db 10 ex_root = Inr t"
  unfolding ex_root_def
  by (rule timeline_returns [OF ex_documents_ok ex_call_ids_ok]) (simp add: ex_id_def)

text \<open>The example asked for as \<open>E1E1...\<close>.\<close>

definition ex_upper :: str where
  "ex_upper = concat (replicate 16 [69, 49])"

lemma fromhex_upper: "fromhex (concat (replicate n [69, 49])) = Some (replicate n 0xe1)"
  by (induction n) (simp_all add: hex_value_def ascii_space_def)

lemma ex_upper_neq: "ex_upper \<noteq> hex b"
proof
  assume "ex_upper = hex b"
  moreover have "69 \<in> set ex_upper" by (simp add: ex_upper_def)
  ultimately show False using hex_digits_lower [of 69 b] by simp
qed

end
