(* ===== verification/Stuck.thy ===== *)
theory Stuck
  imports Inspect
begin

text \<open>
  \<open>stuck_workflow\<close> of \<open>mfviz/dbq.py\<close>: the derived verdict on why a workflow is not moving.
  The descent into children has no depth limit; it ends because every step adds an id to
  \<open>seen\<close> and child ids come from the finitely many call rows.  The declarative
  classification \<open>classify\<close> and the waiting path are the specifications it is related to; what
  the verdict means to a worker that claims is in \<open>Claim_Verdict\<close>.
\<close>

section \<open>Evidence\<close>

definition TERMINAL_STATES :: "int set" where
  "TERMINAL_STATES = {4, 5, 6, 7}"

definition CHECKPOINT_RESOLUTION_REQUIRED :: int where
  "CHECKPOINT_RESOLUTION_REQUIRED = 3"

definition operation_attention :: "operation_row \<Rightarrow> bool" where
  "operation_attention r \<longleftrightarrow> o_status r = 1 \<or> o_reconcile_attempts r > 0 \<or>
     o_reconcile_first_seen_at r \<noteq> None \<or> o_redispatch_count r > 0 \<or>
     o_redispatch_first_seen_at r \<noteq> None"

definition checkpoint_attention :: "checkpoint_row \<Rightarrow> bool" where
  "checkpoint_attention r \<longleftrightarrow> k_reversal_state r \<noteq> 1 \<or> k_reconcile_attempts r > 0 \<or>
     k_reconcile_first_seen_at r \<noteq> None \<or> k_redispatch_count r > 0 \<or>
     k_redispatch_first_seen_at r \<noteq> None"

definition operation_attention_cols :: "operation_row \<Rightarrow> row" where
  "operation_attention_cols r =
    [(''operation_seq'', DInt (o_operation_seq r)),
     (''operation_name'', DText (o_operation_name r)),
     (''status'', DInt (o_status r)),
     (''reconcile_attempts'', DInt (o_reconcile_attempts r)),
     (''reconcile_first_seen_at'', nullable DTime (o_reconcile_first_seen_at r)),
     (''reconcile_last_seen_at'', nullable DTime (o_reconcile_last_seen_at r)),
     (''reconcile_reason'', nullable DText (o_reconcile_reason r)),
     (''redispatch_first_seen_at'', nullable DTime (o_redispatch_first_seen_at r)),
     (''redispatch_last_at'', nullable DTime (o_redispatch_last_at r)),
     (''redispatch_count'', DInt (o_redispatch_count r)),
     (''updated_at'', DTime (o_updated_at r))]"

definition checkpoint_attention_cols :: "checkpoint_row \<Rightarrow> row" where
  "checkpoint_attention_cols r =
    [(''seq'', DInt (k_seq r)),
     (''operation_name'', DText (k_operation_name r)),
     (''reversal_state'', DInt (k_reversal_state r)),
     (''reverse_operation_name'', nullable DText (k_reverse_operation_name r)),
     (''reversed_at'', nullable DTime (k_reversed_at r)),
     (''resolution_event_ts'', nullable DTime (k_resolution_event_ts r)),
     (''reconcile_attempts'', DInt (k_reconcile_attempts r)),
     (''reconcile_first_seen_at'', nullable DTime (k_reconcile_first_seen_at r)),
     (''reconcile_last_seen_at'', nullable DTime (k_reconcile_last_seen_at r)),
     (''reconcile_reason'', nullable DText (k_reconcile_reason r)),
     (''redispatch_first_seen_at'', nullable DTime (k_redispatch_first_seen_at r)),
     (''redispatch_last_at'', nullable DTime (k_redispatch_last_at r)),
     (''redispatch_count'', DInt (k_redispatch_count r)),
     (''updated_at'', DTime (k_updated_at r))]"

definition fetch_attention_rows :: "database \<Rightarrow> bytes \<Rightarrow> jrow list \<times> jrow list" where
  "fetch_attention_rows db wid =
     (map (\<lambda>r. decode_cols (operation_attention_cols r))
        (sort_key o_operation_seq
           (filter (\<lambda>r. o_workflow_id r = wid \<and> operation_attention r) (tb_operation db))),
      map (\<lambda>r. decode_cols (checkpoint_attention_cols r))
        (sort_key k_seq
           (filter (\<lambda>r. k_workflow_id r = wid \<and> checkpoint_attention r) (tb_checkpoint db))))"

text \<open>
  \<open>_recovery_rows\<close>: the rows whose counter is truthy or whose first-seen time is set; both
  columns are part of every attention row.
\<close>

definition recovery_row :: "string \<Rightarrow> string \<Rightarrow> jrow \<Rightarrow> bool" where
  "recovery_row first_seen_col count_col r \<longleftrightarrow>
     dict_get r count_col \<notin> {None, Some JNull, Some (JInt 0)} \<or>
     dict_get r first_seen_col \<notin> {None, Some JNull}"

definition resolution_required_row :: "jrow \<Rightarrow> bool" where
  "resolution_required_row r \<longleftrightarrow>
     dict_get r ''reversal_state'' = Some (JInt CHECKPOINT_RESOLUTION_REQUIRED)"

record evidence =
  ev_state :: int
  ev_state_name :: "string option"
  ev_execution_direction :: int
  ev_current_disposition :: int
  ev_terminal_reason :: "str option"
  ev_lease_owner :: json
  ev_lease_expires_at :: json
  ev_next_attempt_at :: json
  ev_current_operation_attempt :: int
  ev_updated_at :: json

definition evidence_of :: "workflow_row \<Rightarrow> evidence" where
  "evidence_of row =
     \<lparr>ev_state = w_state row, ev_state_name = dict_get STATE_NAMES (w_state row),
      ev_execution_direction = w_execution_direction row,
      ev_current_disposition = w_current_disposition row,
      ev_terminal_reason = w_terminal_reason row,
      ev_lease_owner = decode_value (nullable DBytes (w_lease_owner row)),
      ev_lease_expires_at = decode_value (nullable DTime (w_lease_expires_at row)),
      ev_next_attempt_at = decode_value (DTime (w_next_attempt_at row)),
      ev_current_operation_attempt = w_current_operation_attempt row,
      ev_updated_at = decode_value (DTime (w_updated_at row))\<rparr>"

section \<open>The verdict\<close>

text \<open>
  The node of the response; the prose of \<open>detail\<close> is determined by the verdict, the evidence
  and the rows, and is not repeated.
\<close>

datatype stuck_node =
    Stuck_Not_Found str
  | Stuck (s_workflow_id: str) (s_script_name: str) (s_db_now: json) (s_evidence: evidence)
      (s_operations: "jrow list") (s_checkpoints: "jrow list") (s_verdict: verdict)
and verdict =
    Terminal
  | Blocked_Resolution "jrow list"
  | Running_Under_Lease
  | Waiting_On_Child stuck_node "str list option"
  | Redispatch_Pending "jrow list"
  | Reconcile_Pending "jrow list"
  | Scheduled_Retry
  | Claimable_Now

definition lease_live :: "workflow_row \<Rightarrow> datetime \<Rightarrow> bool" where
  "lease_live row now \<longleftrightarrow>
     w_lease_owner row \<noteq> None \<and>
     (case w_lease_expires_at row of None \<Rightarrow> False | Some t \<Rightarrow> t > now)"

text \<open>The loop over the calls: the first child not seen whose row is not terminal.\<close>

fun stuck_child :: "database \<Rightarrow> str set \<Rightarrow> (int \<times> str) list \<Rightarrow> str option result" where
  "stuck_child db seen [] = Inr None"
| "stuck_child db seen ((seq, child) # rest) =
     (if child \<in> seen then stuck_child db seen rest
      else bind_res (hex_bytes child ''child_workflow_id'') (\<lambda>child_bytes.
        case fetch_workflow_skeleton db child_bytes of
          None \<Rightarrow> stuck_child db seen rest
        | Some child_row \<Rightarrow>
            if w_state child_row \<notin> TERMINAL_STATES then Inr (Some child)
            else stuck_child db seen rest))"

text \<open>\<open>child_verdict.pop("path", default)\<close>: the path, and the child without it.\<close>

fun pop_path :: "str list \<Rightarrow> stuck_node \<Rightarrow> str list \<times> stuck_node" where
  "pop_path dflt (Stuck h s now ev ops cps (Waiting_On_Child child (Some path))) =
     (path, Stuck h s now ev ops cps (Waiting_On_Child child None))"
| "pop_path dflt n = (dflt, n)"

definition call_child_ids :: "database \<Rightarrow> str set" where
  "call_child_ids db = set (map (\<lambda>r. hex (c_child_workflow_id r)) (tb_call db))"

lemma stuck_child_Some:
  "stuck_child db seen cs = Inr (Some c) \<Longrightarrow> c \<in> snd ` set cs \<and> c \<notin> seen"
  by (induction db seen cs rule: stuck_child.induct)
     (auto simp: res_simps split: if_splits option.splits)

lemma call_child_ids_fetched: "snd ` set (fetch_child_ids db wid) \<subseteq> call_child_ids db"
  by (auto simp: set_fetch_child_ids call_child_ids_def)

function stuck_workflow ::
    "database \<Rightarrow> str \<Rightarrow> str set \<Rightarrow> datetime option \<Rightarrow> stuck_node result" where
  "stuck_workflow db h seen now_arg =
     bind_res (hex_bytes h ''workflow_id'') (\<lambda>wid.
     case fetch_workflow_skeleton db wid of
       None \<Rightarrow> Inr (Stuck_Not_Found h)
     | Some row \<Rightarrow>
         let now = (case now_arg of None \<Rightarrow> db_clock db | Some t \<Rightarrow> t);
             (operations, checkpoints) = fetch_attention_rows db wid;
             finish = Stuck h (w_script_name row) (decode_value (DTime now)) (evidence_of row)
                        operations checkpoints
         in if w_state row \<in> TERMINAL_STATES then Inr (finish Terminal)
            else if w_state row = 3 then
              Inr (finish (Blocked_Resolution (filter resolution_required_row checkpoints)))
            else if lease_live row now then Inr (finish Running_Under_Lease)
            else
              bind_res (stuck_child db (insert h seen) (fetch_child_ids db wid)) (\<lambda>waiting.
              case waiting of
                Some child \<Rightarrow>
                  bind_res (stuck_workflow db child (insert h seen) (Some now)) (\<lambda>child_verdict.
                    let (below, stripped) = pop_path [child] child_verdict
                    in Inr (finish (Waiting_On_Child stripped (Some (h # below)))))
              | None \<Rightarrow>
                  let redisp = filter (recovery_row ''redispatch_first_seen_at'' ''redispatch_count'')
                                 (operations @ checkpoints);
                      reconc = filter (recovery_row ''reconcile_first_seen_at'' ''reconcile_attempts'')
                                 (operations @ checkpoints)
                  in if redisp \<noteq> [] then Inr (finish (Redispatch_Pending redisp))
                     else if reconc \<noteq> [] then Inr (finish (Reconcile_Pending reconc))
                     else if w_next_attempt_at row > now then Inr (finish Scheduled_Retry)
                     else Inr (finish Claimable_Now)))"
  by pat_completeness auto
termination
proof (relation "measure (\<lambda>(db, h, seen, now). card (call_child_ids db - insert h seen))")
  fix db h seen wid row waiting child
  assume w: "stuck_child db (insert h seen) (fetch_child_ids db wid) = Inr waiting"
    and c: "waiting = Some child"
  from stuck_child_Some [OF w [unfolded c]] call_child_ids_fetched [of db wid]
  have "child \<in> call_child_ids db - insert h seen" by auto
  then have "call_child_ids db - insert child (insert h seen) \<subset> call_child_ids db - insert h seen"
    by auto
  then show "((db, child, insert h seen, Some now), db, h, seen, now_arg) \<in>
      measure (\<lambda>(db, h, seen, now). card (call_child_ids db - insert h seen))" for now now_arg
    by (simp add: psubset_card_mono call_child_ids_def)
qed simp

declare stuck_workflow.simps [simp del]


section \<open>Specification\<close>

text \<open>The verdict without the evidence it carries, and the node it is derived from.\<close>

datatype verdict_kind =
    K_Not_Found | K_Terminal | K_Blocked_Resolution | K_Running_Under_Lease | K_Waiting_On_Child
  | K_Redispatch_Pending | K_Reconcile_Pending | K_Scheduled_Retry | K_Claimable_Now

fun verdict_kind_of :: "verdict \<Rightarrow> verdict_kind" where
  "verdict_kind_of Terminal = K_Terminal"
| "verdict_kind_of (Blocked_Resolution rs) = K_Blocked_Resolution"
| "verdict_kind_of Running_Under_Lease = K_Running_Under_Lease"
| "verdict_kind_of (Waiting_On_Child c p) = K_Waiting_On_Child"
| "verdict_kind_of (Redispatch_Pending rs) = K_Redispatch_Pending"
| "verdict_kind_of (Reconcile_Pending rs) = K_Reconcile_Pending"
| "verdict_kind_of Scheduled_Retry = K_Scheduled_Retry"
| "verdict_kind_of Claimable_Now = K_Claimable_Now"

fun kind_of :: "stuck_node \<Rightarrow> verdict_kind" where
  "kind_of (Stuck_Not_Found h) = K_Not_Found"
| "kind_of (Stuck h s now ev ops cps v) = verdict_kind_of v"

text \<open>Leased: an owner is named and the lease ends after \<open>now\<close>.\<close>

definition leased_at :: "datetime \<Rightarrow> workflow_row \<Rightarrow> bool" where
  "leased_at now row \<longleftrightarrow>
     (case (w_lease_owner row, w_lease_expires_at row) of (Some _, Some until) \<Rightarrow> now < until | _ \<Rightarrow> False)"

definition live_workflow :: "database \<Rightarrow> bytes \<Rightarrow> bool" where
  "live_workflow db wid =
     (case select_workflow db wid of None \<Rightarrow> False | Some r \<Rightarrow> w_state r \<notin> {4, 5, 6, 7})"

definition live_child :: "database \<Rightarrow> str set \<Rightarrow> bytes \<Rightarrow> bool" where
  "live_child db seen wid \<longleftrightarrow>
     (\<exists>c \<in> set (tb_call db). c_workflow_id c = wid \<and> hex (c_child_workflow_id c) \<notin> seen \<and>
        live_workflow db (c_child_workflow_id c))"

definition redispatch_armed :: "database \<Rightarrow> bytes \<Rightarrow> bool" where
  "redispatch_armed db wid \<longleftrightarrow>
     (\<exists>r \<in> set (tb_operation db). o_workflow_id r = wid \<and>
        (o_redispatch_count r > 0 \<or> o_redispatch_first_seen_at r \<noteq> None)) \<or>
     (\<exists>r \<in> set (tb_checkpoint db). k_workflow_id r = wid \<and>
        (k_redispatch_count r > 0 \<or> k_redispatch_first_seen_at r \<noteq> None))"

definition reconcile_armed :: "database \<Rightarrow> bytes \<Rightarrow> bool" where
  "reconcile_armed db wid \<longleftrightarrow>
     (\<exists>r \<in> set (tb_operation db). o_workflow_id r = wid \<and>
        (o_reconcile_attempts r > 0 \<or> o_reconcile_first_seen_at r \<noteq> None)) \<or>
     (\<exists>r \<in> set (tb_checkpoint db). k_workflow_id r = wid \<and>
        (k_reconcile_attempts r > 0 \<or> k_reconcile_first_seen_at r \<noteq> None))"

text \<open>The precedence the docstring of \<open>stuck_workflow\<close> promises, on the tables.\<close>

definition classify :: "database \<Rightarrow> str set \<Rightarrow> datetime \<Rightarrow> workflow_row \<Rightarrow> verdict_kind" where
  "classify db seen now row =
     (if w_state row \<in> {4, 5, 6, 7} then K_Terminal
      else if w_state row = 3 then K_Blocked_Resolution
      else if leased_at now row then K_Running_Under_Lease
      else if live_child db seen (w_workflow_id row) then K_Waiting_On_Child
      else if redispatch_armed db (w_workflow_id row) then K_Redispatch_Pending
      else if reconcile_armed db (w_workflow_id row) then K_Reconcile_Pending
      else if w_next_attempt_at row > now then K_Scheduled_Retry
      else K_Claimable_Now)"

text \<open>The recovery counters start at 0 and are only incremented or reset to 0.\<close>

definition counters_ok :: "database \<Rightarrow> bool" where
  "counters_ok db \<longleftrightarrow>
     list_all (\<lambda>r. 0 \<le> o_reconcile_attempts r \<and> 0 \<le> o_redispatch_count r) (tb_operation db) \<and>
     list_all (\<lambda>r. 0 \<le> k_reconcile_attempts r \<and> 0 \<le> k_redispatch_count r) (tb_checkpoint db)"

lemma attention_rows_eq:
  assumes "fetch_attention_rows db wid = (ops, cps)"
  shows "set ops = (\<lambda>r. decode_cols (operation_attention_cols r)) `
           {r \<in> set (tb_operation db). o_workflow_id r = wid \<and> operation_attention r}"
    and "set cps = (\<lambda>r. decode_cols (checkpoint_attention_cols r)) `
           {r \<in> set (tb_checkpoint db). k_workflow_id r = wid \<and> checkpoint_attention r}"
  using assms by (auto simp: fetch_attention_rows_def)

lemma decode_nullable_time [simp]: "decode_value (nullable DTime v) = JNull \<longleftrightarrow> v = None"
  by (cases v) simp_all

lemma recovery_row_cols [simp]:
  "recovery_row ''redispatch_first_seen_at'' ''redispatch_count'' (decode_cols (operation_attention_cols r)) \<longleftrightarrow>
     o_redispatch_count r \<noteq> 0 \<or> o_redispatch_first_seen_at r \<noteq> None"
  "recovery_row ''reconcile_first_seen_at'' ''reconcile_attempts'' (decode_cols (operation_attention_cols r)) \<longleftrightarrow>
     o_reconcile_attempts r \<noteq> 0 \<or> o_reconcile_first_seen_at r \<noteq> None"
  "recovery_row ''redispatch_first_seen_at'' ''redispatch_count'' (decode_cols (checkpoint_attention_cols k)) \<longleftrightarrow>
     k_redispatch_count k \<noteq> 0 \<or> k_redispatch_first_seen_at k \<noteq> None"
  "recovery_row ''reconcile_first_seen_at'' ''reconcile_attempts'' (decode_cols (checkpoint_attention_cols k)) \<longleftrightarrow>
     k_reconcile_attempts k \<noteq> 0 \<or> k_reconcile_first_seen_at k \<noteq> None"
  by (simp_all add: recovery_row_def operation_attention_cols_def checkpoint_attention_cols_def)

lemma recovery_rows_armed:
  assumes "fetch_attention_rows db wid = (ops, cps)" and "counters_ok db"
  shows "filter (recovery_row ''redispatch_first_seen_at'' ''redispatch_count'') (ops @ cps) \<noteq> [] \<longleftrightarrow>
           redispatch_armed db wid"
    and "filter (recovery_row ''reconcile_first_seen_at'' ''reconcile_attempts'') (ops @ cps) \<noteq> [] \<longleftrightarrow>
           reconcile_armed db wid"
proof -
  have pos: "o_reconcile_attempts r \<noteq> 0 \<longleftrightarrow> o_reconcile_attempts r > 0"
      "o_redispatch_count r \<noteq> 0 \<longleftrightarrow> o_redispatch_count r > 0" if "r \<in> set (tb_operation db)" for r
    using assms(2) that by (auto simp: counters_ok_def list_all_iff)
  have kpos: "k_reconcile_attempts r \<noteq> 0 \<longleftrightarrow> k_reconcile_attempts r > 0"
      "k_redispatch_count r \<noteq> 0 \<longleftrightarrow> k_redispatch_count r > 0" if "r \<in> set (tb_checkpoint db)" for r
    using assms(2) that by (auto simp: counters_ok_def list_all_iff)
  show "filter (recovery_row ''redispatch_first_seen_at'' ''redispatch_count'') (ops @ cps) \<noteq> [] \<longleftrightarrow>
           redispatch_armed db wid"
    unfolding filter_empty_conv redispatch_armed_def
    using pos(2) kpos(2)
    by (simp add: attention_rows_eq [OF assms(1)] bex_Un) (auto simp: operation_attention_def checkpoint_attention_def)
  show "filter (recovery_row ''reconcile_first_seen_at'' ''reconcile_attempts'') (ops @ cps) \<noteq> [] \<longleftrightarrow>
           reconcile_armed db wid"
    unfolding filter_empty_conv reconcile_armed_def
    using pos(1) kpos(1)
    by (simp add: attention_rows_eq [OF assms(1)] bex_Un) (auto simp: operation_attention_def checkpoint_attention_def)
qed


section \<open>The verdict meets its specification\<close>

lemma lease_live_leased: "lease_live row now \<longleftrightarrow> leased_at now row"
  by (auto simp: lease_live_def leased_at_def split: option.splits)

lemma stuck_child_total:
  assumes "\<And>c. c \<in> snd ` set cs \<Longrightarrow> \<exists>b. fromhex c = Some b \<and> length b = 16"
  shows "stuck_child db seen cs =
    Inr (find (\<lambda>c. c \<notin> seen \<and> live_workflow db (the (fromhex c))) (map snd cs))"
  using assms
proof (induction db seen cs rule: stuck_child.induct)
  case (1 db seen)
  show ?case by simp
next
  case (2 db seen seq child rest)
  from 2(4) [of child] obtain b where b: "fromhex child = Some b" "length b = 16" by auto
  then have "hex_bytes child ''child_workflow_id'' = Inr b" by (simp add: hex_bytes_def)
  with 2 b show ?case
    by (auto simp: fetch_workflow_skeleton_def live_workflow_def TERMINAL_STATES_def split: option.splits)
qed

lemma fetch_child_ids_whole:
  assumes "call_ids_ok db" and "c \<in> snd ` set (fetch_child_ids db wid)"
  shows "\<exists>b. fromhex c = Some b \<and> length b = 16"
  using assms
  by (auto simp: set_fetch_child_ids call_ids_ok_def list_all_iff)

lemma stuck_child_None:
  assumes "call_ids_ok db"
  shows "stuck_child db seen (fetch_child_ids db wid) = Inr None \<longleftrightarrow> \<not> live_child db seen wid"
proof -
  have "stuck_child db seen (fetch_child_ids db wid) =
    Inr (find (\<lambda>c. c \<notin> seen \<and> live_workflow db (the (fromhex c))) (map snd (fetch_child_ids db wid)))"
    by (rule stuck_child_total) (rule fetch_child_ids_whole [OF assms])
  then show ?thesis
    by (auto simp: find_None_iff live_child_def set_fetch_child_ids)
qed

lemma stuck_child_returns:
  assumes "call_ids_ok db"
  obtains w where "stuck_child db seen (fetch_child_ids db wid) = Inr w"
    and "w = None \<longleftrightarrow> \<not> live_child db seen wid"
    and "\<And>c. w = Some c \<Longrightarrow> c \<in> set (map snd (fetch_child_ids db wid)) \<and> c \<notin> seen \<and>
           live_workflow db (the (fromhex c))"
proof -
  let ?w = "find (\<lambda>c. c \<notin> seen \<and> live_workflow db (the (fromhex c))) (map snd (fetch_child_ids db wid))"
  have w: "stuck_child db seen (fetch_child_ids db wid) = Inr ?w"
    by (rule stuck_child_total) (rule fetch_child_ids_whole [OF assms])
  show thesis
  proof (rule that [OF w])
    show "?w = None \<longleftrightarrow> \<not> live_child db seen wid"
      using stuck_child_None [OF assms, of seen wid] w by simp
    show "\<And>c. ?w = Some c \<Longrightarrow> c \<in> set (map snd (fetch_child_ids db wid)) \<and> c \<notin> seen \<and>
           live_workflow db (the (fromhex c))"
      using find_Some_iff_mem by metis
  qed
qed

text \<open>One unfolding with the id resolved, for every proof about the verdict.\<close>

definition now_of :: "database \<Rightarrow> datetime option \<Rightarrow> datetime" where
  "now_of db now_arg = (case now_arg of None \<Rightarrow> db_clock db | Some t \<Rightarrow> t)"

lemma now_of_simps [simp]: "now_of db None = db_clock db" "now_of db (Some t) = t"
  by (simp_all add: now_of_def)

definition finish_node ::
    "database \<Rightarrow> str \<Rightarrow> datetime \<Rightarrow> workflow_row \<Rightarrow> bytes \<Rightarrow> verdict \<Rightarrow> stuck_node" where
  "finish_node db h now row wid v =
     Stuck h (w_script_name row) (decode_value (DTime now)) (evidence_of row)
       (fst (fetch_attention_rows db wid)) (snd (fetch_attention_rows db wid)) v"

lemma kind_of_finish_node [simp]: "kind_of (finish_node db h now row wid v) = verdict_kind_of v"
  by (simp add: finish_node_def)

lemma stuck_workflow_eq:
  assumes "hex_bytes h ''workflow_id'' = Inr b" and "select_workflow db b = Some row"
    and "now = now_of db now_arg" and "fetch_attention_rows db b = (ops, cps)"
    and "redisp = filter (recovery_row ''redispatch_first_seen_at'' ''redispatch_count'') (ops @ cps)"
    and "reconc = filter (recovery_row ''reconcile_first_seen_at'' ''reconcile_attempts'') (ops @ cps)"
  shows "stuck_workflow db h seen now_arg =
    (if w_state row \<in> TERMINAL_STATES then Inr (finish_node db h now row b Terminal)
     else if w_state row = 3 then
       Inr (finish_node db h now row b (Blocked_Resolution (filter resolution_required_row cps)))
     else if lease_live row now then Inr (finish_node db h now row b Running_Under_Lease)
     else bind_res (stuck_child db (insert h seen) (fetch_child_ids db b)) (\<lambda>waiting.
       case waiting of
         Some c \<Rightarrow> bind_res (stuck_workflow db c (insert h seen) (Some now)) (\<lambda>child_verdict.
           let (below, stripped) = pop_path [c] child_verdict
           in Inr (finish_node db h now row b (Waiting_On_Child stripped (Some (h # below)))))
       | None \<Rightarrow>
           Inr (finish_node db h now row b
             (if redisp \<noteq> [] then Redispatch_Pending redisp
              else if reconc \<noteq> [] then Reconcile_Pending reconc
              else if w_next_attempt_at row > now then Scheduled_Retry
              else Claimable_Now))))"
  using assms
  by (subst stuck_workflow.simps)
     (simp add: Let_def finish_node_def now_of_def fetch_workflow_skeleton_def cong: option.case_cong)

lemma stuck_cases:
  assumes "call_ids_ok db" and "fromhex h = Some b" and "length b = 16"
  obtains (not_found) "select_workflow db b = None"
      "stuck_workflow db h seen now_arg = Inr (Stuck_Not_Found h)"
  | (leaf) row v where "select_workflow db b = Some row"
      "stuck_workflow db h seen now_arg = Inr (finish_node db h (now_of db now_arg) row b v)"
      "verdict_kind_of v \<noteq> K_Waiting_On_Child"
      "counters_ok db \<Longrightarrow> verdict_kind_of v = classify db (insert h seen) (now_of db now_arg) row"
  | (waiting) row c where "select_workflow db b = Some row"
      "classify db (insert h seen) (now_of db now_arg) row = K_Waiting_On_Child"
      "w_state row \<notin> TERMINAL_STATES"
      "c \<in> set (child_ids db h)" "c \<notin> insert h seen" "live_workflow db (the (fromhex c))"
      "\<exists>b. fromhex c = Some b \<and> length b = 16"
      "stuck_workflow db h seen now_arg =
         bind_res (stuck_workflow db c (insert h seen) (Some (now_of db now_arg))) (\<lambda>child_verdict.
           let (below, stripped) = pop_path [c] child_verdict
           in Inr (finish_node db h (now_of db now_arg) row b (Waiting_On_Child stripped (Some (h # below)))))"
proof -
  have hb: "hex_bytes h ''workflow_id'' = Inr b" using assms(2,3) by (simp add: hex_bytes_def)
  obtain w where w: "stuck_child db (insert h seen) (fetch_child_ids db b) = Inr w"
    and wn: "w = None \<longleftrightarrow> \<not> live_child db (insert h seen) b"
    and wc: "\<And>c. w = Some c \<Longrightarrow> c \<in> set (map snd (fetch_child_ids db b)) \<and> c \<notin> insert h seen \<and>
           live_workflow db (the (fromhex c))"
    using stuck_child_returns [OF assms(1)] by metis
  obtain ops cps where at: "fetch_attention_rows db b = (ops, cps)" by fastforce
  note armed = recovery_rows_armed [OF at]
  show thesis
  proof (cases "select_workflow db b")
    case None
    moreover have "stuck_workflow db h seen now_arg = Inr (Stuck_Not_Found h)"
      using hb None by (subst stuck_workflow.simps) (simp add: fetch_workflow_skeleton_def)
    ultimately show thesis by (rule that(1))
  next
    case (Some row)
    then have id: "w_workflow_id row = b" using select_workflow_Some by blast
    note eq = stuck_workflow_eq [OF hb Some refl at refl refl, of seen now_arg, unfolded w bind_res_simps]
    have T: "w_state row \<in> TERMINAL_STATES \<longleftrightarrow> w_state row \<in> {4, 5, 6, 7}"
      by (simp add: TERMINAL_STATES_def)
    show thesis
    proof (cases "w_state row \<in> TERMINAL_STATES \<or> w_state row = 3 \<or> lease_live row (now_of db now_arg) \<or> w = None")
      case True
      let ?now = "now_of db now_arg"
      define redisp where
        "redisp = filter (recovery_row ''redispatch_first_seen_at'' ''redispatch_count'') (ops @ cps)"
      define reconc where
        "reconc = filter (recovery_row ''reconcile_first_seen_at'' ''reconcile_attempts'') (ops @ cps)"
      define v where "v =
        (if w_state row \<in> TERMINAL_STATES then Terminal
         else if w_state row = 3 then Blocked_Resolution (filter resolution_required_row cps)
         else if lease_live row ?now then Running_Under_Lease
         else if redisp \<noteq> [] then Redispatch_Pending redisp
         else if reconc \<noteq> [] then Reconcile_Pending reconc
         else if w_next_attempt_at row > ?now then Scheduled_Retry
         else Claimable_Now)"
      have "stuck_workflow db h seen now_arg = Inr (finish_node db h ?now row b v)"
        unfolding eq v_def redisp_def reconc_def using True by auto
      moreover have "verdict_kind_of v \<noteq> K_Waiting_On_Child"
        by (simp add: v_def)
      moreover have "verdict_kind_of v = classify db (insert h seen) ?now row" if "counters_ok db"
      proof -
        have "redisp \<noteq> [] \<longleftrightarrow> redispatch_armed db b" "reconc \<noteq> [] \<longleftrightarrow> reconcile_armed db b"
          unfolding redisp_def reconc_def by (rule armed [OF that])+
        with True wn show ?thesis
          by (auto simp: v_def classify_def id T lease_live_leased)
      qed
      ultimately show thesis by (rule that(2) [OF Some])
    next
      case False
      then obtain c where c: "w = Some c" by auto
      show thesis
      proof (rule that(3) [OF Some])
        show "classify db (insert h seen) (now_of db now_arg) row = K_Waiting_On_Child"
          using False wn by (auto simp: classify_def id TERMINAL_STATES_def lease_live_leased)
        show "c \<in> set (child_ids db h)" using wc [OF c] assms(2) by (simp add: child_ids_def)
        show "\<exists>b. fromhex c = Some b \<and> length b = 16"
          using wc [OF c] fetch_child_ids_whole [OF assms(1), of c b] by simp
      qed (use False wc [OF c] eq c in auto)
    qed
  qed
qed


lemma stuck_measure:
  assumes "c \<in> set (child_ids db h)" and "c \<notin> insert h seen"
  shows "card (call_child_ids db - insert c (insert h seen)) < card (call_child_ids db - insert h seen)"
proof -
  from assms(1) have "c \<in> call_child_ids db"
    by (auto simp: call_child_ids_def dest!: child_ids_hex)
  with assms(2) have "call_child_ids db - insert c (insert h seen) \<subset> call_child_ids db - insert h seen"
    by auto
  then show ?thesis by (simp add: psubset_card_mono call_child_ids_def)
qed

lemma stuck_workflow_total:
  assumes "call_ids_ok db" and "\<exists>b. fromhex h = Some b \<and> length b = 16"
  shows "\<exists>n. stuck_workflow db h seen now_arg = Inr n"
  using assms(2)
proof (induction "card (call_child_ids db - insert h seen)" arbitrary: h seen now_arg rule: less_induct)
  case less
  then obtain b where b: "fromhex h = Some b" "length b = 16" by blast
  from assms(1) b show ?case
  proof (cases rule: stuck_cases [where seen = seen and now_arg = now_arg])
    case not_found
    then show ?thesis by blast
  next
    case leaf
    then show ?thesis by blast
  next
    case (waiting row c)
    obtain m where "stuck_workflow db c (insert h seen) (Some (now_of db now_arg)) = Inr m"
      using less.hyps [OF stuck_measure [OF waiting(4,5)] waiting(7)] by blast
    with waiting(8) show ?thesis
      by (simp add: Let_def split: prod.split)
  qed
qed

text \<open>The node a chain of waiting verdicts ends at, and the ids on the way there.\<close>

fun deepest :: "stuck_node \<Rightarrow> stuck_node" where
  "deepest (Stuck h s now ev ops cps (Waiting_On_Child child path)) = deepest child"
| "deepest n = n"

fun stuck_id :: "stuck_node \<Rightarrow> str" where
  "stuck_id (Stuck_Not_Found h) = h"
| "stuck_id (Stuck h s now ev ops cps v) = h"

fun path_of :: "stuck_node \<Rightarrow> str list" where
  "path_of (Stuck h s now ev ops cps (Waiting_On_Child child (Some path))) = path"
| "path_of n = [stuck_id n]"

lemma pop_path_of:
  assumes "kind_of n = K_Waiting_On_Child \<Longrightarrow> path_of n \<noteq> [stuck_id n]"
  shows "pop_path [stuck_id n] n = (path_of n, stripped) \<Longrightarrow> deepest stripped = deepest n"
    and "fst (pop_path [stuck_id n] n) = path_of n"
  using assms by (induction n rule: path_of.induct) auto

lemma deepest_finish [simp]:
  "verdict_kind_of v \<noteq> K_Waiting_On_Child \<Longrightarrow> deepest (finish_node db h now row wid v) = finish_node db h now row wid v"
  "deepest (finish_node db h now row wid (Waiting_On_Child c p)) = deepest c"
  by (cases v; simp add: finish_node_def) (simp add: finish_node_def)

lemma path_of_finish [simp]:
  "verdict_kind_of v \<noteq> K_Waiting_On_Child \<Longrightarrow> path_of (finish_node db h now row wid v) = [h]"
  "path_of (finish_node db h now row wid (Waiting_On_Child c (Some p))) = p"
  "stuck_id (finish_node db h now row wid v) = h"
  by (cases v; simp add: finish_node_def) (simp_all add: finish_node_def)

definition classify_id :: "database \<Rightarrow> str set \<Rightarrow> datetime \<Rightarrow> str \<Rightarrow> verdict_kind" where
  "classify_id db seen now h =
     (case select_workflow db (the (fromhex h)) of
        None \<Rightarrow> K_Not_Found
      | Some row \<Rightarrow> classify db seen now row)"

text \<open>What a verdict's path is, as an invariant of the descent.\<close>

definition path_ok :: "database \<Rightarrow> str \<Rightarrow> str set \<Rightarrow> datetime \<Rightarrow> stuck_node \<Rightarrow> bool" where
  "path_ok db h seen now n \<longleftrightarrow> stuck_id n = h \<and>
     (\<exists>cs. path_of n = h # cs \<and> chain (child_ids db) h cs \<and> distinct (h # cs) \<and>
        set cs \<inter> seen = {} \<and> (\<forall>c \<in> set cs. live_workflow db (the (fromhex c))) \<and>
        stuck_id (deepest n) = last (h # cs) \<and> kind_of (deepest n) \<noteq> K_Waiting_On_Child \<and>
        (kind_of n = K_Waiting_On_Child \<longleftrightarrow> cs \<noteq> []) \<and>
        (counters_ok db \<longrightarrow>
          kind_of (deepest n) = classify_id db (seen \<union> set (h # cs)) now (last (h # cs))))"

lemma path_ok_step:
  assumes "path_ok db c (insert h seen) now n" and "c \<in> set (child_ids db h)"
    and "c \<notin> insert h seen" and "live_workflow db (the (fromhex c))"
    and "pop_path [c] n = (below, stripped)"
  shows "path_ok db h seen now
    (finish_node db h now row b (Waiting_On_Child stripped (Some (h # below))))"
proof -
  from assms(1) obtain cs where id: "stuck_id n = c" and cs: "path_of n = c # cs"
      "chain (child_ids db) c cs" "distinct (c # cs)" "set cs \<inter> insert h seen = {}"
      "\<forall>c \<in> set cs. live_workflow db (the (fromhex c))" "stuck_id (deepest n) = last (c # cs)"
      "kind_of (deepest n) \<noteq> K_Waiting_On_Child" "kind_of n = K_Waiting_On_Child \<longleftrightarrow> cs \<noteq> []"
    and cls: "counters_ok db \<longrightarrow> kind_of (deepest n) =
            classify_id db (insert h seen \<union> set (c # cs)) now (last (c # cs))"
    by (auto simp: path_ok_def)
  have "kind_of n = K_Waiting_On_Child \<Longrightarrow> path_of n \<noteq> [stuck_id n]"
    using cs(1,8) by simp
  from pop_path_of [OF this] assms(5) id cs(1)
  have below: "below = c # cs" and deep: "deepest stripped = deepest n" by auto
  have "insert h seen \<union> set (c # cs) = seen \<union> set (h # c # cs)"
    and "last (h # c # cs) = last (c # cs)" by auto
  with cls have cls': "counters_ok db \<longrightarrow> kind_of (deepest n) =
            classify_id db (seen \<union> set (h # c # cs)) now (last (h # c # cs))"
    by (simp only:)
  have "chain (child_ids db) h (c # cs)" "distinct (h # c # cs)" "set (c # cs) \<inter> seen = {}"
    "\<forall>c \<in> set (c # cs). live_workflow db (the (fromhex c))"
    "stuck_id (deepest n) = last (h # c # cs)"
    using cs assms(2-4) by auto
  with cls' cs(7) show ?thesis
    unfolding path_ok_def path_of_finish deepest_finish kind_of_finish_node below deep
    by (simp only: simp_thms verdict_kind_of.simps) blast
qed

lemma stuck_path_ok:
  assumes "call_ids_ok db" and "\<exists>b. fromhex h = Some b \<and> length b = 16"
    and "stuck_workflow db h seen now_arg = Inr n"
  shows "path_ok db h seen (now_of db now_arg) n"
  using assms(2,3)
proof (induction "card (call_child_ids db - insert h seen)" arbitrary: h seen now_arg n rule: less_induct)
  case less
  then obtain b where b: "fromhex h = Some b" "length b = 16" by blast
  from assms(1) b show ?case
  proof (cases rule: stuck_cases [where seen = seen and now_arg = now_arg])
    case not_found
    with less.prems(2) have "n = Stuck_Not_Found h" by simp
    with not_found(1) b show ?thesis by (simp add: path_ok_def classify_id_def)
  next
    case (leaf row v)
    with less.prems(2) have n: "n = finish_node db h (now_of db now_arg) row b v" by simp
    have "counters_ok db \<longrightarrow> verdict_kind_of v = classify_id db (insert h seen) (now_of db now_arg) h"
      using leaf(1,4) b by (simp add: classify_id_def)
    moreover note leaf(3) deepest_finish(1) [OF leaf(3)] path_of_finish(1) [OF leaf(3)]
    ultimately show ?thesis by (simp add: path_ok_def n del: deepest_finish path_of_finish(1))
  next
    case (waiting row c)
    from trans [OF waiting(8) [symmetric] less.prems(2)] obtain m where
      m: "stuck_workflow db c (insert h seen) (Some (now_of db now_arg)) = Inr m"
      by (auto simp: bind_res_eq_Inr)
    obtain below stripped where pop: "pop_path [c] m = (below, stripped)" by fastforce
    have n: "n = finish_node db h (now_of db now_arg) row b (Waiting_On_Child stripped (Some (h # below)))"
      using trans [OF waiting(8) [symmetric] less.prems(2)] by (simp add: m pop)
    have "path_ok db c (insert h seen) (now_of db now_arg) m"
      using less.hyps [OF stuck_measure [OF waiting(4,5)] waiting(7) m] by simp
    from path_ok_step [OF this waiting(4-6) pop] n show ?thesis by simp
  qed
qed


lemma stuck_classified:
  assumes "call_ids_ok db" and "counters_ok db"
    and "fromhex h = Some b" and "length b = 16" and "select_workflow db b = Some row"
  shows "\<exists>n. stuck_workflow db h {} None = Inr n \<and> kind_of n = classify db {h} (db_clock db) row"
  using assms(1,3,4)
proof (cases rule: stuck_cases [where seen = "{}" and now_arg = None])
  case not_found
  with assms(5) show ?thesis by simp
next
  case (leaf row' v)
  with assms(2,5) show ?thesis by simp
next
  case (waiting row' c)
  obtain m where "stuck_workflow db c (insert h {}) (Some (now_of db None)) = Inr m"
    using stuck_workflow_total [OF assms(1) waiting(7)] by blast
  with waiting(1,2,8) assms(5) show ?thesis
    by (simp add: Let_def split: prod.split)
qed

section \<open>Properties of the verdict\<close>

text \<open>
  C9. The verdict is the documented classification: for a well-formed id of an existing
  workflow, \<open>stuck_workflow\<close> returns, and its verdict is the first that applies of terminal,
  blocked, leased (an owner is named and the lease ends after the clock), waiting on a child,
  re-dispatch, reconcile, scheduled, claimable, read off the tables at the database clock.
\<close>

theorem stuck_refines_classification:
  assumes "call_ids_ok db" and "counters_ok db"
    and "fromhex h = Some b" and "length b = 16" and "select_workflow db b = Some row"
  shows "\<exists>n. stuck_workflow db h {} None = Inr n \<and> kind_of n = classify db {h} (db_clock db) row"
  using assms by (rule stuck_classified)

text \<open>
  C10. A verdict always comes back: on any call graph, cyclic or not, the unbounded descent
  into children ends and raises nothing, when every call names a whole workflow id.
\<close>

theorem stuck_returns:
  assumes "call_ids_ok db" and "fromhex h = Some b" and "length b = 16"
  shows "\<exists>n. stuck_workflow db h {} None = Inr n"
  using stuck_workflow_total assms by blast

text \<open>
  C11. The path of a waiting verdict leads to the answer: it starts at the requested
  workflow, goes from a workflow to one of its calls at every step, repeats no id, passes only
  through non-terminal workflows, and the node it ends at has a verdict of its own that is
  neither waiting nor terminal nor not-found, the classification of that workflow.
\<close>

theorem stuck_path_leads_to_answer:
  assumes "call_ids_ok db" and "counters_ok db" and "fromhex h = Some b" and "length b = 16"
    and "stuck_workflow db h {} None = Inr n" and "kind_of n = K_Waiting_On_Child"
  shows "\<exists>cs. cs \<noteq> [] \<and> path_of n = h # cs \<and> chain (child_ids db) h cs \<and> distinct (h # cs) \<and>
    (\<forall>c \<in> set cs. live_workflow db (the (fromhex c))) \<and> stuck_id (deepest n) = last cs \<and>
    kind_of (deepest n) = classify_id db (set (path_of n)) (db_clock db) (last cs) \<and>
    kind_of (deepest n) \<notin> {K_Waiting_On_Child, K_Terminal, K_Not_Found}"
proof -
  have "path_ok db h {} (db_clock db) n"
    using stuck_path_ok [OF assms(1) _ assms(5)] assms(3,4) by simp
  then obtain cs where cs: "path_of n = h # cs" "chain (child_ids db) h cs" "distinct (h # cs)"
      "\<forall>c \<in> set cs. live_workflow db (the (fromhex c))" "stuck_id (deepest n) = last (h # cs)"
      "kind_of (deepest n) \<noteq> K_Waiting_On_Child" "cs \<noteq> []"
      "kind_of (deepest n) = classify_id db (set (h # cs)) (db_clock db) (last (h # cs))"
    unfolding path_ok_def using assms(2,6) by auto
  have "live_workflow db (the (fromhex (last cs)))"
    using cs(4,7) last_in_set by blast
  then have "kind_of (deepest n) \<notin> {K_Terminal, K_Not_Found}"
    using cs(7,8)
    by (auto simp: classify_id_def live_workflow_def classify_def TERMINAL_STATES_def split: option.splits)
  with cs show ?thesis by auto
qed

section \<open>The properties at the example\<close>

lemma ex_counters_ok: "counters_ok ex_db"
  by (simp add: counters_ok_def ex_db_def)

lemma ex_root_bytes: "fromhex ex_root = Some (ex_id 0xe1)" "length (ex_id 0xe1) = 16"
  by (simp_all add: ex_root_def ex_id_def)

lemma ex_root_row: "select_workflow ex_db (ex_id 0xe1) = Some (ex_workflow 0xe1 1 50)"
  by (simp add: select_workflow_def ex_db_def ex_workflow_def)

lemma ex_classify: "classify ex_db {ex_root} (db_clock ex_db) (ex_workflow 0xe1 1 50) = K_Waiting_On_Child"
  by code_simp

theorem stuck_refines_classification_witness:
  "\<exists>n. stuck_workflow ex_db ex_root {} None = Inr n \<and> kind_of n = K_Waiting_On_Child"
  using stuck_refines_classification [OF ex_call_ids_ok ex_counters_ok ex_root_bytes ex_root_row]
  by (simp add: ex_classify)

theorem stuck_returns_witness: "\<exists>n. stuck_workflow ex_db ex_root {} None = Inr n"
  by (rule stuck_returns [OF ex_call_ids_ok ex_root_bytes])

theorem stuck_path_leads_to_answer_witness:
  "\<exists>n cs. stuck_workflow ex_db ex_root {} None = Inr n \<and> path_of n = ex_root # cs \<and>
     chain (child_ids ex_db) ex_root cs \<and> cs \<noteq> [] \<and> distinct (ex_root # cs)"
proof -
  obtain n where n: "stuck_workflow ex_db ex_root {} None = Inr n" "kind_of n = K_Waiting_On_Child"
    using stuck_classified [OF ex_call_ids_ok ex_counters_ok ex_root_bytes ex_root_row]
    by (auto simp: ex_classify)
  from stuck_path_leads_to_answer [OF ex_call_ids_ok ex_counters_ok ex_root_bytes n] n show ?thesis
    by blast
qed

end
