(* ===== verification/Server.thy ===== *)
theory Server
  imports Listing Timeline Stuck "HOL-Library.Sublist"
begin

text \<open>
  \<open>mfviz/server.py\<close>: routing, the read-only JSON API over the query layer and the static UI.
  A handler is a function of the request, the database server, the file system and the number
  of open connections; it returns the response (or the exception that leaves it) and the
  number of open connections afterwards.  What lies behind the driver and the file system is
  given by two records: \<open>db_server\<close> (what connecting, the clock check, a query and the health
  query do) and \<open>file_system\<close> (what \<open>Path.resolve\<close>, \<open>is_file\<close> and \<open>read_bytes\<close> do).
\<close>

section \<open>The outside world\<close>

record db_server =
  ds_pymysql :: bool
  ds_connect :: "database result"
  ds_utc_offset :: "int result"
  ds_query_fault :: "exn option"
  ds_health :: "(datetime \<times> int \<times> str \<times> str) result"
  ds_sql :: sql_env
  ds_loads :: "str \<Rightarrow> json result"

type_synonym path = "str list"

record file_system =
  fs_resolve :: "path \<Rightarrow> path result"
  fs_is_file :: "path \<Rightarrow> bool result"
  fs_read_bytes :: "path \<Rightarrow> bytes result"

record server =
  sv_database :: str
  sv_static_root :: path

section \<open>Connections\<close>

text \<open>
  \<open>connect\<close> and \<open>_assert_db_utc\<close>, with the number of open connections: a clock that is off
  closes the connection and raises, a clock query that itself raises leaves it open.
\<close>

definition assert_db_utc :: "db_server \<Rightarrow> nat \<Rightarrow> unit result \<times> nat" where
  "assert_db_utc ds n =
     (case ds_utc_offset ds of
        Inl e \<Rightarrow> (Inl e, n)
      | Inr off \<Rightarrow> if off \<noteq> 0 then (Inl (Db_Not_Utc off), n - 1) else (Inr (), n))"

definition connect :: "db_server \<Rightarrow> nat \<Rightarrow> database result \<times> nat" where
  "connect ds n =
     (if \<not> ds_pymysql ds then (Inl (Mfviz No_PyMySQL), n)
      else case ds_connect ds of
             Inl e \<Rightarrow> (Inl e, n)
           | Inr db \<Rightarrow>
               (case assert_db_utc ds (Suc n) of
                  (Inl e, m) \<Rightarrow> (Inl e, m)
                | (Inr _, m) \<Rightarrow> (Inr db, m)))"

text \<open>
  \<open>conn = connect(...)\<close>, then the body in \<open>try ... finally: conn.close()\<close>; the body's queries
  may be cut short by a fault of the server.
\<close>

definition with_connection ::
    "db_server \<Rightarrow> (database \<Rightarrow> 'a result) \<Rightarrow> nat \<Rightarrow> 'a result \<times> nat" where
  "with_connection ds body n =
     (case connect ds n of
        (Inl e, m) \<Rightarrow> (Inl e, m)
      | (Inr db, m) \<Rightarrow>
          ((case ds_query_fault ds of Some e \<Rightarrow> Inl e | None \<Rightarrow> body db), m - 1))"

section \<open>Responses\<close>

datatype payload =
    Bad_Depth str
  | Depth_Below_One
  | Missing_Params "string list"
  | Error_Body string exn
  | Health_Error string exn
  | Health str str int str str
  | Unknown_Endpoint str
  | Path_Not_Found str
  | Method_Not_Allowed
  | Inspect_Body "inspect_info call_node"
  | Tree_Body "tree_info call_node"
  | Timeline_Body timeline
  | Stuck_Body stuck_node
  | List_Body "jrow list"

datatype response =
    Send_Json nat payload
  | Send_File path string bytes
  | Send_Empty nat

fun status_of :: "response \<Rightarrow> nat" where
  "status_of (Send_Json s p) = s"
| "status_of (Send_File p t b) = 200"
| "status_of (Send_Empty s) = s"

definition CONTENT_TYPES :: "(string, string) dict" where
  "CONTENT_TYPES =
     [(''.html'', ''text/html; charset=utf-8''),
      (''.js'', ''text/javascript; charset=utf-8''),
      (''.css'', ''text/css; charset=utf-8''),
      (''.json'', ''application/json; charset=utf-8''),
      (''.mf'', ''text/plain; charset=utf-8''),
      (''.svg'', ''image/svg+xml''),
      (''.png'', ''image/png''),
      (''.ico'', ''image/x-icon'')]"

text \<open>\<open>Path.suffix\<close>: from the last dot, unless it is the first or the last character of the name.\<close>

definition path_suffix :: "path \<Rightarrow> str" where
  "path_suffix p =
     (case rpartition_on 46 (if p = [] then [] else last p) of
        (stem, found, ext) \<Rightarrow> if found \<and> stem \<noteq> [] \<and> ext \<noteq> [] then 46 # ext else [])"

definition content_type :: "path \<Rightarrow> string" where
  "content_type p =
     (case find (\<lambda>(s, _). lit s = lower (path_suffix p)) CONTENT_TYPES of
        None \<Rightarrow> ''application/octet-stream''
      | Some (_, t) \<Rightarrow> t)"

definition send_file :: "file_system \<Rightarrow> path \<Rightarrow> response result" where
  "send_file fs p = bind_res (fs_read_bytes fs p) (\<lambda>body. Inr (Send_File p (content_type p) body))"

section \<open>The API\<close>

text \<open>The except clauses shared by the workflow endpoints.\<close>

definition error_response :: "exn \<Rightarrow> response" where
  "error_response e =
     (case e of
        Mfviz m \<Rightarrow> Send_Json 400 (Error_Body ''bad_request'' e)
      | Db_Not_Utc off \<Rightarrow> Send_Json 502 (Error_Body ''db_not_utc'' e)
      | _ \<Rightarrow> Send_Json 502 (Error_Body ''db_error'' e))"

definition api_health :: "server \<Rightarrow> db_server \<Rightarrow> nat \<Rightarrow> response \<times> nat" where
  "api_health sv ds n =
     (case with_connection ds (\<lambda>db. ds_health ds) n of
        (Inl (Db_Not_Utc off), m) \<Rightarrow> (Send_Json 502 (Health_Error ''db_not_utc'' (Db_Not_Utc off)), m)
      | (Inl e, m) \<Rightarrow> (Send_Json 502 (Health_Error ''db_unreachable'' e), m)
      | (Inr (now, off, since, until), m) \<Rightarrow>
          (Send_Json 200 (Health (sv_database sv) (iso_z now) off since until), m))"

definition DEFAULT_MAX_DEPTH :: nat where
  "DEFAULT_MAX_DEPTH = 10"

text \<open>\<open>params.get(name, default)[-1]\<close>.\<close>

definition last_param :: "(str \<times> str) list \<Rightarrow> string \<Rightarrow> str option" where
  "last_param params name =
     (case qs_values params (lit name) of [] \<Rightarrow> None | vs \<Rightarrow> Some (last vs))"

fun is_not_found :: "payload \<Rightarrow> bool" where
  "is_not_found (Inspect_Body (Not_Found h)) = True"
| "is_not_found (Tree_Body (Not_Found h)) = True"
| "is_not_found (Timeline_Body (Timeline_Not_Found h)) = True"
| "is_not_found (Stuck_Body (Stuck_Not_Found h)) = True"
| "is_not_found _ = False"

definition workflow_view ::
    "db_server \<Rightarrow> str \<Rightarrow> str option \<Rightarrow> int \<Rightarrow> database \<Rightarrow> payload result" where
  "workflow_view ds h view max_depth db =
     (if view = Some (lit ''tree'') then map_sum id Tree_Body (tree_workflow db max_depth h 0 {})
      else if view = Some (lit ''timeline'') then
        map_sum id Timeline_Body (timeline_workflow (ds_loads ds) db max_depth h)
      else if view = Some (lit ''stuck'') then map_sum id Stuck_Body (stuck_workflow db h {} None)
      else map_sum id Inspect_Body (inspect_workflow (ds_loads ds) db max_depth h 0 {}))"

definition requested_depth :: "str \<Rightarrow> str" where
  "requested_depth query =
     (case last_param (parse_qsl query) ''max_depth'' of None \<Rightarrow> nat_str DEFAULT_MAX_DEPTH | Some v \<Rightarrow> v)"

definition api_workflow ::
    "db_server \<Rightarrow> str \<Rightarrow> str option \<Rightarrow> str \<Rightarrow> nat \<Rightarrow> response \<times> nat" where
  "api_workflow ds h view query n =
     (let raw_depth = requested_depth query
      in case py_int raw_depth of
           None \<Rightarrow> (Send_Json 400 (Bad_Depth raw_depth), n)
         | Some max_depth \<Rightarrow>
             if max_depth < 1 then (Send_Json 400 Depth_Below_One, n)
             else case with_connection ds (workflow_view ds h view max_depth) n of
                    (Inl e, m) \<Rightarrow> (error_response e, m)
                  | (Inr node, m) \<Rightarrow>
                      (Send_Json (if is_not_found node then 404 else 200) node, m))"

text \<open>\<open>one(name)\<close>: the last value of a parameter, absent when it is empty.\<close>

definition one :: "(str \<times> str) list \<Rightarrow> string \<Rightarrow> str option" where
  "one params name =
     (case last_param params name of None \<Rightarrow> None | Some v \<Rightarrow> if v = [] then None else Some v)"

definition entry_href :: "jrow \<Rightarrow> jrow result" where
  "entry_href entry =
     bind_res (jrow_str entry ''workflow_id'') (\<lambda>wid.
       Inr (dict_set ''href'' (JStr (lit ''/api/workflow/'' @ wid)) entry))"

definition api_workflows :: "db_server \<Rightarrow> str \<Rightarrow> nat \<Rightarrow> response result \<times> nat" where
  "api_workflows ds query n =
     (let params = parse_qsl query;
          script = one params ''script''; since = one params ''since''; until = one params ''until'';
          missing = map fst (filter (\<lambda>(_, v). v = None)
            [(''script'', script), (''since'', since), (''until'', until)])
      in if missing \<noteq> [] then (Inr (Send_Json 400 (Missing_Params missing)), n)
         else case with_connection ds (\<lambda>db.
                     list_workflows (ds_sql ds) db (the script) (the since) (the until)
                       (one params ''plan_version'') (one params ''state'')) n of
                (Inl e, m) \<Rightarrow> (Inr (error_response e), m)
              | (Inr summaries, m) \<Rightarrow>
                  (bind_res (map_res entry_href summaries) (\<lambda>entries.
                     Inr (Send_Json 200 (List_Body entries))), m))"

text \<open>
  \<open>_WORKFLOW_ROUTE.fullmatch\<close>: the prefix, 32 hex digits of either case, and optionally one of
  three views.
\<close>

definition route_views :: "(str \<times> str option) list" where
  "route_views = [(lit '''', None), (lit ''/tree'', Some (lit ''tree'')),
     (lit ''/timeline'', Some (lit ''timeline'')), (lit ''/stuck'', Some (lit ''stuck''))]"

definition workflow_route :: "str \<Rightarrow> (str \<times> str option) option" where
  "workflow_route p =
     (let prefix = lit ''/api/workflow/'';
          rest = drop (length prefix) p;
          h = take 32 rest
      in if take (length prefix) p = prefix \<and> length h = 32 \<and> list_all is_hex h
         then map_option (\<lambda>(_, view). (h, view)) (find (\<lambda>(s, _). s = drop 32 rest) route_views)
         else None)"

definition handle_api ::
    "server \<Rightarrow> db_server \<Rightarrow> str \<times> str \<Rightarrow> nat \<Rightarrow> response result \<times> nat" where
  "handle_api sv ds parsed n =
     (case parsed of (path, query) \<Rightarrow>
        if path = lit ''/api/health'' then apfst Inr (api_health sv ds n)
        else if path = lit ''/api/workflows'' then api_workflows ds query n
        else case workflow_route path of
               Some (h, view) \<Rightarrow> apfst Inr (api_workflow ds h view query n)
             | None \<Rightarrow> (Inr (Send_Json 404 (Unknown_Endpoint path)), n))"

section \<open>The static UI\<close>

definition STATIC_ALLOWLIST :: "str set" where
  "STATIC_ALLOWLIST = lit ` {''index.html'', ''live.html'', ''scenarios.js'',
     ''microflows.machine.js'', ''vendor'', ''plans''}"

text \<open>
  \<open>Path(root) / rel\<close> for a normalised relative \<open>rel\<close> appends its components;
  \<open>root != target and root not in target.parents\<close> says that \<open>root\<close> is no prefix of \<open>target\<close>.
\<close>

definition handle_static :: "server \<Rightarrow> file_system \<Rightarrow> str \<Rightarrow> response result" where
  "handle_static sv fs raw_path =
     (let rel0 = normpath (lstrip_of {slash} (unquote raw_path));
          rel = (if rel0 = [] \<or> rel0 = dot then lit ''index.html'' else rel0);
          parts = split_on slash rel;
          not_found = Inr (Send_Json 404 (Path_Not_Found raw_path))
      in if dotdot \<in> set parts then not_found
         else if hd parts \<notin> STATIC_ALLOWLIST then not_found
         else bind_res (fs_resolve fs (sv_static_root sv @ parts)) (\<lambda>target.
           if \<not> prefix (sv_static_root sv) target then not_found
           else bind_res (fs_is_file fs target) (\<lambda>is_file.
             if \<not> is_file then not_found else send_file fs target)))"

section \<open>Dispatch\<close>

definition is_api_path :: "str \<Rightarrow> bool" where
  "is_api_path p \<longleftrightarrow> p = lit ''/api'' \<or> prefix (lit ''/api/'') p"

text \<open>\<open>do_GET\<close>: any exception that reaches it becomes a 500.\<close>

definition do_GET :: "server \<Rightarrow> db_server \<Rightarrow> file_system \<Rightarrow> str \<Rightarrow> nat \<Rightarrow> response \<times> nat" where
  "do_GET sv ds fs target n =
     (let parsed = urlparse target;
          (r, m) = (if is_api_path (fst parsed) then handle_api sv ds parsed n
                    else (handle_static sv fs (fst parsed), n))
      in case r of
           Inl e \<Rightarrow> (Send_Json 500 (Error_Body ''internal_error'' e), m)
         | Inr resp \<Rightarrow> (resp, m))"

text \<open>The methods the handler defines; \<open>http.server\<close> itself answers any other with 501.\<close>

datatype http_method = GET | HEAD | POST | PUT | DELETE

definition handle ::
    "server \<Rightarrow> db_server \<Rightarrow> file_system \<Rightarrow> http_method \<Rightarrow> str \<Rightarrow> nat \<Rightarrow> response \<times> nat" where
  "handle sv ds fs meth target n =
     (case meth of
        GET \<Rightarrow> do_GET sv ds fs target n
      | HEAD \<Rightarrow> (Send_Empty 405, n)
      | _ \<Rightarrow> (Send_Json 405 Method_Not_Allowed, n))"

definition create_server :: "file_system \<Rightarrow> str \<Rightarrow> path \<Rightarrow> server result" where
  "create_server fs database static_root =
     bind_res (fs_is_file fs (static_root @ [lit ''index.html''])) (\<lambda>present.
       if \<not> present then Inl (Mfviz (No_Index_Html (slash # join_with slash static_root)))
       else bind_res (fs_resolve fs static_root) (\<lambda>root.
         Inr \<lparr>sv_database = database, sv_static_root = root\<rparr>))"


section \<open>Facts about the handlers\<close>

definition static_parts :: "str \<Rightarrow> str list" where
  "static_parts raw_path =
     (let rel0 = normpath (lstrip_of {slash} (unquote raw_path));
          rel = (if rel0 = [] \<or> rel0 = dot then lit ''index.html'' else rel0)
      in split_on slash rel)"

lemma handle_static_eq:
  "handle_static sv fs raw_path =
     (let parts = static_parts raw_path;
          not_found = Inr (Send_Json 404 (Path_Not_Found raw_path))
      in if dotdot \<in> set parts then not_found
         else if hd parts \<notin> STATIC_ALLOWLIST then not_found
         else bind_res (fs_resolve fs (sv_static_root sv @ parts)) (\<lambda>target.
           if \<not> prefix (sv_static_root sv) target then not_found
           else bind_res (fs_is_file fs target) (\<lambda>is_file.
             if \<not> is_file then not_found else send_file fs target)))"
  by (simp add: handle_static_def static_parts_def Let_def)

lemma hd_lstrip: "lstrip_of {slash} s \<noteq> [] \<Longrightarrow> hd (lstrip_of {slash} s) \<noteq> slash"
  using hd_dropWhile [of "\<lambda>c. c \<in> {slash}" s] by (simp add: lstrip_of_def)

lemma index_parts: "split_on slash (lit ''index.html'') = [lit ''index.html'']"
  by (rule split_on_id) (simp add: lit_def)

lemma static_parts_comps:
  "\<exists>n plain. static_parts raw_path = replicate n dotdot @ plain \<and>
     (\<forall>c \<in> set plain. plain_comp c \<and> c \<noteq> dotdot) \<and> replicate n dotdot @ plain \<noteq> []"
proof -
  let ?p = "lstrip_of {slash} (unquote raw_path)"
  have idx: "plain_comp (lit ''index.html'')" "lit ''index.html'' \<noteq> dotdot"
    by (simp_all add: plain_comp_def lit_def dot_def dotdot_def)
  show ?thesis
  proof (cases "normpath ?p = [] \<or> normpath ?p = dot")
    case True
    then have "static_parts raw_path = replicate 0 dotdot @ [lit ''index.html'']"
      by (auto simp: static_parts_def index_parts)
    with idx show ?thesis by (intro exI [of _ 0] exI [of _ "[lit ''index.html'']"]) simp
  next
    case False
    then have p: "?p \<noteq> []" by (auto simp: normpath_def)
    with False have "static_parts raw_path = norm_comps False (split_on slash ?p)"
      using split_normpath_relative [OF p hd_lstrip [OF p]]
      by (auto simp: static_parts_def Let_def)
    moreover obtain n plain where "norm_comps False (split_on slash ?p) = replicate n dotdot @ plain"
      "\<forall>c \<in> set plain. plain_comp c \<and> c \<noteq> dotdot"
      using norm_comps_split by blast
    moreover have "split_on slash (normpath ?p) \<noteq> []" by simp
    ultimately show ?thesis
      using False split_normpath_relative [OF p hd_lstrip [OF p]] by metis
  qed
qed

lemma static_parts_plain:
  assumes "dotdot \<notin> set (static_parts raw_path)"
  shows "static_parts raw_path \<noteq> [] \<and> (\<forall>c \<in> set (static_parts raw_path). plain_comp c \<and> c \<noteq> dotdot)"
  using static_parts_comps [of raw_path] assms by fastforce

lemma handle_static_file:
  assumes "handle_static sv fs raw_path = Inr (Send_File p t body)"
  shows "dotdot \<notin> set (static_parts raw_path) \<and> hd (static_parts raw_path) \<in> STATIC_ALLOWLIST \<and>
    fs_resolve fs (sv_static_root sv @ static_parts raw_path) = Inr p \<and> prefix (sv_static_root sv) p \<and>
    fs_is_file fs p = Inr True \<and> fs_read_bytes fs p = Inr body \<and> t = content_type p"
  using assms
  by (auto simp: handle_static_eq Let_def send_file_def bind_res_eq_Inr split: if_splits)

lemma api_no_file: "handle_api sv ds parsed n = (Inr r, m) \<Longrightarrow> r \<noteq> Send_File p t body"
  by (auto simp: handle_api_def api_health_def api_workflow_def api_workflows_def error_response_def
      Let_def bind_res_eq_Inr split: prod.splits if_splits option.splits sum.splits exn.splits)


lemma norm_comps_plain:
  assumes "\<forall>c \<in> set cs. plain_comp c \<and> c \<noteq> dotdot"
  shows "norm_comps rooted cs = cs"
proof -
  have "foldl (norm_comp rooted) acc cs = rev cs @ acc" for acc
    using assms by (induction cs arbitrary: acc) (auto simp: norm_comp_def plain_comp_def)
  then show ?thesis by (simp add: norm_comps_def)
qed

lemma static_parts_join:
  assumes "cs \<noteq> []" and "\<forall>c \<in> set cs. plain_comp c \<and> c \<noteq> dotdot" and "37 \<notin> set (join_with slash cs)"
  shows "static_parts (slash # join_with slash cs) = cs"
proof -
  let ?j = "join_with slash cs"
  obtain c ds where cs: "cs = c # ds" using assms(1) by (cases cs) auto
  then obtain x xs where c: "c = x # xs" "x \<noteq> slash"
    using assms(2) by (cases c) (auto simp: plain_comp_def)
  have j: "?j \<noteq> []" "hd ?j \<noteq> slash"
    by (cases ds; simp add: cs c)+
  have strip: "lstrip_of {slash} (unquote (slash # ?j)) = ?j"
    using assms(3) j by (cases ?j) (simp_all add: lstrip_of_def)
  have split: "split_on slash ?j = cs"
    using assms by (intro split_join) (auto simp: plain_comp_def)
  have "norm_comps False (split_on slash ?j) = cs"
    using split norm_comps_plain [OF assms(2)] by simp
  then have np: "normpath ?j = ?j"
    using normpath_relative [OF j] assms(1) by (simp add: Let_def)
  have "?j \<noteq> dot"
  proof
    assume "?j = dot"
    with split have "cs = split_on slash dot" by simp
    then have "cs = [dot]" by (simp add: dot_def)
    with assms(2) show False by (simp add: plain_comp_def)
  qed
  with j strip np split show ?thesis by (simp add: static_parts_def Let_def)
qed

lemma connect_balance:
  "connect ds n = (Inr db, m) \<Longrightarrow> m = Suc n"
  "connect ds n = (Inl e, m) \<Longrightarrow> \<forall>e. ds_utc_offset ds \<noteq> Inl e \<Longrightarrow> m = n"
  by (auto simp: connect_def assert_db_utc_def split: if_splits sum.splits prod.splits)

lemma with_connection_balance:
  assumes "\<forall>e. ds_utc_offset ds \<noteq> Inl e"
  shows "snd (with_connection ds body n) = n"
proof (cases "connect ds n")
  case (Pair r m)
  then show ?thesis
    using connect_balance [of ds n] assms by (cases r) (auto simp: with_connection_def)
qed

lemma with_connection_off:
  assumes "ds_utc_offset ds = Inr off" and "off \<noteq> 0"
  shows "\<exists>e m. with_connection ds body n = (Inl e, m)"
  using assms by (auto simp: with_connection_def connect_def assert_db_utc_def split: sum.splits)

lemma with_connection_ok:
  assumes "ds_pymysql ds" and "ds_connect ds = Inr db" and "ds_utc_offset ds = Inr 0"
    and "ds_query_fault ds = None"
  shows "with_connection ds body n = (body db, n)"
  using assms by (simp add: with_connection_def connect_def assert_db_utc_def)

lemma with_connection_balanceD:
  "\<forall>e. ds_utc_offset ds \<noteq> Inl e \<Longrightarrow> with_connection ds body n = (r, m) \<Longrightarrow> m = n"
  using with_connection_balance [of ds body n] by simp

lemma handle_balance:
  assumes "\<forall>e. ds_utc_offset ds \<noteq> Inl e"
  shows "snd (handle sv ds fs meth target n) = n"
proof -
  note D = with_connection_balanceD [OF assms]
  have "snd (api_health sv ds n) = n"
    by (auto simp: api_health_def dest: D split: prod.split sum.split exn.split)
  moreover have "snd (api_workflow ds h view query n) = n" for h view query
    by (auto simp: api_workflow_def Let_def dest: D split: prod.split sum.split option.split) 
  moreover have "snd (api_workflows ds query n) = n" for query
    by (auto simp: api_workflows_def Let_def dest: D split: prod.split sum.split)
  ultimately have "snd (handle_api sv ds p n) = n" for p
    by (auto simp: handle_api_def split: prod.split option.split) 
  then have "snd (do_GET sv ds fs target n) = n"
    by (simp add: do_GET_def Let_def case_prod_unfold split: sum.split)
  then show ?thesis by (simp add: handle_def split: http_method.split)
qed

lemma with_connection_Inr:
  assumes "with_connection ds body n = (Inr x, m)"
  shows "ds_utc_offset ds = Inr 0 \<and> (\<exists>db. ds_connect ds = Inr db \<and> body db = Inr x)"
  using assms
  by (auto simp: with_connection_def connect_def assert_db_utc_def
      split: if_splits sum.splits option.splits prod.splits)

lemma list_summary_id [simp]:
  "dict_get (list_summary wp) ''workflow_id'' = Some (JStr (hex (w_workflow_id (fst wp))))"
  by (simp add: list_summary_def list_cols_def Let_def)

lemma entry_href_summary:
  "entry_href (list_summary wp) =
     Inr (dict_set ''href'' (JStr (lit ''/api/workflow/'' @ hex (w_workflow_id (fst wp)))) (list_summary wp))"
  by (simp add: entry_href_def jrow_str_def)

lemma list_workflows_rows:
  assumes "list_workflows env db script since until plan_version state = Inr out"
  shows "\<exists>rows. out = map list_summary rows \<and> fst ` set rows \<subseteq> set (tb_workflow db)"
proof -
  from assms obtain code where code: "resolve_state state = Inr code"
    by (auto simp: list_workflows_def bind_res_eq_Inr)
  let ?rows = "created_desc (filter (\<lambda>row. list_all (\<lambda>c. c row)
    (list_where env script since until plan_version code)) (left_join_plan db))"
  have "out = map list_summary ?rows"
    using assms code by (simp add: list_workflows_def Let_def)
  moreover have "set ?rows \<subseteq> set (left_join_plan db)"
    by (metis filter_is_subset mset_created_desc set_mset_mset)
  then have "fst ` set ?rows \<subseteq> set (tb_workflow db)"
    using left_join_plan_mem by (fastforce simp del: mset_created_desc)
  ultimately show ?thesis by blast
qed

lemma entries_total:
  "map_res entry_href (map list_summary rows) = Inr (map (\<lambda>wp.
     dict_set ''href'' (JStr (lit ''/api/workflow/'' @ hex (w_workflow_id (fst wp)))) (list_summary wp)) rows)"
  by (induction rows) (simp_all add: entry_href_summary)

definition api_ok :: "db_server \<Rightarrow> response \<Rightarrow> bool" where
  "api_ok ds r \<longleftrightarrow> status_of r \<in> {200, 400, 404, 502} \<and> (status_of r = 200 \<longrightarrow> ds_utc_offset ds = Inr 0)"

lemma error_response_ok: "api_ok ds (error_response e)"
  by (simp add: error_response_def api_ok_def split: exn.split)

lemma api_health_ok: "api_ok ds (fst (api_health sv ds n))"
  by (auto simp: api_health_def api_ok_def dest: with_connection_Inr split: prod.split sum.split exn.split)

lemma api_workflow_ok: "api_ok ds (fst (api_workflow ds h view query n))"
  using error_response_ok
  by (auto simp: api_workflow_def api_ok_def Let_def dest: with_connection_Inr
      split: prod.split sum.split option.split)

lemma api_workflows_ok: "\<exists>r. fst (api_workflows ds query n) = Inr r \<and> api_ok ds r"
proof -
  let ?p = "parse_qsl query"
  let ?body = "\<lambda>db. list_workflows (ds_sql ds) db (the (one ?p ''script'')) (the (one ?p ''since''))
    (the (one ?p ''until'')) (one ?p ''plan_version'') (one ?p ''state'')"
  obtain r m where w: "with_connection ds ?body n = (r, m)" by fastforce
  show ?thesis
  proof (cases r)
    case (Inl e)
    with w error_response_ok show ?thesis by (simp add: api_workflows_def Let_def api_ok_def)
  next
    case (Inr out)
    from with_connection_Inr [OF w [unfolded Inr]] obtain db where
      off: "ds_utc_offset ds = Inr 0" and out: "?body db = Inr out" by blast
    obtain rows where "out = map list_summary rows"
      using list_workflows_rows [OF out] by blast
    with w Inr off show ?thesis
      by (simp add: api_workflows_def Let_def entries_total api_ok_def)
  qed
qed

lemma handle_api_ok: "\<exists>r. fst (handle_api sv ds p n) = Inr r \<and> api_ok ds r"
proof (cases p)
  case (Pair path query)
  have "api_ok ds (Send_Json 404 (Unknown_Endpoint path))" by (simp add: api_ok_def)
  with Pair api_health_ok [of ds sv n] api_workflow_ok [of ds _ _ query n] api_workflows_ok [of ds query n]
  show ?thesis
    by (simp add: handle_api_def split: option.split)
qed

lemma do_GET_api_ok:
  assumes "is_api_path (fst (urlparse target))"
  shows "api_ok ds (fst (do_GET sv ds fs target n))"
proof -
  obtain r m where "handle_api sv ds (urlparse target) n = (Inr r, m)" "api_ok ds r"
    using handle_api_ok [of sv ds "urlparse target" n] by (cases "handle_api sv ds (urlparse target) n") auto
  with assms show ?thesis by (simp add: do_GET_def Let_def)
qed

lemma route_views_cases:
  "(s, view) \<in> set route_views \<longleftrightarrow>
     s = [] \<and> view = None \<or> (\<exists>v \<in> {''tree'', ''timeline'', ''stuck''}. s = lit (CHR ''/'' # v) \<and> view = Some (lit v))"
  by (auto simp: route_views_def)

lemma route_views_find:
  "find (\<lambda>(s, _). s = t) route_views = Some (s, view) \<longleftrightarrow> s = t \<and> (t, view) \<in> set route_views"
  by (auto simp: route_views_def eq_commute [of "[]"])

lemma workflow_route_iff:
  "workflow_route p = Some (h, view) \<longleftrightarrow>
     length h = 32 \<and> list_all is_hex h \<and>
     (\<exists>suffix. (suffix, view) \<in> set route_views \<and> p = lit ''/api/workflow/'' @ h @ suffix)"
proof -
  let ?pre = "lit ''/api/workflow/''"
  have "take (length ?pre) p = ?pre \<longleftrightarrow> (\<exists>rest. p = ?pre @ rest)"
    by (metis append_eq_conv_conj append_take_drop_id)
  moreover have "map_option (\<lambda>(_, view). (h', view)) (find (\<lambda>(s, _). s = t) route_views) = Some (h, view) \<longleftrightarrow>
      h' = h \<and> (t, view) \<in> set route_views" for h' t
    using route_views_find by auto
  ultimately show ?thesis
    unfolding workflow_route_def Let_def
    by (auto simp: min_def)
qed

lemma fromhex_length:
  "list_all is_hex h \<Longrightarrow> even (length h) \<Longrightarrow> \<exists>b. fromhex h = Some b \<and> 2 * length b = length h"
proof (induction h rule: induct_list012)
  case (3 c d cs)
  then obtain b where "fromhex cs = Some b" "2 * length b = length cs" by auto
  moreover from 3 have "\<not> ascii_space c"
    by (auto simp: is_hex_def hex_value_def ascii_space_def split: if_splits)
  ultimately show ?case using 3(3) by (auto simp: is_hex_def)
qed simp_all

lemma route_id:
  assumes "workflow_route p = Some (h, view)"
  shows "\<exists>b. fromhex h = Some b \<and> length b = 16"
  using assms fromhex_length [of h] by (auto simp: workflow_route_iff)

lemma is_hex_hex: "list_all is_hex (hex b)"
proof -
  have "is_hex c" if "c \<in> set (hex b)" for c
    using hex_digits_lower [OF that] by (auto simp: is_hex_def hex_value_def)
  then show ?thesis by (simp add: list_all_iff)
qed

lemma route_hex:
  assumes "length b = 16"
  shows "workflow_route (lit ''/api/workflow/'' @ hex b) = Some (hex b, None)"
  using assms is_hex_hex by (simp add: workflow_route_iff route_views_cases)


lemma split_params_id: "59 \<notin> set p \<Longrightarrow> split_params p = p"
  by (auto simp: split_params_def takeWhile_eq_all_conv [THEN iffD2] dest!: rpartition_on_True
      split: prod.split bool.split)

lemma urlparse_plain:
  assumes "\<forall>c \<in> set p. c \<notin> {9, 10, 13, 35, 59, 63}"
  shows "urlparse p = (p, [])"
proof -
  have "filter (\<lambda>c. c \<notin> {9, 10, 13}) p = p" using assms by (auto simp: filter_id_conv)
  moreover have "35 \<notin> set p" "63 \<notin> set p" "59 \<notin> set p" using assms by auto
  ultimately show ?thesis by (simp add: urlparse_def partition_on_def split_params_id)
qed

lemma api_path_head:
  assumes "is_api_path (slash # join_with slash cs)" and "\<forall>c \<in> set cs. slash \<notin> set c" and "cs \<noteq> []"
  shows "hd cs = lit ''api''"
proof -
  have split: "split_on slash (join_with slash cs) = cs" using assms(2,3) by (intro split_join) auto
  have api: "slash \<notin> set (lit ''api'')" "lit ''/api'' = slash # lit ''api''"
    "lit ''/api/'' = slash # lit ''api'' @ [slash]"
    by (simp_all add: lit_def)
  show ?thesis
  proof (cases "join_with slash cs = lit ''api''")
    case True
    with split split_on_id [OF api(1)] show ?thesis by (metis list.sel(1))
  next
    case False
    with assms(1) obtain r where "join_with slash cs = lit ''api'' @ slash # r"
      by (auto simp: is_api_path_def api prefix_def)
    with split split_on_append [OF api(1)] show ?thesis by (metis list.sel(1))
  qed
qed

lemma allowlist_not_api: "lit ''api'' \<notin> STATIC_ALLOWLIST"
  by (auto simp: STATIC_ALLOWLIST_def)

lemma serve_static:
  assumes "cs \<noteq> []" and "\<forall>c \<in> set cs. plain_comp c \<and> c \<noteq> dotdot" and "hd cs \<in> STATIC_ALLOWLIST"
    and "\<forall>c \<in> set (join_with slash cs). c \<notin> {9, 10, 13, 35, 37, 59, 63}"
    and "fs_resolve fs (sv_static_root sv @ cs) = Inr p" and "prefix (sv_static_root sv) p"
    and "fs_is_file fs p = Inr True" and "fs_read_bytes fs p = Inr body"
  shows "handle sv ds fs GET (slash # join_with slash cs) n = (Send_File p (content_type p) body, n)"
proof -
  let ?p = "slash # join_with slash cs"
  have "urlparse ?p = (?p, [])" by (rule urlparse_plain) (use assms(4) in auto)
  moreover have "\<not> is_api_path ?p"
  proof
    assume "is_api_path ?p"
    then have "hd cs = lit ''api''" by (rule api_path_head) (use assms(1,2) in \<open>auto simp: plain_comp_def\<close>)
    with assms(3) allowlist_not_api show False by simp
  qed
  moreover have "static_parts ?p = cs" by (rule static_parts_join) (use assms(1,2,4) in blast)+
  moreover have "dotdot \<notin> set cs" using assms(2) by blast
  ultimately have "handle_static sv fs ?p = Inr (Send_File p (content_type p) body)"
    unfolding handle_static_eq Let_def using assms(3,5-8) by (simp add: send_file_def)
  with \<open>urlparse ?p = (?p, [])\<close> \<open>\<not> is_api_path ?p\<close> show ?thesis
    unfolding handle_def do_GET_def Let_def by simp
qed

section \<open>Properties of the server\<close>

text \<open>
  C32. Static serving is confined: a response that carries a file comes from a GET whose
  decoded and normalised path is made of plain components (no empty one, no parent step)
  starting with an allowlisted entry, and the file is what that path resolves to, inside the
  static root; its bytes and content type are that file's.
\<close>

theorem static_serving_confined:
  assumes "handle sv ds fs meth target n = (Send_File p t body, m)"
  shows "meth = GET \<and> (\<exists>parts. parts \<noteq> [] \<and> (\<forall>c \<in> set parts. plain_comp c \<and> c \<noteq> dotdot) \<and>
    hd parts \<in> STATIC_ALLOWLIST \<and> fs_resolve fs (sv_static_root sv @ parts) = Inr p) \<and>
    prefix (sv_static_root sv) p \<and> fs_is_file fs p = Inr True \<and> fs_read_bytes fs p = Inr body \<and>
    t = content_type p"
proof -
  have meth: "meth = GET" and get: "do_GET sv ds fs target n = (Send_File p t body, m)"
    using assms by (cases meth; simp add: handle_def)+
  have "\<not> is_api_path (fst (urlparse target))"
  proof
    assume api: "is_api_path (fst (urlparse target))"
    obtain r m' where "handle_api sv ds (urlparse target) n = (Inr r, m')"
      using handle_api_ok [of sv ds "urlparse target" n] by (metis prod.exhaust_sel)
    with get api api_no_file show False by (simp add: do_GET_def Let_def)
  qed
  then have "handle_static sv fs (fst (urlparse target)) = Inr (Send_File p t body)"
    using get by (simp add: do_GET_def Let_def split: sum.splits)
  from handle_static_file [OF this] static_parts_plain meth show ?thesis by blast
qed

text \<open>
  What is allowlisted is served: a GET of a path of plain components under an allowlisted
  entry, without characters that need escaping, returns the file it resolves to whenever that
  is a readable file under the static root.
\<close>

theorem static_allowlisted_served:
  assumes "cs \<noteq> []" and "\<forall>c \<in> set cs. plain_comp c \<and> c \<noteq> dotdot" and "hd cs \<in> STATIC_ALLOWLIST"
    and "\<forall>c \<in> set (join_with slash cs). c \<notin> {9, 10, 13, 35, 37, 59, 63}"
    and "fs_resolve fs (sv_static_root sv @ cs) = Inr p" and "prefix (sv_static_root sv) p"
    and "fs_is_file fs p = Inr True" and "fs_read_bytes fs p = Inr body"
  shows "handle sv ds fs GET (slash # join_with slash cs) n = (Send_File p (content_type p) body, n)"
  using assms by (rule serve_static)

text \<open>
  No request leaves a connection open: whatever the method, the target, the database's
  answers and faults, the number of open connections after the response is the number before,
  as long as the clock query of \<open>_assert_db_utc\<close> itself does not raise.
\<close>

theorem no_connection_leak:
  assumes "\<forall>e. ds_utc_offset ds \<noteq> Inl e"
  shows "snd (handle sv ds fs meth target n) = n"
  using assms by (rule handle_balance)

text \<open>
  C33. The API fails closed and never with a 500: every GET under \<open>/api\<close> is answered with
  status 200, 400, 404 or 502, and with 200 only if the database clock was checked to be UTC,
  so no timestamp marked Z is ever served from a clock that is off.
\<close>

theorem api_fails_closed:
  assumes "is_api_path (fst (urlparse target))"
  shows "status_of (fst (handle sv ds fs GET target n)) \<in> {200, 400, 404, 502} \<and>
    (status_of (fst (handle sv ds fs GET target n)) = 200 \<longrightarrow> ds_utc_offset ds = Inr 0)"
  using do_GET_api_ok [OF assms] by (simp add: handle_def api_ok_def)

text \<open>
  The bounded-scan rule: unless script, since and until are all present and non-empty,
  the search answers 400 naming exactly the missing ones, in that order, without opening a
  connection.
\<close>

theorem search_requires_bounds:
  assumes "\<exists>name \<in> {''script'', ''since'', ''until''}. one (parse_qsl query) name = None"
  shows "api_workflows ds query n =
    (Inr (Send_Json 400 (Missing_Params
      (filter (\<lambda>name. one (parse_qsl query) name = None) [''script'', ''since'', ''until'']))), n)"
  using assms by (auto simp: api_workflows_def Let_def)

text \<open>
  Every link in a listing works: the \<open>href\<close> of an entry is routed to the inspection of
  that entry's workflow, whose id is accepted.
\<close>

theorem listing_links_resolve:
  assumes "api_workflows ds query n = (Inr (Send_Json 200 (List_Body entries)), m)"
    and "ds_connect ds = Inr db" and "\<forall>w \<in> set (tb_workflow db). length (w_workflow_id w) = 16"
    and "e \<in> set entries"
  shows "\<exists>link b. dict_get e ''href'' = Some (JStr link) \<and> dict_get e ''workflow_id'' = Some (JStr (hex b)) \<and>
    workflow_route link = Some (hex b, None) \<and> hex_bytes (hex b) ''workflow_id'' = Inr b"
proof -
  let ?p = "parse_qsl query"
  let ?body = "\<lambda>db. list_workflows (ds_sql ds) db (the (one ?p ''script'')) (the (one ?p ''since''))
    (the (one ?p ''until'')) (one ?p ''plan_version'') (one ?p ''state'')"
  obtain r k where w: "with_connection ds ?body n = (r, k)" by fastforce
  show ?thesis
  proof (cases r)
    case (Inl x)
    with w assms(1) show ?thesis
      by (auto simp: api_workflows_def Let_def error_response_def split: if_splits exn.splits)
  next
    case (Inr out)
    from with_connection_Inr [OF w [unfolded Inr]] assms(2) have "?body db = Inr out" by auto
    then obtain rows where rows: "out = map list_summary rows" "fst ` set rows \<subseteq> set (tb_workflow db)"
      using list_workflows_rows by blast
    with w Inr assms(1) have "entries = map (\<lambda>wp. dict_set ''href''
        (JStr (lit ''/api/workflow/'' @ hex (w_workflow_id (fst wp)))) (list_summary wp)) rows"
      by (auto simp: api_workflows_def Let_def entries_total split: if_splits)
    with assms(4) obtain wp where wp: "wp \<in> set rows" and e: "e = dict_set ''href''
        (JStr (lit ''/api/workflow/'' @ hex (w_workflow_id (fst wp)))) (list_summary wp)"
      by auto
    from wp rows(2) assms(3) have "length (w_workflow_id (fst wp)) = 16" by auto
    with e show ?thesis
      by (intro exI [of _ "lit ''/api/workflow/'' @ hex (w_workflow_id (fst wp))"]
          exI [of _ "w_workflow_id (fst wp)"]) (simp add: route_hex hex_bytes_hex)
  qed
qed

lemma is_hex_iff: "is_hex c \<longleftrightarrow> c \<in> {48..57} \<union> {65..70} \<union> {97..102}"
  by (auto simp: is_hex_def hex_value_def)

text \<open>
  C34. The route is the documented grammar, and an id it accepts is never refused later:
  \<open>fullmatch\<close> succeeds exactly on the prefix, 32 hex digits of either case and nothing, \<open>/tree\<close>,
  \<open>/timeline\<close> or \<open>/stuck\<close>, naming the view of that suffix; such a path goes to the workflow
  endpoint, \<open>_hex_bytes\<close> yields a 16-byte id, and a result of the endpoint is that of the view.
\<close>

theorem route_grammar:
  "(workflow_route p = Some (h, view) \<longleftrightarrow>
     length h = 32 \<and> set h \<subseteq> {48..57} \<union> {65..70} \<union> {97..102} \<and>
     (p = lit ''/api/workflow/'' @ h \<and> view = None \<or>
      p = lit ''/api/workflow/'' @ h @ lit ''/tree'' \<and> view = Some (lit ''tree'') \<or>
      p = lit ''/api/workflow/'' @ h @ lit ''/timeline'' \<and> view = Some (lit ''timeline'') \<or>
      p = lit ''/api/workflow/'' @ h @ lit ''/stuck'' \<and> view = Some (lit ''stuck''))) \<and>
   (workflow_route p = Some (h, view) \<longrightarrow>
     (\<exists>b. hex_bytes h ''workflow_id'' = Inr b \<and> length b = 16) \<and>
     handle_api sv ds (p, query) n = apfst Inr (api_workflow ds h view query n) \<and>
     (\<forall>node. workflow_view ds h view d db = Inr node \<longrightarrow>
       (\<exists>t. view = None \<and> node = Inspect_Body t) \<or> (\<exists>t. view = Some (lit ''tree'') \<and> node = Tree_Body t) \<or>
       (\<exists>t. view = Some (lit ''timeline'') \<and> node = Timeline_Body t) \<or>
       (\<exists>t. view = Some (lit ''stuck'') \<and> node = Stuck_Body t)))"
proof (intro conjI impI)
  have hexes: "list_all is_hex h \<longleftrightarrow> set h \<subseteq> {48..57} \<union> {65..70} \<union> {97..102}"
    by (auto simp: list_all_iff is_hex_iff)
  show "workflow_route p = Some (h, view) \<longleftrightarrow>
     length h = 32 \<and> set h \<subseteq> {48..57} \<union> {65..70} \<union> {97..102} \<and>
     (p = lit ''/api/workflow/'' @ h \<and> view = None \<or>
      p = lit ''/api/workflow/'' @ h @ lit ''/tree'' \<and> view = Some (lit ''tree'') \<or>
      p = lit ''/api/workflow/'' @ h @ lit ''/timeline'' \<and> view = Some (lit ''timeline'') \<or>
      p = lit ''/api/workflow/'' @ h @ lit ''/stuck'' \<and> view = Some (lit ''stuck''))"
    unfolding workflow_route_iff hexes by (auto simp: route_views_def)
  assume route: "workflow_route p = Some (h, view)"
  then show "\<exists>b. hex_bytes h ''workflow_id'' = Inr b \<and> length b = 16"
    using route_id by (auto simp: hex_bytes_eq_Inr)
  have "p \<noteq> lit ''/api/health''" "p \<noteq> lit ''/api/workflows''"
    using route by (auto simp: workflow_route_iff lit_def)
  with route show "handle_api sv ds (p, query) n = apfst Inr (api_workflow ds h view query n)"
    by (simp add: handle_api_def)
  from route have "view \<in> {None, Some (lit ''tree''), Some (lit ''timeline''), Some (lit ''stuck'')}"
    by (auto simp: workflow_route_iff route_views_def)
  then show "\<forall>node. workflow_view ds h view d db = Inr node \<longrightarrow>
       (\<exists>t. view = None \<and> node = Inspect_Body t) \<or> (\<exists>t. view = Some (lit ''tree'') \<and> node = Tree_Body t) \<or>
       (\<exists>t. view = Some (lit ''timeline'') \<and> node = Timeline_Body t) \<or>
       (\<exists>t. view = Some (lit ''stuck'') \<and> node = Stuck_Body t)"
    by (auto simp: workflow_view_def map_sum_def split: sum.splits)
qed

theorem route_grammar_witness:
  "workflow_route (lit ''/api/workflow/'' @ ex_root @ lit ''/timeline'') = Some (ex_root, Some (lit ''timeline'')) \<and>
   (\<exists>b. hex_bytes ex_root ''workflow_id'' = Inr b \<and> length b = 16)"
proof -
  have "length ex_root = 32" "set ex_root \<subseteq> {48..57} \<union> {65..70} \<union> {97..102}"
    using is_hex_hex [of "ex_id 0xe1"]
    by (auto simp: ex_root_def ex_id_def list_all_iff is_hex_iff)
  with route_grammar [of "lit ''/api/workflow/'' @ ex_root @ lit ''/timeline''" ex_root "Some (lit ''timeline'')"]
  show ?thesis by simp
qed

definition server_ok :: "db_server \<Rightarrow> database \<Rightarrow> bool" where
  "server_ok ds db \<longleftrightarrow> ds_pymysql ds \<and> ds_connect ds = Inr db \<and> ds_utc_offset ds = Inr 0 \<and>
     ds_query_fault ds = None"

lemma with_connection_server_ok: "server_ok ds db \<Longrightarrow> with_connection ds body n = (body db, n)"
  by (simp add: server_ok_def with_connection_ok)

text \<open>Each view reports not-found exactly when the workflow has no row.\<close>

lemma tree_not_found:
  assumes "fromhex h = Some b" and "length b = 16" and "tree_workflow db d h k seen = Inr t"
  shows "is_not_found (Tree_Body t) \<longleftrightarrow> select_workflow db b = None"
  using assms(3)
proof (cases rule: tree.walk_cases)
  case not_found
  with assms(1,2) show ?thesis
    by (auto simp: tree_node_def hex_bytes_def fetch_workflow_skeleton_def)
next
  case (node a ns)
  with assms(1,2) show ?thesis
    by (auto simp: tree_node_def hex_bytes_def fetch_workflow_skeleton_def)
qed

lemma inspect_not_found:
  assumes "fromhex h = Some b" and "length b = 16" and "inspect_workflow loads db d h k seen = Inr t"
  shows "is_not_found (Inspect_Body t) \<longleftrightarrow> select_workflow db b = None"
proof -
  have wid: "hex_bytes h ''workflow_id'' = Inr b" using assms(1,2) by (simp add: hex_bytes_def)
  have iff: "i = None \<longleftrightarrow> select_workflow db b = None" if i: "inspect_node loads db h = Inr i" for i
  proof -
    from i obtain found where found: "fetch_workflow loads db b = Inr found" "i = None \<longleftrightarrow> found = None"
      by (auto simp: inspect_node_def wid bind_res_eq_Inr split: option.splits)
    with fetch_workflow_None [of loads db b] show ?thesis by auto
  qed
  from assms(3) show ?thesis
  proof (cases rule: inspect.walk_cases)
    case not_found
    with iff show ?thesis by auto
  next
    case (node a ns)
    with iff show ?thesis by auto
  qed
qed

lemma stuck_not_found:
  assumes "call_ids_ok db" and "fromhex h = Some b" and "length b = 16"
    and "stuck_workflow db h seen now_arg = Inr t"
  shows "is_not_found (Stuck_Body t) \<longleftrightarrow> select_workflow db b = None"
  using assms(1-3)
proof (cases rule: stuck_cases [where seen = seen and now_arg = now_arg])
  case not_found
  with assms(4) show ?thesis by auto
next
  case (leaf row v)
  with assms(4) show ?thesis by (auto simp: finish_node_def)
next
  case (waiting row c)
  from trans [OF waiting(8) [symmetric] assms(4)] obtain m where
    "(let (below, stripped) = pop_path [c] m in Inr (finish_node db h (now_of db now_arg) row b
        (Waiting_On_Child stripped (Some (h # below))))) = (Inr t :: stuck_node result)"
    by (auto simp: bind_res_eq_Inr)
  with waiting(1) show ?thesis
    by (cases "pop_path [c] m") (auto simp: finish_node_def)
qed

lemma timeline_not_found:
  assumes "fromhex h = Some b" and "length b = 16" and "timeline_workflow loads db d h = Inr t"
  shows "is_not_found (Timeline_Body t) \<longleftrightarrow> select_workflow db b = None"
  using assms(3)
proof (cases rule: timeline_cases)
  case not_found
  with tree_not_found [OF assms(1,2) not_found(2)] show ?thesis by simp
next
  case (found a ns ws evs)
  with tree_not_found [OF assms(1,2) found(1)] show ?thesis by simp
qed

lemma workflow_view_total:
  assumes "documents_ok (ds_loads ds) db" and "call_ids_ok db"
    and "fromhex h = Some b" and "length b = 16" and "h = hex b \<or> view \<noteq> Some (lit ''timeline'')"
  shows "\<exists>node. workflow_view ds h view d db = Inr node \<and> (is_not_found node \<longleftrightarrow> select_workflow db b = None)"
proof -
  have whole: "\<exists>b. fromhex h = Some b \<and> length b = 16" using assms(3,4) by blast
  consider (tree) "view = Some (lit ''tree'')" | (timeline) "view = Some (lit ''timeline'')" "h = hex b"
    | (stuck) "view = Some (lit ''stuck'')"
    | (inspect) "view \<notin> {Some (lit ''tree''), Some (lit ''timeline''), Some (lit ''stuck'')}"
    using assms(5) by auto
  then show ?thesis
  proof cases
    case tree
    obtain t where "tree_workflow db d h 0 {} = Inr t" using tree_total [OF assms(2) whole] by blast
    with tree tree_not_found [OF assms(3,4) this] show ?thesis
      by (intro exI [of _ "Tree_Body t"]) (simp add: workflow_view_def)
  next
    case timeline
    obtain t where "timeline_workflow (ds_loads ds) db d h = Inr t"
      using timeline_total [OF assms(1,2,4)] timeline(2) by blast
    with timeline timeline_not_found [OF assms(3,4) this] show ?thesis
      by (intro exI [of _ "Timeline_Body t"]) (simp add: workflow_view_def)
  next
    case stuck
    obtain t where "stuck_workflow db h {} None = Inr t"
      using stuck_workflow_total [OF assms(2) whole] by blast
    with stuck stuck_not_found [OF assms(2-4) this] show ?thesis
      by (intro exI [of _ "Stuck_Body t"]) (simp add: workflow_view_def)
  next
    case inspect
    obtain t where "inspect_workflow (ds_loads ds) db d h 0 {} = Inr t"
      using inspect_total [OF assms(1,2) whole] by blast
    with inspect inspect_not_found [OF assms(3,4) this] show ?thesis
      by (intro exI [of _ "Inspect_Body t"]) (simp add: workflow_view_def)
  qed
qed

lemma api_workflow_found:
  assumes "server_ok ds db" and "py_int (requested_depth query) = Some d" and "1 \<le> d"
    and "workflow_view ds h view d db = Inr node"
  shows "api_workflow ds h view query n = (Send_Json (if is_not_found node then 404 else 200) node, n)"
  using assms by (simp add: api_workflow_def with_connection_server_ok)

lemma api_workflow_error:
  assumes "server_ok ds db" and "py_int (requested_depth query) = Some d" and "1 \<le> d"
    and "workflow_view ds h view d db = Inl e"
  shows "api_workflow ds h view query n = (error_response e, n)"
  using assms by (simp add: api_workflow_def with_connection_server_ok)

lemma api_workflow_answers:
  assumes "server_ok ds db" and "documents_ok (ds_loads ds) db" and "call_ids_ok db"
    and "py_int (requested_depth query) = Some d" and "1 \<le> d"
    and "fromhex h = Some b" and "length b = 16" and "h = hex b \<or> view \<noteq> Some (lit ''timeline'')"
  shows "\<exists>node. api_workflow ds h view query n =
    (Send_Json (if select_workflow db b = None then 404 else 200) node, n)"
proof -
  obtain node where node: "workflow_view ds h view d db = Inr node"
    "is_not_found node \<longleftrightarrow> select_workflow db b = None"
    using workflow_view_total [OF assms(2,3,6-8)] by blast
  from api_workflow_found [OF assms(1,4,5) node(1)] node(2) show ?thesis by auto
qed


text \<open>
  The exception of the workflow endpoint (an upper-case id) is real: for an existing workflow with an event, the timeline view
  asked for with an upper-case digit is answered 502 while the tree view answers 200.
\<close>

theorem timeline_upper_case_is_502:
  assumes "server_ok ds db" and "documents_ok (ds_loads ds) db" and "call_ids_ok db"
    and "py_int (requested_depth query) = Some d" and "1 \<le> d"
    and "fromhex h = Some b" and "length b = 16" and "h \<noteq> hex b"
    and "select_workflow db b = Some row"
    and "\<forall>c \<in> set (tb_call db). c_child_workflow_id c \<noteq> b"
    and "ev \<in> set (tb_event db)" and "e_workflow_id ev = b"
  shows "fst (api_workflow ds h (Some (lit ''timeline'')) query n) =
      Send_Json 502 (Error_Body ''db_error'' (Key_Error (hex b))) \<and>
    status_of (fst (api_workflow ds h (Some (lit ''tree'')) query n)) = 200"
proof -
  have "workflow_view ds h (Some (lit ''timeline'')) d db = Inl (Key_Error (hex b))"
    using timeline_upper_raises [OF assms(2,3,6-12)] by (simp add: workflow_view_def)
  from api_workflow_error [OF assms(1,4,5) this]
  have "fst (api_workflow ds h (Some (lit ''timeline'')) query n) =
      Send_Json 502 (Error_Body ''db_error'' (Key_Error (hex b)))"
    by (simp add: error_response_def)
  moreover obtain node where node: "workflow_view ds h (Some (lit ''tree'')) d db = Inr node" "\<not> is_not_found node"
    using workflow_view_total [OF assms(2,3,6,7), of "Some (lit ''tree'')" d] assms(9) by auto
  from api_workflow_found [OF assms(1,4,5) node(1)] node(2)
  have "status_of (fst (api_workflow ds h (Some (lit ''tree'')) query n)) = 200"
    by simp
  ultimately show ?thesis by blast
qed


section \<open>The properties at an example\<close>

definition ex_ds :: db_server where
  "ex_ds = \<lparr>ds_pymysql = True, ds_connect = Inr ex_db, ds_utc_offset = Inr 0, ds_query_fault = None,
     ds_health = Inr (ex_time 30, 0, [], []), ds_sql = ex_env, ds_loads = ex_loads\<rparr>"

definition ex_fs :: file_system where
  "ex_fs = \<lparr>fs_resolve = Inr, fs_is_file = (\<lambda>p. Inr True), fs_read_bytes = (\<lambda>p. Inr [1])\<rparr>"

definition ex_sv :: server where
  "ex_sv = \<lparr>sv_database = [], sv_static_root = [lit ''ui'']\<rparr>"

definition ex_asset :: "str list" where
  "ex_asset = [lit ''vendor'', lit ''app.js'']"

lemma ex_asset_simps:
  "ex_asset \<noteq> []" "hd ex_asset \<in> STATIC_ALLOWLIST"
  "\<forall>c \<in> set ex_asset. plain_comp c \<and> c \<noteq> dotdot"
  "\<forall>c \<in> set (join_with slash ex_asset). c \<notin> {9, 10, 13, 35, 37, 59, 63}"
  by (simp_all add: ex_asset_def STATIC_ALLOWLIST_def plain_comp_def lit_def dot_def dotdot_def)

lemma ex_fs_simps:
  "fs_resolve ex_fs p = Inr p" "fs_is_file ex_fs p = Inr True" "fs_read_bytes ex_fs p = Inr [1]"
  by (simp_all add: ex_fs_def)

lemmas ex_serve = serve_static [where fs = ex_fs and sv = ex_sv, OF ex_asset_simps(1,3,2,4) ex_fs_simps(1) _ ex_fs_simps(2,3)]

lemma ex_served:
  "handle ex_sv ex_ds ex_fs GET (slash # join_with slash ex_asset) 0 =
     (Send_File (sv_static_root ex_sv @ ex_asset) (content_type (sv_static_root ex_sv @ ex_asset)) [1], 0)"
  by (rule ex_serve) simp

theorem static_serving_confined_witness:
  "prefix (sv_static_root ex_sv) (sv_static_root ex_sv @ ex_asset) \<and>
   fs_read_bytes ex_fs (sv_static_root ex_sv @ ex_asset) = Inr [1]"
  using static_serving_confined [OF ex_served] by blast

theorem static_allowlisted_served_witness:
  "handle ex_sv ex_ds ex_fs GET (slash # join_with slash ex_asset) 7 =
     (Send_File (sv_static_root ex_sv @ ex_asset) (content_type (sv_static_root ex_sv @ ex_asset)) [1], 7)"
  by (rule static_allowlisted_served [OF ex_asset_simps(1,3,2,4) ex_fs_simps(1) _ ex_fs_simps(2,3)]) simp

theorem no_connection_leak_witness: "snd (handle ex_sv ex_ds ex_fs GET (lit ''/api/health'') 3) = 3"
  by (rule no_connection_leak) (simp add: ex_ds_def)

theorem api_fails_closed_witness:
  "status_of (fst (handle ex_sv ex_ds ex_fs GET (lit ''/api/health'') 0)) \<in> {200, 400, 404, 502}"
proof -
  have "urlparse (lit ''/api/health'') = (lit ''/api/health'', [])"
    by (rule urlparse_plain) (simp add: lit_def)
  then have "is_api_path (fst (urlparse (lit ''/api/health'')))"
    by (simp add: is_api_path_def lit_def)
  from api_fails_closed [OF this] show ?thesis by blast
qed

lemma one_empty_query [simp]: "one (parse_qsl []) name = None"
  by (simp add: one_def last_param_def qs_values_def parse_qsl_def)

theorem search_requires_bounds_witness:
  "api_workflows ex_ds [] 0 = (Inr (Send_Json 400 (Missing_Params [''script'', ''since'', ''until''])), 0)"
proof -
  have "\<exists>name \<in> {''script'', ''since'', ''until''}. one (parse_qsl []) name = None" by (intro bexI [of _ "''since''"]) simp_all
  from search_requires_bounds [OF this] show ?thesis by simp
qed

text \<open>A search that finds the example's workflows.\<close>

definition ex_query :: str where
  "ex_query = lit ''script=p&since=0&until=9''"

lemma ex_query_params:
  "one (parse_qsl ex_query) ''script'' = Some [112]" "one (parse_qsl ex_query) ''since'' = Some [48]"
  "one (parse_qsl ex_query) ''until'' = Some [57]" "one (parse_qsl ex_query) ''plan_version'' = None"
  "one (parse_qsl ex_query) ''state'' = None"
  by code_simp+

lemma ex_server_ok: "server_ok ex_ds ex_db"
  by (simp add: server_ok_def ex_ds_def)

lemma pad_nat_2026: "pad_nat 4 2026 = [50, 48, 50, 54]"
proof -
  have "pad_nat (Suc (Suc (Suc (Suc 0)))) 2026 = [50, 48, 50, 54]" by simp
  moreover have "4 = Suc (Suc (Suc (Suc 0)))" by simp
  ultimately show ?thesis by (simp only:)
qed

lemma set_created_desc [simp]: "set (created_desc rows) = set rows"
  by (metis mset_created_desc set_mset_mset)

lemma ex_list: "\<exists>rows. list_workflows ex_env ex_db [112] [48] [57] None None = Inr (map list_summary rows) \<and>
    (ex_workflow 0xe1 1 50, None) \<in> set rows"
proof -
  let ?rows = "created_desc (filter (\<lambda>row. list_all (\<lambda>c. c row)
    (list_where ex_env [112] [48] [57] None None)) (left_join_plan ex_db))"
  have "(ex_workflow 0xe1 1 50, None) \<in> set ?rows"
    unfolding set_created_desc
    by (simp add: left_join_plan_mem list_where_def ex_env_def)
       (simp add: ex_db_def ex_workflow_def ex_time_def iso_z_def pad_nat_2026)
  then show ?thesis
    by (intro exI [of _ ?rows]) (simp add: list_workflows_def resolve_state_def Let_def)
qed

theorem listing_links_resolve_witness:
  "\<exists>entries e. fst (api_workflows ex_ds ex_query 0) = Inr (Send_Json 200 (List_Body entries)) \<and>
     e \<in> set entries \<and> (\<exists>link b. dict_get e ''href'' = Some (JStr link) \<and> workflow_route link = Some (hex b, None))"
proof -
  obtain rows where rows: "list_workflows ex_env ex_db [112] [48] [57] None None = Inr (map list_summary rows)"
    "(ex_workflow 0xe1 1 50, None) \<in> set rows"
    using ex_list by blast
  define entries where "entries = map (\<lambda>wp. dict_set ''href''
     (JStr (lit ''/api/workflow/'' @ hex (w_workflow_id (fst wp)))) (list_summary wp)) rows"
  have api: "api_workflows ex_ds ex_query 0 = (Inr (Send_Json 200 (List_Body entries)), 0)"
    using rows(1) entries_total [of rows]
    by (simp add: api_workflows_def Let_def ex_query_params with_connection_server_ok [OF ex_server_ok]
        entries_def) (simp add: ex_ds_def)
  obtain e where e: "e \<in> set entries" using rows(2) by (auto simp: entries_def)
  have "\<forall>w \<in> set (tb_workflow ex_db). length (w_workflow_id w) = 16"
    by (simp add: ex_db_def ex_workflow_def ex_id_def)
  from listing_links_resolve [OF api _ this e] api e show ?thesis
    by (fastforce simp: ex_ds_def)
qed

lemma ex_depth: "py_int (requested_depth []) = Some 10"
proof -
  have "length (nat_str 10) \<le> Suc 1" by (rule length_nat_str) simp
  then have "py_int (nat_str 10) = Some (int 10)"
    by (intro py_int_nat_str) (simp add: max_int_digits_def)
  then show ?thesis
    by (simp add: requested_depth_def last_param_def qs_values_def parse_qsl_def DEFAULT_MAX_DEPTH_def)
qed


theorem timeline_upper_case_is_502_witness:
  "fst (api_workflow ex_ds ex_upper (Some (lit ''timeline'')) [] 0) =
     Send_Json 502 (Error_Body ''db_error'' (Key_Error ex_root))"
proof -
  have docs: "documents_ok (ds_loads ex_ds) ex_db" by (simp add: ex_ds_def ex_documents_ok)
  have id: "fromhex ex_upper = Some (ex_id 0xe1)" "length (ex_id 0xe1) = 16"
    by (simp_all add: ex_upper_def fromhex_upper ex_id_def)
  have other: "\<forall>c \<in> set (tb_call ex_db). c_child_workflow_id c \<noteq> ex_id 0xe1"
    by (simp add: ex_db_def ex_call_def ex_id_def)
  have ev: "ex_event 0xe1 0 \<in> set (tb_event ex_db)" "e_workflow_id (ex_event 0xe1 0) = ex_id 0xe1"
    by (simp_all add: ex_db_def ex_event_def)
  from timeline_upper_case_is_502 [OF ex_server_ok docs ex_call_ids_ok ex_depth _ id ex_upper_neq
      ex_root_row other ev]
  show ?thesis by (simp add: ex_root_def)
qed

end
