(* ===== verification/Cli.thy ===== *)
theory Cli
  imports Server
begin

text \<open>
  \<open>mfviz/cli.py\<close>: what \<open>microflows-viz serve\<close> decides before it serves.  The parsed arguments
  are a record (\<open>argparse\<close> itself is not modelled, its defaults are), the process the
  environment variables, the paths the code asks for, the file system and the database server
  behind a configuration; \<open>cmd_serve\<close> returns what it would serve, or the exception.
\<close>

section \<open>Arguments and process\<close>

record db_config =
  cfg_host :: str
  cfg_port :: int
  cfg_user :: str
  cfg_password :: str
  cfg_database :: str

record serve_args =
  arg_listen :: str
  arg_allow_remote :: bool
  arg_static_root :: "path option"
  arg_db_host :: str
  arg_db_port :: int
  arg_db_user :: str
  arg_db_password :: "str option"
  arg_db_password_env :: str
  arg_db_name :: str

record process =
  pr_environ :: "(str, str) dict"
  pr_argv0 :: path
  pr_cwd :: path
  pr_fs :: file_system
  pr_db :: "db_config \<Rightarrow> db_server"

definition DEFAULT_LISTEN :: str where
  "DEFAULT_LISTEN = lit ''127.0.0.1:8377''"

definition LOOPBACK_HOSTS :: "str set" where
  "LOOPBACK_HOSTS = {lit ''127.0.0.1'', lit ''localhost'', lit ''::1''}"

definition environ_get :: "process \<Rightarrow> string \<Rightarrow> string \<Rightarrow> str" where
  "environ_get pr name dflt =
     (case dict_get (pr_environ pr) (lit name) of None \<Rightarrow> lit dflt | Some v \<Rightarrow> v)"

text \<open>The defaults \<open>build_parser\<close> computes from the environment; a bad \<open>DB_PORT\<close> raises there.\<close>

definition parser_defaults :: "process \<Rightarrow> serve_args result" where
  "parser_defaults pr =
     bind_res (let p = environ_get pr ''DB_PORT'' ''34214'' in option_res (Value_Error p) (py_int p)) (\<lambda>port.
       Inr \<lparr>arg_listen = DEFAULT_LISTEN, arg_allow_remote = False, arg_static_root = None,
            arg_db_host = environ_get pr ''DB_HOST'' ''127.0.0.1'', arg_db_port = port,
            arg_db_user = environ_get pr ''DB_USER'' ''root'', arg_db_password = None,
            arg_db_password_env = lit ''MDB_ROOT_PWD'',
            arg_db_name = environ_get pr ''DB_NAME'' ''microflows''\<rparr>)"

section \<open>The steps of \<open>cmd_serve\<close>\<close>

definition resolve_password :: "process \<Rightarrow> serve_args \<Rightarrow> str result" where
  "resolve_password pr args =
     (case arg_db_password args of
        Some p \<Rightarrow> Inr p
      | None \<Rightarrow> option_res (Mfviz (Env_Var_Not_Set (arg_db_password_env args)))
                   (dict_get (pr_environ pr) (arg_db_password_env args)))"

definition parse_listen :: "str \<Rightarrow> (str \<times> int) result" where
  "parse_listen v =
     (case rpartition_on 58 v of
        (host, sep, port_text) \<Rightarrow>
          if \<not> sep \<or> host = [] then Inl (Mfviz (Listen_Shape v))
          else case py_int port_text of
                 None \<Rightarrow> Inl (Mfviz (Listen_Port_Not_Integer v))
               | Some port \<Rightarrow>
                   if \<not> (0 \<le> port \<and> port \<le> 65535) then Inl (Mfviz (Listen_Port_Range v))
                   else Inr (strip_of {91, 93} host, port))"

fun first_with_index :: "file_system \<Rightarrow> path list \<Rightarrow> path result" where
  "first_with_index fs [] = Inl (Mfviz No_Static_UI)"
| "first_with_index fs (c # cs) =
     bind_res (fs_is_file fs (c @ [lit ''index.html''])) (\<lambda>present.
       if present then Inr c else first_with_index fs cs)"

definition resolve_static_root :: "process \<Rightarrow> path option \<Rightarrow> path result" where
  "resolve_static_root pr explicit =
     (case explicit of
        Some p \<Rightarrow> Inr p
      | None \<Rightarrow>
          bind_res (fs_resolve (pr_fs pr) (pr_argv0 pr)) (\<lambda>exe.
            first_with_index (pr_fs pr) [butlast exe, pr_cwd pr]))"

record serving =
  srv_host :: str
  srv_port :: int
  srv_config :: db_config
  srv_server :: server
  srv_warning :: "exn option"

text \<open>
  The probe \<open>connect(db_cfg).close()\<close>: a clock that is off is fatal, anything else a warning.
\<close>

definition startup_probe :: "db_server \<Rightarrow> nat \<Rightarrow> exn option result \<times> nat" where
  "startup_probe ds n =
     (case connect ds n of
        (Inr db, m) \<Rightarrow> (Inr None, m - 1)
      | (Inl (Db_Not_Utc off), m) \<Rightarrow> (Inl (Mfviz (Startup_Db_Not_Utc off)), m)
      | (Inl e, m) \<Rightarrow> (Inr (Some e), m))"

definition cmd_serve :: "process \<Rightarrow> serve_args \<Rightarrow> nat \<Rightarrow> serving result \<times> nat" where
  "cmd_serve pr args n =
     (case parse_listen (arg_listen args) of
        Inl e \<Rightarrow> (Inl e, n)
      | Inr (host, port) \<Rightarrow>
          if host \<notin> LOOPBACK_HOSTS \<and> \<not> arg_allow_remote args
          then (Inl (Mfviz (Refused_Non_Loopback (arg_listen args))), n)
          else case resolve_password pr args of
                 Inl e \<Rightarrow> (Inl e, n)
               | Inr password \<Rightarrow>
                   let cfg = \<lparr>cfg_host = arg_db_host args, cfg_port = arg_db_port args,
                              cfg_user = arg_db_user args, cfg_password = password,
                              cfg_database = arg_db_name args\<rparr>
                   in case bind_res (resolve_static_root pr (arg_static_root args))
                             (fs_resolve (pr_fs pr)) of
                        Inl e \<Rightarrow> (Inl e, n)
                      | Inr static_root \<Rightarrow>
                          (case startup_probe (pr_db pr cfg) n of
                             (Inl e, m) \<Rightarrow> (Inl e, m)
                           | (Inr warning, m) \<Rightarrow>
                               (bind_res (create_server (pr_fs pr) (cfg_database cfg) static_root) (\<lambda>sv.
                                  Inr \<lparr>srv_host = host, srv_port = port, srv_config = cfg,
                                       srv_server = sv, srv_warning = warning\<rparr>), m)))"

text \<open>
  \<open>main\<close>: user errors end with exit code 1, an orderly end of serving with 0, other exceptions
  escape.
\<close>

definition main_exit :: "process \<Rightarrow> serve_args \<Rightarrow> nat \<Rightarrow> nat result" where
  "main_exit pr args n =
     (case fst (cmd_serve pr args n) of
        Inl (Mfviz m) \<Rightarrow> Inr 1
      | Inl e \<Rightarrow> Inl e
      | Inr s \<Rightarrow> Inr 0)"

section \<open>Properties\<close>

lemma strip_brackets_id:
  assumes "h \<noteq> []" and "hd h \<notin> {91, 93}" and "last h \<notin> {91, 93}"
  shows "strip_of {91, 93} h = h" and "strip_of {91, 93} (91 # h @ [93]) = h"
proof -
  have front: "lstrip_of {91, 93} (h @ t) = h @ t" for t
    using assms(1,2) by (cases h) (simp_all add: lstrip_of_def)
  have rear: "lstrip_of {91, 93} (rev h) = rev h"
    using assms(1,3) by (cases "rev h") (simp_all add: lstrip_of_def hd_rev [symmetric] del: hd_rev)
  show "strip_of {91, 93} h = h"
    using front [of "[]"] rear by (simp add: strip_of_def)
  have "lstrip_of {91, 93} (91 # h @ [93]) = h @ [93]"
    using front [of "[93]"] by (simp add: lstrip_of_def)
  moreover have "lstrip_of {91, 93} (rev (h @ [93])) = rev h"
    using rear by (simp add: lstrip_of_def)
  ultimately show "strip_of {91, 93} (91 # h @ [93]) = h"
    by (simp add: strip_of_def)
qed

lemma colon_not_in_port: "58 \<notin> set (nat_str p)"
  using nat_str_digits [of 58 p] by auto

lemma port_text:
  assumes "p \<le> 65535"
  shows "py_int (nat_str p) = Some (int p)"
proof -
  have "length (nat_str p) \<le> Suc 4" by (rule length_nat_str) (use assms in simp)
  then show ?thesis by (intro py_int_nat_str) (simp add: max_int_digits_def)
qed

lemma parse_listen_port:
  assumes "h \<noteq> []" and "p \<le> 65535"
  shows "parse_listen (h @ 58 # nat_str p) = Inr (strip_of {91, 93} h, int p)"
  using assms by (simp add: parse_listen_def rpartition_on_append colon_not_in_port port_text)

text \<open>
  A listen address reads back: any host that neither starts nor ends with a bracket, plain
  or bracketed (the way an IPv6 address is written), followed by a colon and any port up to
  65535 in decimal is parsed to that host and port.
\<close>

theorem parse_listen_round_trip:
  assumes "h \<noteq> []" and "hd h \<notin> {91, 93}" and "last h \<notin> {91, 93}" and "p \<le> 65535"
  shows "parse_listen (h @ 58 # nat_str p) = Inr (h, int p) \<and>
    parse_listen ((91 # h @ [93]) @ 58 # nat_str p) = Inr (h, int p)"
  using parse_listen_port [OF assms(1,4)] parse_listen_port [of "91 # h @ [93]" p]
    strip_brackets_id [OF assms(1-3)] assms(4)
  by simp

theorem parse_listen_round_trip_witness:
  "parse_listen (lit ''127.0.0.1'' @ 58 # nat_str 8377) = Inr (lit ''127.0.0.1'', int 8377)"
  using parse_listen_round_trip [of "lit ''127.0.0.1''" 8377] by (simp add: lit_def)

lemma parse_listen_range:
  "parse_listen v = Inr (h, p) \<Longrightarrow> 0 \<le> p \<and> p \<le> 65535"
  by (auto simp: parse_listen_def split: prod.splits option.splits if_splits)

lemma cmd_serve_InrD:
  assumes "cmd_serve pr args n = (Inr s, m)"
  obtains host port root where "parse_listen (arg_listen args) = Inr (host, port)"
    "srv_host s = host" "srv_port s = port" "host \<in> LOOPBACK_HOSTS \<or> arg_allow_remote args"
    "create_server (pr_fs pr) (arg_db_name args) root = Inr (srv_server s)"
    "startup_probe (pr_db pr (srv_config s)) n = (Inr (srv_warning s), m)"
  using assms
  by (auto simp: cmd_serve_def Let_def bind_res_eq_Inr split: sum.splits prod.splits if_splits)

lemma startup_probe_off:
  "startup_probe ds n = (Inr w, m) \<Longrightarrow> ds_pymysql ds \<Longrightarrow> ds_connect ds = Inr db \<Longrightarrow>
     ds_utc_offset ds = Inr off \<Longrightarrow> off = 0 \<and> w = None \<and> m = n"
  by (auto simp: startup_probe_def connect_def assert_db_utc_def split: if_splits)

text \<open>
  C36. Serving starts only when it is safe: if \<open>cmd_serve\<close> gets as far as serving, the host is a
  loopback name or \<open>--allow-remote\<close> was given, the port is a port, the static root holds an
  \<open>index.html\<close>, and a database that could be asked for its clock runs UTC.
\<close>

theorem serve_starts_safely:
  assumes "cmd_serve pr args n = (Inr s, m)"
  shows "(srv_host s \<in> LOOPBACK_HOSTS \<or> arg_allow_remote args) \<and> 0 \<le> srv_port s \<and> srv_port s \<le> 65535 \<and>
    (\<exists>root. fs_is_file (pr_fs pr) (root @ [lit ''index.html'']) = Inr True \<and>
       fs_resolve (pr_fs pr) root = Inr (sv_static_root (srv_server s))) \<and>
    (\<forall>db off. ds_pymysql (pr_db pr (srv_config s)) \<and> ds_connect (pr_db pr (srv_config s)) = Inr db \<and>
       ds_utc_offset (pr_db pr (srv_config s)) = Inr off \<longrightarrow> off = 0 \<and> srv_warning s = None \<and> m = n)"
  using assms
proof (rule cmd_serve_InrD)
  fix host port root
  assume *: "parse_listen (arg_listen args) = Inr (host, port)" "srv_host s = host" "srv_port s = port"
    "host \<in> LOOPBACK_HOSTS \<or> arg_allow_remote args"
    "create_server (pr_fs pr) (arg_db_name args) root = Inr (srv_server s)"
    "startup_probe (pr_db pr (srv_config s)) n = (Inr (srv_warning s), m)"
  from *(5) obtain present root' where "fs_is_file (pr_fs pr) (root @ [lit ''index.html'']) = Inr present"
    "present" "fs_resolve (pr_fs pr) root = Inr root'"
    "srv_server s = \<lparr>sv_database = arg_db_name args, sv_static_root = root'\<rparr>"
    by (auto simp: create_server_def bind_res_eq_Inr split: if_splits)
  then have "fs_is_file (pr_fs pr) (root @ [lit ''index.html'']) = Inr True"
    "fs_resolve (pr_fs pr) root = Inr (sv_static_root (srv_server s))" by simp_all
  with *(2-4) parse_listen_range [OF *(1)] startup_probe_off [OF *(6)] show ?thesis by blast
qed

text \<open>
  A database that is merely unreachable does not prevent serving: with the other
  arguments in order, \<open>cmd_serve\<close> serves with a warning that carries the driver's error.
\<close>

lemma serve_tolerates_unreachable_db:
  assumes "parse_listen (arg_listen args) = Inr (host, port)" and "host \<in> LOOPBACK_HOSTS"
    and "arg_db_password args = Some pw" and "arg_static_root args = Some root"
    and "fs_resolve (pr_fs pr) root = Inr root'" and "fs_resolve (pr_fs pr) root' = Inr root'"
    and "fs_is_file (pr_fs pr) (root' @ [lit ''index.html'']) = Inr True"
    and "\<forall>cfg. ds_pymysql (pr_db pr cfg) \<and> ds_connect (pr_db pr cfg) = Inl (Driver_Error msg)"
  shows "\<exists>s. cmd_serve pr args n = (Inr s, n) \<and> srv_warning s = Some (Driver_Error msg) \<and>
    srv_host s = host \<and> main_exit pr args n = Inr 0"
  using assms
  by (simp add: cmd_serve_def resolve_password_def resolve_static_root_def startup_probe_def
      connect_def create_server_def main_exit_def Let_def)

definition ex_args :: serve_args where
  "ex_args = \<lparr>arg_listen = lit ''localhost'' @ 58 # nat_str 0, arg_allow_remote = False,
     arg_static_root = Some [lit ''ui''], arg_db_host = [], arg_db_port = 1, arg_db_user = [],
     arg_db_password = Some [], arg_db_password_env = [], arg_db_name = []\<rparr>"

definition ex_process :: "database result \<Rightarrow> process" where
  "ex_process conn = \<lparr>pr_environ = [], pr_argv0 = [], pr_cwd = [], pr_fs = ex_fs,
     pr_db = (\<lambda>cfg. ex_ds\<lparr>ds_connect := conn\<rparr>)\<rparr>"

lemma ex_listen: "parse_listen (arg_listen ex_args) = Inr (lit ''localhost'', 0)"
proof -
  have "strip_of {91, 93} (lit ''localhost'') = lit ''localhost''"
    by (rule strip_brackets_id) (simp_all add: lit_def)
  then show ?thesis
    using parse_listen_port [of "lit ''localhost''" 0] by (simp add: ex_args_def)
qed

theorem serve_starts_safely_witness:
  "\<exists>s. cmd_serve (ex_process (Inr ex_db)) ex_args 0 = (Inr s, 0) \<and> srv_host s \<in> LOOPBACK_HOSTS"
proof -
  obtain s where s: "cmd_serve (ex_process (Inr ex_db)) ex_args 0 = (Inr s, 0)"
    using ex_listen
    by (simp add: cmd_serve_def resolve_password_def resolve_static_root_def startup_probe_def
      connect_def assert_db_utc_def create_server_def ex_process_def ex_fs_def ex_ds_def LOOPBACK_HOSTS_def)
       (simp add: ex_args_def Let_def resolve_static_root_def startup_probe_def
         connect_def assert_db_utc_def create_server_def)
  from serve_starts_safely [OF s] s show ?thesis by (auto simp: ex_args_def)
qed

lemma serve_tolerates_unreachable_db_witness:
  "\<exists>s. cmd_serve (ex_process (Inl (Driver_Error []))) ex_args 0 = (Inr s, 0) \<and>
     srv_warning s = Some (Driver_Error [])"
proof -
  let ?pr = "ex_process (Inl (Driver_Error []))"
  have "lit ''localhost'' \<in> LOOPBACK_HOSTS" "arg_db_password ex_args = Some []"
    "arg_static_root ex_args = Some [lit ''ui'']"
    by (simp_all add: LOOPBACK_HOSTS_def ex_args_def)
  moreover have "fs_resolve (pr_fs ?pr) p = Inr p" "fs_is_file (pr_fs ?pr) p = Inr True" for p
    by (simp_all add: ex_process_def ex_fs_def)
  moreover have "\<forall>cfg. ds_pymysql (pr_db ?pr cfg) \<and> ds_connect (pr_db ?pr cfg) = Inl (Driver_Error [])"
    by (simp add: ex_process_def ex_ds_def)
  ultimately show ?thesis
    using serve_tolerates_unreachable_db [OF ex_listen] by blast
qed

end
