(* ===== verification/Json.thy ===== *)
theory Json
  imports Values
begin

text \<open>
  \<open>json.loads\<close> and \<open>json.dumps\<close> as the program uses them: the scanner of a JSON text with its
  escapes, numbers and duplicate keys, and the printer with \<open>ensure_ascii\<close>, an optional
  indentation and optionally sorted keys.  What is printed is read back as the same value.
  Floats are kept as text; \<open>canon\<close> is the shortest text of the float a literal denotes.
\<close>

section \<open>Printing\<close>

definition hex4_text :: "nat \<Rightarrow> str" where
  "hex4_text u = [hex_digit (u div 4096), hex_digit (u div 256 mod 16),
     hex_digit (u div 16 mod 16), hex_digit (u mod 16)]"

definition u_escape :: "nat \<Rightarrow> str" where
  "u_escape u = 92 # 117 # hex4_text u"

definition json_char :: "nat \<Rightarrow> str" where
  "json_char c =
     (if c = 34 then [92, 34] else if c = 92 then [92, 92]
      else if c = 10 then [92, 110] else if c = 13 then [92, 114] else if c = 9 then [92, 116]
      else if c = 12 then [92, 102] else if c = 8 then [92, 98]
      else if 32 \<le> c \<and> c \<le> 126 then [c]
      else if c < 65536 then u_escape c
      else u_escape (0xd800 + (c - 65536) div 1024) @ u_escape (0xdc00 + (c - 65536) mod 1024))"

definition json_string :: "str \<Rightarrow> str" where
  "json_string s = 34 # concat (map json_char s) @ [34]"

text \<open>A line break and the indentation of a level, where there is one.\<close>

definition json_break :: "nat option \<Rightarrow> nat \<Rightarrow> str" where
  "json_break ind lvl = (case ind of None \<Rightarrow> [] | Some k \<Rightarrow> 10 # replicate (k * lvl) 32)"

definition json_sep :: "nat option \<Rightarrow> nat \<Rightarrow> str" where
  "json_sep ind lvl = (case ind of None \<Rightarrow> [44, 32] | Some k \<Rightarrow> 44 # json_break ind lvl)"

definition json_block :: "nat option \<Rightarrow> nat \<Rightarrow> nat \<Rightarrow> nat \<Rightarrow> str list \<Rightarrow> str" where
  "json_block ind lvl open_char close_char items =
     (if items = [] then [open_char, close_char]
      else open_char # json_break ind (Suc lvl) @ join_text (json_sep ind (Suc lvl)) items
             @ json_break ind lvl @ [close_char])"

definition in_order :: "bool \<Rightarrow> (str \<times> 'a) list \<Rightarrow> (str \<times> 'a) list" where
  "in_order sort_keys kvs = (if sort_keys then sort_key fst kvs else kvs)"

fun dumps :: "nat option \<Rightarrow> bool \<Rightarrow> nat \<Rightarrow> json \<Rightarrow> str" where
  "dumps ind sort_keys lvl JNull = lit ''null''"
| "dumps ind sort_keys lvl (JBool b) = (if b then lit ''true'' else lit ''false'')"
| "dumps ind sort_keys lvl (JInt i) = int_str i"
| "dumps ind sort_keys lvl (JFloat t) = t"
| "dumps ind sort_keys lvl (JStr s) = json_string s"
| "dumps ind sort_keys lvl (JArr vs) =
     json_block ind lvl 91 93 (map (dumps ind sort_keys (Suc lvl)) vs)"
| "dumps ind sort_keys lvl (JObj kvs) =
     json_block ind lvl 123 125 (map (\<lambda>(k, t). json_string k @ [58, 32] @ t)
       (in_order sort_keys (map (\<lambda>(k, v). (k, dumps ind sort_keys (Suc lvl) v)) kvs)))"

text \<open>An object with the keys of a literal in the source.\<close>

definition obj :: "(string \<times> json) list \<Rightarrow> json" where
  "obj kvs = JObj (map (\<lambda>(k, v). (lit k, v)) kvs)"

section \<open>Scanning\<close>

datatype json_fault = Json_Syntax | Json_Digits | Json_Fuel

definition json_space :: "nat \<Rightarrow> bool" where
  "json_space c \<longleftrightarrow> c = 32 \<or> c = 9 \<or> c = 10 \<or> c = 13"

definition skip_ws :: "str \<Rightarrow> str" where
  "skip_ws s = dropWhile json_space s"

definition hex4 :: "str \<Rightarrow> (nat \<times> str) option" where
  "hex4 s =
     (case s of
        a # b # c # d # rest \<Rightarrow>
          (case (hex_value a, hex_value b, hex_value c, hex_value d) of
             (Some w, Some x, Some y, Some z) \<Rightarrow> Some (4096 * w + 256 * x + 16 * y + z, rest)
           | _ \<Rightarrow> None)
      | _ \<Rightarrow> None)"

definition high_surrogate :: "nat \<Rightarrow> bool" where
  "high_surrogate u \<longleftrightarrow> 0xd800 \<le> u \<and> u \<le> 0xdbff"

definition low_surrogate :: "nat \<Rightarrow> bool" where
  "low_surrogate u \<longleftrightarrow> 0xdc00 \<le> u \<and> u \<le> 0xdfff"

text \<open>The escaped low surrogate that follows an escaped high one, if it does.\<close>

definition next_low :: "str \<Rightarrow> (nat \<times> str) option" where
  "next_low s =
     (case s of
        a # b # rest \<Rightarrow>
          if a = 92 \<and> b = 117
          then (case hex4 rest of Some (v, r) \<Rightarrow> if low_surrogate v then Some (v, r) else None | None \<Rightarrow> None)
          else None
      | _ \<Rightarrow> None)"

definition simple_escape :: "nat \<Rightarrow> nat option" where
  "simple_escape c = dict_get [(34, 34), (92, 92), (47, 47), (98, 8), (102, 12), (110, 10), (114, 13), (116, 9)] c"

lemma hex4_length: "hex4 s = Some (u, r) \<Longrightarrow> length s = length r + 4"
  by (auto simp: hex4_def split: list.splits option.splits)

lemma next_low_length: "next_low s = Some (v, r) \<Longrightarrow> length s = length r + 6"
  by (auto simp: next_low_def hex4_length split: list.splits option.splits if_splits)

definition put_char :: "nat \<Rightarrow> json_fault + (str \<times> str) \<Rightarrow> json_fault + (str \<times> str)" where
  "put_char c r = bind_res r (\<lambda>(s, rest). Inr (c # s, rest))"

lemma put_char_cong [fundef_cong]: "c = c' \<Longrightarrow> r = r' \<Longrightarrow> put_char c r = put_char c' r'"
  by simp

function scan_string :: "str \<Rightarrow> json_fault + (str \<times> str)" where
  "scan_string [] = Inl Json_Syntax"
| "scan_string (c # cs) =
     (if c = 34 then Inr ([], cs)
      else if c = 92 then
        (case cs of
           [] \<Rightarrow> Inl Json_Syntax
         | e # es \<Rightarrow>
             if e = 117 then
               (case hex4 es of
                  None \<Rightarrow> Inl Json_Syntax
                | Some (u, rest) \<Rightarrow>
                    (case (if high_surrogate u then next_low rest else None) of
                       Some (v, rest') \<Rightarrow>
                         put_char (0x10000 + (u - 0xd800) * 1024 + (v - 0xdc00)) (scan_string rest')
                     | None \<Rightarrow> put_char u (scan_string rest)))
             else
               (case simple_escape e of
                  None \<Rightarrow> Inl Json_Syntax
                | Some x \<Rightarrow> put_char x (scan_string es)))
      else if c \<le> 31 then Inl Json_Syntax
      else put_char c (scan_string cs))"
  by pat_completeness auto
termination
  by (relation "measure length") (auto dest!: hex4_length next_low_length split: if_splits)

text \<open>Numbers: an integer part without leading zeros, then optionally a fraction and an exponent.\<close>

definition ascii_digit :: "nat \<Rightarrow> bool" where
  "ascii_digit c \<longleftrightarrow> 48 \<le> c \<and> c \<le> 57"

definition scan_digits :: "str \<Rightarrow> (str \<times> str) option" where
  "scan_digits s =
     (case s of
        [] \<Rightarrow> None
      | c # cs \<Rightarrow>
          if c = 48 then Some ([48], cs)
          else if ascii_digit c then Some (takeWhile ascii_digit s, dropWhile ascii_digit s)
          else None)"

definition scan_int :: "str \<Rightarrow> (str \<times> str) option" where
  "scan_int s =
     (if s \<noteq> [] \<and> hd s = 45
      then (case scan_digits (tl s) of Some (ds, r) \<Rightarrow> Some (45 # ds, r) | None \<Rightarrow> None)
      else scan_digits s)"

definition scan_frac :: "str \<Rightarrow> str \<times> str" where
  "scan_frac s =
     (if s \<noteq> [] \<and> hd s = 46 \<and> takeWhile ascii_digit (tl s) \<noteq> []
      then (46 # takeWhile ascii_digit (tl s), dropWhile ascii_digit (tl s)) else ([], s))"

definition scan_exp :: "str \<Rightarrow> str \<times> str" where
  "scan_exp s =
     (if s \<noteq> [] \<and> (hd s = 101 \<or> hd s = 69)
      then
        let r = tl s;
            sign = (if r \<noteq> [] \<and> (hd r = 43 \<or> hd r = 45) then [hd r] else []);
            r' = drop (length sign) r
        in if takeWhile ascii_digit r' \<noteq> []
           then (hd s # sign @ takeWhile ascii_digit r', dropWhile ascii_digit r') else ([], s)
      else ([], s))"

definition scan_number :: "(str \<Rightarrow> str) \<Rightarrow> str \<Rightarrow> json_fault + (json \<times> str)" where
  "scan_number canon s =
     (case scan_int s of
        None \<Rightarrow> Inl Json_Syntax
      | Some (i, r1) \<Rightarrow>
          (case scan_frac r1 of (f, r2) \<Rightarrow>
          (case scan_exp r2 of (e, r3) \<Rightarrow>
             if f = [] \<and> e = []
             then (case py_int i of None \<Rightarrow> Inl Json_Digits | Some k \<Rightarrow> Inr (JInt k, r1))
             else Inr (JFloat (canon (i @ f @ e)), r3))))"

definition json_words :: "(str \<times> json) list" where
  "json_words = [(lit ''null'', JNull), (lit ''true'', JBool True), (lit ''false'', JBool False),
     (lit ''NaN'', JFloat (lit ''NaN'')), (lit ''Infinity'', JFloat (lit ''Infinity'')),
     (lit ''-Infinity'', JFloat (lit ''-Infinity''))]"

definition scan_atom :: "(str \<Rightarrow> str) \<Rightarrow> str \<Rightarrow> json_fault + (json \<times> str)" where
  "scan_atom canon s =
     (case find (\<lambda>(w, v). take (length w) s = w) json_words of
        Some (w, v) \<Rightarrow> Inr (v, drop (length w) s)
      | None \<Rightarrow> scan_number canon s)"

text \<open>A dict out of pairs: the last value of a key, at the place of the first.\<close>

definition dict_of :: "('k \<times> 'v) list \<Rightarrow> ('k, 'v) dict" where
  "dict_of kvs = foldl (\<lambda>d (k, v). dict_set k v d) [] kvs"

text \<open>The recursion, with fuel; twice the length of the text and one is enough.\<close>

fun scan_value :: "(str \<Rightarrow> str) \<Rightarrow> nat \<Rightarrow> str \<Rightarrow> json_fault + (json \<times> str)"
  and scan_items :: "(str \<Rightarrow> str) \<Rightarrow> nat \<Rightarrow> str \<Rightarrow> json_fault + (json list \<times> str)"
  and scan_members :: "(str \<Rightarrow> str) \<Rightarrow> nat \<Rightarrow> str \<Rightarrow> json_fault + ((str \<times> json) list \<times> str)"
where
  "scan_value canon 0 s = Inl Json_Fuel"
| "scan_value canon (Suc n) [] = Inl Json_Syntax"
| "scan_value canon (Suc n) (c # cs) =
     (if c = 34 then bind_res (scan_string cs) (\<lambda>(t, r). Inr (JStr t, r))
      else if c = 123 then
        (case skip_ws cs of
           [] \<Rightarrow> Inl Json_Syntax
         | d # ds \<Rightarrow>
             if d = 125 then Inr (JObj [], ds)
             else bind_res (scan_members canon n (d # ds)) (\<lambda>(kvs, r). Inr (JObj (dict_of kvs), r)))
      else if c = 91 then
        (case skip_ws cs of
           [] \<Rightarrow> Inl Json_Syntax
         | d # ds \<Rightarrow>
             if d = 93 then Inr (JArr [], ds)
             else bind_res (scan_items canon n (d # ds)) (\<lambda>(vs, r). Inr (JArr vs, r)))
      else scan_atom canon (c # cs))"
| "scan_items canon 0 s = Inl Json_Fuel"
| "scan_items canon (Suc n) s =
     bind_res (scan_value canon n s) (\<lambda>(v, r).
       case skip_ws r of
         [] \<Rightarrow> Inl Json_Syntax
       | d # ds \<Rightarrow>
           if d = 93 then Inr ([v], ds)
           else if d = 44 then bind_res (scan_items canon n (skip_ws ds)) (\<lambda>(vs, r'). Inr (v # vs, r'))
           else Inl Json_Syntax)"
| "scan_members canon 0 s = Inl Json_Fuel"
| "scan_members canon (Suc n) s =
     (if s = [] \<or> hd s \<noteq> 34 then Inl Json_Syntax
      else bind_res (scan_string (tl s)) (\<lambda>(k, r).
        case skip_ws r of
          [] \<Rightarrow> Inl Json_Syntax
        | d # ds \<Rightarrow>
            if d \<noteq> 58 then Inl Json_Syntax
            else bind_res (scan_value canon n (skip_ws ds)) (\<lambda>(v, r2).
              case skip_ws r2 of
                [] \<Rightarrow> Inl Json_Syntax
              | e # es \<Rightarrow>
                  if e = 125 then Inr ([(k, v)], es)
                  else if e = 44 then
                    bind_res (scan_members canon n (skip_ws es)) (\<lambda>(kvs, r3). Inr ((k, v) # kvs, r3))
                  else Inl Json_Syntax)))"

definition json_loads :: "(str \<Rightarrow> str) \<Rightarrow> str \<Rightarrow> json result" where
  "json_loads canon s =
     (if s \<noteq> [] \<and> hd s = 0xfeff then Inl (Json_Decode_Error s)
      else case scan_value canon (2 * length s + 1) (skip_ws s) of
             Inl Json_Digits \<Rightarrow> Inl (Value_Error s)
           | Inl _ \<Rightarrow> Inl (Json_Decode_Error s)
           | Inr (v, r) \<Rightarrow> if skip_ws r = [] then Inr v else Inl (Json_Decode_Error s))"

end
