(* ===== verification/Json_Round_Trip.thy ===== *)
theory Json_Round_Trip
  imports Json
begin

text \<open>
  Reading back what was printed: for every value whose texts hold no lone surrogate, whose keys are
  distinct and whose integers are within the limit of digits, the scanner accepts the printed text,
  with any indentation and with keys sorted or not, and returns the value with its keys in that
  order.  The fuel of the scanner is enough on every text, not only on printed ones.
\<close>


section \<open>What is printed is read back\<close>

text \<open>
  Texts that can be printed: code points, where no high surrogate is followed by a low one
  (\<open>loads\<close> never returns such a pair, a text from UTF-8 has no surrogates at all).
\<close>

fun text_ok :: "str \<Rightarrow> bool" where
  "text_ok [] \<longleftrightarrow> True"
| "text_ok (c # cs) \<longleftrightarrow>
     c < 0x110000 \<and> \<not> (high_surrogate c \<and> cs \<noteq> [] \<and> low_surrogate (hd cs)) \<and> text_ok cs"

lemma put_char_Inr [simp]: "put_char c (Inr (s, r)) = Inr (c # s, r)"
  by (simp add: put_char_def)

lemma div_mod_16: "16 * (n div 16) + n mod 16 = (n :: nat)"
  by simp

lemma hex4_text [simp]:
  assumes "u < 65536"
  shows "hex4 (hex4_text u @ rest) = Some (u, rest)"
proof -
  define a b c where "a = u div 16" and "b = a div 16" and "c = b div 16"
  have *: "u div 256 = b" "u div 4096 = c" by (simp_all add: a_def b_def c_def flip: div_mult2_eq)
  have "16 * a + u mod 16 = u" "16 * b + a mod 16 = a" "16 * c + b mod 16 = b"
    unfolding a_def b_def c_def by (rule div_mod_16)+
  then have "4096 * c + 256 * (b mod 16) + 16 * (a mod 16) + u mod 16 = u" by linarith
  moreover have "c < 16" using assms by (simp add: less_mult_imp_div_less flip: *(2))
  ultimately show ?thesis unfolding hex4_def hex4_text_def * a_def [symmetric] by simp
qed

lemma u_escape_append: "u_escape u @ rest = 92 # 117 # (hex4_text u @ rest)"
  by (simp add: u_escape_def)

lemma next_low_u_escape [simp]:
  "u < 65536 \<Longrightarrow> next_low (u_escape u @ rest) = (if low_surrogate u then Some (u, rest) else None)"
  by (simp add: u_escape_append next_low_def)

lemma scan_u_escape:
  assumes "u < 65536"
  shows "scan_string (u_escape u @ rest) =
    (case (if high_surrogate u then next_low rest else None) of
       Some (v, rest') \<Rightarrow> put_char (0x10000 + (u - 0xd800) * 1024 + (v - 0xdc00)) (scan_string rest')
     | None \<Rightarrow> put_char u (scan_string rest))"
  using assms by (simp add: u_escape_append)

text \<open>A code point beyond the basic plane is the surrogates it is printed as.\<close>

lemma surrogate_pair:
  assumes "65536 \<le> c" and "c < 0x110000"
  defines "u \<equiv> 0xd800 + (c - 65536) div 1024" and "v \<equiv> 0xdc00 + (c - 65536) mod 1024"
  shows "u < 65536" "v < 65536" "high_surrogate u" "low_surrogate v" "\<not> low_surrogate u"
    "0x10000 + (u - 0xd800) * 1024 + (v - 0xdc00) = c"
proof -
  have "(c - 65536) div 1024 < 1024" using assms(2) by (simp add: less_mult_imp_div_less)
  moreover have "(c - 65536) mod 1024 < 1024" by simp
  ultimately show "u < 65536" "v < 65536" "high_surrogate u" "low_surrogate v" "\<not> low_surrogate u"
    by (simp_all add: u_def v_def high_surrogate_def low_surrogate_def)
  show "0x10000 + (u - 0xd800) * 1024 + (v - 0xdc00) = c"
    using assms(1) div_mult_mod_eq [of "c - 65536" 1024] by (simp add: u_def v_def)
qed

lemma scan_json_char:
  assumes "c < 0x110000" and "high_surrogate c \<Longrightarrow> next_low rest = None"
  shows "scan_string (json_char c @ rest) = put_char c (scan_string rest)"
proof -
  consider (named) "c \<in> {34, 92, 10, 13, 9, 12, 8}"
    | (plain) "c \<notin> {34, 92, 10, 13, 9, 12, 8}" "32 \<le> c" "c \<le> 126"
    | (basic) "c \<notin> {34, 92, 10, 13, 9, 12, 8}" "\<not> (32 \<le> c \<and> c \<le> 126)" "c < 65536"
    | (wide) "65536 \<le> c" by force
  then show ?thesis
  proof cases
    case named
    then show ?thesis by (auto simp: json_char_def simple_escape_def)
  next
    case plain
    then show ?thesis by (simp add: json_char_def)
  next
    case basic
    then show ?thesis using assms(2) by (simp add: json_char_def scan_u_escape)
  next
    case wide
    from surrogate_pair [OF this assms(1)] show ?thesis
      using wide by (simp add: json_char_def scan_u_escape)
  qed
qed

lemma next_low_json_char:
  assumes "c < 0x110000" and "\<not> low_surrogate c"
  shows "next_low (json_char c @ rest) = None"
proof -
  consider (named) "c \<in> {34, 92, 10, 13, 9, 12, 8}"
    | (plain) "c \<notin> {34, 92, 10, 13, 9, 12, 8}" "32 \<le> c" "c \<le> 126"
    | (basic) "c \<notin> {34, 92, 10, 13, 9, 12, 8}" "\<not> (32 \<le> c \<and> c \<le> 126)" "c < 65536"
    | (wide) "65536 \<le> c" by force
  then show ?thesis
  proof cases
    case named
    then show ?thesis by (auto simp: json_char_def next_low_def)
  next
    case plain
    then show ?thesis by (simp add: json_char_def next_low_def split: list.split)
  next
    case basic
    then have "json_char c = u_escape c" by (auto simp: json_char_def)
    with basic(3) assms(2) show ?thesis by simp
  next
    case wide
    from surrogate_pair [OF this assms(1)] wide show ?thesis by (simp add: json_char_def)
  qed
qed

lemma scan_string_text:
  "text_ok s \<Longrightarrow> scan_string (concat (map json_char s) @ 34 # rest) = Inr (s, rest)"
proof (induction s)
  case (Cons c cs)
  let ?tail = "concat (map json_char cs) @ 34 # rest"
  have "next_low ?tail = None" if "high_surrogate c"
  proof (cases cs)
    case Nil
    then show ?thesis by (simp add: next_low_def split: list.splits)
  next
    case (Cons d ds)
    with that Cons.prems show ?thesis by (simp add: next_low_json_char)
  qed
  then have "scan_string (json_char c @ ?tail) = put_char c (scan_string ?tail)"
    using Cons.prems by (intro scan_json_char) simp_all
  with Cons show ?case by simp
qed simp

section \<open>The scanners consume text, and the fuel is enough\<close>

lemma skip_ws_length: "length (skip_ws s) \<le> length s"
  by (simp add: skip_ws_def length_dropWhile_le)

lemma skip_ws_Cons: "skip_ws s = c # cs \<Longrightarrow> length cs < length s"
  using skip_ws_length [of s] by simp

lemma put_char_eq_Inr: "put_char c r = Inr (t, rest) \<longleftrightarrow> (\<exists>s. r = Inr (s, rest) \<and> t = c # s)"
  by (cases r) (auto simp: put_char_def)

lemma put_char_eq_Inl [simp]: "put_char c r = Inl e \<longleftrightarrow> r = Inl e"
  by (cases r) (auto simp: put_char_def)

lemma scan_string_length: "scan_string s = Inr (t, r) \<Longrightarrow> length r < length s"
proof (induction s arbitrary: t r rule: length_induct)
  case (1 s)
  then have IH: "scan_string ys = Inr (t', r') \<Longrightarrow> length ys < length s \<Longrightarrow> length r' < length ys" for ys t' r'
    by blast
  show ?case
  proof (cases s)
    case Nil
    with "1.prems" show ?thesis by simp
  next
    case (Cons c cs)
    with "1.prems" show ?thesis
      by (auto split: if_splits list.splits option.splits simp: put_char_eq_Inr
          dest!: IH hex4_length next_low_length)
  qed
qed

lemma scan_string_no_fuel: "scan_string s \<noteq> Inl Json_Fuel"
proof (induction s rule: scan_string.induct)
  case (2 c cs)
  then show ?case by (auto split: list.splits option.splits)
qed simp

lemma scan_digits_length: "scan_digits s = Some (d, r) \<Longrightarrow> length r < length s"
  by (auto simp: scan_digits_def split: list.splits if_splits intro: le_imp_less_Suc length_dropWhile_le)

lemma scan_int_length: "scan_int s = Some (i, r) \<Longrightarrow> length r < length s"
  by (cases s) (auto simp: scan_int_def split: if_splits option.splits dest!: scan_digits_length)

lemma scan_frac_length: "scan_frac s = (f, r) \<Longrightarrow> length r \<le> length s"
  using length_dropWhile_le [of ascii_digit "tl s"] by (cases s) (auto simp: scan_frac_def split: if_splits)

lemma scan_exp_length: "scan_exp s = (e, r) \<Longrightarrow> length r \<le> length s"
proof -
  have "length (dropWhile ascii_digit (drop k (tl s))) \<le> length s" for k
    using length_dropWhile_le [of ascii_digit "drop k (tl s)"] by (rule le_trans) simp
  from this [of 0] this [of 1] show "scan_exp s = (e, r) \<Longrightarrow> length r \<le> length s"
    by (auto simp: scan_exp_def Let_def split: if_splits)
qed

lemma scan_number_length: "scan_number canon s = Inr (v, r) \<Longrightarrow> length r < length s"
  by (auto simp: scan_number_def split: option.splits prod.splits if_splits
      dest!: scan_int_length scan_frac_length scan_exp_length)

lemma scan_atom_length: "scan_atom canon s = Inr (v, r) \<Longrightarrow> length r < length s"
proof (cases "find (\<lambda>(w, v). take (length w) s = w) json_words")
  case None
  then show "scan_atom canon s = Inr (v, r) \<Longrightarrow> length r < length s"
    by (simp add: scan_atom_def scan_number_length)
next
  case (Some wv)
  then have "take (length (fst wv)) s = fst wv" "fst wv \<noteq> []"
    using find_Some_iff_mem [OF Some] by (auto simp: json_words_def)
  then have "length (drop (length (fst wv)) s) < length s" by (cases s) auto
  with Some show "scan_atom canon s = Inr (v, r) \<Longrightarrow> length r < length s"
    by (auto simp: scan_atom_def split: prod.splits)
qed

lemma scan_atom_no_fuel: "scan_atom canon s \<noteq> Inl Json_Fuel"
  by (auto simp: scan_atom_def scan_number_def split: option.splits prod.splits)

text \<open>The look at the next character, which has to be there.\<close>

lemma case_next_eq_Inr:
  "(case xs of [] \<Rightarrow> Inl e | y # ys \<Rightarrow> f y ys) = Inr r \<longleftrightarrow> (\<exists>y ys. xs = y # ys \<and> f y ys = Inr r)"
  by (cases xs) simp_all

lemma case_next_eq_fuel:
  "(case xs of [] \<Rightarrow> Inl Json_Syntax | y # ys \<Rightarrow> f y ys) = Inl Json_Fuel \<longleftrightarrow>
     (\<exists>y ys. xs = y # ys \<and> f y ys = Inl Json_Fuel)"
  by (cases xs) simp_all

lemmas scan_simps = bind_res_eq_Inr bind_res_eq_Inl case_next_eq_Inr case_next_eq_fuel

lemma scan_consumes:
  "scan_value canon n s = Inr (v, r) \<Longrightarrow> length r < length s"
  "scan_items canon n s = Inr (vs, r) \<Longrightarrow> length r < length s"
  "scan_members canon n s = Inr (kvs, r) \<Longrightarrow> length r < length s"
proof (induction n arbitrary: s v vs kvs r)
  case (Suc n)
  note skipped = Suc.IH [THEN less_le_trans, OF _ skip_ws_length]
  {
    case 1
    then show ?case
      by (cases s) (auto simp: scan_simps split: if_splits
          dest!: Suc.IH scan_string_length scan_atom_length skip_ws_Cons)
  next
    case 2
    then show ?case
      by (auto simp: scan_simps split: if_splits dest!: Suc.IH(1) skipped(2) skip_ws_Cons)
  next
    case 3
    then show ?case
      by (cases s) (auto simp: scan_simps split: if_splits
          dest!: skipped(1,3) scan_string_length skip_ws_Cons)
  }
qed simp_all

lemma scan_fuel:
  "2 * length s + 1 \<le> n \<Longrightarrow> scan_value canon n s \<noteq> Inl Json_Fuel"
  "2 * length s + 2 \<le> n \<Longrightarrow> scan_items canon n s \<noteq> Inl Json_Fuel"
  "2 * length s + 2 \<le> n \<Longrightarrow> scan_members canon n s \<noteq> Inl Json_Fuel"
proof (induction n arbitrary: s)
  case (Suc n)
  {
    case 1
    have "scan_members canon n (d # ds) \<noteq> Inl Json_Fuel \<and> scan_items canon n (d # ds) \<noteq> Inl Json_Fuel"
      if "s = c # cs" "skip_ws cs = d # ds" for c cs d ds
      using that 1 skip_ws_Cons [OF that(2)] by (intro conjI Suc.IH) simp_all
    then show ?case
      by (cases s) (auto simp: scan_simps scan_string_no_fuel scan_atom_no_fuel split: if_splits)
  next
    case 2
    have "scan_items canon n (skip_ws ds) \<noteq> Inl Json_Fuel"
      if "scan_value canon n s = Inr (v, r)" "skip_ws r = d # ds" for v r d ds
      using 2 scan_consumes(1) [OF that(1)] skip_ws_Cons [OF that(2)] skip_ws_length [of ds]
      by (intro Suc.IH) simp
    moreover have "scan_value canon n s \<noteq> Inl Json_Fuel" using 2 by (intro Suc.IH) simp
    ultimately show ?case by (auto simp: scan_simps split: if_splits)
  next
    case 3
    have one: "scan_value canon n (skip_ws ds) \<noteq> Inl Json_Fuel"
      if "scan_string (tl s) = Inr (k, r)" "skip_ws r = d # ds" for k r d ds
      using 3 scan_string_length [OF that(1)] skip_ws_Cons [OF that(2)] skip_ws_length [of ds]
      by (intro Suc.IH) simp
    have "scan_members canon n (skip_ws es) \<noteq> Inl Json_Fuel"
      if "scan_string (tl s) = Inr (k, r)" "skip_ws r = d # ds"
        "scan_value canon n (skip_ws ds) = Inr (v, r2)" "skip_ws r2 = e # es" for k r d ds v r2 e es
      using 3 scan_string_length [OF that(1)] skip_ws_Cons [OF that(2)] skip_ws_length [of ds]
        scan_consumes(1) [OF that(3)] skip_ws_Cons [OF that(4)] skip_ws_length [of es]
      by (intro Suc.IH) simp
    with one show ?case
      by (auto simp: scan_simps scan_string_no_fuel split: if_splits)
  }
qed simp_all

text \<open>So a text is refused for what it says, never for lack of fuel.\<close>

lemma json_loads_fault:
  "json_loads canon s = Inl (Json_Decode_Error s) \<longleftrightarrow>
     (s \<noteq> [] \<and> hd s = 0xfeff) \<or>
     scan_value canon (2 * length s + 1) (skip_ws s) = Inl Json_Syntax \<or>
     (\<exists>v r. scan_value canon (2 * length s + 1) (skip_ws s) = Inr (v, r) \<and> skip_ws r \<noteq> [])"
proof -
  have "scan_value canon (2 * length s + 1) (skip_ws s) \<noteq> Inl Json_Fuel"
    using skip_ws_length [of s] by (intro scan_fuel) simp
  then show ?thesis
    by (auto simp: json_loads_def split: sum.split json_fault.split)
qed

section \<open>Round trip\<close>

text \<open>What may follow a printed value.\<close>

definition delimited :: "str \<Rightarrow> bool" where
  "delimited rest \<longleftrightarrow> rest = [] \<or> hd rest \<in> {10, 44, 93, 125}"

lemma delimited_simps [simp]: "delimited []" "delimited (c # cs) \<longleftrightarrow> c \<in> {10, 44, 93, 125}"
  by (simp_all add: delimited_def)

lemma digits_delimited:
  "delimited rest \<Longrightarrow> takeWhile ascii_digit (s @ rest) = takeWhile ascii_digit s"
  "delimited rest \<Longrightarrow> dropWhile ascii_digit (s @ rest) = dropWhile ascii_digit s @ rest"
proof -
  assume "delimited rest"
  then have "takeWhile ascii_digit rest = []" "dropWhile ascii_digit rest = rest"
    by (cases rest; auto simp: ascii_digit_def)+
  then show "takeWhile ascii_digit (s @ rest) = takeWhile ascii_digit s"
    "dropWhile ascii_digit (s @ rest) = dropWhile ascii_digit s @ rest"
    by (induction s) simp_all
qed

lemma scan_digits_delimited:
  "scan_digits s = Some (d, r) \<Longrightarrow> delimited rest \<Longrightarrow> scan_digits (s @ rest) = Some (d, r @ rest)"
  using digits_delimited [of rest s] by (cases s) (auto simp: scan_digits_def split: if_splits)

lemma scan_int_delimited:
  "scan_int s = Some (i, r) \<Longrightarrow> delimited rest \<Longrightarrow> scan_int (s @ rest) = Some (i, r @ rest)"
  using scan_digits_delimited [of s _ _ rest] scan_digits_delimited [of "tl s" _ _ rest]
  by (cases s) (auto simp: scan_int_def scan_digits_def [of "[]"] split: if_splits option.splits)

lemma scan_frac_delimited:
  "delimited rest \<Longrightarrow> scan_frac (s @ rest) = (fst (scan_frac s), snd (scan_frac s) @ rest)"
  using digits_delimited [of rest "tl s"] by (cases s) (auto simp: scan_frac_def delimited_def)

lemma scan_exp_delimited:
  assumes "delimited rest"
  shows "scan_exp (s @ rest) = (fst (scan_exp s), snd (scan_exp s) @ rest)"
proof (cases s)
  case Nil
  with assms show ?thesis by (auto simp: scan_exp_def delimited_def)
next
  case (Cons c cs)
  have "hd rest \<noteq> 43 \<and> hd rest \<noteq> 45" if "rest \<noteq> []" using assms that by (auto simp: delimited_def)
  with Cons show ?thesis
    using digits_delimited [OF assms, of cs] digits_delimited [OF assms, of "tl cs"]
    by (cases cs) (auto simp: scan_exp_def Let_def)
qed

lemma scan_int_split: "scan_int s = Some (i, r) \<Longrightarrow> s = i @ r"
  by (cases s) (auto simp: scan_int_def scan_digits_def split: if_splits list.splits)

lemma scan_frac_split: "scan_frac s = (f, r) \<Longrightarrow> s = f @ r"
  by (cases s) (auto simp: scan_frac_def split: if_splits)

lemma scan_exp_split: "scan_exp s = (e, r) \<Longrightarrow> s = e @ r"
  by (cases s; cases "tl s") (auto simp: scan_exp_def Let_def split: if_splits)

text \<open>A float's own text: one of the three words, or a literal that is the shortest for its float.\<close>

definition float_ok :: "(str \<Rightarrow> str) \<Rightarrow> str \<Rightarrow> bool" where
  "float_ok canon t \<longleftrightarrow>
     t \<in> {lit ''NaN'', lit ''Infinity'', lit ''-Infinity''} \<or>
     (case scan_int t of
        None \<Rightarrow> False
      | Some (i, r1) \<Rightarrow>
          (case scan_frac r1 of (f, r2) \<Rightarrow>
          (case scan_exp r2 of (e, r3) \<Rightarrow> r3 = [] \<and> (f \<noteq> [] \<or> e \<noteq> []) \<and> canon t = t)))"

definition starts_number :: "str \<Rightarrow> bool" where
  "starts_number s \<longleftrightarrow> s \<noteq> [] \<and>
     (ascii_digit (hd s) \<or> hd s = 45 \<and> tl s \<noteq> [] \<and> ascii_digit (hd (tl s)))"

lemma scan_int_starts: "scan_int s = Some (i, r) \<Longrightarrow> starts_number s"
  by (cases s) (auto simp: scan_int_def scan_digits_def starts_number_def ascii_digit_def
      split: if_splits list.splits)

lemma starts_number_append: "starts_number s \<Longrightarrow> starts_number (s @ rest)"
  by (cases s; cases "tl s") (auto simp: starts_number_def)

lemma scan_atom_number:
  assumes "starts_number s"
  shows "scan_atom canon s = scan_number canon s"
proof -
  have "take (length w) s \<noteq> w" if "(w, v) \<in> set json_words" for w v
    using assms that
    by (cases s; cases "tl s") (auto simp: json_words_def lit_def starts_number_def ascii_digit_def)
  then have "find (\<lambda>(w, v). take (length w) s = w) json_words = None"
    by (auto simp: find_None_iff)
  then show ?thesis by (simp add: scan_atom_def)
qed

lemma scan_float:
  assumes "float_ok canon t" and "delimited rest"
  shows "scan_atom canon (t @ rest) = Inr (JFloat t, rest)"
proof (cases "t \<in> {lit ''NaN'', lit ''Infinity'', lit ''-Infinity''}")
  case True
  then show ?thesis by (auto simp: scan_atom_def json_words_def lit_def)
next
  case False
  with assms(1) obtain i r1 f r2 e where t:
      "scan_int t = Some (i, r1)" "scan_frac r1 = (f, r2)" "scan_exp r2 = (e, [])"
      "f \<noteq> [] \<or> e \<noteq> []" "canon t = t"
    by (auto simp: float_ok_def split: option.splits prod.splits)
  have "t = i @ f @ e"
    using scan_int_split [OF t(1)] scan_frac_split [OF t(2)] scan_exp_split [OF t(3)] by simp
  moreover have "starts_number (t @ rest)" using scan_int_starts [OF t(1)] by (rule starts_number_append)
  ultimately show ?thesis
    using scan_int_delimited [OF t(1) assms(2)] scan_frac_delimited [OF assms(2), of r1]
      scan_exp_delimited [OF assms(2), of r2] t
    by (auto simp: scan_atom_number scan_number_def)
qed

lemma hd_nat_str: "n \<noteq> 0 \<Longrightarrow> hd (nat_str n) \<noteq> 48"
proof (induction n rule: nat_str.induct)
  case (1 n)
  then show ?case by (subst nat_str.simps) (simp add: hd_append)
qed

lemma scan_digits_nat_str:
  assumes "delimited rest"
  shows "scan_digits (nat_str n @ rest) = Some (nat_str n, rest)"
proof (cases "n = 0")
  case True
  then show ?thesis by (subst (1 2) nat_str.simps) (simp add: scan_digits_def)
next
  case False
  obtain c cs where s: "nat_str n = c # cs" by (cases "nat_str n") simp_all
  have all: "\<forall>d \<in> set (nat_str n). ascii_digit d" using nat_str_digits by (simp add: ascii_digit_def)
  then have "takeWhile ascii_digit (nat_str n) = nat_str n" "dropWhile ascii_digit (nat_str n) = []"
    by simp_all
  with digits_delimited [OF assms, of "nat_str n"] all hd_nat_str [OF False] s
  show ?thesis by (simp add: scan_digits_def)
qed

lemma py_int_int_str:
  assumes "length (nat_str (nat \<bar>i\<bar>)) \<le> max_int_digits"
  shows "py_int (int_str i) = Some i"
proof (cases "i < 0")
  case True
  let ?s = "nat_str (nat (- i))"
  have digits: "\<forall>c \<in> set ?s. 48 \<le> c \<and> c \<le> 57" using nat_str_digits by blast
  then have "map to_ascii_cp ?s = ?s" by (intro map_idI) (auto simp: to_ascii_cp_def)
  moreover have "strip_space (45 # ?s) = 45 # ?s"
    using digits by (intro strip_space_id) (auto simp: ascii_space_def)
  ultimately have "py_int (int_str i) = map_option (\<lambda>n. - int n) (unsigned_int ?s)"
    using True by (simp add: py_int_def int_str_def to_ascii_cp_def [of 45])
  also have "unsigned_int ?s = Some (nat (- i))"
    using assms True digits int_digits_ascii [of ?s False] digits_value_nat_str [of "nat (- i)"]
    by (simp add: unsigned_int_def)
  finally show ?thesis using True by simp
next
  case False
  with assms py_int_nat_str [of "nat i"] show ?thesis by (simp add: int_str_def)
qed

lemma scan_int_str:
  assumes "length (nat_str (nat \<bar>i\<bar>)) \<le> max_int_digits" and "delimited rest"
  shows "scan_atom canon (int_str i @ rest) = Inr (JInt i, rest)"
proof -
  have hd: "hd (nat_str n @ rest) \<noteq> 45" for n
    using nat_str_digits [of "hd (nat_str n)" n] by (cases "nat_str n") auto
  have int: "scan_int (int_str i @ rest) = Some (int_str i, rest)"
    using scan_digits_nat_str [OF assms(2)] hd by (auto simp: int_str_def scan_int_def)
  then have "starts_number (int_str i @ rest)" by (rule scan_int_starts)
  moreover have "scan_frac rest = ([], rest)" "scan_exp rest = ([], rest)"
    using assms(2) by (auto simp: scan_frac_def scan_exp_def delimited_def)
  ultimately show ?thesis
    using int py_int_int_str [OF assms(1)] by (simp add: scan_atom_number scan_number_def)
qed

text \<open>Values that can be printed and read back, and the same value with its keys in order.\<close>

fun json_ok :: "(str \<Rightarrow> str) \<Rightarrow> json \<Rightarrow> bool" where
  "json_ok canon JNull \<longleftrightarrow> True"
| "json_ok canon (JBool b) \<longleftrightarrow> True"
| "json_ok canon (JInt i) \<longleftrightarrow> length (nat_str (nat \<bar>i\<bar>)) \<le> max_int_digits"
| "json_ok canon (JFloat t) \<longleftrightarrow> float_ok canon t"
| "json_ok canon (JStr s) \<longleftrightarrow> text_ok s"
| "json_ok canon (JArr vs) \<longleftrightarrow> list_all (json_ok canon) vs"
| "json_ok canon (JObj kvs) \<longleftrightarrow>
     distinct (map fst kvs) \<and> list_all (\<lambda>(k, v). text_ok k \<and> json_ok canon v) kvs"

fun json_sorted :: "bool \<Rightarrow> json \<Rightarrow> json" where
  "json_sorted sort_keys (JArr vs) = JArr (map (json_sorted sort_keys) vs)"
| "json_sorted sort_keys (JObj kvs) =
     JObj (in_order sort_keys (map (\<lambda>(k, v). (k, json_sorted sort_keys v)) kvs))"
| "json_sorted sort_keys v = v"

text \<open>A text that is read as a value wherever it stands.\<close>

definition reads :: "(str \<Rightarrow> str) \<Rightarrow> str \<Rightarrow> json \<Rightarrow> bool" where
  "reads canon t v \<longleftrightarrow> t \<noteq> [] \<and> \<not> json_space (hd t) \<and> hd t \<notin> {93, 125, 0xfeff} \<and>
     (\<forall>rest n. delimited rest \<longrightarrow> 2 * length (t @ rest) + 1 \<le> n \<longrightarrow>
        scan_value canon n (t @ rest) = Inr (v, rest))"

lemma readsD:
  "reads canon t v \<Longrightarrow> delimited rest \<Longrightarrow> 2 * length (t @ rest) + 1 \<le> n \<Longrightarrow>
     scan_value canon n (t @ rest) = Inr (v, rest)"
  by (simp add: reads_def)

lemma reads_hd: "reads canon t v \<Longrightarrow> \<exists>c cs. t = c # cs \<and> \<not> json_space c \<and> c \<notin> {93, 125, 0xfeff}"
  by (cases t) (auto simp: reads_def)

lemma skip_ws_spaces: "\<forall>c \<in> set ws. json_space c \<Longrightarrow> skip_ws (ws @ s) = skip_ws s"
  by (simp add: skip_ws_def dropWhile_append2)

lemma skip_ws_other [simp]: "\<not> json_space c \<Longrightarrow> skip_ws (c # s) = c # s"
  by (simp add: skip_ws_def)

lemma json_space_simps [simp]:
  "\<not> json_space 34" "\<not> json_space 44" "\<not> json_space 58" "\<not> json_space 91" "\<not> json_space 93"
  "\<not> json_space 123" "\<not> json_space 125" "json_space 32" "json_space 10"
  by (simp_all add: json_space_def)

lemma skip_ws_reads: "reads canon t v \<Longrightarrow> skip_ws (t @ s) = t @ s"
  using reads_hd by fastforce

lemma atom_reads:
  assumes "\<And>rest. delimited rest \<Longrightarrow> scan_atom canon (t @ rest) = Inr (v, rest)"
    and "t \<noteq> []" and "hd t \<notin> {34, 91, 123, 93, 125, 0xfeff}" and "\<not> json_space (hd t)"
  shows "reads canon t v"
proof -
  obtain c cs where t: "t = c # cs" using assms(2) by (cases t) simp_all
  have "scan_value canon n (t @ rest) = Inr (v, rest)"
    if "delimited rest" "2 * length (t @ rest) + 1 \<le> n" for rest n
    using that assms(1) [OF that(1)] assms(3) t by (cases n) auto
  with assms show ?thesis by (simp add: reads_def)
qed

lemma breaks:
  "\<forall>c \<in> set (json_break ind lvl). json_space c"
  "delimited (json_break ind lvl @ c # cs) \<longleftrightarrow> (case ind of None \<Rightarrow> delimited (c # cs) | Some k \<Rightarrow> True)"
  "\<exists>ws. json_sep ind lvl = 44 # ws \<and> (\<forall>c \<in> set ws. json_space c)"
  by (auto simp: json_break_def json_sep_def split: option.splits)

lemma scan_items_join:
  assumes "list_all2 (reads canon) ts vs" and "ts \<noteq> []"
    and "2 * length (join_text (json_sep ind lvl) ts @ json_break ind lvl' @ 93 # rest) + 2 \<le> n"
  shows "scan_items canon n (join_text (json_sep ind lvl) ts @ json_break ind lvl' @ 93 # rest) = Inr (vs, rest)"
  using assms
proof (induction arbitrary: n rule: list_all2_induct)
  case (Cons t ts v vs)
  obtain m where n: "n = Suc m" using Cons.prems by (cases n) auto
  obtain ws where ws: "json_sep ind lvl = 44 # ws" "\<forall>c \<in> set ws. json_space c" using breaks(3) by blast
  let ?close = "json_break ind lvl' @ 93 # rest"
  have last: "delimited ?close" by (simp add: breaks split: option.split)
  have skip: "skip_ws ?close = 93 # rest" using breaks(1) by (simp add: skip_ws_spaces)
  show ?case
  proof (cases ts)
    case Nil
    with Cons.hyps have "vs = []" by simp
    with Nil n Cons.prems readsD [OF Cons.hyps(1) last, of m] skip show ?thesis by simp
  next
    case (Cons u us)
    let ?more = "join_text (json_sep ind lvl) ts @ ?close"
    have "ts \<noteq> []" using Cons by simp
    then have join: "join_text (json_sep ind lvl) (t # ts) = t @ 44 # ws @ join_text (json_sep ind lvl) ts"
      by (simp add: join_text_Cons ws)
    have "scan_value canon m (t @ 44 # ws @ ?more) = Inr (v, 44 # ws @ ?more)"
      using Cons.prems n join by (intro readsD [OF Cons.hyps(1)]) simp_all
    moreover have "skip_ws (ws @ ?more) = ?more"
    proof -
      obtain w where "reads canon u w" using Cons.hyps(2) Cons by (auto simp: list_all2_Cons1)
      then have "skip_ws ?more = ?more"
        using Cons by (cases us) (auto simp: join_text_Cons dest: skip_ws_reads)
      then show ?thesis by (simp add: skip_ws_spaces [OF ws(2)])
    qed
    moreover have "scan_items canon m ?more = Inr (vs, rest)"
      using Cons.prems n join \<open>ts \<noteq> []\<close> by (intro Cons.IH) simp_all
    ultimately show ?thesis using n join by simp
  qed
qed simp

definition member_text :: "str \<times> str \<Rightarrow> str" where
  "member_text = (\<lambda>(k, t). json_string k @ [58, 32] @ t)"

lemma member_text_append: "member_text (k, t) @ s = 34 # concat (map json_char k) @ 34 # 58 # 32 # t @ s"
  by (simp add: member_text_def json_string_def)

lemma scan_member:
  assumes "text_ok k" and "reads canon t v" and "delimited s"
    and "2 * length (member_text (k, t) @ s) + 2 \<le> n"
  shows "\<exists>m. n = Suc m \<and> scan_members canon n (member_text (k, t) @ s) =
    (case skip_ws s of
       [] \<Rightarrow> Inl Json_Syntax
     | e # es \<Rightarrow>
         if e = 125 then Inr ([(k, v)], es)
         else if e = 44 then bind_res (scan_members canon m (skip_ws es)) (\<lambda>(kvs, r3). Inr ((k, v) # kvs, r3))
         else Inl Json_Syntax)"
proof -
  obtain m where n: "n = Suc m" using assms(4) by (cases n) auto
  have "scan_value canon m (t @ s) = Inr (v, s)"
    using assms(4) n by (intro readsD [OF assms(2,3)]) (simp add: member_text_append)
  moreover have "skip_ws (32 # t @ s) = t @ s"
    using skip_ws_spaces [of "[32]" "t @ s"] skip_ws_reads [OF assms(2)] by simp
  ultimately show ?thesis
    using n scan_string_text [OF assms(1)] by (simp add: member_text_append)
qed

lemma scan_members_join:
  assumes "list_all2 (\<lambda>(k, t) (k', v). k = k' \<and> text_ok k \<and> reads canon t v) kts kvs" and "kts \<noteq> []"
    and "2 * length (join_text (json_sep ind lvl) (map member_text kts) @ json_break ind lvl' @ 125 # rest) + 2 \<le> n"
  shows "scan_members canon n
      (join_text (json_sep ind lvl) (map member_text kts) @ json_break ind lvl' @ 125 # rest) = Inr (kvs, rest)"
  using assms
proof (induction arbitrary: n rule: list_all2_induct)
  case (Cons kt kts kv kvs)
  obtain k t v where kv: "kt = (k, t)" "kv = (k, v)" "text_ok k" "reads canon t v"
    using Cons.hyps(1) by (cases kt; cases kv) auto
  obtain ws where ws: "json_sep ind lvl = 44 # ws" "\<forall>c \<in> set ws. json_space c" using breaks(3) by blast
  let ?close = "json_break ind lvl' @ 125 # rest"
  have last: "delimited ?close" by (simp add: breaks split: option.split)
  have skip: "skip_ws ?close = 125 # rest" using breaks(1) by (simp add: skip_ws_spaces)
  show ?case
  proof (cases kts)
    case Nil
    with Cons.hyps have "kvs = []" by simp
    moreover have "2 * length (member_text (k, t) @ ?close) + 2 \<le> n" using Cons.prems Nil kv by simp
    from scan_member [OF kv(3,4) last this] have "scan_members canon n (member_text (k, t) @ ?close) = Inr ([(k, v)], rest)"
      by (auto simp: skip)
    ultimately show ?thesis using Nil kv by simp
  next
    case (Cons u us)
    let ?more = "join_text (json_sep ind lvl) (map member_text kts) @ ?close"
    have ne: "map member_text kts \<noteq> []" using Cons by simp
    have join: "join_text (json_sep ind lvl) (map member_text (kt # kts)) @ ?close = member_text (k, t) @ 44 # ws @ ?more"
      using join_text_Cons [OF ne] by (simp add: ws kv)
    have "skip_ws (ws @ ?more) = ?more"
      using Cons by (cases u; cases us) (simp_all add: skip_ws_spaces [OF ws(2)] member_text_append join_text_Cons)
    moreover have "2 * length (member_text (k, t) @ 44 # ws @ ?more) + 2 \<le> n"
      using Cons.prems(2) unfolding join .
    moreover have "\<And>m. n = Suc m \<Longrightarrow> scan_members canon m ?more = Inr (kvs, rest)"
      using Cons.prems(2) Cons unfolding join by (intro Cons.IH) simp_all
    moreover have "delimited (44 # ws @ ?more)" by simp
    ultimately show ?thesis
      using scan_member [OF kv(3,4), of "44 # ws @ ?more" n] unfolding join by (auto simp: kv)
  qed
qed simp

lemma dict_of_distinct: "distinct (map fst kvs) \<Longrightarrow> dict_of kvs = kvs"
proof -
  have "foldl (\<lambda>d (k, v). dict_set k v d) acc kvs = acc @ kvs"
    if "distinct (map fst (acc @ kvs))" for acc
    using that
  proof (induction kvs arbitrary: acc)
    case (Cons kv kvs)
    have "dict_set (fst kv) (snd kv) acc = acc @ [kv]"
      using Cons.prems by (induction acc) auto
    with Cons show ?case by (cases kv) simp
  qed simp
  then show "distinct (map fst kvs) \<Longrightarrow> dict_of kvs = kvs" by (simp add: dict_of_def)
qed

lemma in_order_distinct: "distinct (map fst kvs) \<Longrightarrow> distinct (map fst (in_order srt kvs))"
  by (simp add: in_order_def distinct_map inj_on_def)

lemma list_all2_in_order:
  assumes "list_all2 (\<lambda>(k, t) (k', v). k = k' \<and> P k t v) kts kvs"
  shows "list_all2 (\<lambda>(k, t) (k', v). k = k' \<and> P k t v) (in_order srt kts) (in_order srt kvs)"
  using assms unfolding in_order_def by (auto intro: list_all2_sort_key)

lemma array_reads:
  assumes "list_all2 (reads canon) ts vs"
  shows "reads canon (json_block ind lvl 91 93 ts) (JArr vs)"
proof (cases ts)
  case Nil
  with assms have "scan_value canon n ([91, 93] @ rest) = Inr (JArr vs, rest)"
    if "2 * length ([91, 93] @ rest) + 1 \<le> n" for rest n
    using that by (cases n) simp_all
  with Nil show ?thesis by (simp add: reads_def json_block_def)
next
  case (Cons u us)
  let ?join = "join_text (json_sep ind (Suc lvl)) ts"
  have block: "json_block ind lvl 91 93 ts @ rest = 91 # json_break ind (Suc lvl) @ ?join @ json_break ind lvl @ 93 # rest" for rest
    using Cons by (simp add: json_block_def)
  obtain w where w: "reads canon u w" using assms Cons by (auto simp: list_all2_Cons1)
  then have skip: "skip_ws (json_break ind (Suc lvl) @ ?join @ s) = ?join @ s" for s
    using Cons by (cases us) (auto simp: skip_ws_spaces breaks join_text_Cons dest: skip_ws_reads)
  obtain c cs where c: "?join = c # cs" "c \<noteq> 93"
    using reads_hd [OF w] Cons by (cases us) (auto simp: join_text_Cons)
  have "scan_value canon n (json_block ind lvl 91 93 ts @ rest) = Inr (JArr vs, rest)"
    if n: "2 * length (json_block ind lvl 91 93 ts @ rest) + 1 \<le> n" for rest n
  proof -
    obtain m where m: "n = Suc m" using n by (cases n) auto
    have "scan_items canon m (?join @ json_break ind lvl @ 93 # rest) = Inr (vs, rest)"
      using n m Cons unfolding block by (intro scan_items_join [OF assms]) simp_all
    then show ?thesis unfolding block m using c skip [of "json_break ind lvl @ 93 # rest"] by simp
  qed
  moreover have "json_block ind lvl 91 93 ts \<noteq> []" "hd (json_block ind lvl 91 93 ts) = 91"
    using Cons by (simp_all add: json_block_def)
  ultimately show ?thesis by (simp add: reads_def)
qed

lemma object_reads:
  assumes "list_all2 (\<lambda>(k, t) (k', v). k = k' \<and> text_ok k \<and> reads canon t v) kts kvs"
    and "distinct (map fst kvs)"
  shows "reads canon (json_block ind lvl 123 125 (map member_text kts)) (JObj kvs)"
proof (cases kts)
  case Nil
  with assms have "scan_value canon n ([123, 125] @ rest) = Inr (JObj kvs, rest)"
    if "2 * length ([123, 125] @ rest) + 1 \<le> n" for rest n
    using that by (cases n) simp_all
  with Nil show ?thesis by (simp add: reads_def json_block_def)
next
  case (Cons u us)
  let ?join = "join_text (json_sep ind (Suc lvl)) (map member_text kts)"
  have block: "json_block ind lvl 123 125 (map member_text kts) @ rest =
      123 # json_break ind (Suc lvl) @ ?join @ json_break ind lvl @ 125 # rest" for rest
    using Cons by (simp add: json_block_def)
  obtain cs where c: "?join = 34 # cs"
    using Cons by (cases u; cases us) (simp_all add: join_text_Cons member_text_def json_string_def)
  have skip: "skip_ws (json_break ind (Suc lvl) @ ?join @ s) = ?join @ s" for s
    using c by (simp add: skip_ws_spaces breaks)
  have "scan_value canon n (json_block ind lvl 123 125 (map member_text kts) @ rest) = Inr (JObj kvs, rest)"
    if n: "2 * length (json_block ind lvl 123 125 (map member_text kts) @ rest) + 1 \<le> n" for rest n
  proof -
    obtain m where m: "n = Suc m" using n by (cases n) auto
    have "scan_members canon m (?join @ json_break ind lvl @ 125 # rest) = Inr (kvs, rest)"
      using n m Cons unfolding block by (intro scan_members_join [OF assms(1)]) simp_all
    then show ?thesis
      unfolding block m using c skip [of "json_break ind lvl @ 125 # rest"] dict_of_distinct [OF assms(2)]
      by simp
  qed
  moreover have "json_block ind lvl 123 125 (map member_text kts) \<noteq> []"
    "hd (json_block ind lvl 123 125 (map member_text kts)) = 123"
    using Cons by (simp_all add: json_block_def)
  ultimately show ?thesis by (simp add: reads_def)
qed

lemma string_reads: "text_ok s \<Longrightarrow> reads canon (json_string s) (JStr s)"
proof -
  assume s: "text_ok s"
  have "scan_value canon n (json_string s @ rest) = Inr (JStr s, rest)"
    if "2 * length (json_string s @ rest) + 1 \<le> n" for rest n
    using that scan_string_text [OF s, of rest] by (cases n) (simp_all add: json_string_def)
  then show ?thesis by (simp add: reads_def) (simp add: json_string_def)
qed

lemma word_atom:
  "scan_atom canon (lit ''null'' @ rest) = Inr (JNull, rest)"
  "scan_atom canon (lit ''true'' @ rest) = Inr (JBool True, rest)"
  "scan_atom canon (lit ''false'' @ rest) = Inr (JBool False, rest)"
  "scan_atom canon (lit ''NaN'' @ rest) = Inr (JFloat (lit ''NaN''), rest)"
  "scan_atom canon (lit ''Infinity'' @ rest) = Inr (JFloat (lit ''Infinity''), rest)"
  "scan_atom canon (lit ''-Infinity'' @ rest) = Inr (JFloat (lit ''-Infinity''), rest)"
  by (simp_all add: scan_atom_def json_words_def lit_def)

lemma word_reads:
  "reads canon (lit ''null'') JNull" "reads canon (lit ''true'') (JBool True)"
  "reads canon (lit ''false'') (JBool False)" "reads canon (lit ''NaN'') (JFloat (lit ''NaN''))"
  "reads canon (lit ''Infinity'') (JFloat (lit ''Infinity''))"
  "reads canon (lit ''-Infinity'') (JFloat (lit ''-Infinity''))"
  by ((rule atom_reads, simp only: word_atom, simp_all add: lit_def json_space_def)[1])+

lemma starts_number_reads:
  assumes "starts_number t" and "\<And>rest. delimited rest \<Longrightarrow> scan_atom canon (t @ rest) = Inr (v, rest)"
  shows "reads canon t v"
  using assms(1)
  by (intro atom_reads assms(2)) (auto simp: starts_number_def ascii_digit_def json_space_def)

lemma float_reads: "float_ok canon t \<Longrightarrow> reads canon t (JFloat t)"
proof (cases "t \<in> {lit ''NaN'', lit ''Infinity'', lit ''-Infinity''}")
  case True
  then show ?thesis by (auto intro: word_reads)
next
  case False
  assume f: "float_ok canon t"
  with False have "starts_number t"
    by (auto simp: float_ok_def split: option.splits intro: scan_int_starts)
  then show ?thesis using scan_float [OF f] by (rule starts_number_reads)
qed

lemma int_reads: "length (nat_str (nat \<bar>i\<bar>)) \<le> max_int_digits \<Longrightarrow> reads canon (int_str i) (JInt i)"
proof -
  assume i: "length (nat_str (nat \<bar>i\<bar>)) \<le> max_int_digits"
  have digit: "ascii_digit (hd (nat_str n))" for n
    using nat_str_digits [of "hd (nat_str n)" n] by (simp add: ascii_digit_def)
  then have "starts_number (int_str i)" by (simp add: starts_number_def int_str_def)
  then show ?thesis using scan_int_str [OF i] by (rule starts_number_reads)
qed

lemma dumps_reads: "json_ok canon v \<Longrightarrow> reads canon (dumps ind srt lvl v) (json_sorted srt v)"
proof (induction v arbitrary: lvl)
  case (JArr vs)
  then have "list_all2 (reads canon) (map (dumps ind srt (Suc lvl)) vs) (map (json_sorted srt) vs)"
    by (simp add: list_all2_conv_all_nth list_all_length)
  then show ?case by (simp add: array_reads)
next
  case (JObj kvs)
  have "list_all2 (\<lambda>(k, t) (k', v). k = k' \<and> text_ok k \<and> reads canon t v)
      (map (\<lambda>(k, v). (k, dumps ind srt (Suc lvl) v)) kvs) (map (\<lambda>(k, v). (k, json_sorted srt v)) kvs)"
    using JObj by (auto simp: list.rel_map list_all_iff split_beta snds.simps intro!: list.rel_refl_strong)
  then have "list_all2 (\<lambda>(k, t) (k', v). k = k' \<and> text_ok k \<and> reads canon t v)
      (in_order srt (map (\<lambda>(k, v). (k, dumps ind srt (Suc lvl) v)) kvs))
      (in_order srt (map (\<lambda>(k, v). (k, json_sorted srt v)) kvs))"
    by (rule list_all2_in_order)
  moreover have "distinct (map fst (map (\<lambda>(k, v). (k, json_sorted srt v)) kvs))"
    using JObj.prems by (simp add: comp_def split_beta)
  ultimately have "reads canon
      (json_block ind lvl 123 125
        (map member_text (in_order srt (map (\<lambda>(k, v). (k, dumps ind srt (Suc lvl) v)) kvs))))
      (JObj (in_order srt (map (\<lambda>(k, v). (k, json_sorted srt v)) kvs)))"
    by (intro object_reads in_order_distinct)
  then show ?case by (simp add: member_text_def)
qed (auto intro: word_reads int_reads float_reads string_reads)

theorem loads_dumps:
  assumes "json_ok canon v"
  shows "json_loads canon (dumps ind srt 0 v) = Inr (json_sorted srt v)"
proof -
  have r: "reads canon (dumps ind srt 0 v) (json_sorted srt v)" using assms by (rule dumps_reads)
  then have "hd (dumps ind srt 0 v) \<noteq> 0xfeff" by (simp add: reads_def)
  with readsD [OF r, of "[]"] skip_ws_reads [OF r, of "[]"] show ?thesis
    by (simp add: json_loads_def) (simp add: skip_ws_def)
qed

section \<open>What is read can be printed\<close>

definition scalar_cp :: "nat \<Rightarrow> bool" where
  "scalar_cp c \<longleftrightarrow> c < 0x110000 \<and> \<not> high_surrogate c \<and> \<not> low_surrogate c"

definition scalar_text :: "str \<Rightarrow> bool" where
  "scalar_text s \<longleftrightarrow> list_all scalar_cp s"

lemma scalar_cp_small [simp]: "c < 0xd800 \<Longrightarrow> scalar_cp c"
  by (simp add: scalar_cp_def high_surrogate_def low_surrogate_def)

lemma scalar_text_simps [simp]:
  "scalar_text []"
  "scalar_text (c # s) \<longleftrightarrow> scalar_cp c \<and> scalar_text s"
  "scalar_text (s @ t) \<longleftrightarrow> scalar_text s \<and> scalar_text t"
  by (auto simp: scalar_text_def)

lemma scalar_text_subset: "scalar_text s \<Longrightarrow> set t \<subseteq> set s \<Longrightarrow> scalar_text t"
  by (auto simp: scalar_text_def list_all_iff)

lemma scalar_text_ok: "scalar_text s \<Longrightarrow> text_ok s"
  by (induction s rule: text_ok.induct) (auto simp: scalar_cp_def)

lemma scalar_text_ascii: "\<forall>c \<in> set s. c < 0xd800 \<Longrightarrow> scalar_text s"
  by (simp add: scalar_text_def list_all_iff)

lemma scalar_text_lit [simp]: "scalar_text (lit s)"
  by (rule scalar_text_ascii) (auto dest: lit_less_256)

lemma hex4_less: "hex4 s = Some (u, r) \<Longrightarrow> u < 65536 \<and> set r \<subseteq> set s"
proof -
  have v: "hex_value c = Some w \<Longrightarrow> w < 16" for c w by (auto simp: hex_value_def split: if_splits)
  assume "hex4 s = Some (u, r)"
  then obtain a b c d w x y z where "s = a # b # c # d # r"
    "hex_value a = Some w" "hex_value b = Some x" "hex_value c = Some y" "hex_value d = Some z"
    "u = 4096 * w + 256 * x + 16 * y + z"
    by (auto simp: hex4_def split: list.splits option.splits)
  with v [of a w] v [of b x] v [of c y] v [of d z] show ?thesis by auto
qed

lemma next_low_set: "next_low s = Some (v, r) \<Longrightarrow> low_surrogate v \<and> set r \<subseteq> set s"
  by (auto simp: next_low_def split: list.splits option.splits if_splits dest!: hex4_less)

lemma simple_escape_scalar: "simple_escape e = Some x \<Longrightarrow> x < 128"
  by (auto simp: simple_escape_def split: if_splits)

lemma pair_scalar:
  "high_surrogate u \<Longrightarrow> low_surrogate v \<Longrightarrow>
     0x10000 + (u - 0xd800) * 1024 + (v - 0xdc00) < 0x110000 \<and>
     \<not> high_surrogate (0x10000 + (u - 0xd800) * 1024 + (v - 0xdc00)) \<and>
     \<not> low_surrogate (0x10000 + (u - 0xd800) * 1024 + (v - 0xdc00))"
  by (auto simp: high_surrogate_def low_surrogate_def)

lemma text_ok_Cons_other: "c < 0x110000 \<Longrightarrow> \<not> high_surrogate c \<Longrightarrow> text_ok s \<Longrightarrow> text_ok (c # s)"
  by simp

lemma scan_string_ok:
  "scan_string s = Inr (t, r) \<Longrightarrow> scalar_text s \<Longrightarrow>
     text_ok t \<and> set r \<subseteq> set s \<and> (t \<noteq> [] \<and> low_surrogate (hd t) \<longrightarrow> next_low s \<noteq> None)"
proof (induction s arbitrary: t r rule: scan_string.induct)
  case 1
  then show ?case by simp
next
  case (2 c cs)
  consider "c = 34" | "c = 92" | "c \<noteq> 34" "c \<noteq> 92" by blast
  then show ?case
  proof cases
    case 1
    with "2.prems" show ?thesis by auto
  next
    case 3
    with "2.prems" obtain t' where t': "scan_string cs = Inr (t', r)" "t = c # t'" "\<not> c \<le> 31"
      by (auto simp: put_char_eq_Inr split: if_splits)
    with "2.IH"(4) [of t' r] 3 "2.prems" show ?thesis by (auto simp: scalar_cp_def)
  next
    case 2
    with "2.prems" obtain e es where e: "cs = e # es" by (cases cs) auto
    show ?thesis
    proof (cases "e = 117")
      case False
      with "2.prems" 2 e obtain x t' where x: "simple_escape e = Some x"
        "scan_string es = Inr (t', r)" "t = x # t'"
        by (auto simp: put_char_eq_Inr split: option.splits)
      have "text_ok t' \<and> set r \<subseteq> set es"
        using "2.IH"(3) [of e es x t' r] 2 e False x "2.prems" by auto
      with simple_escape_scalar [OF x(1)] x e show ?thesis
        by (auto simp: high_surrogate_def low_surrogate_def)
    next
      case True
      with "2.prems" 2 e obtain u rest where u: "hex4 es = Some (u, rest)" by (auto split: option.splits)
      note h = hex4_less [OF u]
      have sc: "scalar_text rest" using "2.prems"(2) e h by (auto intro: scalar_text_subset)
      show ?thesis
      proof (cases "if high_surrogate u then next_low rest else None")
        case None
        with "2.prems" 2 e True u obtain t' where t': "scan_string rest = Inr (t', r)" "t = u # t'"
          by (auto simp: put_char_eq_Inr)
        have "text_ok t' \<and> set r \<subseteq> set rest \<and> (t' \<noteq> [] \<and> low_surrogate (hd t') \<longrightarrow> next_low rest \<noteq> None)"
          using "2.IH"(1) [of e es "(u, rest)" u rest t' r] 2 e True u None t' sc by simp
        moreover have "low_surrogate u \<Longrightarrow> next_low (c # cs) \<noteq> None"
          using 2 e True u by (simp add: next_low_def)
        ultimately show ?thesis using t' h None e by (auto split: if_splits)
      next
        case (Some p)
        then obtain v rest' where p: "p = (v, rest')" "high_surrogate u" "next_low rest = Some (v, rest')"
          by (cases p) (auto split: if_splits)
        let ?x = "0x10000 + (u - 0xd800) * 1024 + (v - 0xdc00)"
        from "2.prems" 2 e True u p obtain t' where t': "scan_string rest' = Inr (t', r)" "t = ?x # t'"
          by (auto simp: put_char_eq_Inr)
        note n = next_low_set [OF p(3)]
        have sc': "scalar_text rest'" using sc n by (auto intro: scalar_text_subset)
        have "text_ok t' \<and> set r \<subseteq> set rest' \<and> (t' \<noteq> [] \<and> low_surrogate (hd t') \<longrightarrow> next_low rest' \<noteq> None)"
          by (rule "2.IH"(2) [of e es "(u, rest)" u rest p v rest' t' r])
             (use 2 e True u Some p(1) t'(1) sc' in simp_all)
        then have ih: "text_ok t'" "set r \<subseteq> set rest'" by blast+
        have x: "?x < 0x110000" "\<not> high_surrogate ?x" "\<not> low_surrogate ?x"
          using pair_scalar [OF p(2), of v] n by blast+
        have "text_ok t" unfolding t'(2) using x(1,2) ih(1) by (rule text_ok_Cons_other)
        moreover have "set r \<subseteq> set (c # cs)" using ih(2) n h e by auto
        moreover have "\<not> low_surrogate (hd t)" unfolding t'(2) list.sel(1) by (rule x(3))
        ultimately show ?thesis by blast
      qed
    qed
  qed
qed

text \<open>
  The assumption on \<open>canon\<close>, the text \<open>repr\<close> gives for the float a literal denotes: it is a word or
  a literal of the same float, which is then its own shortest text.
\<close>

definition canon_ok :: "(str \<Rightarrow> str) \<Rightarrow> bool" where
  "canon_ok canon \<longleftrightarrow> (\<forall>s i r1 f r2 e r3. scan_int s = Some (i, r1) \<and> scan_frac r1 = (f, r2) \<and>
     scan_exp r2 = (e, r3) \<and> (f \<noteq> [] \<or> e \<noteq> []) \<longrightarrow> float_ok canon (canon (i @ f @ e)))"

lemma nat_str_le: "n < 10 ^ k \<Longrightarrow> 1 \<le> k \<Longrightarrow> length (nat_str n) \<le> k"
  using length_nat_str [of n "k - 1"] by (cases k) auto

lemma digits_value_less: "\<forall>d \<in> set ds. d < 10 \<Longrightarrow> digits_value ds < 10 ^ length ds"
proof (induction ds rule: rev_induct)
  case (snoc d ds)
  then have "digits_value ds < 10 ^ length ds" "d < 10" by auto
  then have "10 * digits_value ds + d < 10 * 10 ^ length ds" by linarith
  then show ?case by (simp add: digits_value_def)
qed (simp add: digits_value_def)

lemma int_digits_less: "int_digits b s = Some ds \<Longrightarrow> \<forall>d \<in> set ds. d < 10"
  by (induction b s arbitrary: ds rule: int_digits.induct) (auto split: if_splits)

lemma unsigned_int_length: "unsigned_int s = Some n \<Longrightarrow> length (nat_str n) \<le> max_int_digits"
proof -
  assume "unsigned_int s = Some n"
  then obtain ds where ds: "int_digits False s = Some ds" "length ds \<le> max_int_digits" "n = digits_value ds"
    by (auto simp: unsigned_int_def split: option.splits if_splits)
  have "n < 10 ^ length ds" using digits_value_less int_digits_less [OF ds(1)] ds(3) by simp
  also have "\<dots> \<le> 10 ^ max_int_digits" using ds(2) by (simp add: power_increasing)
  finally show ?thesis by (rule nat_str_le) (simp add: max_int_digits_def)
qed

lemma py_int_length: "py_int s = Some i \<Longrightarrow> length (nat_str (nat \<bar>i\<bar>)) \<le> max_int_digits"
  by (auto simp: py_int_def split: list.splits if_splits dest: unsigned_int_length)

lemma scan_number_ok:
  assumes "canon_ok canon" and "scan_number canon s = Inr (v, r)"
  shows "json_ok canon v \<and> set r \<subseteq> set s"
proof -
  from assms(2) obtain i r1 f r2 e r3 where
    s: "scan_int s = Some (i, r1)" "scan_frac r1 = (f, r2)" "scan_exp r2 = (e, r3)"
    by (auto simp: scan_number_def split: option.splits prod.splits)
  have t: "s = i @ r1" "r1 = f @ r2" "r2 = e @ r3"
    using scan_int_split [OF s(1)] scan_frac_split [OF s(2)] scan_exp_split [OF s(3)] by auto
  show ?thesis
  proof (cases "f = [] \<and> e = []")
    case True
    with assms(2) s t show ?thesis
      by (auto simp: scan_number_def split: option.splits dest: py_int_length)
  next
    case False
    with assms s have "float_ok canon (canon (i @ f @ e))" unfolding canon_ok_def by blast
    with False assms(2) s t show ?thesis by (auto simp: scan_number_def)
  qed
qed

lemma scan_atom_ok:
  assumes "canon_ok canon" and "scan_atom canon s = Inr (v, r)"
  shows "json_ok canon v \<and> set r \<subseteq> set s"
proof (cases "find (\<lambda>(w, v). take (length w) s = w) json_words")
  case None
  with assms scan_number_ok show ?thesis by (simp add: scan_atom_def)
next
  case (Some p)
  then have "p \<in> set json_words" by (auto dest: find_Some_iff_mem)
  then have "json_ok canon (snd p)" by (auto simp: json_words_def float_ok_def)
  with Some assms(2) show ?thesis by (cases p) (auto simp: scan_atom_def dest: in_set_dropD)
qed

lemma skip_ws_set: "set (skip_ws s) \<subseteq> set s"
  unfolding skip_ws_def by (auto dest: set_dropWhileD)

lemma dict_of_keys: "distinct (map fst (dict_of kvs)) \<and> set (dict_of kvs) \<subseteq> set kvs"
proof -
  have "distinct (map fst (foldl (\<lambda>d (k, v). dict_set k v d) acc kvs)) \<and>
      set (foldl (\<lambda>d (k, v). dict_set k v d) acc kvs) \<subseteq> set acc \<union> set kvs"
    if "distinct (map fst acc)" for acc
    using that
  proof (induction kvs arbitrary: acc)
    case (Cons kv kvs)
    have "set (dict_set k v acc) \<subseteq> insert (k, v) (set acc)" for k v by (induction acc) auto
    with Cons.IH [of "dict_set (fst kv) (snd kv) acc"] Cons.prems show ?case
      by (cases kv) (fastforce simp: distinct_update)
  qed simp
  from this [of "[]"] show ?thesis by (simp add: dict_of_def)
qed

lemma json_ok_dict_of:
  assumes "list_all (\<lambda>(k, v). text_ok k \<and> json_ok canon v) kvs"
  shows "json_ok canon (JObj (dict_of kvs))"
  using assms dict_of_keys [of kvs] by (auto simp: list_all_iff)

lemma if_Inl_eq_Inr: "(if b then Inl e else x) = Inr r \<longleftrightarrow> \<not> b \<and> x = Inr r"
  by simp

lemma scan_value_ok:
  assumes "canon_ok canon"
  shows "scan_value canon n s = Inr (v, r) \<Longrightarrow> scalar_text s \<Longrightarrow> json_ok canon v \<and> set r \<subseteq> set s"
    and "scan_items canon n s = Inr (vs, r) \<Longrightarrow> scalar_text s \<Longrightarrow>
      list_all (json_ok canon) vs \<and> set r \<subseteq> set s"
    and "scan_members canon n s = Inr (kvs, r) \<Longrightarrow> scalar_text s \<Longrightarrow>
      list_all (\<lambda>(k, v). text_ok k \<and> json_ok canon v) kvs \<and> set r \<subseteq> set s"
proof (induction n arbitrary: s v vs kvs r)
  case 0
  {
    case 1 then show ?case by simp
  next
    case 2 then show ?case by simp
  next
    case 3 then show ?case by simp
  }
next
  case (Suc n)
  have ws: "scalar_text t \<Longrightarrow> skip_ws t = u \<Longrightarrow> scalar_text u \<and> set u \<subseteq> set t" for t u
    using skip_ws_set [of t] scalar_text_subset by blast
  {
    case 1
    then obtain c cs where s: "s = c # cs" by (cases s) auto
    consider "c = 34" | "c = 123" | "c = 91" | "c \<notin> {34, 123, 91}" by blast
    then show ?case
    proof cases
      case 1
      with "1.prems" s show ?thesis by (auto simp: res_simps dest!: scan_string_ok)
    next
      case 2
      with "1.prems" s obtain d ds where d: "skip_ws cs = d # ds" by (auto split: list.splits)
      with ws [of cs "d # ds"] "1.prems"(2) s have sub: "scalar_text (d # ds)" "set (d # ds) \<subseteq> set cs" by auto
      show ?thesis
      proof (cases "d = 125")
        case True
        with "1.prems"(1) 2 s d sub(2) show ?thesis by auto
      next
        case False
        with "1.prems"(1) 2 s d obtain kvs where k: "scan_members canon n (d # ds) = Inr (kvs, r)"
            "v = JObj (dict_of kvs)"
          by (auto simp: res_simps)
        from Suc.IH(3) [OF k(1) sub(1)] sub(2) s show ?thesis
          unfolding k(2) by (auto intro!: json_ok_dict_of simp del: json_ok.simps)
      qed
    next
      case 3
      with "1.prems" s obtain d ds where d: "skip_ws cs = d # ds" by (auto split: list.splits)
      with ws [of cs "d # ds"] "1.prems"(2) s have sub: "scalar_text (d # ds)" "set (d # ds) \<subseteq> set cs" by auto
      show ?thesis
      proof (cases "d = 93")
        case True
        with "1.prems"(1) 3 s d sub(2) show ?thesis by auto
      next
        case False
        with "1.prems"(1) 3 s d obtain vs where k: "scan_items canon n (d # ds) = Inr (vs, r)" "v = JArr vs"
          by (auto simp: res_simps)
        from Suc.IH(2) [OF k(1) sub(1)] sub(2) s k(2) show ?thesis by auto
      qed
    next
      case 4
      with "1.prems"(1) s have "scan_atom canon s = Inr (v, r)" by simp
      with assms show ?thesis by (rule scan_atom_ok)
    qed
  next
    case 2
    then obtain v r1 d ds where v: "scan_value canon n s = Inr (v, r1)" "skip_ws r1 = d # ds"
      by (auto simp: scan_simps)
    from Suc.IH(1) [OF v(1) "2.prems"(2)] have a: "json_ok canon v" "set r1 \<subseteq> set s" by auto
    with "2.prems"(2) ws [of r1 "d # ds"] v(2) have b: "scalar_text ds" "set ds \<subseteq> set s"
      by (auto dest: scalar_text_subset)
    show ?case
    proof (cases "d = 93")
      case True
      with "2.prems"(1) v a(1) b(2) show ?thesis by auto
    next
      case False
      with "2.prems"(1) v obtain vs' where t: "scan_items canon n (skip_ws ds) = Inr (vs', r)" "vs = v # vs'"
        by (auto simp: res_simps split: if_splits)
      with Suc.IH(2) [OF t(1)] ws [of ds "skip_ws ds"] a(1) b show ?thesis by auto
    qed
  next
    case 3
    then obtain k r1 ds v r2 e es where k: "s \<noteq> []" "scan_string (tl s) = Inr (k, r1)" "skip_ws r1 = 58 # ds"
        "scan_value canon n (skip_ws ds) = Inr (v, r2)" "skip_ws r2 = e # es"
      by (clarsimp simp: scan_simps if_Inl_eq_Inr)
    have s: "set (tl s) \<subseteq> set s" by (cases s) auto
    note sc = scalar_text_subset [OF "3.prems"(2) s]
    from scan_string_ok [OF k(2) sc] s sc have a: "text_ok k" "scalar_text r1" "set r1 \<subseteq> set s"
      by (auto dest: scalar_text_subset)
    with ws [OF a(2) k(3)] have b: "scalar_text ds" "set ds \<subseteq> set s" by auto
    from Suc.IH(1) [OF k(4)] ws [OF b(1) refl] b have c: "json_ok canon v" "scalar_text r2" "set r2 \<subseteq> set s"
      using scalar_text_subset by blast+
    with ws [OF c(2) k(5)] have d: "scalar_text es" "set es \<subseteq> set s" by auto
    show ?case
    proof (cases "e = 125")
      case True
      with "3.prems"(1) k a(1) c(1) d(2) show ?thesis by (auto split: if_splits)
    next
      case False
      with "3.prems"(1) k obtain kvs' where t: "scan_members canon n (skip_ws es) = Inr (kvs', r)"
          "kvs = (k, v) # kvs'"
        by (auto simp: res_simps split: if_splits)
      with Suc.IH(3) [OF t(1)] ws [OF d(1) refl] a(1) c(1) d show ?thesis by auto
    qed
  }
qed

lemma json_loads_ok:
  assumes "canon_ok canon" and "scalar_text s" and "json_loads canon s = Inr v"
  shows "json_ok canon v"
proof -
  have "scalar_text (skip_ws s)" using scalar_text_subset [OF assms(2) skip_ws_set] .
  moreover obtain r where "scan_value canon (2 * length s + 1) (skip_ws s) = Inr (v, r)"
    using assms(3) by (auto simp: json_loads_def split: if_splits sum.splits json_fault.splits prod.splits)
  ultimately show ?thesis using scan_value_ok(1) [OF assms(1)] by blast
qed

section \<open>What is printed is ASCII\<close>

definition ascii :: "str \<Rightarrow> bool" where
  "ascii s \<longleftrightarrow> list_all (\<lambda>c. c < 128) s"

lemma ascii_simps [simp]:
  "ascii []" "ascii (c # s) \<longleftrightarrow> c < 128 \<and> ascii s" "ascii (s @ t) \<longleftrightarrow> ascii s \<and> ascii t"
  "ascii (concat ts) \<longleftrightarrow> list_all ascii ts" "ascii (replicate n 32)"
  by (auto simp: ascii_def list_all_iff)

lemma ascii_join: "ascii sep \<Longrightarrow> list_all ascii ts \<Longrightarrow> ascii (join_text sep ts)"
  by (induction sep ts rule: join_text.induct) simp_all

lemma hex_digit_ascii [simp]: "n < 16 \<Longrightarrow> hex_digit n < 128"
  by (simp add: hex_digit_def)

lemma ascii_u_escape: "u < 65536 \<Longrightarrow> ascii (u_escape u)"
  by (simp add: u_escape_def hex4_text_def less_mult_imp_div_less)

lemma ascii_json_char: "c < 0x110000 \<Longrightarrow> ascii (json_char c)"
  by (auto simp: json_char_def intro!: ascii_u_escape)

lemma ascii_json_string: "text_ok s \<Longrightarrow> ascii (json_string s)"
proof -
  assume "text_ok s"
  then have "\<forall>c \<in> set s. c < 0x110000" by (induction s rule: text_ok.induct) auto
  then show ?thesis by (simp add: json_string_def list_all_iff ascii_json_char)
qed

lemma ascii_nat_str: "ascii (nat_str n)"
  by (auto simp: ascii_def list_all_iff dest: nat_str_digits)

lemma ascii_digits: "scan_digits s = Some (d, r) \<Longrightarrow> ascii d"
  by (cases s) (auto simp: scan_digits_def ascii_def list_all_iff ascii_digit_def dest!: set_takeWhileD split: if_splits)

lemma ascii_number:
  "scan_int s = Some (i, r) \<Longrightarrow> ascii i"
  "scan_frac s = (f, r) \<Longrightarrow> ascii f"
  "scan_exp s = (e, r) \<Longrightarrow> ascii e"
  by (auto simp: scan_int_def scan_frac_def scan_exp_def Let_def ascii_def list_all_iff ascii_digit_def
      dest!: ascii_digits set_takeWhileD split: if_splits option.splits)

lemma ascii_float: "float_ok canon t \<Longrightarrow> ascii t"
proof (cases "t \<in> {lit ''NaN'', lit ''Infinity'', lit ''-Infinity''}")
  case True
  then show ?thesis by (auto simp: lit_def)
next
  case False
  assume "float_ok canon t"
  with False obtain i r1 f r2 e where s:
      "scan_int t = Some (i, r1)" "scan_frac r1 = (f, r2)" "scan_exp r2 = (e, [])"
    by (auto simp: float_ok_def split: option.splits prod.splits)
  with scan_int_split [OF s(1)] scan_frac_split [OF s(2)] scan_exp_split [OF s(3)] ascii_number
  show ?thesis by auto
qed

lemma ascii_block:
  "open_char < 128 \<Longrightarrow> close_char < 128 \<Longrightarrow> list_all ascii ts \<Longrightarrow>
     ascii (json_block ind lvl open_char close_char ts)"
  by (auto simp: json_block_def json_break_def json_sep_def intro!: ascii_join split: option.splits)

lemma set_in_order [simp]: "set (in_order srt kvs) = set kvs"
  by (simp add: in_order_def)

lemma ascii_dumps: "json_ok canon v \<Longrightarrow> ascii (dumps ind srt lvl v)"
proof (induction v arbitrary: lvl)
  case (JArr vs)
  then show ?case by (simp add: list_all_iff ascii_block)
next
  case (JObj kvs)
  have "list_all (\<lambda>(k, t). ascii (json_string k @ [58, 32] @ t))
      (map (\<lambda>(k, v). (k, dumps ind srt (Suc lvl) v)) kvs)"
    using JObj by (fastforce simp: list_all_iff snds.simps ascii_json_string)
  then have "list_all (\<lambda>(k, t). ascii (json_string k @ [58, 32] @ t))
      (in_order srt (map (\<lambda>(k, v). (k, dumps ind srt (Suc lvl) v)) kvs))"
    by (simp only: list_all_iff set_in_order)
  then show ?case
    by (auto simp: list_all_iff split_beta intro!: ascii_block)
qed (auto simp: ascii_json_string ascii_float int_str_def ascii_nat_str lit_def)

text \<open>A text with a line break after it, as \<open>_send_json\<close> sends it.\<close>

lemma loads_dumps_line:
  assumes "json_ok canon v"
  shows "json_loads canon (dumps ind srt 0 v @ [10]) = Inr (json_sorted srt v)"
proof -
  have r: "reads canon (dumps ind srt 0 v) (json_sorted srt v)" using assms by (rule dumps_reads)
  then have "hd (dumps ind srt 0 v) \<noteq> 0xfeff" "dumps ind srt 0 v \<noteq> []" by (simp_all add: reads_def)
  with readsD [OF r, of "[10]"] skip_ws_reads [OF r, of "[10]"] show ?thesis
    by (simp add: json_loads_def) (simp add: skip_ws_def)
qed

text \<open>Without sorting, what is read back is the value itself.\<close>

lemma json_sorted_off [simp]: "json_sorted False v = v"
proof (induction v)
  case (JArr vs)
  then show ?case by (simp add: map_idI)
next
  case (JObj kvs)
  then have "map (\<lambda>(k, v). (k, json_sorted False v)) kvs = kvs"
    by (intro map_idI) (auto simp: snds.simps)
  then show ?case by (simp add: in_order_def)
qed simp_all

lemma loads_dumps_same:
  assumes "json_ok canon v"
  shows "json_loads canon (dumps ind False 0 v) = Inr v" "json_loads canon (dumps ind False 0 v @ [10]) = Inr v"
  using loads_dumps [OF assms, of ind False] loads_dumps_line [OF assms, of ind False] by simp_all

end
