(* ===== verification/Render.thy ===== *)
theory Render
  imports Cli Json_Round_Trip
begin

text \<open>
  What the backend writes: the messages of its exceptions, the JSON value of every payload of
  \<open>mfviz/server.py\<close> (the dicts that \<open>mfviz/dbq.py\<close> builds, the prose of the stuck verdicts
  included) and the replies of \<open>_send_json\<close> and \<open>_send_file\<close> with their headers and bytes.
  Every JSON body is ASCII, its length is announced, and it reads back as the payload.
\<close>

section \<open>Messages\<close>

text \<open>
  \<open>repr\<close> of a text.  \<open>printable\<close> is \<open>str.isprintable\<close> above ASCII, a table of the interpreter;
  \<open>native_text\<close> is the text of the exceptions of Python itself and of the driver.
\<close>

record py_text =
  printable :: "nat \<Rightarrow> bool"
  native_text :: "exn \<Rightarrow> str"

definition hex2_text :: "nat \<Rightarrow> str" where
  "hex2_text u = [hex_digit (u div 16 mod 16), hex_digit (u mod 16)]"

definition repr_char :: "py_text \<Rightarrow> nat \<Rightarrow> nat \<Rightarrow> str" where
  "repr_char py quote c =
     (if c = quote \<or> c = 92 then [92, c]
      else if c = 9 then [92, 116] else if c = 10 then [92, 110] else if c = 13 then [92, 114]
      else if c < 32 \<or> c = 127 then 92 # 120 # hex2_text c
      else if c < 127 \<or> printable py c then [c]
      else if c < 256 then 92 # 120 # hex2_text c
      else if c < 65536 then 92 # 117 # hex4_text c
      else 92 # 85 # hex4_text (c div 65536) @ hex4_text (c mod 65536))"

definition py_repr :: "py_text \<Rightarrow> str \<Rightarrow> str" where
  "py_repr py s =
     (let quote = (if 39 \<in> set s \<and> 34 \<notin> set s then 34 else 39)
      in quote # concat (map (repr_char py quote) s) @ [quote])"

definition py_list :: "str list \<Rightarrow> str" where
  "py_list ts = 91 # join_text [44, 32] ts @ [93]"

definition em_dash :: str where
  "em_dash = [8212]"

definition signed_str :: "int \<Rightarrow> str" where
  "signed_str i = (if i < 0 then int_str i else 43 # int_str i)"

definition db_not_utc_text :: "int \<Rightarrow> str" where
  "db_not_utc_text off =
     lit ''coordinator DB clock is not UTC (NOW() is '' @ signed_str off
     @ lit ''s from UTC_TIMESTAMP()); refusing to serve Z-designated timestamps ''
     @ em_dash @ lit '' fix the DB/session time zone ''
     @ lit ''(the deployment contract requires the coordinator database to run UTC)''"

fun mfviz_text :: "py_text \<Rightarrow> mfviz_error \<Rightarrow> str" where
  "mfviz_text py (Unknown_State_Code v) =
     lit ''unknown state code '' @ py_repr py v @ lit ''; valid codes: ''
     @ py_list (map int_str (sort (map fst STATE_NAMES)))"
| "mfviz_text py (Unknown_State_Name v) =
     lit ''unknown state name '' @ py_repr py v @ lit ''; valid names: ''
     @ py_list (map (py_repr py) (sort (map (\<lambda>(n, _). lit n) STATE_CODES)))"
| "mfviz_text py (Invalid_Hex field v) =
     lit ''invalid '' @ lit field @ lit '' (not hex): '' @ py_repr py v"
| "mfviz_text py (Wrong_Hex_Length field n v) =
     lit ''invalid '' @ lit field @ lit '' (expected 16 bytes / 32 hex chars, got '' @ nat_str n
     @ lit '' bytes): '' @ py_repr py v"
| "mfviz_text py No_PyMySQL = lit ''PyMySQL is not available in this interpreter''"
| "mfviz_text py (Env_Var_Not_Set v) =
     lit ''environment variable '' @ v @ lit '' is not set (or pass --db-password directly)''"
| "mfviz_text py (Listen_Shape v) = lit ''--listen must be HOST:PORT, got '' @ py_repr py v"
| "mfviz_text py (Listen_Port_Not_Integer v) = lit ''--listen port is not an integer: '' @ py_repr py v"
| "mfviz_text py (Listen_Port_Range v) = lit ''--listen port out of range: '' @ py_repr py v"
| "mfviz_text py No_Static_UI =
     lit ''cannot locate the static UI (no index.html next to the executable or in the ''
     @ lit ''current directory) '' @ em_dash @ lit '' pass --static-root''"
| "mfviz_text py (Refused_Non_Loopback v) =
     lit ''refusing non-loopback --listen '' @ py_repr py v @ lit '' without --allow-remote''"
| "mfviz_text py (No_Index_Html root) =
     lit ''static root '' @ root @ lit '' does not contain index.html ''
     @ lit ''(pass --static-root pointing at the microflows-viz UI directory)''"
| "mfviz_text py (Startup_Db_Not_Utc off) = db_not_utc_text off"

definition exc_text :: "py_text \<Rightarrow> exn \<Rightarrow> str" where
  "exc_text py e =
     (case e of
        Mfviz m \<Rightarrow> mfviz_text py m
      | Db_Not_Utc off \<Rightarrow> db_not_utc_text off
      | Key_Error k \<Rightarrow> py_repr py k
      | _ \<Rightarrow> native_text py e)"

text \<open>
  The lines \<open>microflows-viz serve\<close> prints to standard error; the version and the bound address come
  from the installation and the socket.
\<close>

definition startup_warning :: "py_text \<Rightarrow> serving \<Rightarrow> str option" where
  "startup_warning py s =
     map_option (\<lambda>e. lit ''microflows-viz: warning: DB not reachable at startup ('' @ exc_text py e
       @ lit ''); endpoints will return 502 until it is'') (srv_warning s)"

definition startup_banner :: "str \<Rightarrow> str \<times> int \<Rightarrow> serving \<Rightarrow> str" where
  "startup_banner version bound s =
     (let cfg = srv_config s in
      lit ''microflows-viz '' @ version @ lit '': serving http://'' @ fst bound @ [58] @ int_str (snd bound)
      @ lit '' (static: '' @ slash # join_with slash (sv_static_root (srv_server s))
      @ lit ''; db: '' @ cfg_user cfg @ [64] @ cfg_host cfg @ [58] @ int_str (cfg_port cfg)
      @ [47] @ cfg_database cfg @ lit '')'')"

definition main_error :: "py_text \<Rightarrow> process \<Rightarrow> serve_args \<Rightarrow> nat \<Rightarrow> str option" where
  "main_error py pr args n =
     (case fst (cmd_serve pr args n) of
        Inl (Mfviz m) \<Rightarrow> Some (lit ''microflows-viz error: '' @ mfviz_text py m)
      | _ \<Rightarrow> None)"

section \<open>Payloads as JSON\<close>

definition opt_json :: "('a \<Rightarrow> json) \<Rightarrow> 'a option \<Rightarrow> json" where
  "opt_json f v = (case v of None \<Rightarrow> JNull | Some a \<Rightarrow> f a)"

definition name_json :: "string option \<Rightarrow> json" where
  "name_json = opt_json (\<lambda>n. JStr (lit n))"

definition not_found_json :: "str \<Rightarrow> json" where
  "not_found_json h = obj [(''workflow_id'', JStr h), (''error'', JStr (lit ''not_found''))]"

text \<open>The node dicts of the two walks differ in the fields between the id and the children.\<close>

fun node_json :: "('a \<Rightarrow> (string \<times> json) list) \<Rightarrow> 'a call_node \<Rightarrow> json" where
  "node_json info (Not_Found h) = not_found_json h"
| "node_json info (Cycle_Detected h) = obj [(''child_workflow_id'', JStr h), (''cycle_detected'', JBool True)]"
| "node_json info (Truncated h) = obj [(''child_workflow_id'', JStr h), (''truncated'', JBool True)]"
| "node_json info (Node h a ns) =
     obj ((''workflow_id'', JStr h) # info a @ [(''children'', JArr (map (node_json info) ns))])"

definition inspect_fields :: "inspect_info \<Rightarrow> (string \<times> json) list" where
  "inspect_fields a =
     [(''workflow'', obj (i_workflow a)), (''plan'', opt_json obj (i_plan a)),
      (''args'', opt_json obj (i_args a)), (''operations'', JArr (map obj (i_operations a))),
      (''calls'', JArr (map obj (i_calls a))), (''checkpoints'', JArr (map obj (i_checkpoints a))),
      (''events'', JArr (map obj (i_events a)))]"

definition tree_fields :: "tree_info \<Rightarrow> (string \<times> json) list" where
  "tree_fields a =
     [(''parent_workflow_id'', opt_json JStr (t_parent_workflow_id a)), (''depth'', JInt (t_depth a)),
      (''script_name'', JStr (t_script_name a)), (''state'', JInt (t_state a)),
      (''state_name'', name_json (t_state_name a)),
      (''current_disposition'', JInt (t_current_disposition a)),
      (''terminal_reason'', opt_json JStr (t_terminal_reason a))]"

fun timeline_json :: "timeline \<Rightarrow> json" where
  "timeline_json (Timeline_Not_Found h) = not_found_json h"
| "timeline_json (Timeline h nodes events) =
     obj [(''workflow_id'', JStr h),
          (''workflows'', JObj (map (\<lambda>(k, depth, script).
             (k, obj [(''depth'', JInt depth), (''script_name'', JStr script)])) nodes)),
          (''events'', JArr (map obj events))]"

definition evidence_json :: "evidence \<Rightarrow> json" where
  "evidence_json ev =
     obj [(''state'', JInt (ev_state ev)), (''state_name'', name_json (ev_state_name ev)),
          (''execution_direction'', JInt (ev_execution_direction ev)),
          (''current_disposition'', JInt (ev_current_disposition ev)),
          (''terminal_reason'', opt_json JStr (ev_terminal_reason ev)),
          (''lease_owner'', ev_lease_owner ev), (''lease_expires_at'', ev_lease_expires_at ev),
          (''next_attempt_at'', ev_next_attempt_at ev),
          (''current_operation_attempt'', JInt (ev_current_operation_attempt ev)),
          (''updated_at'', ev_updated_at ev)]"

text \<open>How an f-string shows an evidence value: a text as it is, a missing one as \<open>None\<close>.\<close>

definition shown :: "json \<Rightarrow> str" where
  "shown v = (case v of JStr s \<Rightarrow> s | JInt i \<Rightarrow> int_str i | _ \<Rightarrow> lit ''None'')"

fun verdict_name :: "verdict \<Rightarrow> string" where
  "verdict_name Terminal = ''terminal''"
| "verdict_name (Blocked_Resolution res) = ''blocked_resolution''"
| "verdict_name Running_Under_Lease = ''running_under_lease''"
| "verdict_name (Waiting_On_Child child p) = ''waiting_on_child''"
| "verdict_name (Redispatch_Pending rows) = ''redispatch_pending''"
| "verdict_name (Reconcile_Pending rows) = ''reconcile_pending''"
| "verdict_name Scheduled_Retry = ''scheduled_retry''"
| "verdict_name Claimable_Now = ''claimable_now''"

text \<open>
  The last element of the path of a waiting verdict.  A child's path is popped into its caller's
  after the child's message was made from it; it ended at the end of the chain of children
  (\<open>path_ends_deepest\<close>).
\<close>

definition path_end :: "stuck_node \<Rightarrow> str list option \<Rightarrow> str" where
  "path_end child p = (case p of Some ids \<Rightarrow> last ids | None \<Rightarrow> stuck_id (deepest child))"

fun verdict_detail :: "json \<Rightarrow> evidence \<Rightarrow> verdict \<Rightarrow> str" where
  "verdict_detail now ev Terminal =
     lit ''workflow is terminal ('' @ (case ev_state_name ev of None \<Rightarrow> lit ''None'' | Some n \<Rightarrow> lit n)
     @ lit ''); nothing is running ''
     @ (case ev_terminal_reason ev of
          None \<Rightarrow> lit ''and nothing is awaited''
        | Some r \<Rightarrow> if r = [] then lit ''and nothing is awaited''
                    else em_dash @ lit '' terminal_reason: '' @ r)"
| "verdict_detail now ev (Blocked_Resolution res) =
     lit ''parked for an operator: reversal hit a nonretryable failure ('' @ nat_str (length res)
     @ lit '' checkpoint(s) in resolution_required); no retry/timer will move this '' @ em_dash
     @ lit '' it needs an authorized resolution''"
| "verdict_detail now ev Running_Under_Lease =
     lit ''an executor ('' @ shown (ev_lease_owner ev) @ lit '') holds a live lease until ''
     @ shown (ev_lease_expires_at ev) @ [32] @ em_dash @ lit '' the workflow is being driven right now''"
| "verdict_detail now ev (Waiting_On_Child child p) =
     lit ''pending on child workflow '' @ stuck_id child
     @ lit ''; deepest non-terminal descendant is '' @ path_end child p @ [32] @ em_dash
     @ lit '' see waiting_on for its verdict''"
| "verdict_detail now ev (Redispatch_Pending rows) =
     lit ''a participant confirmed the operation is still in progress after recovery; ''
     @ lit ''the durable pending->re-dispatch escalation timer is armed ('' @ nat_str (length rows)
     @ lit '' row(s)) '' @ em_dash @ lit '' uflowsd will re-PUT (byte-identical) to trigger ''
     @ lit ''the participant'' @ [39] @ lit ''s reclaim path''"
| "verdict_detail now ev (Reconcile_Pending rows) =
     lit ''the participant route is confirmed missing (route-404); the bounded durable ''
     @ lit ''reconcile budget is being spent ('' @ nat_str (length rows) @ lit '' row(s)) '' @ em_dash
     @ lit '' when it runs out the workflow parks as blocked for an operator''"
| "verdict_detail now ev Scheduled_Retry =
     lit ''claimable but not yet due: next_attempt_at '' @ shown (ev_next_attempt_at ev)
     @ lit '' is in the future (db_now '' @ shown now @ lit ''); an executor will pick it up then''"
| "verdict_detail now ev Claimable_Now =
     lit ''due and unclaimed: no live lease, next_attempt_at has passed '' @ em_dash
     @ lit '' an executor should claim this on its next scan; if this verdict persists, no executor is ''
     @ lit ''scanning this script''"

fun stuck_json :: "stuck_node \<Rightarrow> json"
  and verdict_fields :: "verdict \<Rightarrow> (string \<times> json) list"
where
  "stuck_json (Stuck_Not_Found h) = not_found_json h"
| "stuck_json (Stuck h script now ev ops cps v) =
     obj ([(''workflow_id'', JStr h), (''script_name'', JStr script), (''db_now'', now),
           (''evidence'', evidence_json ev), (''operations'', JArr (map obj ops)),
           (''checkpoints'', JArr (map obj cps)), (''verdict'', JStr (lit (verdict_name v))),
           (''detail'', JStr (verdict_detail now ev v))] @ verdict_fields v)"
| "verdict_fields (Blocked_Resolution res) = [(''resolution_required'', JArr (map obj res))]"
| "verdict_fields (Waiting_On_Child child p) =
     (''waiting_on'', stuck_json child)
     # (case p of None \<Rightarrow> [] | Some ids \<Rightarrow> [(''path'', JArr (map JStr ids))])"
| "verdict_fields (Redispatch_Pending rows) = [(''redispatch'', JArr (map obj rows))]"
| "verdict_fields (Reconcile_Pending rows) = [(''reconcile'', JArr (map obj rows))]"
| "verdict_fields v = []"

definition error_json :: "string \<Rightarrow> str \<Rightarrow> json" where
  "error_json kind detail = obj [(''error'', JStr (lit kind)), (''detail'', JStr detail)]"

fun payload_json :: "py_text \<Rightarrow> payload \<Rightarrow> json" where
  "payload_json py (Bad_Depth raw) =
     error_json ''bad_request'' (lit ''max_depth is not an integer: '' @ py_repr py raw)"
| "payload_json py Depth_Below_One = error_json ''bad_request'' (lit ''max_depth must be >= 1'')"
| "payload_json py (Missing_Params names) =
     error_json ''bad_request'' (lit ''missing required query parameter(s): ''
       @ join_text [44, 32] (map lit names)
       @ lit '' (script + a bounded since/until created_at range are required)'')"
| "payload_json py (Error_Body kind e) = error_json kind (exc_text py e)"
| "payload_json py (Health_Error kind e) =
     obj [(''ok'', JBool False), (''error'', JStr (lit kind)), (''detail'', JStr (exc_text py e))]"
| "payload_json py (Health database now off since until) =
     obj [(''ok'', JBool True), (''database'', JStr database), (''db_now'', JStr now),
          (''db_utc_offset_seconds'', JInt off), (''default_since'', JStr since),
          (''default_until'', JStr until)]"
| "payload_json py (Unknown_Endpoint p) = obj [(''error'', JStr (lit ''unknown_endpoint'')), (''path'', JStr p)]"
| "payload_json py (Path_Not_Found p) = obj [(''error'', JStr (lit ''not_found'')), (''path'', JStr p)]"
| "payload_json py Method_Not_Allowed = obj [(''error'', JStr (lit ''method_not_allowed''))]"
| "payload_json py (Inspect_Body n) = node_json inspect_fields n"
| "payload_json py (Tree_Body n) = node_json tree_fields n"
| "payload_json py (Timeline_Body t) = timeline_json t"
| "payload_json py (Stuck_Body n) = stuck_json n"
| "payload_json py (List_Body rows) = JArr (map obj rows)"

text \<open>The path that is popped ends where \<open>path_end\<close> says.\<close>

lemma path_ends_deepest:
  assumes "call_ids_ok db" and "\<exists>b. fromhex h = Some b \<and> length b = 16"
    and "stuck_workflow db h seen now_arg = Inr (Stuck h s now ev ops cps (Waiting_On_Child child (Some ids)))"
  shows "path_end child (Some ids) = path_end child None"
proof -
  from stuck_path_ok [OF assms]
  obtain cs where "ids = h # cs" "stuck_id (deepest child) = last (h # cs)"
    by (auto simp: path_ok_def)
  then show ?thesis by (simp add: path_end_def)
qed

section \<open>Replies\<close>

text \<open>\<open>str.encode("utf-8")\<close>; a surrogate raises.\<close>

definition utf8_encode_cp :: "nat \<Rightarrow> nat list" where
  "utf8_encode_cp c =
     (if c < 128 then [c]
      else if c < 2048 then [192 + c div 64, 128 + c mod 64]
      else if c < 65536 then [224 + c div 4096, 128 + c div 64 mod 64, 128 + c mod 64]
      else [240 + c div 262144, 128 + c div 4096 mod 64, 128 + c div 64 mod 64, 128 + c mod 64])"

definition utf8_encode :: "str \<Rightarrow> bytes option" where
  "utf8_encode s =
     (if list_ex (\<lambda>c. high_surrogate c \<or> low_surrogate c) s then None
      else Some (map word_of_nat (concat (map utf8_encode_cp s))))"

record reply =
  rp_status :: nat
  rp_headers :: "(string \<times> str) list"
  rp_body :: bytes

definition send_json :: "py_text \<Rightarrow> nat \<Rightarrow> payload \<Rightarrow> reply option" where
  "send_json py status p =
     (case utf8_encode (dumps (Some 2) True 0 (payload_json py p)) of
        None \<Rightarrow> None
      | Some text \<Rightarrow>
          let body = text @ [10]
          in Some \<lparr>rp_status = status,
                   rp_headers = [(''Content-Type'', lit ''application/json; charset=utf-8''),
                                 (''Content-Length'', nat_str (length body)),
                                 (''Cache-Control'', lit ''no-store'')],
                   rp_body = body\<rparr>)"

fun reply_of :: "py_text \<Rightarrow> response \<Rightarrow> reply option" where
  "reply_of py (Send_Json status p) = send_json py status p"
| "reply_of py (Send_File file ctype body) =
     Some \<lparr>rp_status = 200,
           rp_headers = [(''Content-Type'', lit ctype), (''Content-Length'', nat_str (length body))],
           rp_body = body\<rparr>"
| "reply_of py (Send_Empty status) = Some \<lparr>rp_status = status, rp_headers = [], rp_body = []\<rparr>"

section \<open>A JSON reply reads back as its payload\<close>

lemma utf8_encode_ascii: "ascii s \<Longrightarrow> utf8_encode s = Some (map word_of_nat s)"
proof -
  assume s: "ascii s"
  then have "concat (map utf8_encode_cp s) = s" by (induction s) (simp_all add: utf8_encode_cp_def)
  with s show ?thesis
    by (auto simp: utf8_encode_def list_ex_iff ascii_def list_all_iff high_surrogate_def low_surrogate_def)
qed

lemma utf8_bytes_ascii:
  assumes "ascii s"
  shows "utf8_strict (map unat (map word_of_nat s :: bytes)) = Some s"
proof -
  have "map unat (map word_of_nat s :: bytes) = s"
    using assms by (induction s) (auto simp: unat_of_nat)
  with assms show ?thesis by (simp add: utf8_strict_ascii ascii_def list_all_iff)
qed

definition reply_json :: "(str \<Rightarrow> str) \<Rightarrow> reply \<Rightarrow> json option" where
  "reply_json canon r =
     (case utf8_strict (map unat (rp_body r)) of
        None \<Rightarrow> None
      | Some text \<Rightarrow> (case json_loads canon text of Inl _ \<Rightarrow> None | Inr v \<Rightarrow> Some v))"

lemma send_json_reply:
  assumes "json_ok canon (payload_json py p)"
  shows "\<exists>r. send_json py st p = Some r \<and> rp_status r = st \<and>
    dict_get (rp_headers r) ''Content-Length'' = Some (nat_str (length (rp_body r))) \<and>
    reply_json canon r = Some (json_sorted True (payload_json py p))"
proof -
  let ?t = "dumps (Some 2) True 0 (payload_json py p)"
  have t: "ascii ?t" using assms by (rule ascii_dumps)
  have "map word_of_nat ?t @ [10] = (map word_of_nat (?t @ [10]) :: bytes)" by simp
  then have "utf8_strict (map unat (map word_of_nat ?t @ [10] :: bytes)) = Some (?t @ [10])"
    using utf8_bytes_ascii [of "?t @ [10]"] t by (simp del: map_append)
  with t loads_dumps_line [OF assms, of "Some 2" True] show ?thesis
    by (simp add: send_json_def utf8_encode_ascii reply_json_def Let_def)
qed

end
