(* ===== verification/Payloads.thy ===== *)
theory Payloads
  imports Render
begin

text \<open>
  Every dict the queries of \<open>mfviz/dbq.py\<close> build from well-formed rows can be printed and read
  back: its texts hold no surrogates, its integers are within the limit of digits, the names of its
  fields are distinct, and the documents inside it came out of \<open>json.loads\<close>.  The exceptions they
  raise have messages without surrogates.
\<close>

section \<open>Texts without surrogates\<close>

lemma ascii_scalar: "ascii s \<Longrightarrow> scalar_text s"
  by (rule scalar_text_ascii) (auto simp: ascii_def list_all_iff)

lemma scalar_concat [simp]: "scalar_text (concat ts) \<longleftrightarrow> list_all scalar_text ts"
  by (induction ts) simp_all

lemma scalar_join: "scalar_text sep \<Longrightarrow> list_all scalar_text ts \<Longrightarrow> scalar_text (join_text sep ts)"
  by (induction sep ts rule: join_text.induct) simp_all

lemma scalar_hex [simp]: "scalar_text (hex b)"
  by (rule scalar_text_ascii) (auto dest: hex_digits_lower)

lemma scalar_nat_str [simp]: "scalar_text (nat_str n)"
  by (rule ascii_scalar) (rule ascii_nat_str)

lemma scalar_int_str [simp]: "scalar_text (int_str i)"
  by (simp add: int_str_def)

lemma pad_nat_digits: "c \<in> set (pad_nat k n) \<Longrightarrow> 48 \<le> c \<and> c \<le> 57"
  by (induction k arbitrary: n) auto

lemma scalar_pad_nat [simp]: "scalar_text (pad_nat k n)"
  by (rule scalar_text_ascii) (auto dest: pad_nat_digits)

lemma scalar_iso_z [simp]: "scalar_text (iso_z t)"
  by (simp add: iso_z_def)

lemma scalar_em_dash [simp]: "scalar_text em_dash"
  by (simp add: em_dash_def)

lemma scalar_repr: "scalar_text s \<Longrightarrow> scalar_text (py_repr py s)"
proof -
  assume s: "scalar_text s"
  have digit: "n < 16 \<Longrightarrow> hex_digit n < 0xd800" for n by (simp add: hex_digit_def)
  have hex: "scalar_text (hex4_text c)" "scalar_text (hex2_text c)" if "c < 65536" for c
    by ((rule scalar_text_ascii,
         use that in \<open>auto simp: hex4_text_def hex2_text_def digit less_mult_imp_div_less\<close>)[1])+
  have "scalar_text (repr_char py q c)" if "c \<in> set s" "q \<in> {34, 39}" for q c
  proof -
    have c: "scalar_cp c" using s that(1) by (auto simp: scalar_text_def list_all_iff)
    then have "c < 0x110000" by (simp add: scalar_cp_def)
    then have "c div 65536 < 65536" by linarith
    with c that(2) show ?thesis
      by (auto simp: repr_char_def hex)
  qed
  then show ?thesis
    by (auto simp: py_repr_def Let_def list_all_iff)
qed

section \<open>Exceptions\<close>

text \<open>The values a message interpolates.\<close>

fun error_args :: "mfviz_error \<Rightarrow> str list" where
  "error_args (Unknown_State_Code v) = [v]"
| "error_args (Unknown_State_Name v) = [v]"
| "error_args (Invalid_Hex field v) = [v]"
| "error_args (Wrong_Hex_Length field n v) = [v]"
| "error_args (Env_Var_Not_Set v) = [v]"
| "error_args (Listen_Shape v) = [v]"
| "error_args (Listen_Port_Not_Integer v) = [v]"
| "error_args (Listen_Port_Range v) = [v]"
| "error_args (Refused_Non_Loopback v) = [v]"
| "error_args (No_Index_Html root) = [root]"
| "error_args m = []"

definition exn_ok :: "exn \<Rightarrow> bool" where
  "exn_ok e =
     (case e of
        Mfviz m \<Rightarrow> list_all scalar_text (error_args m)
      | Key_Error k \<Rightarrow> scalar_text k
      | _ \<Rightarrow> True)"

lemma exn_ok_simps [simp]:
  "exn_ok (Mfviz m) \<longleftrightarrow> list_all scalar_text (error_args m)" "exn_ok (Key_Error k) \<longleftrightarrow> scalar_text k"
  "exn_ok (Db_Not_Utc off)" "exn_ok (Value_Error s)" "exn_ok (Json_Decode_Error s)"
  "exn_ok Unicode_Decode_Error" "exn_ok Type_Error" "exn_ok (Driver_Error s)"
  by (simp_all add: exn_ok_def)

lemma scalar_py_list: "list_all scalar_text ts \<Longrightarrow> scalar_text (py_list ts)"
  by (simp add: py_list_def scalar_join)

lemma scalar_db_not_utc: "scalar_text (db_not_utc_text off)"
  by (simp add: db_not_utc_text_def signed_str_def)

lemma scalar_mfviz_text: "list_all scalar_text (error_args m) \<Longrightarrow> scalar_text (mfviz_text py m)"
proof (induction py m rule: mfviz_text.induct)
  case (1 py v)
  then show ?case by (auto intro!: scalar_py_list scalar_repr simp: list_all_iff)
next
  case (2 py v)
  then show ?case by (auto intro!: scalar_py_list scalar_repr simp: list_all_iff)
qed (simp_all add: scalar_repr scalar_db_not_utc)

lemma scalar_exc_text:
  "exn_ok e \<Longrightarrow> \<forall>e. scalar_text (native_text py e) \<Longrightarrow> scalar_text (exc_text py e)"
  by (cases e) (simp_all add: exc_text_def scalar_mfviz_text scalar_db_not_utc scalar_repr)

section \<open>Stored rows\<close>

text \<open>
  What the schema and the connection's utf8mb4 decoding give for every column: integers of at
  most 64 bits, texts without surrogates.
\<close>

definition int64 :: "int \<Rightarrow> bool" where
  "int64 i \<longleftrightarrow> \<bar>i\<bar> < 2 ^ 64"

lemma int64_0 [simp]: "int64 0"
  by (simp add: int64_def)

definition val_ok :: "dbval \<Rightarrow> bool" where
  "val_ok v = (case v of DText s \<Rightarrow> scalar_text s | DInt i \<Rightarrow> int64 i | _ \<Rightarrow> True)"

definition cols_ok :: "row \<Rightarrow> bool" where
  "cols_ok r \<longleftrightarrow> list_all (\<lambda>(k, v). val_ok v) r"

definition rows_ok :: "database \<Rightarrow> bool" where
  "rows_ok db \<longleftrightarrow>
     list_all (\<lambda>r. cols_ok (workflow_cols r)) (tb_workflow db) \<and>
     list_all (\<lambda>r. cols_ok (plan_cols r)) (tb_plan db) \<and>
     list_all (\<lambda>r. cols_ok (args_cols r)) (tb_args db) \<and>
     list_all (\<lambda>r. cols_ok (operation_cols r)) (tb_operation db) \<and>
     list_all (\<lambda>r. cols_ok (call_cols r)) (tb_call db) \<and>
     list_all (\<lambda>r. cols_ok (checkpoint_cols r)) (tb_checkpoint db) \<and>
     list_all (\<lambda>r. cols_ok (event_cols r)) (tb_event db)"

definition jrow_ok :: "(str \<Rightarrow> str) \<Rightarrow> jrow \<Rightarrow> bool" where
  "jrow_ok canon r \<longleftrightarrow> distinct (map fst r) \<and> list_all (\<lambda>(k, v). json_ok canon v) r"

lemma int_digits_ok: "\<bar>i\<bar> < 10 ^ max_int_digits \<Longrightarrow> length (nat_str (nat \<bar>i\<bar>)) \<le> max_int_digits"
proof (rule nat_str_le)
  show "1 \<le> max_int_digits" by (simp add: max_int_digits_def)
  assume "\<bar>i\<bar> < 10 ^ max_int_digits"
  then have "nat \<bar>i\<bar> < nat (10 ^ max_int_digits)" by simp
  then show "nat \<bar>i\<bar> < 10 ^ max_int_digits" by (simp add: nat_power_eq)
qed

lemma small_int_ok:
  assumes "int64 i"
  shows "length (nat_str (nat \<bar>i\<bar>)) \<le> max_int_digits"
proof (rule int_digits_ok)
  have "(2 :: int) ^ 64 \<le> 10 ^ 64" by simp
  also have "\<dots> \<le> 10 ^ max_int_digits" by (rule power_increasing) (simp_all add: max_int_digits_def)
  finally show "\<bar>i\<bar> < 10 ^ max_int_digits" using assms unfolding int64_def by linarith
qed

lemma val_json_ok: "val_ok v \<Longrightarrow> json_ok canon (decode_value v)"
  by (cases v) (auto simp: val_ok_def small_int_ok intro: scalar_text_ok)

lemma map_fst_decode_cols [simp]: "map fst (decode_cols r) = map fst r"
  by (simp add: decode_cols_def comp_def split_beta)

lemma decode_cols_ok: "cols_ok r \<Longrightarrow> distinct (map fst r) \<Longrightarrow> jrow_ok canon (decode_cols r)"
  unfolding jrow_ok_def map_fst_decode_cols
  by (auto simp: cols_ok_def list_all_iff decode_cols_def val_json_ok)

lemma dict_set_values: "list_all (\<lambda>(k, v). P v) r \<Longrightarrow> P v \<Longrightarrow> list_all (\<lambda>(k, v). P v) (dict_set k v r)"
  by (induction r) auto

lemma jrow_ok_set: "jrow_ok canon r \<Longrightarrow> json_ok canon v \<Longrightarrow> jrow_ok canon (dict_set k v r)"
  by (simp add: jrow_ok_def dict_set_values distinct_update)

lemma json_ok_obj: "jrow_ok canon r \<Longrightarrow> json_ok canon (obj r)"
proof -
  assume r: "jrow_ok canon r"
  have "inj lit" by (rule injI) simp
  with r have "distinct (map lit (map fst r))"
    by (simp only: distinct_map jrow_ok_def) (auto intro: inj_on_subset)
  then have "distinct (map fst (map (\<lambda>(k, v). (lit k, v)) r))" by (simp add: comp_def split_beta)
  with r show ?thesis
    by (auto simp: obj_def jrow_ok_def list_all_iff intro: scalar_text_ok)
qed

lemma json_ok_objs: "list_all (jrow_ok canon) rs \<Longrightarrow> json_ok canon (JArr (map obj rs))"
  by (auto simp: list_all_iff json_ok_obj)

lemma json_ok_opt: "pred_option (\<lambda>a. json_ok canon (f a)) v \<Longrightarrow> json_ok canon (opt_json f v)"
  by (cases v) (simp_all add: opt_json_def)

lemma json_ok_name [simp]: "json_ok canon (name_json n)"
  by (cases n) (simp_all add: name_json_def opt_json_def scalar_text_ok)

section \<open>Fetched rows\<close>

lemma utf8_step_scalar: "utf8_step a bs = (Some c, n) \<Longrightarrow> scalar_cp c"
proof -
  assume step: "utf8_step a bs = (Some c, n)"
  have tail: "\<exists>b cs. bs = b # cs \<and> second_ok a b" if "well_formed_tail a bs = Suc k" for k
    using that by (auto simp: well_formed_tail_def split: list.splits if_splits)
  consider "a < 128" "c = a"
    | "194 \<le> a" "a < 224" "well_formed_tail a bs = 1" "c = (a - 192) * 64 + (bs ! 0 - 128)"
    | "224 \<le> a" "a < 240" "well_formed_tail a bs = 2"
        "c = (a - 224) * 4096 + (bs ! 0 - 128) * 64 + (bs ! 1 - 128)"
    | "240 \<le> a" "a < 245" "well_formed_tail a bs = 3"
        "c = (a - 240) * 262144 + (bs ! 0 - 128) * 4096 + (bs ! 1 - 128) * 64 + (bs ! 2 - 128)"
    using step by (auto simp: utf8_step_def Let_def split: if_splits)
  then show ?thesis
  proof cases
    case 1
    then show ?thesis by simp
  next
    case 2
    with tail [of 0] obtain b cs where b: "bs = b # cs" "cont b" by (auto simp: second_ok_def)
    with 2 have "c < 2048" by (auto simp: cont_def)
    then show ?thesis by simp
  next
    case 3
    then have k: "well_formed_tail a bs = 2" by simp
    with tail [of 1] obtain b cs where b: "bs = b # cs" "second_ok a b" by auto
    with k 3 have "length (takeWhile cont (take 1 cs)) = 1"
      by (simp add: well_formed_tail_def Let_def)
    then obtain d ds where d: "cs = d # ds" "cont d"
      by (cases cs) (auto split: if_splits)
    have "c = (a - 224) * 4096 + (b - 128) * 64 + (d - 128)" using 3 b d by simp
    moreover have "d - 128 < 64" "b - 128 < 64" "a = 237 \<Longrightarrow> b - 128 < 32"
      using b d by (auto simp: cont_def second_ok_def split: if_splits)
    ultimately show ?thesis using 3(1,2)
      by (cases "a = 237") (auto simp: scalar_cp_def high_surrogate_def low_surrogate_def)
  next
    case 4
    then have k: "well_formed_tail a bs = 3" by simp
    with tail [of 2] obtain b cs where b: "bs = b # cs" "second_ok a b" by auto
    with k 4 have "length (takeWhile cont (take 2 cs)) = 2"
      by (simp add: well_formed_tail_def Let_def)
    then obtain d e es where d: "cs = d # e # es" "cont d" "cont e"
      by (cases cs; cases "tl cs") (auto split: if_splits)
    define w x y z where "w = a - 240" and "x = b - 128" and "y = d - 128" and "z = e - 128"
    have c: "c = w * 262144 + x * 4096 + y * 64 + z" using 4 b d by (simp add: w_def x_def y_def z_def)
    have "w \<le> 4" using 4(2) by (simp add: w_def)
    have "x < 64" "16 \<le> x \<or> w \<noteq> 0" "x < 16 \<or> w \<noteq> 4"
      using b(2) 4(1,2) by (auto simp: cont_def second_ok_def w_def x_def split: if_splits)
    moreover have "y < 64" "z < 64" using d(2,3) by (auto simp: cont_def y_def z_def)
    ultimately have "65536 \<le> c" "c < 0x110000" using \<open>w \<le> 4\<close> unfolding c by linarith+
    then show ?thesis by (simp add: scalar_cp_def high_surrogate_def low_surrogate_def)
  qed
qed

lemma utf8_points_scalar: "Some c \<in> set (utf8_points bs) \<Longrightarrow> scalar_cp c"
proof (induction bs rule: utf8_points.induct)
  case (2 a bs)
  obtain p n where "utf8_step a bs = (p, n)" by fastforce
  with 2 utf8_step_scalar show ?case by auto
qed simp

lemma utf8_strict_scalar: "utf8_strict bs = Some s \<Longrightarrow> scalar_text s"
proof -
  assume s: "utf8_strict bs = Some s"
  have "scalar_cp c" if "c \<in> set s" for c
  proof -
    from s that obtain p where p: "p \<in> set (utf8_points bs)" "c = the p" "None \<notin> set (utf8_points bs)"
      by (auto simp: utf8_strict_def Let_def split: if_splits)
    then have "p \<noteq> None" by metis
    with p(2) have "p = Some c" by simp
    with p(1) show ?thesis by (simp add: utf8_points_scalar)
  qed
  then show ?thesis by (simp add: scalar_text_def list_all_iff)
qed

lemma utf8_replace_scalar: "scalar_text (utf8_replace bs)"
proof -
  have "scalar_cp (case p of None \<Rightarrow> 65533 | Some c \<Rightarrow> c)" if "p \<in> set (utf8_points bs)" for p
  proof (cases p)
    case None
    then show ?thesis by (simp add: scalar_cp_def high_surrogate_def low_surrogate_def)
  qed (use that utf8_points_scalar in simp)
  then show ?thesis by (auto simp: scalar_text_def list_all_iff utf8_replace_def)
qed

lemma cols_ok_get: "cols_ok r \<Longrightarrow> dict_get r k = Some v \<Longrightarrow> val_ok v"
  by (auto simp: cols_ok_def list_all_iff dest: map_of_SomeD)

lemma field_ok:
  assumes "canon_ok canon" and "cols_ok r" and "decode_json_field (json_loads canon) (Some r) key = Inr v"
  shows "json_ok canon v"
proof -
  have "json_ok canon v" if "dict_get r key = Some (DText s)" "json_loads canon s = Inr v" for s
    using cols_ok_get [OF assms(2) that(1)] json_loads_ok [OF assms(1) _ that(2)] by (simp add: val_ok_def)
  with assms(3) show ?thesis
    by (auto simp: decode_json_field_def split: option.splits dbval.splits)
qed

text \<open>Every row comes from a table, and the names of its columns are distinct.\<close>

lemma row_names:
  "distinct (map fst (workflow_cols w))" "distinct (map fst (plan_cols p))"
  "distinct (map fst (args_cols a))" "distinct (map fst (operation_cols ob))"
  "distinct (map fst (call_cols c))" "distinct (map fst (checkpoint_cols k))"
  "distinct (map fst (event_cols e))"
  by (simp_all add: workflow_cols_def plan_cols_def args_cols_def operation_cols_def call_cols_def
      checkpoint_cols_def event_cols_def)

lemma table_rows:
  assumes "rows_ok db"
  shows "w \<in> set (tb_workflow db) \<Longrightarrow> cols_ok (workflow_cols w)"
    and "p \<in> set (tb_plan db) \<Longrightarrow> cols_ok (plan_cols p)"
    and "a \<in> set (tb_args db) \<Longrightarrow> cols_ok (args_cols a)"
    and "ob \<in> set (tb_operation db) \<Longrightarrow> cols_ok (operation_cols ob)"
    and "c \<in> set (tb_call db) \<Longrightarrow> cols_ok (call_cols c)"
    and "k \<in> set (tb_checkpoint db) \<Longrightarrow> cols_ok (checkpoint_cols k)"
    and "e \<in> set (tb_event db) \<Longrightarrow> cols_ok (event_cols e)"
  using assms by (simp_all add: rows_ok_def list_all_iff)

lemma jrow_rows:
  assumes "rows_ok db"
  shows "w \<in> set (tb_workflow db) \<Longrightarrow> jrow_ok canon (decode_cols (workflow_cols w))"
    and "p \<in> set (tb_plan db) \<Longrightarrow> jrow_ok canon (decode_cols (plan_cols p))"
    and "a \<in> set (tb_args db) \<Longrightarrow> jrow_ok canon (decode_cols (args_cols a))"
    and "ob \<in> set (tb_operation db) \<Longrightarrow> jrow_ok canon (decode_cols (operation_cols ob))"
    and "c \<in> set (tb_call db) \<Longrightarrow> jrow_ok canon (decode_cols (call_cols c))"
    and "k \<in> set (tb_checkpoint db) \<Longrightarrow> jrow_ok canon (decode_cols (checkpoint_cols k))"
    and "e \<in> set (tb_event db) \<Longrightarrow> jrow_ok canon (decode_cols (event_cols e))"
  using table_rows [OF assms] by (simp_all only: decode_cols_ok row_names)

lemma fetch_workflow_ok:
  assumes "canon_ok canon" and "rows_ok db" and "fetch_workflow (json_loads canon) db wid = Inr (Some out)"
  shows "jrow_ok canon out"
proof -
  from assms(3) obtain r c v where r: "select_workflow db wid = Some r"
      "decode_json_field (json_loads canon) (Some (workflow_cols r)) ''continuation'' = Inr c"
      "decode_json_field (json_loads canon) (Some (workflow_cols r)) ''workflow_return_json'' = Inr v"
      "out = dict_set ''workflow_return_json'' v (dict_set ''continuation'' c (decode_cols (workflow_cols r)))"
    by (auto simp: fetch_workflow_def Let_def res_simps split: option.splits)
  from r(1) have "r \<in> set (tb_workflow db)" by (simp add: select_workflow_Some)
  with assms(1,2) r(2-4) show ?thesis
    by (simp add: jrow_ok_set jrow_rows(1) field_ok [OF _ table_rows(1)])
qed

lemma fetch_plan_ok: "rows_ok db \<Longrightarrow> pred_option (jrow_ok canon) (fetch_plan db wid)"
  by (cases "select_plan db wid")
     (auto simp: fetch_plan_def select_plan_def jrow_rows(2) dest: find_Some_iff_mem)

lemma fetch_args_ok:
  assumes "canon_ok canon" and "rows_ok db" and "fetch_args (json_loads canon) db wid = Inr out"
  shows "pred_option (jrow_ok canon) out"
proof (cases "select_args db wid")
  case None
  with assms(3) show ?thesis by (simp add: fetch_args_def)
next
  case (Some r)
  with assms(3) obtain t v where v: "utf8_strict (map unat (a_args_canonical r)) = Some t"
      "json_loads canon t = Inr v"
      "out = Some (dict_set ''args_canonical'' v (decode_cols (args_cols r)))"
    by (auto simp: fetch_args_def res_simps)
  have "json_ok canon v" using json_loads_ok [OF assms(1) utf8_strict_scalar [OF v(1)] v(2)] .
  moreover have "r \<in> set (tb_args db)" using Some by (auto simp: select_args_def dest: find_Some_iff_mem)
  ultimately show ?thesis using assms(2) v(3) by (simp add: jrow_ok_set jrow_rows(3))
qed

lemma map_res_all:
  assumes "map_res f xs = Inr ys" and "\<And>x y. x \<in> set xs \<Longrightarrow> f x = Inr y \<Longrightarrow> P y"
  shows "list_all P ys"
  using assms by (auto simp: map_res_eq_Inr list_all_iff dest!: list_all2_mem2)

lemma fetch_operations_ok:
  assumes "canon_ok canon" and "rows_ok db" and "fetch_operations (json_loads canon) db wid = Inr out"
  shows "list_all (jrow_ok canon) out"
  by (rule map_res_all [OF assms(3) [unfolded fetch_operations_def]])
     (use assms(1,2) in \<open>auto simp: select_operations_def res_simps jrow_rows(4)
        intro!: jrow_ok_set dest: field_ok [OF assms(1) table_rows(4) [OF assms(2)]]\<close>)

lemma fetch_checkpoints_ok:
  assumes "canon_ok canon" and "rows_ok db" and "fetch_checkpoints (json_loads canon) db wid = Inr out"
  shows "list_all (jrow_ok canon) out"
  by (rule map_res_all [OF assms(3) [unfolded fetch_checkpoints_def]])
     (use assms(1,2) in \<open>auto simp: select_checkpoints_def res_simps jrow_rows(6)
        intro!: jrow_ok_set dest: field_ok [OF assms(1) table_rows(6) [OF assms(2)]]\<close>)

lemma fetch_events_ok:
  assumes "canon_ok canon" and "rows_ok db" and "fetch_events (json_loads canon) db wid = Inr out"
  shows "list_all (jrow_ok canon) out"
  by (rule map_res_all [OF assms(3) [unfolded fetch_events_def]])
     (use assms(1,2) in \<open>auto simp: select_events_def res_simps jrow_rows(7)
        intro!: jrow_ok_set dest: field_ok [OF assms(1) table_rows(7) [OF assms(2)]]\<close>)

lemma fetch_calls_ok: "rows_ok db \<Longrightarrow> list_all (jrow_ok canon) (fetch_calls db wid)"
  by (auto simp: fetch_calls_def select_calls_def list_all_iff jrow_rows(5))

section \<open>The inspection\<close>

definition inspect_info_ok :: "(str \<Rightarrow> str) \<Rightarrow> inspect_info \<Rightarrow> bool" where
  "inspect_info_ok canon a \<longleftrightarrow>
     jrow_ok canon (i_workflow a) \<and> pred_option (jrow_ok canon) (i_plan a) \<and>
     pred_option (jrow_ok canon) (i_args a) \<and> list_all (jrow_ok canon) (i_operations a) \<and>
     list_all (jrow_ok canon) (i_calls a) \<and> list_all (jrow_ok canon) (i_checkpoints a) \<and>
     list_all (jrow_ok canon) (i_events a)"

lemma inspect_node_ok:
  assumes "canon_ok canon" and "rows_ok db" and "inspect_node (json_loads canon) db h = Inr (Some a)"
  shows "inspect_info_ok canon a"
proof -
  from assms(3) obtain wid w args ops cps evs where
    "fetch_workflow (json_loads canon) db wid = Inr (Some w)"
    "fetch_args (json_loads canon) db wid = Inr args" "fetch_operations (json_loads canon) db wid = Inr ops"
    "fetch_checkpoints (json_loads canon) db wid = Inr cps" "fetch_events (json_loads canon) db wid = Inr evs"
    "a = \<lparr>i_workflow = w, i_plan = fetch_plan db wid, i_args = args, i_operations = ops,
           i_calls = fetch_calls db wid, i_checkpoints = cps, i_events = evs\<rparr>"
    by (clarsimp simp: inspect_node_def bind_res_eq_Inr split: option.splits)
  then show ?thesis
    by (simp add: inspect_info_ok_def fetch_plan_ok [OF assms(2)] fetch_calls_ok [OF assms(2)]
        fetch_workflow_ok [OF assms(1,2)] fetch_args_ok [OF assms(1,2)] fetch_operations_ok [OF assms(1,2)]
        fetch_checkpoints_ok [OF assms(1,2)] fetch_events_ok [OF assms(1,2)])
qed

lemma node_json_ok:
  assumes "all_nodes scalar_text P n"
    and "\<And>a. P a \<Longrightarrow> jrow_ok canon (info a) \<and> set (map fst (info a)) \<inter> {''workflow_id'', ''children''} = {}"
  shows "json_ok canon (node_json info n)"
  using assms(1)
proof (induction n)
  case (Node h a ns)
  then have "json_ok canon (JArr (map (node_json info) ns))" by (auto simp: list_all_iff)
  with Node.prems assms(2) [of a] have "jrow_ok canon
      ((''workflow_id'', JStr h) # info a @ [(''children'', JArr (map (node_json info) ns))])"
    by (auto simp: jrow_ok_def scalar_text_ok)
  then show ?case by (simp add: json_ok_obj)
qed (auto simp: not_found_json_def jrow_ok_def scalar_text_ok intro!: json_ok_obj)

lemma child_ids_scalar: "c \<in> set (child_ids db h) \<Longrightarrow> scalar_text c"
  by (auto dest: child_ids_hex)

lemma hex_bytes_exn: "hex_bytes h field = Inl e \<Longrightarrow> scalar_text h \<Longrightarrow> exn_ok e"
  by (auto simp: hex_bytes_def split: option.splits if_splits)

lemma json_loads_exn: "json_loads canon s = Inl e \<Longrightarrow> exn_ok e"
  by (auto simp: json_loads_def split: if_splits sum.splits json_fault.splits)

lemma field_exn: "decode_json_field (json_loads canon) r key = Inl e \<Longrightarrow> exn_ok e"
  by (auto simp: decode_json_field_def dest: json_loads_exn split: option.splits dbval.splits)

lemma inspect_node_exn:
  assumes "inspect_node (json_loads canon) db h = Inl e" and "scalar_text h"
  shows "exn_ok e"
  using assms
  by (auto simp: inspect_node_def fetch_workflow_def fetch_args_def fetch_operations_def
      fetch_checkpoints_def fetch_events_def Let_def bind_res_eq_Inl option_res_def
      split: option.splits if_splits dest!: map_res_InlD dest: hex_bytes_exn field_exn json_loads_exn)

theorem inspect_json_ok:
  assumes "canon_ok canon" and "rows_ok db" and "scalar_text h"
    and "inspect_workflow (json_loads canon) db max_depth h 0 {} = Inr n"
  shows "json_ok canon (node_json inspect_fields n)"
proof (rule node_json_ok)
  show "all_nodes scalar_text (inspect_info_ok canon) n"
    by (rule inspect.walk_all_nodes [where I = scalar_text, OF _ _ assms(4,3)])
       (auto intro: child_ids_scalar inspect_node_ok [OF assms(1,2)])
next
  fix a
  assume "inspect_info_ok canon a"
  then show "jrow_ok canon (inspect_fields a) \<and>
      set (map fst (inspect_fields a)) \<inter> {''workflow_id'', ''children''} = {}"
    by (auto simp: inspect_info_ok_def inspect_fields_def jrow_ok_def [of _ "_ # _"] list_all_iff
        option.pred_set intro!: json_ok_opt json_ok_obj)
qed

lemma inspect_exn:
  assumes "inspect_workflow (json_loads canon) db max_depth h 0 {} = Inl e" and "scalar_text h"
  shows "exn_ok e"
proof -
  have "\<exists>g. scalar_text g \<and> inspect_node (json_loads canon) db g = Inl e"
    by (rule inspect.walk_raises [where I = scalar_text, OF _ assms(2,1)]) (rule child_ids_scalar)
  then show ?thesis using inspect_node_exn by blast
qed

section \<open>The tree\<close>

definition tree_info_ok :: "tree_info \<Rightarrow> bool" where
  "tree_info_ok a \<longleftrightarrow> pred_option scalar_text (t_parent_workflow_id a) \<and> int64 (t_depth a) \<and>
     scalar_text (t_script_name a) \<and> int64 (t_state a) \<and> int64 (t_current_disposition a) \<and>
     pred_option scalar_text (t_terminal_reason a)"

lemma val_ok_simps [simp]:
  "val_ok (DText s) \<longleftrightarrow> scalar_text s" "val_ok (DInt i) \<longleftrightarrow> int64 i"
  "val_ok DNull" "val_ok (DBytes b)" "val_ok (DTime t)"
  "val_ok (nullable DText v) \<longleftrightarrow> pred_option scalar_text v"
  "val_ok (nullable DInt w) \<longleftrightarrow> pred_option (\<lambda>i. int64 i) w"
  "val_ok (nullable DBytes b') \<longleftrightarrow> True" "val_ok (nullable DTime t') \<longleftrightarrow> True"
  by (auto simp: val_ok_def nullable_def split: option.splits)

lemma tree_info_of_ok: "cols_ok (workflow_cols r) \<Longrightarrow> tree_info_ok (tree_info_of r)"
  by (auto simp: cols_ok_def workflow_cols_def tree_info_ok_def tree_info_of_def option.pred_map
      option.pred_set split: option.split)

lemma tree_node_ok: "rows_ok db \<Longrightarrow> tree_node db h = Inr (Some a) \<Longrightarrow> tree_info_ok a"
  by (auto simp: tree_node_def res_simps fetch_workflow_skeleton_def tree_info_of_ok table_rows(1)
      dest!: select_workflow_Some)

lemma json_ok_small: "int64 i \<Longrightarrow> json_ok canon (JInt i)"
  by (simp add: small_int_ok)

lemma json_ok_text: "scalar_text s \<Longrightarrow> json_ok canon (JStr s)"
  by (simp add: scalar_text_ok)

lemma json_ok_opt_text: "pred_option scalar_text v \<Longrightarrow> json_ok canon (opt_json JStr v)"
  by (cases v) (simp_all add: opt_json_def scalar_text_ok)

lemmas json_ok_scalars = json_ok_small json_ok_text json_ok_opt_text json_ok_name

lemma jrow_ok_Cons [simp]:
  "jrow_ok canon []"
  "jrow_ok canon ((k, v) # r) \<longleftrightarrow> k \<notin> set (map fst r) \<and> json_ok canon v \<and> jrow_ok canon r"
  by (auto simp: jrow_ok_def)

lemma tree_fields_ok: "tree_info_ok a \<Longrightarrow> jrow_ok canon (tree_fields a)"
  by (simp add: tree_info_ok_def tree_fields_def json_ok_scalars del: json_ok.simps)

lemma tree_all_nodes:
  assumes "rows_ok db" and "scalar_text h" and "tree_workflow db max_depth h 0 {} = Inr n"
  shows "all_nodes scalar_text tree_info_ok n"
  by (rule tree.walk_all_nodes [where I = scalar_text, OF _ _ assms(3,2)])
     (auto intro: child_ids_scalar tree_node_ok [OF assms(1)])

lemma tree_json_ok:
  assumes "rows_ok db" and "scalar_text h" and "tree_workflow db max_depth h 0 {} = Inr n"
  shows "json_ok canon (node_json tree_fields n)"
  by (rule node_json_ok [OF tree_all_nodes [OF assms]])
     (simp add: tree_fields_ok, simp add: tree_fields_def)

lemma tree_exn:
  assumes "tree_workflow db max_depth h depth seen = Inl e" and "scalar_text h"
  shows "exn_ok e"
proof -
  have "\<exists>g. scalar_text g \<and> tree_node db g = Inl e"
    by (rule tree.walk_raises [where I = scalar_text, OF _ assms(2,1)]) (rule child_ids_scalar)
  then show ?thesis by (auto simp: tree_node_def bind_res_eq_Inl dest: hex_bytes_exn)
qed

section \<open>The timeline\<close>

definition nodes_ok :: "(int \<Rightarrow> bool) \<Rightarrow> (str, int \<times> str) dict \<Rightarrow> bool" where
  "nodes_ok B nodes \<longleftrightarrow>
     distinct (map fst nodes) \<and> list_all (\<lambda>(k, d, s). scalar_text k \<and> B d \<and> scalar_text s) nodes"

lemma nodes_ok_set:
  assumes "nodes_ok B nodes" and "scalar_text h" and "B d" and "scalar_text s"
  shows "nodes_ok B (dict_set h (d, s) nodes)"
proof -
  have "list_all (\<lambda>(k, d, s). scalar_text k \<and> B d \<and> scalar_text s) (dict_set h (d, s) nodes)"
    using assms by (induction nodes) (auto simp: nodes_ok_def)
  with assms(1) show ?thesis by (simp add: nodes_ok_def distinct_update)
qed

lemma collect_nodes_ok:
  assumes "all_nodes scalar_text tree_info_ok n" and "\<forall>(x, k) \<in> set (expanded 0 n). B (depth + int k)"
    and "nodes_ok B nodes"
  shows "nodes_ok B (collect_nodes depth n nodes)"
  using assms
proof (induction n arbitrary: depth nodes)
  case (Node h a ns)
  have "nodes_ok B (fold (collect_nodes (depth + 1)) ms acc)"
    if "set ms \<subseteq> set ns" "nodes_ok B acc" for ms acc
    using that
  proof (induction ms arbitrary: acc)
    case (Cons m ms)
    then have m: "m \<in> set ns" by simp
    have "\<forall>(x, k) \<in> set (expanded 0 m). B (depth + 1 + int k)"
    proof clarify
      fix x k
      assume "(x, k) \<in> set (expanded 0 m)"
      then have "(x, Suc k) \<in> set (expanded (Suc 0) m)"
        by (subst expanded_shift) force
      with m have "(x, Suc k) \<in> set (expanded 0 (Node h a ns))" by auto
      with Node.prems(2) show "B (depth + 1 + int k)" by (fastforce simp: algebra_simps)
    qed
    with Node.IH [OF m] Node.prems(1) m Cons.prems(2) have "nodes_ok B (collect_nodes (depth + 1) m acc)"
      by (simp add: list_all_iff)
    with Cons show ?case by simp
  qed simp
  moreover have "nodes_ok B (dict_set h (depth, t_script_name a) nodes)"
    using Node.prems by (intro nodes_ok_set) (auto simp: tree_info_ok_def)
  ultimately show ?case by simp
qed simp_all

lemma nat_str_mono: "m \<le> n \<Longrightarrow> length (nat_str m) \<le> length (nat_str n)"
proof (induction n arbitrary: m rule: nat_str.induct)
  case (1 n)
  show ?case
  proof (cases "n < 10")
    case True
    with "1.prems" show ?thesis by (simp add: nat_str.simps)
  next
    case False
    have "m < 10 \<or> length (nat_str (m div 10)) \<le> length (nat_str (n div 10))"
      using "1.IH" [OF False, of "m div 10"] "1.prems" by (simp add: div_le_mono)
    with False show ?thesis
      by (subst nat_str.simps, subst (2) nat_str.simps) auto
  qed
qed

definition depth_ok :: "int \<Rightarrow> bool" where
  "depth_ok d \<longleftrightarrow> length (nat_str (nat \<bar>d\<bar>)) \<le> max_int_digits"

lemma depth_ok_le: "depth_ok b \<Longrightarrow> 0 \<le> d \<Longrightarrow> d \<le> b \<Longrightarrow> depth_ok d"
  unfolding depth_ok_def by (rule order_trans [OF nat_str_mono]) auto

lemma timeline_entry_ok:
  assumes "canon_ok canon" and "cols_ok (event_cols r)" and "nodes_ok depth_ok nodes"
    and "timeline_entry (json_loads canon) nodes r = Inr e"
  shows "jrow_ok canon e"
proof -
  from assms(4) obtain p w d s where p:
      "decode_json_field (json_loads canon) (Some (event_cols r)) ''payload'' = Inr p"
      "dict_get nodes w = Some (d, s)"
      "e = dict_set ''script_name'' (JStr s) (dict_set ''depth'' (JInt d)
             (dict_set ''payload'' p (decode_cols (event_cols r))))"
    by (auto simp: timeline_entry_def Let_def res_simps)
  have "json_ok canon p" using assms(1,2) p(1) by (rule field_ok)
  moreover have "depth_ok d \<and> scalar_text s"
    using assms(3) p(2) by (auto simp: nodes_ok_def list_all_iff dest: map_of_SomeD)
  ultimately show ?thesis
    unfolding p(3) using assms(2)
    by (intro jrow_ok_set decode_cols_ok row_names) (simp_all add: depth_ok_def scalar_text_ok)
qed

lemma timeline_entry_exn: "timeline_entry (json_loads canon) nodes r = Inl e \<Longrightarrow> exn_ok e"
proof -
  assume e: "timeline_entry (json_loads canon) nodes r = Inl e"
  show ?thesis
  proof (cases "decode_json_field (json_loads canon) (Some (event_cols r)) ''payload''")
    case (Inl a)
    with e show ?thesis by (auto simp: timeline_entry_def dest: field_exn)
  next
    case (Inr p)
    have "jrow_str (dict_set ''payload'' p (decode_cols (event_cols r))) ''workflow_id'' =
        Inr (hex (e_workflow_id r))"
      by (simp add: jrow_str_def event_cols_def decode_cols_def)
    with Inr e show ?thesis by (auto simp: timeline_entry_def option_res_def split: option.splits)
  qed
qed

lemma timeline_json_ok:
  assumes "canon_ok canon" and "rows_ok db" and "scalar_text h" and "depth_ok max_depth" and "0 \<le> max_depth"
    and "timeline_workflow (json_loads canon) db max_depth h = Inr t"
  shows "json_ok canon (timeline_json t)"
  using assms(6)
proof (cases rule: timeline_cases)
  case not_found
  with assms(3) show ?thesis
    by (auto simp: not_found_json_def scalar_text_ok intro!: json_ok_obj)
next
  case (found a ns ws evs)
  let ?n = "Node h a ns" and ?nodes = "collect_nodes 0 (Node h a ns) []"
  have bound: "\<forall>(x, k) \<in> set (expanded 0 ?n). depth_ok (0 + int k)"
  proof clarify
    fix x k
    assume "(x, k) \<in> set (expanded 0 ?n)"
    from tree.walk_expanded_sound [OF found(1) this] assms(5) have "int k \<le> max_depth" by fastforce
    then show "depth_ok (0 + int k)" using assms(4) by (auto intro: depth_ok_le)
  qed
  have nodes: "nodes_ok depth_ok ?nodes"
    by (rule collect_nodes_ok [OF tree_all_nodes [OF assms(2,3) found(1)] bound]) (simp add: nodes_ok_def)
  have "list_all (jrow_ok canon) evs"
    by (rule map_res_all [OF found(3)])
       (auto intro!: timeline_entry_ok [OF assms(1) table_rows(7) [OF assms(2)] nodes])
  then have evs: "json_ok canon (JArr (map obj evs))" by (rule json_ok_objs)
  have "json_ok canon (JObj (map (\<lambda>(k, d, s).
      (k, obj [(''depth'', JInt d), (''script_name'', JStr s)])) ?nodes))"
    using nodes
    by (auto simp: nodes_ok_def list_all_iff comp_def split_beta depth_ok_def scalar_text_ok intro!: json_ok_obj)
  with evs assms(3) found(4) show ?thesis
    by (auto intro!: json_ok_obj simp: scalar_text_ok simp del: json_ok.simps(6,7))
qed

lemma timeline_exn:
  assumes "timeline_workflow (json_loads canon) db max_depth h = Inl e" and "scalar_text h"
  shows "exn_ok e"
proof (cases "tree_workflow db max_depth h 0 {}")
  case (Inl e')
  with assms show ?thesis
    by (auto simp: timeline_workflow_def collect_tree_nodes_def dest: tree_exn)
next
  case (Inr root)
  with assms(1) show ?thesis
    by (cases root)
       (auto simp: timeline_workflow_def collect_tree_nodes_def bind_res_eq_Inl option_res_def
          split: option.splits dest: timeline_entry_exn dest!: map_res_InlD)
qed

section \<open>The stuck verdict\<close>

fun stuck_ok :: "(str \<Rightarrow> str) \<Rightarrow> stuck_node \<Rightarrow> bool" and verdict_ok :: "(str \<Rightarrow> str) \<Rightarrow> verdict \<Rightarrow> bool" where
  "stuck_ok canon (Stuck_Not_Found h) \<longleftrightarrow> scalar_text h"
| "stuck_ok canon (Stuck h s now ev ops cps v) \<longleftrightarrow>
     scalar_text h \<and> scalar_text s \<and> (\<exists>t. now = JStr (iso_z t)) \<and>
     (\<exists>row. ev = evidence_of row \<and> cols_ok (workflow_cols row)) \<and>
     list_all (jrow_ok canon) ops \<and> list_all (jrow_ok canon) cps \<and> verdict_ok canon v"
| "verdict_ok canon (Waiting_On_Child child p) \<longleftrightarrow>
     stuck_ok canon child \<and> pred_option (\<lambda>ids. ids \<noteq> [] \<and> list_all scalar_text ids) p"
| "verdict_ok canon (Blocked_Resolution rs) \<longleftrightarrow> list_all (jrow_ok canon) rs"
| "verdict_ok canon (Redispatch_Pending rs) \<longleftrightarrow> list_all (jrow_ok canon) rs"
| "verdict_ok canon (Reconcile_Pending rs) \<longleftrightarrow> list_all (jrow_ok canon) rs"
| "verdict_ok canon v \<longleftrightarrow> True"

lemma stuck_id_ok: "stuck_ok canon n \<Longrightarrow> scalar_text (stuck_id n)"
  by (cases n) simp_all

lemma deepest_ok: "stuck_ok canon n \<Longrightarrow> stuck_ok canon (deepest n)"
  by (induction n rule: deepest.induct) simp_all

lemma pop_path_ok:
  assumes "stuck_ok canon n" and "pop_path [stuck_id n] n = (below, stripped)"
  shows "stuck_ok canon stripped \<and> list_all scalar_text below"
  using assms by (induction "[stuck_id n]" n rule: pop_path.induct) (auto simp: stuck_id_ok)

lemma cols_ok_workflow:
  assumes "cols_ok (workflow_cols r)"
  shows "scalar_text (w_script_name r)" "int64 (w_state r)" "int64 (w_execution_direction r)"
    "int64 (w_current_disposition r)" "pred_option scalar_text (w_terminal_reason r)"
    "int64 (w_current_operation_attempt r)"
  using assms by (simp_all add: cols_ok_def workflow_cols_def)

lemma json_ok_nullable [simp]:
  "json_ok canon (decode_value (nullable DBytes b))" "json_ok canon (decode_value (nullable DTime t))"
  by (simp_all add: val_json_ok)

lemma evidence_json_ok: "cols_ok (workflow_cols r) \<Longrightarrow> json_ok canon (evidence_json (evidence_of r))"
  unfolding evidence_json_def evidence_of_def evidence.simps
  by (rule json_ok_obj) (simp add: cols_ok_workflow json_ok_scalars val_json_ok del: json_ok.simps decode_value_simps)

lemma scalar_shown_nullable [simp]:
  "scalar_text (shown (decode_value (nullable DBytes b)))" "scalar_text (shown (decode_value (nullable DTime t)))"
  by (cases b; simp add: shown_def) (cases t; simp add: shown_def)

lemma verdict_detail_scalar:
  assumes "verdict_ok canon v" and "cols_ok (workflow_cols r)"
  shows "scalar_text (verdict_detail (JStr (iso_z t)) (evidence_of r) v)"
proof (cases v)
  case Terminal
  with cols_ok_workflow(5) [OF assms(2)] show ?thesis
    by (auto simp: evidence_of_def split: option.splits)
next
  case (Waiting_On_Child child p)
  with assms(1) have "scalar_text (path_end child p)" "scalar_text (stuck_id child)"
    using stuck_id_ok [OF deepest_ok [of canon child]]
    by (auto simp: path_end_def stuck_id_ok list_all_iff split: option.splits)
  with Waiting_On_Child show ?thesis by simp
next
  case Scheduled_Retry
  then show ?thesis by (simp add: evidence_of_def shown_def)
qed (simp_all add: evidence_of_def)

lemma verdict_fields_keys:
  "(k, x) \<in> set (verdict_fields v) \<Longrightarrow>
     k \<in> {''resolution_required'', ''waiting_on'', ''path'', ''redispatch'', ''reconcile''}"
  by (cases v) (auto split: option.splits)

lemma stuck_json_ok:
  "stuck_ok canon n \<Longrightarrow> json_ok canon (stuck_json n)"
  "verdict_ok canon v \<Longrightarrow> jrow_ok canon (verdict_fields v)"
proof (induction n and v rule: stuck_json_verdict_fields.induct)
  case (1 h)
  then show ?case by (auto simp: not_found_json_def scalar_text_ok intro!: json_ok_obj)
next
  case (2 h script now ev ops cps v)
  then obtain t r where r: "now = JStr (iso_z t)" "ev = evidence_of r" "cols_ok (workflow_cols r)" by auto
  have "json_ok canon (JStr (verdict_detail now ev v))"
    using 2 r by (intro json_ok_text) (simp add: verdict_detail_scalar [of canon])
  moreover have "json_ok canon (evidence_json ev)" using r evidence_json_ok by simp
  moreover have "jrow_ok canon (verdict_fields v)" using 2 by simp
  moreover have "json_ok canon (JArr (map obj ops))" "json_ok canon (JArr (map obj cps))"
    using 2 by (simp_all only: stuck_ok.simps json_ok_objs)
  moreover have "json_ok canon now" "scalar_text h" "scalar_text script"
    using 2 r by (simp_all add: scalar_text_ok)
  ultimately show ?case
    using 2
    by (auto simp: jrow_ok_def json_ok_text simp del: json_ok.simps intro!: json_ok_obj
        dest!: verdict_fields_keys)
qed (auto simp: scalar_text_ok list_all_iff json_ok_obj split: option.splits)

lemma attention_names:
  "distinct (map fst (operation_attention_cols ob))" "distinct (map fst (checkpoint_attention_cols k))"
  by (simp_all add: operation_attention_cols_def checkpoint_attention_cols_def)

lemma attention_cols_ok:
  "cols_ok (operation_cols ob) \<Longrightarrow> cols_ok (operation_attention_cols ob)"
  "cols_ok (checkpoint_cols k) \<Longrightarrow> cols_ok (checkpoint_attention_cols k)"
  by (simp_all add: cols_ok_def operation_cols_def operation_attention_cols_def
      checkpoint_cols_def checkpoint_attention_cols_def)

lemma attention_rows_ok:
  assumes "rows_ok db" and "fetch_attention_rows db wid = (ops, cps)"
  shows "list_all (jrow_ok canon) ops" "list_all (jrow_ok canon) cps"
  using attention_rows_eq [OF assms(2)] table_rows [OF assms(1)]
  by (auto simp: list_all_iff intro!: decode_cols_ok attention_cols_ok attention_names)

lemma stuck_child_in: "stuck_child db seen cs = Inr (Some c) \<Longrightarrow> c \<in> snd ` set cs \<and> c \<notin> seen"
  by (induction db seen cs rule: stuck_child.induct)
     (auto simp: bind_res_eq_Inr split: if_splits option.splits)

lemma stuck_child_exn: "stuck_child db seen cs = Inl e \<Longrightarrow> \<forall>c \<in> snd ` set cs. scalar_text c \<Longrightarrow> exn_ok e"
proof (induction db seen cs rule: stuck_child.induct)
  case (2 db seen seq child rest)
  show ?case
  proof (cases "hex_bytes child ''child_workflow_id''")
    case (Inl e')
    with 2 hex_bytes_exn [OF Inl] show ?thesis by (auto split: if_splits)
  next
    case (Inr b)
    with 2 show ?thesis
      by (cases "child \<in> seen"; cases "fetch_workflow_skeleton db b") (auto split: if_splits)
  qed
qed simp

lemma finish_node_ok:
  assumes "rows_ok db" and "select_workflow db b = Some row" and "scalar_text h" and "verdict_ok canon v"
  shows "stuck_ok canon (finish_node db h now row b v)"
proof -
  have row: "cols_ok (workflow_cols row)" using select_workflow_Some [OF assms(2)] table_rows(1) [OF assms(1)] by blast
  obtain ops cps where at: "fetch_attention_rows db b = (ops, cps)" by fastforce
  from attention_rows_ok [OF assms(1) at] row assms(3,4) at show ?thesis by (auto simp: finish_node_def cols_ok_workflow(1))
qed

lemma stuck_result_ok:
  assumes "rows_ok db" and "scalar_text h"
  shows "(\<forall>n. stuck_workflow db h seen now_arg = Inr n \<longrightarrow> stuck_ok canon n \<and> stuck_id n = h) \<and>
    (\<forall>e. stuck_workflow db h seen now_arg = Inl e \<longrightarrow> exn_ok e)"
  using assms(2)
proof (induction "card (call_child_ids db - insert h seen)" arbitrary: h seen now_arg rule: less_induct)
  case less
  show ?case
  proof (cases "hex_bytes h ''workflow_id''")
    case (Inl e)
    with hex_bytes_exn [OF Inl less.prems] show ?thesis by (subst stuck_workflow.simps, subst (2) stuck_workflow.simps) simp
  next
    case hb: (Inr b)
    show ?thesis
    proof (cases "select_workflow db b")
      case None
      with hb less.prems show ?thesis
        by (subst stuck_workflow.simps, subst (2) stuck_workflow.simps) (simp add: fetch_workflow_skeleton_def)
    next
      case (Some row)
      obtain ops cps where at: "fetch_attention_rows db b = (ops, cps)" by fastforce
      note rows = attention_rows_ok [OF assms(1) at, where canon = canon]
      note fin = finish_node_ok [OF assms(1) Some less.prems, where canon = canon]
      note eq = stuck_workflow_eq [OF hb Some refl at refl refl, of seen now_arg]
      have kids: "\<forall>c \<in> snd ` set (fetch_child_ids db b). scalar_text c"
        by (auto simp: set_fetch_child_ids)
      have sub: "list_all (jrow_ok canon) (filter Q (ops @ cps))" "list_all (jrow_ok canon) (filter Q cps)" for Q
        using rows by (auto simp: list_all_iff)
      have early: "stuck_ok canon (finish_node db h (now_of db now_arg) row b Terminal)"
        "stuck_ok canon (finish_node db h (now_of db now_arg) row b Running_Under_Lease)"
        "stuck_ok canon (finish_node db h (now_of db now_arg) row b
           (Blocked_Resolution (filter resolution_required_row cps)))"
        using sub(2) by (auto intro!: fin)
      show ?thesis
      proof (cases "stuck_child db (insert h seen) (fetch_child_ids db b)")
        case (Inl e)
        with stuck_child_exn [OF Inl kids] early show ?thesis unfolding eq by simp
      next
        case w: (Inr w)
        show ?thesis
        proof (cases w)
          case None
          have leaf: "verdict_ok canon (if redisp \<noteq> [] then Redispatch_Pending redisp
              else if reconc \<noteq> [] then Reconcile_Pending reconc
              else if due then Scheduled_Retry else Claimable_Now)"
            if "list_all (jrow_ok canon) redisp" "list_all (jrow_ok canon) reconc" for redisp reconc due
            using that by simp
          show ?thesis
            unfolding eq w None bind_res_simps option.case
            using fin [OF leaf [OF sub(1) sub(1)], of "now_of db now_arg"] early by (simp del: filter_append)
        next
          case c: (Some c)
          with stuck_child_in [of db "insert h seen" "fetch_child_ids db b" c] w
          have mem: "c \<in> snd ` set (fetch_child_ids db b)" "c \<notin> insert h seen" by auto
          with hb have kid: "c \<in> set (child_ids db h)" by (simp add: child_ids_def res_simps)
          note ih = less.hyps [OF stuck_measure [OF kid mem(2)], of "Some (now_of db now_arg)"]
          have cs: "scalar_text c" using mem(1) kids by blast
          show ?thesis
          proof (cases "stuck_workflow db c (insert h seen) (Some (now_of db now_arg))")
            case (Inl e)
            with ih [OF cs] have "exn_ok e" by blast
            with w c Inl sub show ?thesis unfolding eq by (auto intro!: fin)
          next
            case (Inr m)
            obtain below stripped where pop: "pop_path [c] m = (below, stripped)" by fastforce
            from ih [OF cs] Inr have m: "stuck_ok canon m" "stuck_id m = c" by blast+
            have "verdict_ok canon (Waiting_On_Child stripped (Some (h # below)))"
              using pop_path_ok [OF m(1)] m(2) pop less.prems by simp
            note waiting = fin [OF this, of "now_of db now_arg"]
            show ?thesis
              unfolding eq w c bind_res_simps option.case Inr pop Let_def prod.case
              using waiting early by simp
          qed
        qed
      qed
    qed
  qed
qed

end
