(* ===== verification/Wire.thy ===== *)
theory Wire
  imports Payloads
begin

text \<open>
  From the request line to the bytes of the reply: the texts a request carries, the payloads of
  every route and their errors, and the theorem that every reply is well formed and reads back.
\<close>

section \<open>The texts of a request\<close>

lemma split_on_set: "w \<in> set (split_on sep s) \<Longrightarrow> set w \<subseteq> set s"
  by (induction sep s arbitrary: w rule: split_on.induct) (fastforce split: if_splits list.splits)+

lemma partition_on_set: "partition_on sep s = (a, f, b) \<Longrightarrow> set a \<subseteq> set s \<and> set b \<subseteq> set s"
proof -
  assume p: "partition_on sep s = (a, f, b)"
  have tl: "set (tl xs) \<subseteq> set xs" for xs :: str by (cases xs) auto
  have "set (tl (dropWhile (\<lambda>c. c \<noteq> sep) s)) \<subseteq> set s"
    by (rule subset_trans [OF tl]) (auto dest: set_dropWhileD)
  with p show ?thesis by (auto simp: partition_on_def dest: set_takeWhileD split: if_splits)
qed

lemma rpartition_on_set: "rpartition_on sep s = (a, f, b) \<Longrightarrow> set a \<subseteq> set s \<and> set b \<subseteq> set s"
  using rpartition_on_True [of sep s a b] by (cases f) (auto simp: rpartition_on_def split: if_splits)

lemma percent_unquote_scalar: "scalar_text s \<Longrightarrow> scalar_text (unquote_runs s)"
proof (induction s rule: unquote_runs.induct)
  case (1 s)
  show ?case
  proof (cases s)
    case Nil
    then show ?thesis by (simp add: unquote_runs.simps)
  next
    case (Cons c cs)
    have "set (dropWhile (\<lambda>c. c < 128) s) \<subseteq> set s" by (auto dest: set_dropWhileD)
    with "1.prems" have "scalar_text (dropWhile (\<lambda>c. c < 128) s)" by (rule scalar_text_subset)
    with 1 Cons show ?thesis
      by (subst unquote_runs.simps) (auto simp: utf8_replace_scalar)
  qed
qed

lemma unquote_scalar: "scalar_text s \<Longrightarrow> scalar_text (unquote s)"
  by (simp add: unquote_def percent_unquote_scalar)

lemma unquote_plus_scalar: "scalar_text s \<Longrightarrow> scalar_text (unquote_plus s)"
proof -
  assume "scalar_text s"
  then have "scalar_text (map (\<lambda>c. if c = 43 then 32 else c) s)" by (induction s) auto
  then show ?thesis by (simp add: unquote_plus_def unquote_scalar)
qed

lemma parse_qsl_scalar:
  assumes "scalar_text q" and "(k, v) \<in> set (parse_qsl q)"
  shows "scalar_text v"
proof -
  from assms(2) obtain nv name f val where nv: "nv \<in> set (split_on 38 q)"
      "(name, f, val) = partition_on 61 nv" "v = unquote_plus val"
    by (auto simp: parse_qsl_def split: if_splits prod.splits)
  then have "set val \<subseteq> set q" using split_on_set [OF nv(1)] partition_on_set [OF nv(2) [symmetric]] by blast
  with assms(1) have "scalar_text val" by (rule scalar_text_subset)
  with nv(3) show ?thesis by (simp add: unquote_plus_scalar)
qed

lemma last_param_scalar:
  assumes "scalar_text q" and "last_param (parse_qsl q) name = Some v"
  shows "scalar_text v"
proof -
  from assms(2) have "v \<in> set (qs_values (parse_qsl q) (lit name))"
    by (auto simp: last_param_def split: list.splits if_splits)
  with parse_qsl_scalar [OF assms(1)] show ?thesis by (auto simp: qs_values_def)
qed

lemma one_scalar: "scalar_text q \<Longrightarrow> one (parse_qsl q) name = Some v \<Longrightarrow> scalar_text v"
  by (auto simp: one_def dest: last_param_scalar split: option.splits if_splits)

lemma split_params_set: "set (split_params p) \<subseteq> set p"
proof (cases "rpartition_on slash p")
  case (fields a f b)
  have "slash \<in> set p" if f
    using fields that rpartition_on_True [of slash p a b] by auto
  moreover have "set (takeWhile (\<lambda>c. c \<noteq> 59) xs) \<subseteq> set xs" for xs by (auto dest: set_takeWhileD)
  ultimately show ?thesis
    using rpartition_on_set [OF fields] by (cases f) (fastforce simp: split_params_def fields)+
qed

lemma urlparse_scalar:
  assumes "scalar_text u" and "urlparse u = (p, q)"
  shows "scalar_text p" "scalar_text q"
proof -
  obtain a f b where a: "partition_on 35 (filter (\<lambda>c. c \<notin> {9, 10, 13}) u) = (a, f, b)" by (metis prod_cases3)
  obtain c g d where c: "partition_on 63 a = (c, g, d)" by (metis prod_cases3)
  have "set c \<subseteq> set u" "set d \<subseteq> set u"
    using partition_on_set [OF a] partition_on_set [OF c] by auto
  moreover have "p = split_params c" "q = d" using assms(2) a c by (simp_all add: urlparse_def)
  ultimately have "set p \<subseteq> set u" "set q \<subseteq> set u" using split_params_set [of c] by auto
  with assms(1) show "scalar_text p" "scalar_text q" by (auto intro: scalar_text_subset)
qed

lemma route_scalar: "workflow_route p = Some (h, view) \<Longrightarrow> scalar_text h"
proof -
  assume "workflow_route p = Some (h, view)"
  then have "\<forall>c \<in> set h. is_hex c" by (simp add: workflow_route_iff list_all_iff)
  then show ?thesis
    by (intro scalar_text_ascii) (auto simp: is_hex_def hex_value_def split: if_splits)
qed

section \<open>The listing\<close>

lemma list_cols_ok:
  assumes "rows_ok db" and "wp \<in> set (left_join_plan db)"
  shows "cols_ok (list_cols wp) \<and> distinct (map fst (list_cols wp))"
proof -
  obtain w p where wp: "wp = (w, p)" by fastforce
  with assms(2) have w: "w \<in> set (tb_workflow db)" and p: "p = Some q \<Longrightarrow> q \<in> set (tb_plan db)" for q
    by (auto simp: left_join_plan_mem split: option.splits)
  have "cols_ok (workflow_cols w)" using table_rows(1) [OF assms(1) w] .
  moreover have "pred_option scalar_text (map_option p_plan_version p)"
    using table_rows(2) [OF assms(1) p] by (cases p) (auto simp: cols_ok_def plan_cols_def)
  ultimately show ?thesis
    by (simp add: wp list_cols_def Let_def cols_ok_def workflow_cols_def)
qed

lemma list_summary_ok:
  assumes "rows_ok db" and "wp \<in> set (left_join_plan db)"
  shows "jrow_ok canon (dict_set ''href'' (JStr (lit ''/api/workflow/'' @ hex b)) (list_summary wp))"
proof -
  have "json_ok canon (state_name_json s)" for s
    by (simp add: state_name_json_def scalar_text_ok split: option.split)
  with list_cols_ok [OF assms] show ?thesis
    unfolding list_summary_def by (intro jrow_ok_set decode_cols_ok) (simp_all add: scalar_text_ok)
qed

lemma resolve_state_exn: "resolve_state (Some v) = Inl e \<Longrightarrow> scalar_text v \<Longrightarrow> exn_ok e"
  by (auto simp: resolve_state_def split: if_splits option.splits)

lemma list_workflows_exn:
  assumes "list_workflows env db script since until plan_version state = Inl e"
    and "pred_option scalar_text state"
  shows "exn_ok e"
proof -
  have "resolve_state state = Inl e" using assms(1) by (simp add: list_workflows_def bind_res_eq_Inl Let_def)
  with assms(2) resolve_state_exn show ?thesis by (cases state) (auto simp: resolve_state_def)
qed

lemma list_workflows_join:
  assumes "list_workflows env db script since until plan_version state = Inr out"
  shows "\<exists>rows. out = map list_summary rows \<and> set rows \<subseteq> set (left_join_plan db)"
  using assms by (clarsimp simp: list_workflows_def bind_res_eq_Inr Let_def) (intro exI conjI, rule refl, auto)

section \<open>Responses\<close>

lemma map_sum_eq_Inr: "map_sum f g r = Inr y \<longleftrightarrow> (\<exists>x. r = Inr x \<and> y = g x)"
  by (cases r) auto

lemma map_sum_eq_Inl: "map_sum f g r = Inl y \<longleftrightarrow> (\<exists>x. r = Inl x \<and> y = f x)"
  by (cases r) auto

text \<open>
  The deployment: the documents are read by \<open>json.loads\<close>, the interpreter renders floats so that
  they are read back, the columns hold what the schema allows, and the messages of the driver and
  of Python's own exceptions hold no surrogates.
\<close>

definition raises_ok :: "'a result \<Rightarrow> bool" where
  "raises_ok r = (case r of Inl e \<Rightarrow> exn_ok e | Inr a \<Rightarrow> True)"

lemma raises_ok_simps [simp]: "raises_ok (Inl e) \<longleftrightarrow> exn_ok e" "raises_ok (Inr a)"
  by (simp_all add: raises_ok_def)

lemma raises_okD: "raises_ok r \<Longrightarrow> r = Inl e \<Longrightarrow> exn_ok e"
  by simp

definition deployment_ok :: "py_text \<Rightarrow> (str \<Rightarrow> str) \<Rightarrow> server \<Rightarrow> db_server \<Rightarrow> file_system \<Rightarrow> bool" where
  "deployment_ok py canon sv ds fs \<longleftrightarrow>
     canon_ok canon \<and> ds_loads ds = json_loads canon \<and>
     (\<forall>e. scalar_text (native_text py e)) \<and> scalar_text (sv_database sv) \<and>
     (\<forall>db. ds_connect ds = Inr db \<longrightarrow> rows_ok db) \<and>
     (\<forall>now off since until. ds_health ds = Inr (now, off, since, until) \<longrightarrow>
        int64 off \<and> scalar_text since \<and> scalar_text until) \<and>
     raises_ok (ds_connect ds) \<and> raises_ok (ds_utc_offset ds) \<and> raises_ok (ds_health ds) \<and>
     (\<forall>e. ds_query_fault ds = Some e \<longrightarrow> exn_ok e) \<and>
     (\<forall>p. raises_ok (fs_resolve fs p) \<and> raises_ok (fs_is_file fs p) \<and> raises_ok (fs_read_bytes fs p))"

definition response_ok :: "py_text \<Rightarrow> (str \<Rightarrow> str) \<Rightarrow> response \<Rightarrow> bool" where
  "response_ok py canon r \<longleftrightarrow> (\<forall>st p. r = Send_Json st p \<longrightarrow> json_ok canon (payload_json py p))"

lemma response_ok_simps [simp]:
  "response_ok py canon (Send_Json st p) \<longleftrightarrow> json_ok canon (payload_json py p)"
  "response_ok py canon (Send_File f t b)" "response_ok py canon (Send_Empty st)"
  by (simp_all add: response_ok_def)

lemma error_json_ok: "scalar_text d \<Longrightarrow> json_ok canon (error_json k d)"
  by (simp add: error_json_def json_ok_obj scalar_text_ok)

lemma with_connection_cases:
  assumes "with_connection ds body n = (r, m)"
  obtains (raises) e where "r = Inl e" "ds_connect ds = Inl e \<or> ds_utc_offset ds = Inl e \<or> ds_query_fault ds = Some e \<or> e = Mfviz No_PyMySQL \<or>
      (\<exists>off. e = Db_Not_Utc off)"
  | (runs) db where "ds_connect ds = Inr db" "body db = r"
  using assms
  by (auto simp: with_connection_def connect_def assert_db_utc_def
      split: if_splits sum.splits option.splits prod.splits)

lemma api_health_response:
  assumes "deployment_ok py canon sv ds fs"
  shows "response_ok py canon (fst (api_health sv ds n))"
proof -
  obtain r m where w: "with_connection ds (\<lambda>db. ds_health ds) n = (r, m)" by fastforce
  have msg: "exn_ok e \<Longrightarrow> scalar_text (exc_text py e)" for e
    using assms scalar_exc_text by (simp add: deployment_ok_def)
  have err: "exn_ok e \<Longrightarrow> json_ok canon (payload_json py (Health_Error k e))" for e k
    by (simp add: json_ok_obj msg scalar_text_ok)
  show ?thesis
  proof (cases r)
    case (Inl e)
    have "exn_ok e"
      using w [unfolded Inl]
      by (cases rule: with_connection_cases) (use assms in \<open>auto simp: deployment_ok_def dest: raises_okD\<close>)
    with w Inl err show ?thesis by (cases e) (simp_all add: api_health_def del: payload_json.simps)
  next
    case (Inr h)
    then obtain now off since until where h: "h = (now, off, since, until)" by (cases h) auto
    have "ds_health ds = Inr h"
      using w [unfolded Inr] by (cases rule: with_connection_cases) auto
    with assms h have "int64 off" "scalar_text since" "scalar_text until" "scalar_text (sv_database sv)"
      by (auto simp: deployment_ok_def)
    then show ?thesis
      using w Inr h by (auto simp: api_health_def scalar_text_ok small_int_ok intro!: json_ok_obj)
  qed
qed

lemma error_response_text:
  assumes "deployment_ok py canon sv ds fs" and "exn_ok e"
  shows "response_ok py canon (error_response e)"
proof -
  have "scalar_text (exc_text py e)"
    using assms scalar_exc_text by (simp add: deployment_ok_def)
  then show ?thesis by (cases e) (simp_all add: error_response_def error_json_ok)
qed

lemma workflow_view_ok:
  assumes "canon_ok canon" and "ds_loads ds = json_loads canon" and "rows_ok db" and "scalar_text h"
    and "depth_ok max_depth" and "1 \<le> max_depth"
  shows "workflow_view ds h view max_depth db = Inr p \<Longrightarrow> json_ok canon (payload_json py p)"
    and "workflow_view ds h view max_depth db = Inl e \<Longrightarrow> exn_ok e"
proof -
  note stuck = stuck_result_ok [OF assms(3,4), of "{}" None canon]
  have "0 \<le> max_depth" using assms(6) by simp
  note timeline = timeline_json_ok [OF assms(1,3,4,5) this]
  show "workflow_view ds h view max_depth db = Inr p \<Longrightarrow> json_ok canon (payload_json py p)"
    using assms stuck
    by (auto simp: workflow_view_def map_sum_eq_Inr intro: inspect_json_ok tree_json_ok timeline
        stuck_json_ok(1) split: if_splits)
  show "workflow_view ds h view max_depth db = Inl e \<Longrightarrow> exn_ok e"
    using assms stuck
    by (auto simp: workflow_view_def map_sum_eq_Inl dest: inspect_exn tree_exn timeline_exn split: if_splits)
qed

lemma requested_depth_scalar: "scalar_text q \<Longrightarrow> scalar_text (requested_depth q)"
  by (auto simp: requested_depth_def dest: last_param_scalar split: option.split)

lemma api_workflow_response:
  assumes "deployment_ok py canon sv ds fs" and "scalar_text h" and "scalar_text q"
  shows "response_ok py canon (fst (api_workflow ds h view q n))"
proof (cases "py_int (requested_depth q)")
  case None
  then show ?thesis
    by (simp add: api_workflow_def Let_def error_json_ok scalar_repr requested_depth_scalar assms(3))
next
  case (Some max_depth)
  obtain r m where w: "with_connection ds (workflow_view ds h view max_depth) n = (r, m)" by fastforce
  have depth: "depth_ok max_depth" using Some by (simp add: depth_ok_def py_int_length)
  show ?thesis
  proof (cases "max_depth < 1")
    case True
    with Some show ?thesis by (simp add: api_workflow_def Let_def error_json_ok)
  next
    case False
    then have one: "1 \<le> max_depth" by simp
    have view: "canon_ok canon" "ds_loads ds = json_loads canon" "rows_ok db" if "ds_connect ds = Inr db" for db
      using assms(1) that by (auto simp: deployment_ok_def)
    show ?thesis
    proof (cases r)
      case (Inl e)
      have "exn_ok e"
        using w [unfolded Inl]
      proof (cases rule: with_connection_cases)
        case (runs db)
        from workflow_view_ok(2) [OF view [OF runs(1)] assms(2) depth one] runs(2) show ?thesis by metis
      qed (use assms(1) in \<open>auto simp: deployment_ok_def dest: raises_okD\<close>)
      with error_response_text [OF assms(1)] w Inl Some False show ?thesis by (simp add: api_workflow_def Let_def)
    next
      case (Inr p)
      have "json_ok canon (payload_json py p)"
        using w [unfolded Inr]
      proof (cases rule: with_connection_cases)
        case (runs db)
        from workflow_view_ok(1) [OF view [OF runs(1)] assms(2) depth one] runs(2) show ?thesis by metis
      qed simp
      with w Inr Some False show ?thesis by (simp add: api_workflow_def Let_def)
    qed
  qed
qed

lemma api_workflows_response:
  assumes "deployment_ok py canon sv ds fs" and "scalar_text q"
  shows "fst (api_workflows ds q n) = Inr r \<Longrightarrow> response_ok py canon r"
    and "fst (api_workflows ds q n) \<noteq> Inl e"
proof -
  let ?p = "parse_qsl q"
  let ?body = "\<lambda>db. list_workflows (ds_sql ds) db (the (one ?p ''script'')) (the (one ?p ''since''))
    (the (one ?p ''until'')) (one ?p ''plan_version'') (one ?p ''state'')"
  obtain c m where w: "with_connection ds ?body n = (c, m)" by fastforce
  have missing: "response_ok py canon (Send_Json 400 (Missing_Params names))" for names
    by (simp add: error_json_ok scalar_join list_all_iff)
  have "response_ok py canon r" if "fst (api_workflows ds q n) = Inr r" for r
  proof (cases c)
    case (Inl e)
    have "exn_ok e"
      using w [unfolded Inl]
    proof (cases rule: with_connection_cases)
      case (runs db)
      have "pred_option scalar_text (one ?p ''state'')"
        using one_scalar [OF assms(2)] by (cases "one ?p ''state''") auto
      with list_workflows_exn runs(2) show ?thesis by metis
    qed (use assms(1) in \<open>auto simp: deployment_ok_def dest: raises_okD\<close>)
    with error_response_text [OF assms(1)] w Inl missing that show ?thesis
      by (auto simp: api_workflows_def Let_def split: if_splits simp del: response_ok_simps(1) payload_json.simps)
  next
    case (Inr out)
    have "json_ok canon (JArr (map obj entries))" if "map_res entry_href out = Inr entries" for entries
      using w [unfolded Inr]
    proof (cases rule: with_connection_cases)
      case (runs db)
      from list_workflows_join [OF runs(2)] obtain rows where
        rows: "out = map list_summary rows" "set rows \<subseteq> set (left_join_plan db)" by blast
      have "rows_ok db" using assms(1) runs(1) by (simp add: deployment_ok_def)
      with rows that show ?thesis
        by (intro json_ok_objs) (auto simp: entries_total list_all_iff intro!: list_summary_ok)
    qed simp
    with w Inr missing that show ?thesis
      by (auto simp: api_workflows_def Let_def bind_res_eq_Inr split: if_splits
          simp del: payload_json.simps(3) json_ok.simps)
  qed
  then show "fst (api_workflows ds q n) = Inr r \<Longrightarrow> response_ok py canon r" .
  show "fst (api_workflows ds q n) \<noteq> Inl e"
    using api_workflows_ok [of ds q n] by auto
qed

lemma handle_static_response:
  assumes "deployment_ok py canon sv ds fs" and "scalar_text p"
  shows "handle_static sv fs p = Inr r \<Longrightarrow> response_ok py canon r"
    and "handle_static sv fs p = Inl e \<Longrightarrow> exn_ok e"
proof -
  have nf: "response_ok py canon (Send_Json 404 (Path_Not_Found p))"
    using assms(2) by (simp add: json_ok_obj scalar_text_ok)
  show "handle_static sv fs p = Inr r \<Longrightarrow> response_ok py canon r"
    using nf by (auto simp: handle_static_def Let_def bind_res_eq_Inr send_file_def split: if_splits)
  show "handle_static sv fs p = Inl e \<Longrightarrow> exn_ok e"
    using assms(1)
    by (auto simp: handle_static_def Let_def bind_res_eq_Inl send_file_def deployment_ok_def split: if_splits dest: raises_okD)
qed

lemma handle_response:
  assumes "deployment_ok py canon sv ds fs" and "scalar_text target"
  shows "response_ok py canon (fst (handle sv ds fs meth target n))"
proof -
  obtain p q where u: "urlparse target = (p, q)" by fastforce
  note s = urlparse_scalar [OF assms(2) u]
  have "response_ok py canon (fst (do_GET sv ds fs target n))"
  proof (cases "is_api_path p")
    case True
    obtain r m where r: "handle_api sv ds (p, q) n = (Inr r, m)"
      using handle_api_ok [of sv ds "(p, q)" n] by (cases "handle_api sv ds (p, q) n") auto
    have "response_ok py canon (Send_Json 404 (Unknown_Endpoint p))"
      using s by (simp add: json_ok_obj scalar_text_ok)
    moreover have "response_ok py canon (fst (api_workflow ds h view q n))"
      if "workflow_route p = Some (h, view)" for h view
      using api_workflow_response [OF assms(1) route_scalar [OF that] s(2)] .
    ultimately have "response_ok py canon r"
      using r api_health_response [OF assms(1), of n] api_workflows_response(1) [OF assms(1) s(2), of n r]
      by (auto simp: handle_api_def apfst_def map_prod_def split: if_splits option.splits prod.splits)
    with True u r show ?thesis by (simp add: do_GET_def Let_def)
  next
    case False
    have "json_ok canon (error_json k (exc_text py e))" if "exn_ok e" for k e
      using that assms(1) scalar_exc_text by (simp add: error_json_ok deployment_ok_def)
    with False u handle_static_response [OF assms(1) s(1)] show ?thesis
      by (cases "handle_static sv fs p") (auto simp: do_GET_def Let_def)
  qed
  then show ?thesis
    by (simp add: handle_def json_ok_obj scalar_text_ok split: http_method.split)
qed

text \<open>
  C8. Every request, of any method and target, is answered by one well-formed reply: the status
  is the one the handler chose, a body comes with its exact length, and the body of a JSON reply
  is a JSON text that reads back as the payload, its keys sorted.  This covers every view, the
  listing, health and every error, the stored documents inside them included.
\<close>

theorem every_reply_reads_back:
  assumes "deployment_ok py canon sv ds fs" and "scalar_text target"
    and "fst (handle sv ds fs meth target n) = resp"
  shows "\<exists>r. reply_of py resp = Some r \<and> rp_status r = status_of resp \<and>
    (rp_body r \<noteq> [] \<longrightarrow> dict_get (rp_headers r) ''Content-Length'' = Some (nat_str (length (rp_body r)))) \<and>
    (case resp of
       Send_Json st p \<Rightarrow> reply_json canon r = Some (json_sorted True (payload_json py p))
     | Send_File f t b \<Rightarrow> rp_body r = b
     | Send_Empty st \<Rightarrow> rp_body r = [])"
proof (cases resp)
  case (Send_Json st p)
  with handle_response [OF assms(1,2), of meth n] assms(3) send_json_reply [of canon py p st]
  show ?thesis by auto
qed simp_all

definition ex_canon :: "str \<Rightarrow> str" where
  "ex_canon t = lit ''0.5''"

definition ex_py :: py_text where
  "ex_py = \<lparr>printable = (\<lambda>c. False), native_text = (\<lambda>e. lit ''error'')\<rparr>"

lemma ex_canon_ok: "canon_ok ex_canon"
  by (simp add: canon_ok_def float_ok_def ex_canon_def lit_def scan_int_def scan_digits_def
      scan_frac_def scan_exp_def ascii_digit_def)

lemma ex_rows_ok: "rows_ok ex_db"
  by (simp add: rows_ok_def ex_db_def ex_workflow_def ex_call_def ex_event_def cols_ok_def
      workflow_cols_def call_cols_def event_cols_def int64_def)

lemma ex_loads_object: "json_loads ex_canon [123, 125] = Inr (JObj [])"
  using loads_dumps [of ex_canon "JObj []" None False] by (simp add: in_order_def json_block_def)

definition ex_deployed :: db_server where
  "ex_deployed = ex_ds\<lparr>ds_loads := json_loads ex_canon\<rparr>"

lemma ex_deployment_ok: "deployment_ok ex_py ex_canon ex_sv ex_deployed ex_fs"
  by (simp add: deployment_ok_def ex_deployed_def ex_ds_def ex_canon_ok ex_rows_ok ex_py_def ex_sv_def
      ex_fs_def)

theorem every_reply_reads_back_witness:
  "\<exists>node r. fst (handle ex_sv ex_deployed ex_fs GET (lit ''/api/workflow/'' @ ex_root) 0) = Send_Json 200 node \<and>
     send_json ex_py 200 node = Some r \<and>
     reply_json ex_canon r = Some (json_sorted True (payload_json ex_py node))"
proof -
  let ?t = "lit ''/api/workflow/'' @ ex_root"
  have plain: "\<forall>c \<in> set ?t. c \<notin> {9, 10, 13, 35, 59, 63}"
    by (auto simp: lit_def ex_root_def dest: hex_digits_lower)
  have "documents_ok (json_loads ex_canon) ex_db"
    by (simp add: documents_ok_def ex_db_def ex_workflow_def ex_event_def accepts_def accepts_opt_def ex_loads_object)
  moreover have "server_ok ex_deployed ex_db" using ex_server_ok by (simp add: server_ok_def ex_deployed_def)
  ultimately obtain node where node: "api_workflow ex_deployed ex_root None [] 0 = (Send_Json 200 node, 0)"
    using api_workflow_answers [OF _ _ ex_call_ids_ok ex_depth _ ex_root_bytes, of ex_deployed None 0]
    by (auto simp: ex_deployed_def ex_root_row ex_root_def [symmetric])
  have "workflow_route ?t = Some (ex_root, None)" unfolding ex_root_def by (rule route_hex) (simp add: ex_id_def)
  moreover have "?t \<noteq> lit ''/api/health''" "?t \<noteq> lit ''/api/workflows''" "is_api_path ?t"
    by (simp_all add: lit_def is_api_path_def)
  ultimately have h: "fst (handle ex_sv ex_deployed ex_fs GET ?t 0) = Send_Json 200 node"
    by (simp add: handle_def do_GET_def urlparse_plain [OF plain] handle_api_def node)
  have "scalar_text ?t" by (simp add: ex_root_def)
  from every_reply_reads_back [OF ex_deployment_ok this h] h show ?thesis by auto
qed

end
