(* ===== verification/Tooling.thy ===== *)
theory Tooling
  imports Values
begin

text \<open>
  What the repository's command-line tools share: reading the text a command printed
  (\<open>str.strip\<close>, \<open>str.splitlines\<close>, \<open>str.split\<close>), paths and the ways a tool ends other than by returning.
\<close>

section \<open>Text of a command's output\<close>

text \<open>\<open>str.strip\<close>, \<open>str.splitlines\<close> and \<open>str.split\<close> without arguments.\<close>

definition py_space :: "nat \<Rightarrow> bool" where
  "py_space c \<longleftrightarrow> ascii_space c \<or> (28 \<le> c \<and> c \<le> 31) \<or> wide_space c"

definition py_strip :: "str \<Rightarrow> str" where
  "py_strip s = rev (dropWhile py_space (rev (dropWhile py_space s)))"

definition line_end :: "nat \<Rightarrow> bool" where
  "line_end c \<longleftrightarrow> (10 \<le> c \<and> c \<le> 13) \<or> (28 \<le> c \<and> c \<le> 30) \<or> c \<in> {133, 8232, 8233}"

fun splitlines :: "str \<Rightarrow> str list" where
  "splitlines [] = []"
| "splitlines (c # cs) =
     (if line_end c
      then [] # (case cs of
                   [] \<Rightarrow> []
                 | d # ds \<Rightarrow> if c = 13 \<and> d = 10 then splitlines ds else splitlines cs)
      else case splitlines cs of
             [] \<Rightarrow> [[c]]
           | l # ls \<Rightarrow> if cs = [] then [[c]] else (c # l) # ls)"

function split_space :: "str \<Rightarrow> str list" where
  "split_space s =
     (case dropWhile py_space s of
        [] \<Rightarrow> []
      | c # cs \<Rightarrow> (c # takeWhile (\<lambda>x. \<not> py_space x) cs) #
                  split_space (dropWhile (\<lambda>x. \<not> py_space x) cs))"
  by pat_completeness auto
termination
proof (relation "measure length")
  fix s :: str and c cs
  assume "dropWhile py_space s = c # cs"
  then have "length (c # cs) \<le> length s" by (metis length_dropWhile_le)
  moreover have "length (dropWhile (\<lambda>x. \<not> py_space x) cs) \<le> length cs" by (rule length_dropWhile_le)
  ultimately show "(dropWhile (\<lambda>x. \<not> py_space x) cs, s) \<in> measure length" by simp
qed simp

declare split_space.simps [simp del]

section \<open>Paths\<close>

text \<open>
  \<open>pathlib\<close> on POSIX: a path is its root (no, one or exactly two leading slashes) and its
  components, the empty ones and the dots left out.
\<close>

definition path_parts :: "str \<Rightarrow> str list" where
  "path_parts p = filter (\<lambda>c. c \<noteq> [] \<and> c \<noteq> dot) (split_on slash p)"

definition path_text :: "nat \<Rightarrow> str list \<Rightarrow> str" where
  "path_text n ps = (if n = 0 \<and> ps = [] then dot else replicate n slash @ join_with slash ps)"

definition path_name :: "str \<Rightarrow> str" where
  "path_name p = (if path_parts p = [] then [] else last (path_parts p))"

definition path_parent :: "str \<Rightarrow> str" where
  "path_parent p = path_text (leading_slashes p) (butlast (path_parts p))"

text \<open>\<open>Path.stem\<close>: the name up to its last dot, unless that is its first or last character.\<close>

definition path_stem :: "str \<Rightarrow> str" where
  "path_stem p =
     (case rpartition_on 46 (path_name p) of
        (stem, found, ext) \<Rightarrow> if found \<and> stem \<noteq> [] \<and> ext \<noteq> [] then stem else path_name p)"

text \<open>\<open>os.path.dirname\<close>.\<close>

definition dirname :: "str \<Rightarrow> str" where
  "dirname p =
     (let head = rev (dropWhile (\<lambda>c. c \<noteq> slash) (rev p))
      in if list_all (\<lambda>c. c = slash) head then head else rev (dropWhile (\<lambda>c. c = slash) (rev head)))"

text \<open>\<open>ROOT / rel\<close>: an absolute right operand replaces the root.\<close>

definition root_join :: "str \<Rightarrow> str \<Rightarrow> str" where
  "root_join root rel =
     (if leading_slashes rel > 0 then path_text (leading_slashes rel) (path_parts rel)
      else path_text (leading_slashes root) (path_parts root @ path_parts rel))"

section \<open>How a tool ends\<close>

text \<open>\<open>sys.exit(message)\<close>, with what the message says, or an exception nobody catches.\<close>

datatype tool_fault =
    Exit_Error string
  | Name_Error string
  | Unpack_Error
  | Membership_Error
  | Stop_Iteration
  | Tool_Exception exn

type_synonym 'a tool = "tool_fault + 'a"

end
