(* ===== verification/Export_Events.thy ===== *)
theory Export_Events
  imports Tooling
begin

text \<open>
  \<open>microflows-viz/export_events.py\<close>: the event log of one workflow, read through the database
  client, turned into a demo tape.  The client is a parameter (whether one is on the PATH, and
  the exit status and output of the query), and so is \<open>json.loads\<close>; reading the output, the
  mapping of kinds and the loop over the rows are the code's.
\<close>

section \<open>The tape\<close>

definition KIND_TO_EVENT :: "(string, string option) dict" where
  "KIND_TO_EVENT =
     [(''operation_requested'', Some ''DISPATCH''),
      (''operation_settled'', Some ''SETTLED''),
      (''workflow_completed'', Some ''SETTLED_FINAL''),
      (''operation_failed'', Some ''REJECTED''),
      (''reversal_begun'', None),
      (''compensation_requested'', None),
      (''compensation_settled'', Some ''COMPENSATED''),
      (''compensation_blocked'', Some ''COMP_REJECTED''),
      (''participant_route_404'', Some ''ROUTE_404''),
      (''participant_route_unknown'', Some ''EXHAUSTED''),
      (''failed'', Some ''ALL_COMPENSATED'')]"

text \<open>\<open>KIND_TO_EVENT.get(kind)\<close>.\<close>

definition event_of_kind :: "str \<Rightarrow> string option" where
  "event_of_kind kind =
     (case find (\<lambda>(k, _). lit k = kind) KIND_TO_EVENT of None \<Rightarrow> None | Some (_, ev) \<Rightarrow> ev)"

record tape_item =
  ti_type :: string
  ti_kind :: str
  ti_note :: str
  ti_reason :: "json option"

text \<open>
  \<open>"reason" in p\<close>, then \<open>p["reason"]\<close>: a dict has the key or not; on a list and a string the
  test is membership and indexing by a text raises; on the other values the test raises.
\<close>

definition is_infix :: "str \<Rightarrow> str \<Rightarrow> bool" where
  "is_infix u s \<longleftrightarrow> (\<exists>i \<in> set [0..<Suc (length s)]. take (length u) (drop i s) = u)"

definition reason_of :: "json \<Rightarrow> json option tool" where
  "reason_of p =
     (case p of
        JObj kvs \<Rightarrow> Inr (dict_get kvs (lit ''reason''))
      | JArr vs \<Rightarrow> if JStr (lit ''reason'') \<in> set vs then Inl Membership_Error else Inr None
      | JStr s \<Rightarrow> if is_infix (lit ''reason'') s then Inl Membership_Error else Inr None
      | _ \<Rightarrow> Inl Membership_Error)"

text \<open>
  A name in a function body is a local when the body binds it anywhere, otherwise a name of the
  module or a builtin (there is no builtin that matters here).  A scope gives the names that are
  bound the text \<open>str\<close> gives of their values; reading any other name raises.
\<close>

type_synonym scope = "(string, str) dict"

definition read_name :: "scope \<Rightarrow> string \<Rightarrow> str tool" where
  "read_name scope x = (case dict_get scope x of None \<Rightarrow> Inl (Name_Error x) | Some v \<Rightarrow> Inr v)"

text \<open>The f-string of the note.\<close>

definition note_of :: "scope \<Rightarrow> str tool" where
  "note_of scope =
     bind_res (read_name scope ''seq'') (\<lambda>seq.
     bind_res (read_name scope ''kind'') (\<lambda>kind.
       Inr (lit ''seq '' @ seq @ lit '': '' @ kind)))"

text \<open>One row of the loop, which binds \<open>i\<close>, \<open>ts\<close>, \<open>kind\<close>, \<open>payload\<close>, \<open>ev\<close> and \<open>p\<close>.\<close>

definition row_scope :: "scope \<Rightarrow> (str \<times> str \<times> str) list \<Rightarrow> nat \<Rightarrow> string \<Rightarrow> str \<Rightarrow> scope" where
  "row_scope scope rows i ev p =
     (case rows ! i of (ts, kind, payload) \<Rightarrow>
        [(''p'', p), (''ev'', lit ev), (''i'', nat_str i), (''ts'', ts), (''kind'', kind), (''payload'', payload)] @ scope)"

definition tape_row ::
    "(str \<Rightarrow> json result) \<Rightarrow> (json \<Rightarrow> str) \<Rightarrow> scope \<Rightarrow> (str \<times> str \<times> str) list \<Rightarrow> nat \<Rightarrow> tape_item option tool" where
  "tape_row loads shown scope rows i =
     (case rows ! i of (ts, kind, payload) \<Rightarrow>
        case event_of_kind kind of
          None \<Rightarrow> Inr None
        | Some ev \<Rightarrow>
            let ev' = (if ev = ''SETTLED'' \<and> i + 1 < length rows \<and>
                          fst (snd (rows ! (i + 1))) = lit ''workflow_completed''
                       then ''SETTLED_FINAL'' else ev);
                p = (case loads payload of Inl e \<Rightarrow> JObj [] | Inr v \<Rightarrow> v)
            in bind_res (note_of (row_scope scope rows i ev' (shown p))) (\<lambda>note.
               bind_res (reason_of p) (\<lambda>reason.
                 Inr (Some \<lparr>ti_type = ev', ti_kind = kind, ti_note = note, ti_reason = reason\<rparr>))))"

definition tape ::
    "(str \<Rightarrow> json result) \<Rightarrow> (json \<Rightarrow> str) \<Rightarrow> scope \<Rightarrow> (str \<times> str \<times> str) list \<Rightarrow> tape_item list tool" where
  "tape loads shown scope rows =
     bind_res (map_res (tape_row loads shown scope rows) [0..<length rows]) (\<lambda>items.
       Inr (concat (map (\<lambda>x. case x of None \<Rightarrow> [] | Some t \<Rightarrow> [t]) items)))"

definition unpack_row :: "str list \<Rightarrow> (str \<times> str \<times> str) tool" where
  "unpack_row r = (case r of [ts, kind, payload] \<Rightarrow> Inr (ts, kind, payload) | _ \<Rightarrow> Inl Unpack_Error)"

text \<open>
  The names bound when the loop starts: those of the module and those \<open>main\<close> has assigned, each
  with the text of its value (\<open>texts\<close>).  The names the rest of \<open>main\<close> binds (\<open>item\<close>, \<open>e\<close>) are local
  and not read before they are bound.
\<close>

definition MODULE_NAMES :: "string list" where
  "MODULE_NAMES = [''argparse'', ''json'', ''shutil'', ''subprocess'', ''sys'', ''KIND_TO_EVENT'', ''_client'', ''main'']"

definition MAIN_NAMES :: "string list" where
  "MAIN_NAMES = [''ap'', ''a'', ''sql'', ''cmd'', ''out'', ''rows'', ''ts'', ''kind'', ''payload'', ''events'', ''n'']"

definition loop_scope :: "(string \<Rightarrow> str) \<Rightarrow> scope" where
  "loop_scope texts = map (\<lambda>x. (x, texts x)) (MAIN_NAMES @ MODULE_NAMES)"

text \<open>\<open>main\<close> after the arguments: the rows it prints as the raw log, and the tape or how it ends.\<close>

definition log_rows :: "str \<Rightarrow> str list list" where
  "log_rows out = map (split_on 9) (filter (\<lambda>ln. py_strip ln \<noteq> []) (splitlines (py_strip out)))"

definition export_main ::
    "(str \<Rightarrow> json result) \<Rightarrow> (json \<Rightarrow> str) \<Rightarrow> (string \<Rightarrow> str) \<Rightarrow> bool \<Rightarrow> int \<times> str \<Rightarrow>
     (str \<times> str \<times> str) list \<times> tape_item list tool" where
  "export_main loads shown texts client_found query =
     (if \<not> client_found then ([], Inl (Exit_Error ''need the mariadb or mysql CLI on PATH''))
      else if fst query \<noteq> 0 then ([], Inl (Exit_Error ''query failed''))
      else
        let rows = log_rows (snd query)
        in if rows = [] then ([], Inl (Exit_Error ''no events for workflow''))
           else case map_res unpack_row rows of
                  Inl e \<Rightarrow> (map (\<lambda>r. (r ! 0, r ! 1, r ! 2)) (takeWhile (\<lambda>r. length r = 3) rows), Inl e)
                | Inr events \<Rightarrow> (events, tape loads shown (loop_scope texts) events))"

section \<open>Properties\<close>

text \<open>
  What the comments of \<open>KIND_TO_EVENT\<close> say of a kind and the kind of the row after it: the event
  of the lifecycle machine, none for what is implied by another.
\<close>

definition lifecycle_event :: "str \<Rightarrow> str option \<Rightarrow> string option" where
  "lifecycle_event kind next_kind =
     (if kind = lit ''operation_requested'' then Some ''DISPATCH''
      else if kind = lit ''operation_settled'' then
        Some (if next_kind = Some (lit ''workflow_completed'') then ''SETTLED_FINAL'' else ''SETTLED'')
      else if kind = lit ''workflow_completed'' then Some ''SETTLED_FINAL''
      else if kind = lit ''operation_failed'' then Some ''REJECTED''
      else if kind = lit ''compensation_settled'' then Some ''COMPENSATED''
      else if kind = lit ''compensation_blocked'' then Some ''COMP_REJECTED''
      else if kind = lit ''participant_route_404'' then Some ''ROUTE_404''
      else if kind = lit ''participant_route_unknown'' then Some ''EXHAUSTED''
      else if kind = lit ''failed'' then Some ''ALL_COMPENSATED''
      else None)"

definition kind_at :: "(str \<times> str \<times> str) list \<Rightarrow> nat \<Rightarrow> str option" where
  "kind_at rows i = (if i < length rows then Some (fst (snd (rows ! i))) else None)"

lemma event_of_kind_spec: "event_of_kind kind = lifecycle_event kind None"
proof -
  have "(lit k = kind) = (kind = lit k)" for k by auto
  then show ?thesis by (simp add: event_of_kind_def KIND_TO_EVENT_def lifecycle_event_def)
qed

lemma promoted:
  "event_of_kind kind = Some ev \<Longrightarrow>
     lifecycle_event kind nxt = Some (if ev = ''SETTLED'' \<and> nxt = Some (lit ''workflow_completed'') then ''SETTLED_FINAL'' else ev)"
  by (simp add: event_of_kind_spec lifecycle_event_def split: if_splits) auto

lemma lifecycle_event_None: "lifecycle_event kind nxt = None \<longleftrightarrow> event_of_kind kind = None"
  by (simp add: event_of_kind_spec lifecycle_event_def)

lemma unbound_note: "note_of (row_scope (loop_scope texts) rows i ev p) = Inl (Name_Error ''seq'')"
  by (simp add: note_of_def read_name_def row_scope_def loop_scope_def MAIN_NAMES_def MODULE_NAMES_def split: prod.split)

lemma tape_row_unbound:
  "tape_row loads shown (loop_scope texts) rows i =
    (if event_of_kind (fst (snd (rows ! i))) = None then Inr None else Inl (Name_Error ''seq''))"
  by (simp add: tape_row_def Let_def unbound_note split: prod.split option.split)

lemma tape_unbound:
  "tape loads shown (loop_scope texts) rows =
     (if \<exists>row \<in> set rows. lifecycle_event (fst (snd row)) None \<noteq> None then Inl (Name_Error ''seq'') else Inr [])"
proof -
  have "map_res (tape_row loads shown (loop_scope texts) rows) is =
      (if \<exists>i \<in> set is. event_of_kind (fst (snd (rows ! i))) \<noteq> None then Inl (Name_Error ''seq'')
       else Inr (replicate (length is) None))" for "is"
    by (induction "is") (auto simp: tape_row_unbound)
  moreover have "(\<exists>i \<in> set [0..<length rows]. event_of_kind (fst (snd (rows ! i))) \<noteq> None) \<longleftrightarrow>
      (\<exists>row \<in> set rows. event_of_kind (fst (snd row)) \<noteq> None)"
    unfolding list_ex_iff [symmetric] list_ex_length by (auto simp: list_ex_iff)
  ultimately show ?thesis
    by (simp add: tape_def event_of_kind_spec)
qed

lemma tape_row_bound:
  assumes "i < length rows" and "\<forall>v. loads (snd (snd (rows ! i))) = Inr v \<longrightarrow> (\<exists>kvs. v = JObj kvs)"
  shows "\<exists>t. tape_row loads shown ((''seq'', s) # scope) rows i = Inr t \<and>
    map_option (\<lambda>t. (ti_type t, ti_note t)) t =
      map_option (\<lambda>ev. (ev, lit ''seq '' @ s @ lit '': '' @ fst (snd (rows ! i))))
        (lifecycle_event (fst (snd (rows ! i))) (kind_at rows (i + 1)))"
proof (cases "event_of_kind (fst (snd (rows ! i)))")
  case None
  then show ?thesis
    using lifecycle_event_None [of "fst (snd (rows ! i))"] by (auto simp: tape_row_def split: prod.split)
next
  case (Some ev)
  obtain kvs where kvs: "(case loads (snd (snd (rows ! i))) of Inl e \<Rightarrow> JObj [] | Inr v \<Rightarrow> v) = JObj kvs"
    using assms(2) by (cases "loads (snd (snd (rows ! i)))") auto
  have bound: "note_of (row_scope ((''seq'', s) # scope) rows i e p) =
      Inr (lit ''seq '' @ s @ lit '': '' @ fst (snd (rows ! i)))" for e p
    by (simp add: note_of_def read_name_def row_scope_def split: prod.split)
  show ?thesis
    using Some kvs promoted [OF Some]
    by (cases "rows ! i") (auto simp: tape_row_def Let_def bound kind_at_def reason_of_def)
qed

lemma tape_bound:
  assumes "\<forall>row \<in> set rows. \<forall>v. loads (snd (snd row)) = Inr v \<longrightarrow> (\<exists>kvs. v = JObj kvs)"
  shows "\<exists>items. tape loads shown ((''seq'', s) # scope) rows = Inr items \<and>
    map (\<lambda>t. (ti_type t, ti_note t)) items =
      concat (map (\<lambda>i. case lifecycle_event (the (kind_at rows i)) (kind_at rows (i + 1)) of None \<Rightarrow> []
        | Some ev \<Rightarrow> [(ev, lit ''seq '' @ s @ lit '': '' @ the (kind_at rows i))]) [0..<length rows])"
proof -
  let ?row = "tape_row loads shown ((''seq'', s) # scope) rows"
  let ?tagged = "\<lambda>i. case lifecycle_event (the (kind_at rows i)) (kind_at rows (i + 1)) of None \<Rightarrow> []
        | Some ev \<Rightarrow> [(ev, lit ''seq '' @ s @ lit '': '' @ the (kind_at rows i))]"
  have "\<exists>ts. map_res ?row is = Inr ts \<and>
      map (\<lambda>t. (ti_type t, ti_note t)) (concat (map (\<lambda>x. case x of None \<Rightarrow> [] | Some t \<Rightarrow> [t]) ts)) = concat (map ?tagged is)"
    if "\<forall>i \<in> set is. i < length rows" for "is"
    using that
  proof (induction "is")
    case (Cons i "is")
    then obtain ts where ts: "map_res ?row is = Inr ts"
      "map (\<lambda>t. (ti_type t, ti_note t)) (concat (map (\<lambda>x. case x of None \<Rightarrow> [] | Some t \<Rightarrow> [t]) ts)) = concat (map ?tagged is)"
      by auto
    have i: "i < length rows" using Cons.prems by simp
    then have "rows ! i \<in> set rows" by simp
    with assms have "\<forall>v. loads (snd (snd (rows ! i))) = Inr v \<longrightarrow> (\<exists>kvs. v = JObj kvs)" by blast
    from tape_row_bound [where loads = loads and rows = rows, OF i this, of shown s scope] obtain t where t: "?row i = Inr t"
      "map_option (\<lambda>t. (ti_type t, ti_note t)) t =
      map_option (\<lambda>ev. (ev, lit ''seq '' @ s @ lit '': '' @ fst (snd (rows ! i))))
        (lifecycle_event (fst (snd (rows ! i))) (kind_at rows (i + 1)))" by blast
    have here: "fst (snd (rows ! i)) = the (kind_at rows i)" using i by (simp add: kind_at_def)
    have "map (\<lambda>t. (ti_type t, ti_note t)) (case t of None \<Rightarrow> [] | Some t \<Rightarrow> [t]) = ?tagged i"
      using t(2) unfolding here
      by (cases t; cases "lifecycle_event (the (kind_at rows i)) (kind_at rows (i + 1))") auto
    with ts t(1) show ?case by (simp del: map_concat)
  qed simp
  from this [of "[0..<length rows]"] show ?thesis by (auto simp: tape_def)
qed

text \<open>
  C38. The exporter prints no tape of a real log: it prints every row of the log, and then ends in
  \<open>NameError\<close> on \<open>seq\<close>, which no scope binds, as soon as one row's kind has a lifecycle event
  (otherwise the tape is empty).  That name is all that is wrong: in a scope that bound it,
  the same loop would give the documented tape, one item per row with a lifecycle event, in
  order, a settlement promoted when the workflow completes next.
\<close>

theorem export_ends_in_name_error:
  assumes "export_main loads shown texts True (0, out) = (printed, outcome)"
    and "map_res unpack_row (log_rows out) = Inr rows" and "rows \<noteq> []"
  shows "printed = rows \<and>
    outcome = (if \<exists>(ts, kind, payload) \<in> set rows. lifecycle_event kind None \<noteq> None
      then Inl (Name_Error ''seq'') else Inr []) \<and>
    ((\<forall>(ts, kind, payload) \<in> set rows. \<forall>v. loads payload = Inr v \<longrightarrow> (\<exists>kvs. v = JObj kvs)) \<longrightarrow>
      (\<exists>items. tape loads shown ((''seq'', s) # loop_scope texts) rows = Inr items \<and>
        map (\<lambda>t. (ti_type t, ti_note t)) items =
          concat (map (\<lambda>i. case lifecycle_event (the (kind_at rows i)) (kind_at rows (i + 1)) of None \<Rightarrow> []
            | Some ev \<Rightarrow> [(ev, lit ''seq '' @ s @ lit '': '' @ the (kind_at rows i))]) [0..<length rows])))"
proof -
  have "log_rows out \<noteq> []" using assms(2,3) by auto
  with assms have "printed = rows \<and> outcome = tape loads shown (loop_scope texts) rows"
    by (auto simp: export_main_def Let_def)
  then show ?thesis
    using tape_bound [of rows loads shown s "loop_scope texts"] by (simp add: tape_unbound case_prod_unfold)
qed

definition ex_log :: str where
  "ex_log = lit ''t'' @ [9] @ lit ''failed'' @ [9] @ lit ''{}'' @ [10]"

theorem export_ends_in_name_error_witness:
  "export_main (\<lambda>s. Inr (JObj [])) (\<lambda>_. []) (\<lambda>_. []) True (0, ex_log) =
     ([(lit ''t'', lit ''failed'', lit ''{}'')], Inl (Name_Error ''seq''))"
proof -
  have rows: "map_res unpack_row (log_rows ex_log) = Inr [(lit ''t'', lit ''failed'', lit ''{}'')]"
    by (simp add: log_rows_def ex_log_def lit_def py_strip_def py_space_def ascii_space_def wide_space_def
        line_end_def unpack_row_def)
  obtain printed outcome where
    m: "export_main (\<lambda>s. Inr (JObj [])) (\<lambda>_. []) (\<lambda>_. []) True (0, ex_log) = (printed, outcome)" by fastforce
  from export_ends_in_name_error [OF m rows, of "[]"] m show ?thesis by (simp add: lifecycle_event_def)
qed

end
