(* ===== verification/Source_Text.thy ===== *)
theory Source_Text
  imports Tooling
begin

text \<open>
  What the plan emitters read out of a Drift source: whether a file is a test entry
  (\<open>^module\s+\<close> and \<open>^(?:pub\s+)?fn\s+main\(\<close>) and the module it declares
  (\<open>^module\s+(.+?);?\s*$\<close>), the searches of \<open>is_test_entry\<close> and \<open>module_of\<close> in the multi-line mode of
  \<open>re\<close>: a caret matches at the start of the text and after every newline, a dollar at its end and
  before every newline, a dot matches all but a newline.
\<close>

section \<open>Searching\<close>

text \<open>The suffixes of a text at which a caret matches.\<close>

fun at_lines :: "bool \<Rightarrow> str \<Rightarrow> str list" where
  "at_lines start [] = (if start then [[]] else [])"
| "at_lines start (c # cs) = (if start then [c # cs] else []) @ at_lines (c = 10) cs"

definition line_starts :: "str \<Rightarrow> str list" where
  "line_starts s = at_lines True s"

definition after_word :: "string \<Rightarrow> str \<Rightarrow> str option" where
  "after_word w s = (if take (length w) s = lit w then Some (drop (length w) s) else None)"

text \<open>\<open>\s+\<close> before something that starts with no white space takes the whole run.\<close>

definition after_space :: "str \<Rightarrow> str option" where
  "after_space s = (case s of [] \<Rightarrow> None | c # cs \<Rightarrow> if py_space c then Some (dropWhile py_space cs) else None)"

section \<open>Test entries\<close>

definition has_module :: "str \<Rightarrow> bool" where
  "has_module txt =
     list_ex (\<lambda>s. Option.bind (after_word ''module'' s) after_space \<noteq> None) (line_starts txt)"

definition fn_main :: "str \<Rightarrow> bool" where
  "fn_main s =
     (Option.bind (Option.bind (after_word ''fn'' s) after_space) (after_word ''main('') \<noteq> None)"

definition has_main :: "str \<Rightarrow> bool" where
  "has_main txt =
     list_ex (\<lambda>s. (case Option.bind (after_word ''pub'' s) after_space of None \<Rightarrow> False | Some r \<Rightarrow> fn_main r)
                  \<or> fn_main s) (line_starts txt)"

section \<open>The declared module\<close>

definition rstrip_by :: "(nat \<Rightarrow> bool) \<Rightarrow> str \<Rightarrow> str" where
  "rstrip_by P s = rev (dropWhile P (rev s))"

text \<open>
  The group of \<open>\s+(.+?);?\s*$\<close> after the word.  With something but white space ahead, the group
  begins at its first character and takes what it must of that line: all but the white space and
  one semicolon at its end, at least one character.  With only white space up to the end of the
  text, \<open>\s+\<close> gives characters back until the group can take one that is no newline.
\<close>

definition module_group :: "str \<Rightarrow> str option" where
  "module_group s =
     (case s of
        [] \<Rightarrow> None
      | c # cs \<Rightarrow>
          if \<not> py_space c then None
          else case dropWhile py_space cs of
                 [] \<Rightarrow> (case filter (\<lambda>x. x \<noteq> 10) cs of [] \<Rightarrow> None | xs \<Rightarrow> Some [last xs])
               | r \<Rightarrow>
                   let line = rstrip_by py_space (takeWhile (\<lambda>x. x \<noteq> 10) r)
                   in Some (if 2 \<le> length line \<and> last line = 59 then butlast line else line))"

definition declared_module :: "str \<Rightarrow> str option" where
  "declared_module txt =
     (case List.map_filter (\<lambda>s. Option.bind (after_word ''module'' s) module_group) (line_starts txt) of
        [] \<Rightarrow> None
      | g # _ \<Rightarrow> Some (rstrip_by (\<lambda>c. c = 59) (py_strip g)))"

section \<open>Reading a declaration\<close>

lemma line_starts_Cons: "line_starts s = s # tl (line_starts s)"
  by (cases s) (simp_all add: line_starts_def)

text \<open>
  A file whose first line declares a module by a name without blanks and semicolons is read as
  that module, with or without the closing semicolon and whatever follows on the next lines.
\<close>

lemma takeWhile_line: "\<forall>x \<in> set n. x \<noteq> (10 :: nat) \<Longrightarrow> takeWhile (\<lambda>x. x \<noteq> 10) (n @ 10 # rest) = n"
  by (induction n) simp_all

lemma rstrip_by_id: "n \<noteq> [] \<Longrightarrow> \<not> P (last n) \<Longrightarrow> rstrip_by P n = n"
  by (cases n rule: rev_cases) (simp_all add: rstrip_by_def)

lemma py_space_newline [simp]: "py_space 10" "py_space 32" "\<not> py_space 59"
  by (simp_all add: py_space_def ascii_space_def wide_space_def)

lemma declared_module_line:
  assumes "n \<noteq> []" and "\<forall>x \<in> set n. \<not> py_space x \<and> x \<noteq> 59" and "semi = [] \<or> semi = [59]"
  shows "declared_module (lit ''module '' @ n @ semi @ 10 # rest) = Some n"
proof -
  have 10: "x \<noteq> 10" if "x \<in> set (n @ semi)" for x using that assms(2,3) by auto
  then have line: "takeWhile (\<lambda>x. x \<noteq> 10) ((n @ semi) @ 10 # rest) = n @ semi"
    by (intro takeWhile_line) blast
  have strip: "rstrip_by py_space (n @ semi) = n @ semi"
    using assms by (intro rstrip_by_id) (auto simp: last_append)
  obtain c cs where c: "n = c # cs" using assms(1) by (cases n) auto
  then have drop: "dropWhile py_space (n @ t) = n @ t" for t using assms(2) by simp
  have "last n \<noteq> 59" using assms(1,2) last_in_set by blast
  have "dropWhile py_space (n @ semi @ 10 # rest) = c # (cs @ semi @ 10 # rest)"
    using drop [of "semi @ 10 # rest"] c by simp
  moreover have "rstrip_by py_space (takeWhile (\<lambda>x. x \<noteq> 10) (c # (cs @ semi @ 10 # rest))) = n @ semi"
    using line strip c by simp
  ultimately have "module_group (32 # n @ semi @ 10 # rest) =
      Some (if 2 \<le> length (n @ semi) \<and> last (n @ semi) = 59 then butlast (n @ semi) else n @ semi)"
    by (simp only: module_group_def list.case Let_def py_space_newline not_True_eq_False if_False)
  with assms(1,3) \<open>last n \<noteq> 59\<close> have "module_group (32 # n @ semi @ 10 # rest) = Some n"
    by (cases n) auto
  moreover have "after_word ''module'' (lit ''module '' @ n @ semi @ 10 # rest) = Some (32 # n @ semi @ 10 # rest)"
    by (simp add: after_word_def lit_def)
  moreover have "py_strip n = n" "rstrip_by (\<lambda>c. c = 59) n = n"
    using assms(1,2) \<open>last n \<noteq> 59\<close> drop [of "[]"] rstrip_by_id [of n py_space] last_in_set [of n]
    by (auto simp: py_strip_def rstrip_by_def [symmetric] rstrip_by_id)
  ultimately show ?thesis
    by (subst declared_module_def, subst line_starts_Cons) (simp add: map_filter_simps)
qed

end
