(* ===== verification/Cert_Deps.thy ===== *)
theory Cert_Deps
  imports Tooling
begin

text \<open>
  \<open>tools/cert_deps.py\<close>: the toolchain floor and the derivation of \<open>--dep\<close> flags, in the strict
  lane from the committed lock and in the certify lane from the toolchain's own command.  The
  environment is a record: the variables, which files exist, what running a command returns,
  the content of a lock file, \<open>json.loads\<close>, and the formatting of a version that is no text.
  Paths are texts, joined with a slash.
\<close>

section \<open>Environment\<close>

record cert_env =
  ce_environ :: "(str, str) dict"
  ce_home :: str
  ce_is_file :: "str \<Rightarrow> bool"
  ce_run :: "str list \<Rightarrow> int \<times> str"
  ce_lock :: "str \<Rightarrow> json result"
  ce_loads :: "str \<Rightarrow> json result"
  ce_format :: "json \<Rightarrow> str"

definition TOOLCHAIN_FLOOR :: "int list" where
  "TOOLCHAIN_FLOOR = [0, 35, 0]"

text \<open>\<open>env.get(...) or default\<close>: an empty variable counts as unset.\<close>

definition toolchain :: "cert_env \<Rightarrow> str" where
  "toolchain ce =
     (case dict_get (ce_environ ce) (lit ''DRIFT_TOOLCHAIN_ROOT'') of
        Some (c # cs) \<Rightarrow> c # cs
      | _ \<Rightarrow> ce_home ce @ lit ''/opt/drift/certified/current/toolchain'')"

section \<open>The toolchain floor\<close>

text \<open>\<open>json.loads(stdout)["toolchain"]["driftc"]\<close> and its numeric parts; any exception is \<open>None\<close>.\<close>

definition obj_field :: "json \<Rightarrow> string \<Rightarrow> json option" where
  "obj_field v key = (case v of JObj kvs \<Rightarrow> dict_get kvs (lit key) | _ \<Rightarrow> None)"

fun all_some :: "'a option list \<Rightarrow> 'a list option" where
  "all_some [] = Some []"
| "all_some (x # xs) = (case x of None \<Rightarrow> None | Some a \<Rightarrow> map_option ((#) a) (all_some xs))"

definition version_parts :: "str \<Rightarrow> int list option" where
  "version_parts ver = all_some (map py_int (split_on 46 ver))"

definition driftc_version :: "cert_env \<Rightarrow> str \<Rightarrow> int list option" where
  "driftc_version ce stdout =
     (case ce_loads ce stdout of
        Inl e \<Rightarrow> None
      | Inr v \<Rightarrow>
          (case obj_field v ''toolchain'' of
             None \<Rightarrow> None
           | Some t \<Rightarrow>
               (case obj_field t ''driftc'' of Some (JStr ver) \<Rightarrow> version_parts ver | _ \<Rightarrow> None)))"

definition enforce_toolchain_floor :: "cert_env \<Rightarrow> unit tool" where
  "enforce_toolchain_floor ce =
     (let driftc = root_join (toolchain ce) (lit ''bin/driftc'')
      in if \<not> ce_is_file ce driftc then Inl (Exit_Error ''driftc not found'')
         else case ce_run ce [driftc, lit ''--version'', lit ''--json''] of
                (returncode, stdout) \<Rightarrow>
                  if returncode \<noteq> 0 then Inl (Exit_Error ''driftc --version --json failed'')
                  else case driftc_version ce stdout of
                         None \<Rightarrow> Inl (Exit_Error ''cannot read driftc version'')
                       | Some parsed \<Rightarrow>
                           if parsed < TOOLCHAIN_FLOOR
                           then Inl (Exit_Error ''driftc is below the floor'')
                           else Inr ())"

section \<open>The strict lane\<close>

text \<open>
  \<open>x.get(key, {}) or {}\<close>: a missing or falsy value is the empty dict; \<open>.get\<close> on something that
  is no dict raises.
\<close>

definition falsy :: "json \<Rightarrow> bool" where
  "falsy v \<longleftrightarrow> v \<in> {JNull, JBool False, JInt 0, JStr [], JArr [], JObj [], JFloat (lit ''0.0''), JFloat (lit ''-0.0'')}"

definition get_or_empty :: "json \<Rightarrow> str \<Rightarrow> json tool" where
  "get_or_empty v key =
     (case v of
        JObj kvs \<Rightarrow> Inr (case dict_get kvs key of None \<Rightarrow> JObj [] | Some w \<Rightarrow> if falsy w then JObj [] else w)
      | _ \<Rightarrow> Inl (Tool_Exception Type_Error))"

definition items_of :: "json \<Rightarrow> (str \<times> json) list tool" where
  "items_of v = (case v of JObj kvs \<Rightarrow> Inr kvs | _ \<Rightarrow> Inl (Tool_Exception Type_Error))"

definition format_version :: "cert_env \<Rightarrow> json \<Rightarrow> str" where
  "format_version ce v = (case v of JStr s \<Rightarrow> s | _ \<Rightarrow> ce_format ce v)"

definition locked_version :: "cert_env \<Rightarrow> str \<times> json \<Rightarrow> (str \<times> str) tool" where
  "locked_version ce nv =
     (case snd nv of
        JObj kvs \<Rightarrow>
          (case dict_get kvs (lit ''version'') of
             None \<Rightarrow> Inl (Tool_Exception (Key_Error (lit ''version'')))
           | Some v \<Rightarrow> Inr (fst nv, format_version ce v))
      | _ \<Rightarrow> Inl (Tool_Exception Type_Error))"

text \<open>
  The \<open>artifacts\<close> lookup has no \<open>or {}\<close>; a falsy value that is no dict still raises there.
\<close>

definition get_default :: "json \<Rightarrow> str \<Rightarrow> json tool" where
  "get_default v key =
     (case v of
        JObj kvs \<Rightarrow> Inr (case dict_get kvs key of None \<Rightarrow> JObj [] | Some w \<Rightarrow> w)
      | _ \<Rightarrow> Inl (Tool_Exception Type_Error))"

definition strict_versions :: "cert_env \<Rightarrow> str \<Rightarrow> str \<Rightarrow> str set \<Rightarrow> (str, str) dict tool" where
  "strict_versions ce artifact lock_path exclude =
     (case ce_lock ce lock_path of
        Inl e \<Rightarrow> Inl (Tool_Exception e)
      | Inr lock \<Rightarrow>
          bind_res (get_default lock (lit ''artifacts'')) (\<lambda>artifacts.
          bind_res (get_or_empty artifacts artifact) (\<lambda>entry.
          bind_res (get_or_empty entry (lit ''resolved'')) (\<lambda>deps.
          bind_res (items_of deps) (\<lambda>items.
          bind_res (map_res (locked_version ce) (filter (\<lambda>(n, v). n \<notin> exclude) items)) (\<lambda>versions.
            if versions = [] then Inl (Exit_Error ''no resolved deps'') else Inr versions))))))"

section \<open>The certify lane\<close>

text \<open>The loop over the tokens: a flag count and the versions collected so far.\<close>

fun dep_tokens ::
    "str set \<Rightarrow> str list \<Rightarrow> nat \<times> (str, str) dict \<Rightarrow> (nat \<times> (str, str) dict) tool" where
  "dep_tokens exclude [] acc = Inr acc"
| "dep_tokens exclude (tok # toks) (emitted, versions) =
     (if tok \<noteq> lit ''--dep'' then dep_tokens exclude toks (emitted, versions)
      else case toks of
             [] \<Rightarrow> Inl (Exit_Error ''dangling --dep'')
           | arg # rest \<Rightarrow>
               (case partition_on 64 arg of
                  (name, found, ver) \<Rightarrow>
                    if \<not> found then Inl (Exit_Error ''dangling --dep'')
                    else dep_tokens exclude toks
                           (Suc emitted, if name \<in> exclude then versions else dict_set name ver versions)))"

definition certify_versions :: "cert_env \<Rightarrow> str \<Rightarrow> str \<Rightarrow> str set \<Rightarrow> (str, str) dict tool" where
  "certify_versions ce manifest artifact exclude =
     (let drift = root_join (toolchain ce) (lit ''bin/drift'')
      in if \<not> ce_is_file ce drift then Inl (Exit_Error ''drift CLI not found'')
         else case ce_run ce [drift, lit ''lock'', lit ''emit'', lit ''--artifact'', artifact,
                              lit ''--manifest'', manifest, lit ''--source-rebuild''] of
                (returncode, stdout) \<Rightarrow>
                  if returncode \<noteq> 0 then Inl (Exit_Error ''drift lock emit failed'')
                  else bind_res (dep_tokens exclude (split_space stdout) (0, [])) (\<lambda>(emitted, versions).
                    if emitted = 0 then Inl (Exit_Error ''no --dep flags'') else Inr versions))"

section \<open>The derivation\<close>

definition resolved_versions :: "cert_env \<Rightarrow> str \<Rightarrow> str \<Rightarrow> str \<Rightarrow> str set \<Rightarrow> (str, str) dict tool" where
  "resolved_versions ce manifest artifact lock_path exclude =
     bind_res (enforce_toolchain_floor ce) (\<lambda>_.
       if dict_get (ce_environ ce) (lit ''DRIFT_CERT_MODE'') = Some (lit ''certify'')
       then certify_versions ce manifest artifact exclude
       else strict_versions ce artifact lock_path exclude)"

text \<open>The flags, in the order of the names: each dependency is its name, an at sign and its version.\<close>

definition flags_of :: "(str, str) dict \<Rightarrow> str list" where
  "flags_of versions =
     concat (map (\<lambda>name. [lit ''--dep'', name @ 64 # the (dict_get versions name)])
       (sorted_list_of_set (fst ` set versions)))"

definition dep_flags :: "cert_env \<Rightarrow> str \<Rightarrow> str \<Rightarrow> str \<Rightarrow> str set \<Rightarrow> str list tool" where
  "dep_flags ce manifest artifact lock_path exclude =
     bind_res (resolved_versions ce manifest artifact lock_path exclude) (\<lambda>versions. Inr (flags_of versions))"

section \<open>The command\<close>

text \<open>
  \<open>main\<close> after the arguments: the flags on one line, or with \<open>--check-floor\<close> nothing.  An empty
  argument counts as missing.
\<close>

record cert_args =
  ca_check_floor :: bool
  ca_manifest :: "str option"
  ca_artifact :: "str option"
  ca_lock :: "str option"
  ca_exclude :: "str list"

definition cert_main :: "cert_env \<Rightarrow> cert_args \<Rightarrow> str tool" where
  "cert_main ce args =
     (if ca_check_floor args then bind_res (enforce_toolchain_floor ce) (\<lambda>_. Inr [])
      else case (ca_manifest args, ca_artifact args, ca_lock args) of
             (Some (m # ms), Some (a # as), Some (l # ls)) \<Rightarrow>
               bind_res (dep_flags ce (m # ms) (a # as) (l # ls) (set (ca_exclude args))) (\<lambda>flags.
                 Inr (join_text (lit '' '') flags @ [10]))
           | _ \<Rightarrow> Inl (Exit_Error ''--manifest, --artifact and --lock are required unless --check-floor''))"

section \<open>Properties\<close>

lemma version_parts_three:
  assumes "length (nat_str a) \<le> max_int_digits" "length (nat_str b) \<le> max_int_digits"
    "length (nat_str c) \<le> max_int_digits"
  shows "version_parts (nat_str a @ 46 # nat_str b @ 46 # nat_str c) = Some [int a, int b, int c]"
proof -
  have no_dot: "46 \<notin> set (nat_str k)" for k using nat_str_digits [of 46 k] by auto
  show ?thesis
    using assms by (simp add: version_parts_def split_on_append split_on_id no_dot py_int_nat_str)
qed

text \<open>
  The floor holds and fails closed: with a \<open>driftc\<close> that reports version a.b.c, the gate
  passes exactly when a > 0 or b is at least 35; and it never passes when the command's
  exit status is not 0, whatever version its output claims.
\<close>

theorem floor_gate:
  assumes "ce_is_file ce (root_join (toolchain ce) (lit ''bin/driftc''))"
    and "ce_run ce [root_join (toolchain ce) (lit ''bin/driftc''), lit ''--version'', lit ''--json''] = (returncode, stdout)"
    and "ce_loads ce stdout = Inr v" and "obj_field v ''toolchain'' = Some t"
    and "obj_field t ''driftc'' = Some (JStr (nat_str a @ 46 # nat_str b @ 46 # nat_str c))"
    and "length (nat_str a) \<le> max_int_digits" and "length (nat_str b) \<le> max_int_digits"
    and "length (nat_str c) \<le> max_int_digits"
  shows "enforce_toolchain_floor ce = Inr () \<longleftrightarrow> returncode = 0 \<and> (a > 0 \<or> b \<ge> 35)"
proof -
  have "driftc_version ce stdout = Some [int a, int b, int c]"
    using assms(3-5) version_parts_three [OF assms(6-8)] by (simp add: driftc_version_def)
  moreover have "[int a, int b, int c] < TOOLCHAIN_FLOOR \<longleftrightarrow> a = 0 \<and> b < 35"
    by (auto simp: TOOLCHAIN_FLOOR_def)
  ultimately show ?thesis
    using assms(1,2) by (auto simp: enforce_toolchain_floor_def Let_def)
qed

definition ex_cert :: cert_env where
  "ex_cert = \<lparr>ce_environ = [], ce_home = [], ce_is_file = (\<lambda>p. True), ce_run = (\<lambda>argv. (0, [])),
     ce_lock = (\<lambda>path. Inr (JObj [])),
     ce_loads = (\<lambda>s. Inr (JObj [(lit ''toolchain'', JObj [(lit ''driftc'',
        JStr (nat_str 0 @ 46 # nat_str 35 @ 46 # nat_str 1))])])),
     ce_format = (\<lambda>v. [])\<rparr>"

lemma small_digits: "n < 100 \<Longrightarrow> length (nat_str n) \<le> max_int_digits"
  using length_nat_str [of n 1] by (simp add: max_int_digits_def)

theorem floor_gate_witness: "enforce_toolchain_floor ex_cert = Inr ()"
  using floor_gate [of ex_cert 0 "[]" _ _ 0 35 1]
  by (simp add: ex_cert_def obj_field_def small_digits)

lemma dep_tokens_flags:
  assumes "\<forall>n \<in> set names. 64 \<notin> set n"
  shows "dep_tokens exclude (concat (map (\<lambda>n. [lit ''--dep'', n @ 64 # ver n]) names)) (k, d) =
    Inr (k + length names,
      foldl (\<lambda>d n. if n \<in> exclude then d else dict_set n (ver n) d) d names)"
  using assms
proof (induction names arbitrary: k d)
  case Nil
  then show ?case by simp
next
  case (Cons n names)
  have "64 \<in> set (n @ 64 # ver n)" "64 \<notin> set (lit ''--dep'')" by (simp_all add: lit_def)
  then have "n @ 64 # ver n \<noteq> lit ''--dep''" by metis
  moreover have "partition_on 64 (n @ 64 # ver n) = (n, True, ver n)"
    using Cons.prems by (simp add: partition_on_def takeWhile_append dropWhile_append)
  ultimately show ?case
    using Cons by simp
qed

lemma foldl_dict:
  "dict_get (foldl (\<lambda>d n. if n \<in> exclude then d else dict_set n (ver n) d) d names) k =
     (if k \<in> set names - exclude then Some (ver k) else dict_get d k)"
  by (induction names arbitrary: d) auto

text \<open>
  The two lanes speak the same language: the flags this module emits for a set of
  versions, read by its own certify-lane parser, give back exactly those versions without
  the excluded names, each flag counted, when no dependency name contains an at sign; and
  the flags come sorted by name.
\<close>

theorem dep_flags_round_trip:
  assumes "\<forall>n \<in> fst ` set versions. 64 \<notin> set n"
  shows "(\<exists>out. dep_tokens exclude (flags_of versions) (0, []) = Inr (card (fst ` set versions), out) \<and>
      (\<forall>k. dict_get out k = (if k \<in> exclude then None else dict_get versions k))) \<and>
    (\<exists>names. sorted names \<and> distinct names \<and> set names = fst ` set versions \<and>
      flags_of versions = concat (map (\<lambda>n. [lit ''--dep'', n @ 64 # the (dict_get versions n)]) names))"
proof -
  let ?names = "sorted_list_of_set (fst ` set versions)"
  let ?ver = "\<lambda>n. the (dict_get versions n)"
  let ?out = "foldl (\<lambda>d n. if n \<in> exclude then d else dict_set n (?ver n) d) [] ?names"
  have names: "set ?names = fst ` set versions" "length ?names = card (fst ` set versions)" by simp_all
  have "dep_tokens exclude (flags_of versions) (0, []) = Inr (card (fst ` set versions), ?out)"
    unfolding flags_of_def using assms by (subst dep_tokens_flags) simp_all
  moreover have "dict_get ?out k = (if k \<in> exclude then None else dict_get versions k)" for k
  proof -
    have "k \<in> fst ` set versions \<longleftrightarrow> dict_get versions k \<noteq> None" by (simp add: map_of_eq_None_iff)
    then show ?thesis by (auto simp: foldl_dict)
  qed
  moreover have "sorted ?names \<and> distinct ?names \<and> set ?names = fst ` set versions \<and>
      flags_of versions = concat (map (\<lambda>n. [lit ''--dep'', n @ 64 # ?ver n]) ?names)"
    by (simp add: flags_of_def)
  ultimately show ?thesis by blast
qed

theorem dep_flags_round_trip_witness:
  "\<exists>out. dep_tokens {} (flags_of [(lit ''b'', lit ''2''), (lit ''a'', lit ''1'')]) (0, []) = Inr (2, out) \<and>
     dict_get out (lit ''a'') = Some (lit ''1'')"
proof -
  have "\<forall>n \<in> fst ` set [(lit ''b'', lit ''2''), (lit ''a'', lit ''1'')]. 64 \<notin> set n" by (simp add: lit_def)
  from dep_flags_round_trip [OF this, of "{}"] show ?thesis by auto
qed

lemma dep_tokens_exclude:
  "dep_tokens exclude toks acc = Inr (k, d) \<Longrightarrow> fst ` set (snd acc) \<inter> exclude = {} \<Longrightarrow>
     fst ` set d \<inter> exclude = {}"
proof (induction exclude toks acc arbitrary: k d rule: dep_tokens.induct)
  case (2 exclude tok toks emitted versions)
  show ?case
  proof (cases "tok = lit ''--dep''")
    case False
    with 2 show ?thesis by simp
  next
    case True
    with "2.prems"(1) obtain arg rest name found ver where
      toks: "toks = arg # rest" and arg: "partition_on 64 arg = (name, found, ver)" and found: "found"
      by (cases toks; cases "partition_on 64 (hd toks)") (auto split: if_splits)
    have "dep_tokens exclude toks (Suc emitted, if name \<in> exclude then versions else dict_set name ver versions) =
        Inr (k, d)"
      using "2.prems"(1) True by (simp add: toks arg found)
    from "2.IH"(2) [OF _ toks arg [symmetric] refl _ this] True found "2.prems"(2) show ?thesis
      by auto
  qed
qed simp

lemma strict_versions_exclude:
  assumes "strict_versions ce artifact lock_path exclude = Inr d"
  shows "fst ` set d \<inter> exclude = {} \<and> d \<noteq> []"
proof -
  from assms obtain items where
    m: "map_res (locked_version ce) (filter (\<lambda>(n, v). n \<notin> exclude) items) = Inr d" and "d \<noteq> []"
    by (auto simp: strict_versions_def bind_res_eq_Inr split: sum.splits if_splits)
  moreover have "fst x \<notin> exclude" if x: "x \<in> set d" for x
  proof -
    from map_res_memD [OF m x] obtain nv where
      nv: "nv \<in> set (filter (\<lambda>(n, v). n \<notin> exclude) items)" "locked_version ce nv = Inr x" by blast
    then have "fst x = fst nv" by (auto simp: locked_version_def split: json.splits option.splits)
    with nv(1) show ?thesis by auto
  qed
  ultimately show ?thesis by auto
qed

text \<open>
  Derivation is gated and respects exclusion in both lanes: versions are only ever
  derived after the floor passed, no excluded name (the library compiled from source) is among
  them, and outside certify mode an empty result is refused.
\<close>

theorem derivation_gated:
  assumes "resolved_versions ce manifest artifact lock_path exclude = Inr d"
  shows "enforce_toolchain_floor ce = Inr () \<and> fst ` set d \<inter> exclude = {} \<and>
    (dict_get (ce_environ ce) (lit ''DRIFT_CERT_MODE'') \<noteq> Some (lit ''certify'') \<longrightarrow> d \<noteq> [])"
proof (cases "dict_get (ce_environ ce) (lit ''DRIFT_CERT_MODE'') = Some (lit ''certify'')")
  case True
  with assms have floor: "enforce_toolchain_floor ce = Inr ()"
    and c: "certify_versions ce manifest artifact exclude = Inr d"
    by (auto simp: resolved_versions_def bind_res_eq_Inr)
  from c obtain stdout k where "dep_tokens exclude (split_space stdout) (0, []) = Inr (k, d)"
    by (auto simp: certify_versions_def Let_def bind_res_eq_Inr split: prod.splits if_splits)
  from dep_tokens_exclude [OF this] floor True show ?thesis by simp
next
  case False
  with assms have "enforce_toolchain_floor ce = Inr ()" "strict_versions ce artifact lock_path exclude = Inr d"
    by (auto simp: resolved_versions_def bind_res_eq_Inr)
  with strict_versions_exclude show ?thesis by blast
qed

definition ex_locked :: cert_env where
  "ex_locked = ex_cert\<lparr>ce_lock := (\<lambda>path. Inr (JObj [(lit ''artifacts'', JObj [(lit ''app'',
     JObj [(lit ''resolved'', JObj [(lit ''dep'', JObj [(lit ''version'', JStr (lit ''1''))]),
                               (lit ''local'', JObj [])])])])]))\<rparr>"

theorem derivation_gated_witness:
  "\<exists>d. resolved_versions ex_locked [] (lit ''app'') [] {lit ''local''} = Inr d \<and> fst ` set d \<inter> {lit ''local''} = {}"
proof -
  have "enforce_toolchain_floor ex_locked = Inr ()"
    by (simp add: enforce_toolchain_floor_def Let_def ex_locked_def ex_cert_def driftc_version_def
        obj_field_def version_parts_three small_digits TOOLCHAIN_FLOOR_def)
  then have d: "resolved_versions ex_locked [] (lit ''app'') [] {lit ''local''} = Inr [(lit ''dep'', lit ''1'')]"
    by (simp add: resolved_versions_def strict_versions_def)
       (simp add: ex_locked_def ex_cert_def get_default_def get_or_empty_def falsy_def items_of_def
          locked_version_def format_version_def)
  from derivation_gated [OF d] d show ?thesis by blast
qed

end
