(* ===== verification/Manifest.thy ===== *)
theory Manifest
  imports Cert_Deps
begin

text \<open>
  What the emitters read out of a parsed \<open>manifest.json\<close>: subscripts and \<open>get\<close> on values that
  need not be dicts, the loop that finds an artifact by its name, its module list.  Every
  exception Python raises on a manifest of another shape is a fault of the model.
\<close>

text \<open>\<open>v[key]\<close> and \<open>v.get(key, default)\<close>.\<close>

definition json_at :: "json \<Rightarrow> string \<Rightarrow> json tool" where
  "json_at v key =
     (case v of
        JObj kvs \<Rightarrow> option_res (Tool_Exception (Key_Error (lit key))) (dict_get kvs (lit key))
      | _ \<Rightarrow> Inl (Tool_Exception Type_Error))"

definition json_get :: "json \<Rightarrow> string \<Rightarrow> json \<Rightarrow> json tool" where
  "json_get v key dflt =
     (case v of
        JObj kvs \<Rightarrow> Inr (case dict_get kvs (lit key) of None \<Rightarrow> dflt | Some w \<Rightarrow> w)
      | _ \<Rightarrow> Inl (Tool_Exception Type_Error))"

text \<open>\<open>for x in v\<close>: a dict yields its keys, a text its characters.\<close>

definition json_items :: "json \<Rightarrow> json list tool" where
  "json_items v =
     (case v of
        JArr vs \<Rightarrow> Inr vs
      | JObj kvs \<Rightarrow> Inr (map (\<lambda>kv. JStr (fst kv)) kvs)
      | JStr s \<Rightarrow> Inr (map (\<lambda>c. JStr [c]) s)
      | _ \<Rightarrow> Inl (Tool_Exception Type_Error))"

definition json_first :: "json \<Rightarrow> json tool" where
  "json_first v =
     (case v of
        JArr (x # xs) \<Rightarrow> Inr x
      | JStr (c # cs) \<Rightarrow> Inr (JStr [c])
      | _ \<Rightarrow> Inl (Tool_Exception Type_Error))"

text \<open>A text is what the use of the value needs: \<open>os.path.dirname\<close> raises on anything else.\<close>

definition json_text :: "json \<Rightarrow> str tool" where
  "json_text v = (case v of JStr s \<Rightarrow> Inr s | _ \<Rightarrow> Inl (Tool_Exception Type_Error))"

text \<open>\<open>next((a for a in arts if a["name"] == name), None)\<close>.\<close>

fun find_named :: "str \<Rightarrow> json list \<Rightarrow> json option tool" where
  "find_named name [] = Inr None"
| "find_named name (a # as) =
     bind_res (json_at a ''name'') (\<lambda>n. if n = JStr name then Inr (Some a) else find_named name as)"

definition named_artifact :: "json \<Rightarrow> str \<Rightarrow> json tool" where
  "named_artifact artifacts name =
     bind_res (json_items artifacts) (\<lambda>arts.
     bind_res (find_named name arts) (\<lambda>found.
       option_res (Exit_Error ''artifact not in manifest'') found))"

definition module_dirs :: "json \<Rightarrow> str list tool" where
  "module_dirs art =
     bind_res (json_get art ''modules'' (JArr [])) (\<lambda>modules.
     bind_res (json_items modules) (\<lambda>ms.
     bind_res (map_res json_text ms) (\<lambda>paths. Inr (map dirname paths))))"

lemma json_access [simp]:
  "json_at (JObj kvs) key = option_res (Tool_Exception (Key_Error (lit key))) (dict_get kvs (lit key))"
  "json_get (JObj kvs) key d = Inr (case dict_get kvs (lit key) of None \<Rightarrow> d | Some w \<Rightarrow> w)"
  "json_items (JArr vs) = Inr vs" "json_first (JArr (v # vs)) = Inr v" "json_text (JStr s) = Inr s"
  by (simp_all add: json_at_def json_get_def json_items_def json_first_def json_text_def)

text \<open>An artifact that is found is one of the manifest and has the name.\<close>

lemma find_named_mem: "find_named name arts = Inr (Some a) \<Longrightarrow> a \<in> set arts \<and> json_at a ''name'' = Inr (JStr name)"
  by (induction name arts rule: find_named.induct) (auto simp: bind_res_eq_Inr split: if_splits)

end
