(* ===== verification/Job_Plan.thy ===== *)
theory Job_Plan
  imports Source_Text Manifest
begin

text \<open>
  Plans for the toolchain's \<open>drift_test_run.py\<close> and the parts the plan emitters share: jobs and
  phases, source closures, build jobs, the unit and live tracks.  The emitters of
  \<open>singular/drift/tools\<close> and \<open>microflows/tools\<close> are the same code over different constants; the
  constants are the record \<open>component\<close>, and what the emitters find in the checkout (which files
  and what they say, the environment of the dependency derivation) is \<open>emit_env\<close>.
  A locale states what every emitted plan promises to the executor.
\<close>

section \<open>Jobs and plans\<close>

record job =
  j_id :: str
  j_out :: "str option"
  j_cmd :: "str list"
  j_needs_key :: "str list option"
  j_wrap :: "str option"
  j_mode :: "str option"
  j_group :: "str option"
  j_order :: "nat option"
  j_env :: "(str, str) dict"

type_synonym phase = "str \<times> job list"

record plan =
  plan_name :: str
  plan_phases :: "phase list"

text \<open>The builds a job needs; a job without the key needs none.\<close>

definition j_needs :: "job \<Rightarrow> str list" where
  "j_needs j = (case j_needs_key j of None \<Rightarrow> [] | Some ns \<Rightarrow> ns)"

definition plain_job :: "str \<Rightarrow> str list \<Rightarrow> str list \<Rightarrow> job" where
  "plain_job jid cmd needs =
     \<lparr>j_id = jid, j_out = None, j_cmd = cmd, j_needs_key = (if needs = [] then None else Some needs), j_wrap = None, j_mode = None,
      j_group = None, j_order = None, j_env = []\<rparr>"

definition serial_job :: "str \<Rightarrow> nat \<Rightarrow> job \<Rightarrow> job" where
  "serial_job grp k j =
     j\<lparr>j_mode := Some (lit ''serial''), j_group := Some grp, j_order := Some k\<rparr>"

lemma plain_job_simps [simp]:
  "j_id (plain_job i c ns) = i" "j_cmd (plain_job i c ns) = c" "j_needs (plain_job i c ns) = ns"
  "j_env (plain_job i c ns) = []" "j_out (plain_job i c ns) = None"
  by (simp_all add: plain_job_def j_needs_def)

lemma j_needs_update [simp]:
  "j_needs (j\<lparr>j_out := x\<rparr>) = j_needs j" "j_needs (j\<lparr>j_wrap := x\<rparr>) = j_needs j"
  "j_needs (j\<lparr>j_env := e\<rparr>) = j_needs j" "j_needs (j\<lparr>j_needs_key := Some ns\<rparr>) = ns"
  by (simp_all add: j_needs_def)

lemma serial_job_simps [simp]:
  "j_id (serial_job g k j) = j_id j" "j_cmd (serial_job g k j) = j_cmd j"
  "j_needs (serial_job g k j) = j_needs j" "j_group (serial_job g k j) = Some g"
  "j_order (serial_job g k j) = Some k" "j_mode (serial_job g k j) = Some (lit ''serial'')"
  "j_env (serial_job g k j) = j_env j"
  by (simp_all add: serial_job_def j_needs_def)

text \<open>\<open>_jobs_of(plan, phase_name)\<close>: the jobs of the first phase of that name.\<close>

definition jobs_of :: "plan \<Rightarrow> string \<Rightarrow> job list" where
  "jobs_of p name =
     (case find (\<lambda>(n, jobs). n = lit name) (plan_phases p) of None \<Rightarrow> [] | Some (n, jobs) \<Rightarrow> jobs)"

text \<open>A list of jobs, numbered from \<open>start\<close> on.\<close>

fun serial_from :: "str \<Rightarrow> nat \<Rightarrow> job list \<Rightarrow> job list" where
  "serial_from grp start [] = []"
| "serial_from grp start (j # js) = serial_job grp start j # serial_from grp (Suc start) js"

lemma serial_from_append:
  "serial_from g k (xs @ ys) = serial_from g k xs @ serial_from g (k + length xs) ys"
  by (induction xs arbitrary: k) simp_all

lemma length_serial_from [simp]: "length (serial_from g k js) = length js"
  by (induction js arbitrary: k) simp_all

lemma serial_from_orders: "map j_order (serial_from g k js) = map Some [k..<k + length js]"
proof (induction js arbitrary: k)
  case (Cons j js)
  have "[k..<k + length (j # js)] = k # [Suc k..<Suc k + length js]"
    by (subst upt_conv_Cons) simp_all
  with Cons show ?case by (simp only: serial_from.simps list.map serial_job_simps)
qed simp

lemma serial_from_same:
  "map j_id (serial_from g k js) = map j_id js" "map j_cmd (serial_from g k js) = map j_cmd js"
  "map j_needs (serial_from g k js) = map j_needs js" "map j_env (serial_from g k js) = map j_env js"
  by (induction js arbitrary: k) simp_all

lemma serial_from_mem:
  "j \<in> set (serial_from g k js) \<Longrightarrow> j_group j = Some g \<and> j_mode j = Some (lit ''serial'') \<and>
     (\<exists>i \<in> set js. j_needs j = j_needs i \<and> j_id j = j_id i \<and> j_cmd j = j_cmd i \<and> j_env j = j_env i)"
  by (induction js arbitrary: k) auto

section \<open>Paths and sources\<close>

text \<open>
  \<open>src_files\<close>: every source below the directories of the artifact's modules, each once, sorted;
  \<open>rglob\<close> yields the sources below a directory, \<open>None\<close> when it is no directory.
\<close>

definition src_files ::
    "(str \<Rightarrow> str list option) \<Rightarrow> str \<Rightarrow> json tool \<Rightarrow> str \<Rightarrow> str list tool" where
  "src_files rglob root manifest name =
     bind_res manifest (\<lambda>m.
     bind_res (json_get m ''artifacts'' (JArr [])) (\<lambda>artifacts.
     bind_res (named_artifact artifacts name) (\<lambda>art.
     bind_res (module_dirs art) (\<lambda>ds.
       let dirs = sorted_list_of_set (set ds)
       in Inr (sorted_list_of_set (\<Union>d \<in> set dirs.
            case rglob (root_join root d) of None \<Rightarrow> {} | Some fs \<Rightarrow> set fs))))))"

section \<open>Build jobs\<close>

record component =
  co_artifact :: str
  co_unit_root :: str
  co_live_tests :: "str list"
  co_namespace_var :: str

record emit_env =
  em_root :: str
  em_pkg_root :: str
  em_manifest :: "json tool"
  em_rglob :: "str \<Rightarrow> str list option"
  em_glob :: "str \<Rightarrow> str list"
  em_read :: "str \<Rightarrow> str tool"
  em_cert :: cert_env
  em_db_group :: str
  em_nonce :: str

definition work :: "str \<Rightarrow> str" where
  "work out_name = lit ''{work}/'' @ out_name"

definition sanitize_flags :: "bool \<Rightarrow> str list" where
  "sanitize_flags on = [lit ''--sanitize'', if on then lit ''address'' else lit ''none'']"

definition src_build ::
    "emit_env \<Rightarrow> str \<Rightarrow> str list \<Rightarrow> str list \<Rightarrow> str \<Rightarrow> str \<Rightarrow> bool \<Rightarrow> job" where
  "src_build en out_name srcs deps entry test_rel sanitize =
     (let out = work out_name
      in (plain_job out_name
           ([lit ''{driftc}'', lit ''--target-word-bits'', lit ''64'', lit ''--package-root'', em_pkg_root en]
              @ deps @ sanitize_flags sanitize @ [lit ''--entry'', entry] @ srcs
              @ [test_rel, lit ''-o'', out]) [])\<lparr>j_out := Some out\<rparr>)"

lemma src_build_simps [simp]:
  "j_id (src_build en n ss ds e t b) = n" "j_needs (src_build en n ss ds e t b) = []"
  "j_out (src_build en n ss ds e t b) = Some (work n)"
  by (simp_all add: src_build_def Let_def)

text \<open>
  \<open>is_test_entry\<close> and \<open>module_of\<close> read a file of the checkout by a path below the root, or by its
  absolute path; \<open>em_read\<close> is \<open>read_text(errors="ignore")\<close> of an absolute path.
\<close>

definition is_test_entry :: "emit_env \<Rightarrow> str \<Rightarrow> bool tool" where
  "is_test_entry en rel =
     bind_res (em_read en (root_join (em_root en) rel)) (\<lambda>txt. Inr (has_module txt \<and> has_main txt))"

definition module_of :: "emit_env \<Rightarrow> str \<Rightarrow> str tool" where
  "module_of en rel =
     bind_res (em_read en (root_join (em_root en) rel)) (\<lambda>txt.
       option_res (Exit_Error ''missing module declaration'') (declared_module txt))"

definition resolved_dep_flags :: "emit_env \<Rightarrow> component \<Rightarrow> str list tool" where
  "resolved_dep_flags en co =
     dep_flags (em_cert en) (root_join (em_root en) (lit ''drift/manifest.json'')) (co_artifact co)
       (root_join (em_root en) (lit ''drift/lock.json'')) {}"

text \<open>\<open>_entries\<close>: the test entries directly below a directory, sorted, by absolute path.\<close>

definition entries :: "emit_env \<Rightarrow> str \<Rightarrow> str list tool" where
  "entries en root =
     bind_res (map_res (\<lambda>f. bind_res (is_test_entry en f) (\<lambda>b. Inr (f, b)))
       (sort (em_glob en (root_join (em_root en) root)))) (\<lambda>fs. Inr (map fst (filter snd fs)))"

definition qual :: "component \<Rightarrow> string \<Rightarrow> str \<Rightarrow> str" where
  "qual co leaf rel = co_artifact co @ lit leaf @ path_stem rel"

definition main_entry :: "str \<Rightarrow> str" where
  "main_entry m = m @ lit ''::main''"

section \<open>The unit and live tracks\<close>

text \<open>The jobs of one unit test: two builds, three runs (the memory check reuses the base build).\<close>

definition unit_jobs ::
    "emit_env \<Rightarrow> component \<Rightarrow> str list \<Rightarrow> str list \<Rightarrow> str \<Rightarrow> (job list \<times> job list) tool" where
  "unit_jobs en co srcs deps rel =
     bind_res (module_of en rel) (\<lambda>m.
       let q = qual co ''-unit-'' rel; entry = main_entry m;
           base = q @ lit ''#base''; asan = q @ lit ''#asan''
       in Inr ([src_build en base srcs deps entry rel False, src_build en asan srcs deps entry rel True],
               [plain_job (q @ lit ''#run-base'') [work base] [base],
                (plain_job (q @ lit ''#run-memcheck'') [work base] [base])\<lparr>j_wrap := Some (lit ''memcheck'')\<rparr>,
                plain_job (q @ lit ''#run-asan'') [work asan] [asan]]))"

definition live_build ::
    "emit_env \<Rightarrow> component \<Rightarrow> str list \<Rightarrow> str list \<Rightarrow> str \<Rightarrow> (str \<times> job list) tool" where
  "live_build en co srcs deps rel =
     bind_res (is_test_entry en rel) (\<lambda>ok.
      if \<not> ok then Inl (Exit_Error ''not an executable test entry'')
      else bind_res (module_of en rel) (\<lambda>m.
        let q = qual co ''-e2e-'' rel; entry = main_entry m; abs_rel = root_join (em_root en) rel
        in Inr (q, [src_build en (q @ lit ''#base'') srcs deps entry abs_rel False,
                    src_build en (q @ lit ''#asan'') srcs deps entry abs_rel True])))"

definition namespace :: "emit_env \<Rightarrow> string \<Rightarrow> str" where
  "namespace en lane = lit ''drift-test-'' @ em_nonce en @ lit ''-'' @ lit lane"

definition live_job :: "emit_env \<Rightarrow> component \<Rightarrow> string \<Rightarrow> str \<Rightarrow> job" where
  "live_job en co lane q =
     (let base = q @ lit ''#base''; asan = q @ lit ''#asan'';
          j = (if lane = ''asan'' then plain_job (q @ lit ''#run-asan'') [work asan] [asan]
               else if lane = ''memcheck''
               then (plain_job (q @ lit ''#run-memcheck'') [work base] [base])\<lparr>j_wrap := Some (lit ''memcheck'')\<rparr>
               else plain_job (q @ lit ''#run-base'') [work base] [base])
      in j\<lparr>j_env := [(co_namespace_var co, namespace en lane)]\<rparr>)"

text \<open>Lane by lane, in each lane every live test in its order, numbered along.\<close>

definition live_chain :: "emit_env \<Rightarrow> component \<Rightarrow> str list \<Rightarrow> job list" where
  "live_chain en co quals =
     serial_from (em_db_group en) 0
       (concat (map (\<lambda>lane. map (live_job en co lane) quals) [''base'', ''asan'', ''memcheck'']))"

text \<open>The three tracks of a component's \<open>emit_test\<close>.\<close>

definition component_tracks ::
    "emit_env \<Rightarrow> component \<Rightarrow> (job list \<times> job list \<times> job list) tool" where
  "component_tracks en co =
     bind_res (src_files (em_rglob en) (em_root en) (em_manifest en) (co_artifact co)) (\<lambda>srcs.
     bind_res (resolved_dep_flags en co) (\<lambda>deps.
     bind_res (entries en (co_unit_root co)) (\<lambda>rels.
     bind_res (map_res (unit_jobs en co srcs deps) rels) (\<lambda>unit.
     bind_res (map_res (live_build en co srcs deps) (co_live_tests co)) (\<lambda>live.
       Inr (concat (map fst unit) @ concat (map snd live), concat (map snd unit),
            live_chain en co (map fst live)))))))"

section \<open>What a plan promises the executor\<close>

definition build_ids :: "plan \<Rightarrow> str set" where
  "build_ids p = j_id ` set (jobs_of p ''build'')"

text \<open>Every job's needs are builds of the same plan.\<close>

definition needs_closed :: "plan \<Rightarrow> bool" where
  "needs_closed p \<longleftrightarrow> (\<forall>(name, jobs) \<in> set (plan_phases p). \<forall>j \<in> set jobs. set (j_needs j) \<subseteq> build_ids p)"

text \<open>The live jobs form one serial chain on one group, numbered 0, 1, 2 and so on.\<close>

definition live_serialized :: "str \<Rightarrow> plan \<Rightarrow> bool" where
  "live_serialized grp p \<longleftrightarrow>
     list_all (\<lambda>j. j_mode j = Some (lit ''serial'') \<and> j_group j = Some grp) (jobs_of p ''run-live'') \<and>
     map j_order (jobs_of p ''run-live'') = map Some [0..<length (jobs_of p ''run-live'')]"

text \<open>
  The contract of an emitter, as the root combiner uses it: phases by name, needs closed, the
  live jobs one serial chain.
\<close>

locale plan_emitter =
  fixes emit :: "'env \<Rightarrow> plan tool"
    and group_of :: "'env \<Rightarrow> str"
  assumes emit_needs: "emit en = Inr p \<Longrightarrow> needs_closed p"
    and emit_live: "emit en = Inr p \<Longrightarrow> live_serialized (group_of en) p"
    and emit_phases: "emit en = Inr p \<Longrightarrow>
      map fst (plan_phases p) \<in> {[lit ''build''], [lit ''build'', lit ''run-unit''],
        [lit ''build'', lit ''run-unit'', lit ''run-live'']}"
begin

lemma jobs_of_mem:
  assumes "emit en = Inr p" and "j \<in> set (jobs_of p name)"
  shows "set (j_needs j) \<subseteq> build_ids p"
proof -
  from assms(2) obtain n jobs where "(n, jobs) \<in> set (plan_phases p)" "j \<in> set jobs"
  proof (cases "find (\<lambda>(n, jobs). n = lit name) (plan_phases p)")
    case (Some x)
    with assms(2) that find_Some_iff_mem [OF Some] show thesis
      by (cases x) (simp add: jobs_of_def)
  qed (use assms(2) in \<open>simp add: jobs_of_def\<close>)
  with emit_needs [OF assms(1)] show ?thesis unfolding needs_closed_def by blast
qed

text \<open>A live chain keeps its promise when it is renumbered into a longer one.\<close>

lemma renumbered_needs:
  assumes "emit en = Inr p" and "j \<in> set (serial_from grp start (jobs_of p name))"
    and "build_ids p \<subseteq> builds"
  shows "set (j_needs j) \<subseteq> builds"
  using serial_from_mem [OF assms(2)] jobs_of_mem [OF assms(1), of _ name] assms(3) by fastforce

end

section \<open>The tracks keep the promises\<close>

lemma unit_jobs_needs:
  assumes "unit_jobs en co srcs deps rel = Inr (bs, rs)"
  shows "(\<forall>j \<in> set bs. j_needs j = []) \<and> (\<forall>j \<in> set rs. set (j_needs j) \<subseteq> j_id ` set bs)"
  using assms by (auto simp: unit_jobs_def Let_def bind_res_eq_Inr)

lemma live_build_ids:
  assumes "live_build en co srcs deps rel = Inr (q, bs)"
  shows "j_id ` set bs = {q @ lit ''#base'', q @ lit ''#asan''} \<and> (\<forall>j \<in> set bs. j_needs j = []) \<and>
    q = qual co ''-e2e-'' rel"
  using assms by (auto simp: live_build_def Let_def bind_res_eq_Inr split: if_splits)

lemma live_job_needs: "set (j_needs (live_job en co lane q)) \<subseteq> {q @ lit ''#base'', q @ lit ''#asan''}"
  by (simp add: live_job_def Let_def)

lemma live_chain_mem:
  assumes "j \<in> set (live_chain en co quals)"
  shows "j_group j = Some (em_db_group en) \<and> j_mode j = Some (lit ''serial'') \<and>
    (\<exists>q \<in> set quals. set (j_needs j) \<subseteq> {q @ lit ''#base'', q @ lit ''#asan''})"
proof -
  from serial_from_mem [OF assms [unfolded live_chain_def]] obtain i lane q where
    g: "j_group j = Some (em_db_group en)" "j_mode j = Some (lit ''serial'')"
    and "q \<in> set quals" and "i = live_job en co lane q" and "j_needs j = j_needs i"
    by auto
  with live_job_needs [of en co lane q] show ?thesis by auto
qed

lemma component_tracks_ok:
  assumes "component_tracks en co = Inr (bs, us, ls)"
  shows "(\<forall>j \<in> set bs. j_needs j = []) \<and> (\<forall>j \<in> set us. set (j_needs j) \<subseteq> j_id ` set bs) \<and>
    (\<forall>j \<in> set ls. set (j_needs j) \<subseteq> j_id ` set bs \<and> j_group j = Some (em_db_group en) \<and>
       j_mode j = Some (lit ''serial'')) \<and>
    map j_order ls = map Some [0..<length ls]"
proof -
  from assms obtain srcs deps rels unit live where
    u: "map_res (unit_jobs en co srcs deps) rels = Inr unit"
    and l: "map_res (live_build en co srcs deps) (co_live_tests co) = Inr live"
    and eq: "bs = concat (map fst unit) @ concat (map snd live)" "us = concat (map snd unit)"
      "ls = live_chain en co (map fst live)"
    by (auto simp: component_tracks_def bind_res_eq_Inr)
  have unit: "(\<forall>j \<in> set (fst x). j_needs j = []) \<and> (\<forall>j \<in> set (snd x). set (j_needs j) \<subseteq> j_id ` set (fst x))"
    if "x \<in> set unit" for x
    using map_res_memD [OF u that] unit_jobs_needs by (metis prod.collapse)
  have live: "j_id ` set (snd x) = {fst x @ lit ''#base'', fst x @ lit ''#asan''} \<and>
      (\<forall>j \<in> set (snd x). j_needs j = [])" if "x \<in> set live" for x
    using map_res_memD [OF l that] live_build_ids by (metis prod.collapse)
  have "\<forall>j \<in> set bs. j_needs j = []" using unit live by (auto simp: eq)
  moreover have "\<forall>j \<in> set us. set (j_needs j) \<subseteq> j_id ` set bs" using unit by (fastforce simp: eq)
  moreover have "set (j_needs j) \<subseteq> j_id ` set bs \<and> j_group j = Some (em_db_group en) \<and>
       j_mode j = Some (lit ''serial'')" if "j \<in> set ls" for j
  proof -
    from live_chain_mem [OF that [unfolded eq]] obtain x where x: "x \<in> set live"
      "set (j_needs j) \<subseteq> {fst x @ lit ''#base'', fst x @ lit ''#asan''}"
      "j_group j = Some (em_db_group en)" "j_mode j = Some (lit ''serial'')" by auto
    have "j_id ` set (snd x) \<subseteq> j_id ` set bs" using x(1) by (auto simp: eq)
    with live [OF x(1)] x(2-4) show ?thesis by auto
  qed
  moreover have "map j_order ls = map Some [0..<length ls]"
    by (simp only: eq live_chain_def serial_from_orders length_serial_from add_0)
  ultimately show ?thesis by blast
qed

end
