(* ===== verification/Emitters.thy ===== *)
theory Emitters
  imports Job_Plan
begin

text \<open>
  The three component emitters: \<open>singular/drift/tools/emit_test_plan.py\<close>,
  \<open>microflows/tools/emit_test_plan.py\<close> and \<open>integration/coordinator-singular/tools/emit_test_plan.py\<close>.
  Each is shown to keep the contract of \<open>plan_emitter\<close>; the combined plan rests on it.
\<close>

section \<open>Singular\<close>

definition SINGULAR :: component where
  "SINGULAR = \<lparr>co_artifact = lit ''singular'', co_unit_root = lit ''packages/singular/tests/unit'',
     co_live_tests = [lit ''packages/singular/tests/e2e/live_gateway_test.drift'',
       lit ''packages/singular/tests/fixtures/malformed_backend_test.drift''],
     co_namespace_var = lit ''SINGULAR_E2E_SVCGROUP''\<rparr>"

text \<open>The python beside \<open>MARIACHI_BIN\<close>, or the development fallback.\<close>

definition sp_python :: "emit_env \<Rightarrow> str option \<Rightarrow> str" where
  "sp_python en mariachi_bin =
     (case mariachi_bin of
        Some (c # cs) \<Rightarrow> root_join (path_parent (c # cs)) (lit ''python'')
      | _ \<Rightarrow> root_join (path_parent (path_parent (path_parent (em_root en))))
               (lit ''mariachi/.venv/bin/python''))"

definition singular_emit_test :: "emit_env \<times> str option \<Rightarrow> plan tool" where
  "singular_emit_test = (\<lambda>(en, mariachi_bin).
     bind_res (component_tracks en SINGULAR) (\<lambda>(build, run_unit, run_live).
       let sp = serial_job (em_db_group en) (length run_live)
                  ((plain_job (lit ''singular-sp-invariants'')
                     [sp_python en mariachi_bin,
                      root_join (em_root en) (lit ''packages/singular/tests/sql/sp_invariants_test.py'')] [])
                     \<lparr>j_needs_key := Some []\<rparr>)
       in Inr \<lparr>plan_name = lit ''test'', plan_phases =
            [(lit ''build'', build), (lit ''run-unit'', run_unit), (lit ''run-live'', run_live @ [sp])]\<rparr>))"

definition single_plan :: "str \<Rightarrow> job \<Rightarrow> job list \<Rightarrow> plan" where
  "single_plan name b runs =
     \<lparr>plan_name = name, plan_phases = (lit ''build'', [b]) #
        (if runs = [] then [] else [(lit ''run'', runs)])\<rparr>"

definition STRESS_SRC :: str where
  "STRESS_SRC = lit ''packages/singular/tests/stress/lease_contention_stress.drift''"

definition singular_emit_stress :: "emit_env \<Rightarrow> plan tool" where
  "singular_emit_stress en =
     bind_res (src_files (em_rglob en) (em_root en) (em_manifest en) (co_artifact SINGULAR)) (\<lambda>srcs.
     bind_res (resolved_dep_flags en SINGULAR) (\<lambda>deps.
     bind_res (module_of en STRESS_SRC) (\<lambda>m.
       Inr (single_plan (lit ''singular-stress'')
         (src_build en (lit ''singular-stress'') srcs deps (main_entry m) STRESS_SRC False)
         [serial_job (em_db_group en) 0
            (plain_job (lit ''singular-stress#run'') [work (lit ''singular-stress'')] [lit ''singular-stress''])]))))"

definition PERF_SRC :: str where
  "PERF_SRC = lit ''packages/singular/tests/perf/lease_cycle_perf.drift''"

definition singular_emit_perf :: "emit_env \<Rightarrow> plan tool" where
  "singular_emit_perf en =
     bind_res (src_files (em_rglob en) (em_root en) (em_manifest en) (co_artifact SINGULAR)) (\<lambda>srcs.
     bind_res (resolved_dep_flags en SINGULAR) (\<lambda>deps.
     bind_res (module_of en PERF_SRC) (\<lambda>m.
       Inr (single_plan (lit ''singular-perf'')
         (src_build en (lit ''singular-perf'') srcs deps (main_entry m) PERF_SRC False) []))))"

text \<open>\<open>emit_one\<close> and \<open>emit_compile\<close>, the same in both components.\<close>

fun is_sub :: "str \<Rightarrow> str \<Rightarrow> bool" where
  "is_sub u [] \<longleftrightarrow> u = []"
| "is_sub u (c # cs) \<longleftrightarrow> take (length u) (c # cs) = u \<or> is_sub u cs"

definition emit_one :: "emit_env \<Rightarrow> component \<Rightarrow> str \<Rightarrow> plan tool" where
  "emit_one en co rel =
     bind_res (is_test_entry en rel) (\<lambda>ok.
      if \<not> ok then Inl (Exit_Error ''not an executable test entry'')
      else
        bind_res (src_files (em_rglob en) (em_root en) (em_manifest en) (co_artifact co)) (\<lambda>srcs.
        bind_res (resolved_dep_flags en co) (\<lambda>deps.
        bind_res (module_of en rel) (\<lambda>m.
          let name = path_stem rel;
              run_job = plain_job (name @ lit ''#run'') [work name] [name];
              run_job' = (if is_sub (lit ''/tests/e2e/'') rel
                          then run_job\<lparr>j_env := [(co_namespace_var co, namespace en ''one'')]\<rparr> else run_job)
          in Inr (single_plan (lit ''one'')
               (src_build en name srcs deps (main_entry m) (root_join (em_root en) rel) False) [run_job'])))))"

definition emit_compile :: "emit_env \<Rightarrow> component \<Rightarrow> str \<Rightarrow> plan tool" where
  "emit_compile en co rel =
     bind_res (src_files (em_rglob en) (em_root en) (em_manifest en) (co_artifact co)) (\<lambda>srcs.
     bind_res (resolved_dep_flags en co) (\<lambda>deps.
       let abs_rel = root_join (em_root en) rel;
           extra = (if abs_rel \<in> set srcs then [] else [abs_rel])
       in Inr \<lparr>plan_name = lit ''compile'', plan_phases = [(lit ''compile'',
            [plain_job (lit ''compile-check'')
               ([lit ''{driftc}'', lit ''--target-word-bits'', lit ''64'', lit ''--package-root'', em_pkg_root en]
                  @ deps @ sanitize_flags False @ srcs @ extra) []])]\<rparr>))"

section \<open>Microflows\<close>

definition MICROFLOWS :: component where
  "MICROFLOWS = \<lparr>co_artifact = lit ''microflows'', co_unit_root = lit ''packages/microflows/tests/unit'',
     co_live_tests = [lit ''packages/microflows/tests/e2e/live_lease_test.drift'',
       lit ''packages/microflows/tests/e2e/live_reversal_test.drift'',
       lit ''packages/microflows/tests/e2e/live_call_test.drift'',
       lit ''packages/microflows/tests/e2e/live_args_test.drift''],
     co_namespace_var = lit ''MICROFLOWS_E2E_NS''\<rparr>"

definition microflows_emit_test :: "emit_env \<Rightarrow> plan tool" where
  "microflows_emit_test en =
     bind_res (component_tracks en MICROFLOWS) (\<lambda>(build, run_unit, run_live).
       Inr \<lparr>plan_name = lit ''test'', plan_phases =
         [(lit ''build'', build), (lit ''run-unit'', run_unit)] @
         (if run_live = [] then [] else [(lit ''run-live'', run_live)])\<rparr>)"

section \<open>Integration\<close>

record app =
  ap_out :: str
  ap_proj :: str
  ap_lib_proj :: str
  ap_local_lib :: str
  ap_artifact :: "str option"

definition APPS :: "app list" where
  "APPS =
     [\<lparr>ap_out = lit ''participant-stub'', ap_proj = lit ''microflows/participant-stub'',
       ap_lib_proj = lit ''singular/drift'', ap_local_lib = lit ''singular'', ap_artifact = None\<rparr>,
      \<lparr>ap_out = lit ''microflows-runner'', ap_proj = lit ''microflows/runner'',
       ap_lib_proj = lit ''microflows'', ap_local_lib = lit ''microflows'', ap_artifact = None\<rparr>,
      \<lparr>ap_out = lit ''uflowsd'', ap_proj = lit ''microflows/runner'',
       ap_lib_proj = lit ''microflows'', ap_local_lib = lit ''microflows'', ap_artifact = Some (lit ''uflowsd'')\<rparr>]"

record integ_env =
  ie_root :: str
  ie_pkg_root :: str
  ie_manifest :: "str \<Rightarrow> json tool"
  ie_glob :: "str \<Rightarrow> str list option"
  ie_cert :: cert_env

definition project_artifact :: "integ_env \<Rightarrow> str \<Rightarrow> str option \<Rightarrow> json tool" where
  "project_artifact ie project_root name =
     bind_res (ie_manifest ie project_root) (\<lambda>man.
     bind_res (json_get man ''artifacts'' (JArr [])) (\<lambda>arts.
       if falsy arts then Inl (Exit_Error ''no artifacts'')
       else case name of None \<Rightarrow> json_first arts | Some n \<Rightarrow> named_artifact arts n))"

definition manifest_src_files :: "integ_env \<Rightarrow> str \<Rightarrow> json \<Rightarrow> str list tool" where
  "manifest_src_files ie project_root art =
     bind_res (module_dirs art) (\<lambda>ds.
     let dirs = sorted_list_of_set ((\<lambda>d. if d = [] then dot else d) ` set ds)
      in bind_res (map_res (\<lambda>d.
             option_res (Exit_Error ''module source dir not found'')
               (ie_glob ie (root_join (root_join (ie_root ie) project_root) d))) dirs) (\<lambda>globs.
           let files = sorted_list_of_set (set (concat globs))
           in if files = [] then Inl (Exit_Error ''no .drift sources'') else Inr files))"

text \<open>\<open>_external_deps\<close>: all dependencies but the library compiled from source.\<close>

definition external_deps :: "integ_env \<Rightarrow> app \<Rightarrow> str \<Rightarrow> str list tool" where
  "external_deps ie app artifact_name =
     (let drift = root_join (root_join (ie_root ie) (ap_proj app)) (lit ''drift'')
      in dep_flags (ie_cert ie) (root_join drift (lit ''manifest.json'')) artifact_name
           (root_join drift (lit ''lock.json'')) {ap_local_lib app})"

definition integ_build_job :: "integ_env \<Rightarrow> app \<Rightarrow> job tool" where
  "integ_build_job ie app =
     bind_res (project_artifact ie (ap_proj app) (ap_artifact app)) (\<lambda>app_art.
     bind_res (project_artifact ie (ap_lib_proj app) (Some (ap_local_lib app))) (\<lambda>lib_art.
     bind_res (manifest_src_files ie (ap_lib_proj app) lib_art) (\<lambda>lib_srcs.
     bind_res (manifest_src_files ie (ap_proj app) app_art) (\<lambda>app_srcs.
     bind_res (bind_res (json_at app_art ''name'') json_text) (\<lambda>name.
     bind_res (external_deps ie app name) (\<lambda>deps.
     bind_res (bind_res (json_at app_art ''entry_point'') json_text) (\<lambda>entry_point.
       let trust = root_join (ie_root ie) (ap_proj app @ lit ''/drift/trust.json'');
           out = work (ap_out app)
       in Inr ((plain_job (ap_out app)
            ([lit ''{driftc}'', lit ''--target-word-bits'', lit ''64'', lit ''--trust-store'', trust,
              lit ''--package-root'', ie_pkg_root ie] @ deps @ [lit ''--entry'', entry_point]
              @ (lib_srcs @ app_srcs) @ [lit ''-o'', out]) [])\<lparr>j_out := Some out\<rparr>))))))))"

definition integ_emit_test :: "integ_env \<Rightarrow> plan tool" where
  "integ_emit_test ie =
     bind_res (map_res (integ_build_job ie) APPS) (\<lambda>jobs.
       Inr \<lparr>plan_name = lit ''coordinator-singular-build'', plan_phases = [(lit ''build'', jobs)]\<rparr>)"

section \<open>The contracts\<close>

lemma phase_names_neq [simp]:
  "lit ''run-unit'' \<noteq> lit ''build''" "lit ''run-live'' \<noteq> lit ''build''" "lit ''run-live'' \<noteq> lit ''run-unit''"
  "lit ''build'' \<noteq> lit ''run-live''" "lit ''run-unit'' \<noteq> lit ''run-live''"
  by simp_all

lemma singular_plan:
  assumes "singular_emit_test e = Inr p"
  obtains bs us ls sp where "component_tracks (fst e) SINGULAR = Inr (bs, us, ls)"
    "plan_phases p = [(lit ''build'', bs), (lit ''run-unit'', us),
       (lit ''run-live'', ls @ [serial_job (em_db_group (fst e)) (length ls) sp])]"
    "j_needs sp = []" "j_id sp = lit ''singular-sp-invariants''"
  using assms
  by (cases e) (auto simp: singular_emit_test_def bind_res_eq_Inr Let_def split: prod.splits)

lemma microflows_plan:
  assumes "microflows_emit_test e = Inr p"
  obtains bs us ls where "component_tracks e MICROFLOWS = Inr (bs, us, ls)"
    "plan_phases p = [(lit ''build'', bs), (lit ''run-unit'', us)] @
       (if ls = [] then [] else [(lit ''run-live'', ls)])"
  using assms by (auto simp: microflows_emit_test_def bind_res_eq_Inr split: prod.splits)

lemma integ_plan:
  assumes "integ_emit_test e = Inr p"
  obtains jobs where "map_res (integ_build_job e) APPS = Inr jobs"
    "plan_phases p = [(lit ''build'', jobs)]"
  using assms by (auto simp: integ_emit_test_def bind_res_eq_Inr)

lemma integ_build_job_id: "integ_build_job ie a = Inr j \<Longrightarrow> j_id j = ap_out a \<and> j_needs j = []"
  by (auto simp: integ_build_job_def bind_res_eq_Inr Let_def)

lemma integ_jobs:
  assumes "map_res (integ_build_job e) APPS = Inr jobs"
  shows "map j_id jobs = [lit ''participant-stub'', lit ''microflows-runner'', lit ''uflowsd'']"
    and "\<forall>j \<in> set jobs. j_needs j = []"
proof -
  have l: "list_all2 (\<lambda>a j. j_id j = ap_out a \<and> j_needs j = []) APPS jobs"
    using assms unfolding map_res_eq_Inr by (rule list_all2_mono) (rule integ_build_job_id)
  then have "map j_id jobs = map ap_out APPS"
    by (induction rule: list_all2_induct) auto
  then show "map j_id jobs = [lit ''participant-stub'', lit ''microflows-runner'', lit ''uflowsd'']"
    by (simp add: APPS_def)
  show "\<forall>j \<in> set jobs. j_needs j = []"
    using l by (auto dest: list_all2_mem2)
qed

interpretation singular: plan_emitter singular_emit_test "\<lambda>e. em_db_group (fst e)"
proof
  fix e p
  assume "singular_emit_test e = Inr p"
  then show "needs_closed p"
  proof (rule singular_plan)
    fix bs us ls sp
    assume t: "component_tracks (fst e) SINGULAR = Inr (bs, us, ls)"
      and p: "plan_phases p = [(lit ''build'', bs), (lit ''run-unit'', us),
       (lit ''run-live'', ls @ [serial_job (em_db_group (fst e)) (length ls) sp])]" "j_needs sp = []"
    from component_tracks_ok [OF t] p show ?thesis
      by (auto simp: needs_closed_def build_ids_def jobs_of_def)
  qed
next
  fix e p
  assume "singular_emit_test e = Inr p"
  then show "live_serialized (em_db_group (fst e)) p"
  proof (rule singular_plan)
    fix bs us ls sp
    assume t: "component_tracks (fst e) SINGULAR = Inr (bs, us, ls)"
      and p: "plan_phases p = [(lit ''build'', bs), (lit ''run-unit'', us),
       (lit ''run-live'', ls @ [serial_job (em_db_group (fst e)) (length ls) sp])]" "j_needs sp = []"
    from component_tracks_ok [OF t] p show ?thesis
      by (auto simp: live_serialized_def list_all_iff jobs_of_def)
  qed
next
  fix e p
  assume "singular_emit_test e = Inr p"
  then show "map fst (plan_phases p) \<in> {[lit ''build''], [lit ''build'', lit ''run-unit''],
        [lit ''build'', lit ''run-unit'', lit ''run-live'']}"
    by (rule singular_plan) simp
qed

interpretation microflows: plan_emitter microflows_emit_test em_db_group
proof
  fix e p
  assume "microflows_emit_test e = Inr p"
  then show "needs_closed p"
  proof (rule microflows_plan)
    fix bs us ls
    assume t: "component_tracks e MICROFLOWS = Inr (bs, us, ls)"
      and p: "plan_phases p = [(lit ''build'', bs), (lit ''run-unit'', us)] @
       (if ls = [] then [] else [(lit ''run-live'', ls)])"
    from component_tracks_ok [OF t] p show ?thesis
      by (auto simp: needs_closed_def build_ids_def jobs_of_def)
  qed
next
  fix e p
  assume "microflows_emit_test e = Inr p"
  then show "live_serialized (em_db_group e) p"
  proof (rule microflows_plan)
    fix bs us ls
    assume t: "component_tracks e MICROFLOWS = Inr (bs, us, ls)"
      and p: "plan_phases p = [(lit ''build'', bs), (lit ''run-unit'', us)] @
       (if ls = [] then [] else [(lit ''run-live'', ls)])"
    from component_tracks_ok [OF t] p show ?thesis
      by (auto simp: live_serialized_def list_all_iff jobs_of_def)
  qed
next
  fix e p
  assume "microflows_emit_test e = Inr p"
  then show "map fst (plan_phases p) \<in> {[lit ''build''], [lit ''build'', lit ''run-unit''],
        [lit ''build'', lit ''run-unit'', lit ''run-live'']}"
    by (rule microflows_plan) simp
qed

interpretation integration: plan_emitter integ_emit_test "\<lambda>_. []"
proof
  fix e p
  assume "integ_emit_test e = Inr p"
  then show "needs_closed p"
    by (rule integ_plan) (auto simp: needs_closed_def dest: integ_jobs(2))
next
  fix e p
  assume "integ_emit_test e = Inr p"
  then show "live_serialized [] p"
    by (rule integ_plan) (simp add: live_serialized_def jobs_of_def)
next
  fix e p
  assume "integ_emit_test e = Inr p"
  then show "map fst (plan_phases p) \<in> {[lit ''build''], [lit ''build'', lit ''run-unit''],
        [lit ''build'', lit ''run-unit'', lit ''run-live'']}"
    by (rule integ_plan) simp
qed

end
