(* ===== verification/Root_Plan.thy ===== *)
theory Root_Plan
  imports Emitters
begin

text \<open>
  The root combiner \<open>tools/emit_test_plan.py\<close>: one plan out of the three component plans, the
  runner's own jobs, the schema resets, the stored-procedure regressions and the coordinator
  harness.  Its properties are about the combined plan: every need is built in it, and the
  database-touching jobs form one serial chain in a fixed order.
\<close>

section \<open>Shell commands\<close>

text \<open>\<open>shlex.quote\<close>.\<close>

definition shell_safe :: "nat \<Rightarrow> bool" where
  "shell_safe c \<longleftrightarrow> (48 \<le> c \<and> c \<le> 57) \<or> (65 \<le> c \<and> c \<le> 90) \<or> (97 \<le> c \<and> c \<le> 122) \<or>
     c \<in> set (lit ''_@%+=:,./-'')"

definition shell_quote :: "str \<Rightarrow> str" where
  "shell_quote s =
     (if s = [] then lit [CHR 0x27, CHR 0x27]
      else if list_all shell_safe s then s
      else 39 # concat (map (\<lambda>c. if c = 39 then [39, 34, 39, 34, 39] else [c]) s) @ [39])"

definition shell_words :: "str list \<Rightarrow> str" where
  "shell_words argv = join_text (lit '' '') (map shell_quote argv)"

definition in_dir :: "str \<Rightarrow> str list \<Rightarrow> (str \<times> str) list \<Rightarrow> str list" where
  "in_dir dir_abs argv env =
     (let pre = (if env = [] then []
                 else join_text (lit '' '') (map (\<lambda>(k, v). k @ lit ''='' @ shell_quote v) env) @ lit '' '')
      in [lit ''bash'', lit ''-c'',
          lit ''cd '' @ shell_quote dir_abs @ lit '' && '' @ pre @ shell_words argv])"

section \<open>Environment\<close>

record root_env =
  re_root :: str
  re_python :: str
  re_environ :: "(str, str) dict"
  re_singular :: "emit_env \<times> str option"
  re_microflows :: emit_env
  re_integration :: integ_env

definition re_get :: "root_env \<Rightarrow> string \<Rightarrow> string \<Rightarrow> str" where
  "re_get re name dflt =
     (case dict_get (re_environ re) (lit name) of None \<Rightarrow> lit dflt | Some v \<Rightarrow> v)"

definition re_db_group :: "root_env \<Rightarrow> str" where
  "re_db_group re = re_get re ''DB_HELD_GROUP'' ''mariadb-mdb114-a''"

definition singular_db_root :: "root_env \<Rightarrow> str" where
  "singular_db_root re = root_join (re_root re) (lit ''singular'')"

definition microflows_root :: "root_env \<Rightarrow> str" where
  "microflows_root re = root_join (re_root re) (lit ''microflows'')"

definition integration_root :: "root_env \<Rightarrow> str" where
  "integration_root re = root_join (re_root re) (lit ''integration/coordinator-singular'')"

definition runner_root :: "root_env \<Rightarrow> str" where
  "runner_root re = root_join (microflows_root re) (lit ''runner'')"

definition mariachi_bin :: "root_env \<Rightarrow> str tool" where
  "mariachi_bin re =
     (case dict_get (re_environ re) (lit ''MARIACHI_BIN'') of
        Some (c # cs) \<Rightarrow> Inr (c # cs)
      | _ \<Rightarrow> Inl (Exit_Error ''MARIACHI_BIN not set''))"

section \<open>The runner's jobs\<close>

definition ir_jobs :: "root_env \<Rightarrow> string \<Rightarrow> string \<times> bool \<Rightarrow> job \<times> job" where
  "ir_jobs re t variant =
     (let src = root_join (runner_root re) (lit ''src/ir.drift'');
          test_src = root_join (runner_root re) (lit ''tests/unit/'' @ lit t @ lit ''.drift'');
          out_name = lit ''runner-'' @ lit t @ lit ''#'' @ lit (fst variant);
          out = work out_name
      in ((plain_job out_name
            [lit ''{driftc}'', lit ''--target-word-bits'', lit ''64'', lit ''--sanitize'',
             if snd variant then lit ''address'' else lit ''none'', lit ''--entry'',
             lit ''microflows.runner.tests.'' @ lit t @ lit ''::main'', src, test_src, lit ''-o'', out] [])
           \<lparr>j_out := Some out\<rparr>,
          plain_job (out_name @ lit ''#run'') [out] [out_name]))"

definition runner_ir_jobs :: "root_env \<Rightarrow> job list \<times> job list" where
  "runner_ir_jobs re =
     (let js = concat (map (\<lambda>t. map (ir_jobs re t) [(''base'', False), (''asan'', True)])
                 [''ir_graph_test'', ''ir_exec_test'', ''strict_json_test''])
      in (map fst js, map snd js))"

definition runner_fixture_jobs :: "root_env \<Rightarrow> str \<Rightarrow> job list" where
  "runner_fixture_jobs re runner_bin_out =
     map (\<lambda>(script, jid). plain_job (lit jid)
            [re_python re, root_join (runner_root re) (lit ''tests/'' @ lit script), lit ''--bin'', runner_bin_out]
            [lit ''microflows-runner''])
       [(''run_parser_fixtures.py'', ''runner-parser-fixtures''),
        (''run_manifest_fixtures.py'', ''runner-manifest-fixtures'')]"

section \<open>Jobs on the database\<close>

definition mariachi_argv :: "root_env \<Rightarrow> str \<Rightarrow> string \<Rightarrow> string list \<Rightarrow> str list tool" where
  "mariachi_argv re schema_template schema extra =
     bind_res (mariachi_bin re) (\<lambda>bin.
       Inr ([bin, lit ''--schema-template'', schema_template,
             lit ''--host'', re_get re ''DB_HOST'' ''127.0.0.1'',
             lit ''--port'', re_get re ''DB_PORT'' ''34214'',
             lit ''--user'', re_get re ''DB_USER'' ''root'',
             lit ''--password-env'', lit ''MDB_ROOT_PWD''] @ map lit extra @ [lit ''--schema'', lit schema]))"

definition two_step_job :: "str \<Rightarrow> str list tool \<Rightarrow> str list tool \<Rightarrow> job tool" where
  "two_step_job jid first second =
     bind_res first (\<lambda>a. bind_res second (\<lambda>b.
       Inr (plain_job jid
         [lit ''bash'', lit ''-c'', join_text (lit '' && '') [shell_words a, shell_words b]] [])))"

definition reset_singular_job :: "root_env \<Rightarrow> job tool" where
  "reset_singular_job re =
     two_step_job (lit ''reset-singular-schema'')
       (mariachi_argv re (root_join (singular_db_root re) (lit ''db'')) ''singular''
          [''apply'', ''--env=development'', ''--allow-destructive'', ''--destroy-database''])
       (mariachi_argv re (root_join (singular_db_root re) (lit ''db-tests/malformed'')) ''singular_malformed''
          [''apply'', ''--env=development'', ''--allow-destructive'', ''--destroy-database''])"

definition reset_microflows_job :: "root_env \<Rightarrow> job tool" where
  "reset_microflows_job re =
     two_step_job (lit ''reset-microflows-schema'')
       (mariachi_argv re (root_join (microflows_root re) (lit ''db'')) ''microflows''
          [''apply'', ''--env=development'', ''--allow-destructive'', ''--destroy-database''])
       (mariachi_argv re (root_join (microflows_root re) (lit ''db-tests/seed'')) ''microflows_test''
          [''apply'', ''--env'', ''development'', ''--allow-destructive'', ''--destroy-database''])"

definition reset_coordinator_fixtures_job :: "root_env \<Rightarrow> job tool" where
  "reset_coordinator_fixtures_job re =
     two_step_job (lit ''reset-coordinator-fixtures'')
       (mariachi_argv re (root_join (singular_db_root re) (lit ''db'')) ''singular''
          [''apply'', ''--env=development'', ''--allow-destructive'', ''--destroy-database''])
       (mariachi_argv re (root_join (microflows_root re) (lit ''db-tests/coordinator'')) ''microflows''
          [''scenario'', ''--name'', ''coordinator-fixtures''])"

definition sp_regression_jobs :: "root_env \<Rightarrow> str \<Rightarrow> job list tool" where
  "sp_regression_jobs re runner_bin_out =
     bind_res (mariachi_bin re) (\<lambda>bin.
       let py = root_join (path_parent bin) (lit ''python''); dir = microflows_root re
       in Inr
         [plain_job (lit ''microflows-sp-operation-regression'')
            (in_dir dir [py, lit ''db-tests/sp_operation_test.py''] []) [],
          plain_job (lit ''microflows-sp-call-regression'')
            (in_dir dir [py, lit ''db-tests/sp_call_test.py''] []) [],
          plain_job (lit ''microflows-call-integration-regression'')
            (in_dir dir [py, lit ''db-tests/call_integration_test.py'']
               [(lit ''MF_RUNNER_BIN'', runner_bin_out)]) [lit ''microflows-runner'']])"

definition coordinator_harness_job :: "root_env \<Rightarrow> str \<Rightarrow> str \<Rightarrow> str \<Rightarrow> job" where
  "coordinator_harness_job re stub_out runner_out service_out =
     plain_job (lit ''coordinator-singular-harness'')
       (in_dir (integration_root re) [re_python re, lit ''test.py'']
          [(lit ''STUB_BIN'', stub_out), (lit ''RUNNER_BIN'', runner_out), (lit ''SERVICE_BIN'', service_out)])
       [lit ''participant-stub'', lit ''microflows-runner'', lit ''uflowsd'']"

section \<open>The combined plan\<close>

text \<open>
  \<open>_reordered\<close> gives a component's live jobs the shared group and the next numbers; the appends
  of \<open>run_live\<close> number the other jobs along, so the whole chain is numbered from 0.
\<close>

definition root_emit_test :: "root_env \<Rightarrow> plan tool" where
  "root_emit_test re =
     bind_res (singular_emit_test (re_singular re)) (\<lambda>singular_plan.
     bind_res (microflows_emit_test (re_microflows re)) (\<lambda>microflows_plan.
     bind_res (integ_emit_test (re_integration re)) (\<lambda>integration_plan.
       let (ir_build, ir_run_unit) = runner_ir_jobs re;
           build = jobs_of singular_plan ''build'' @ jobs_of microflows_plan ''build''
             @ jobs_of integration_plan ''build'' @ ir_build;
           run_unit = jobs_of singular_plan ''run-unit'' @ jobs_of microflows_plan ''run-unit''
             @ ir_run_unit @ runner_fixture_jobs re (work (lit ''microflows-runner''))
             @ [plain_job (lit ''cert-deps-floor-test'')
                  [re_python re, root_join (re_root re) (lit ''tools/tests/test_cert_deps_floor.py'')] []]
       in bind_res (reset_singular_job re) (\<lambda>reset_s.
          bind_res (reset_microflows_job re) (\<lambda>reset_m.
          bind_res (sp_regression_jobs re (work (lit ''microflows-runner''))) (\<lambda>sps.
          bind_res (reset_coordinator_fixtures_job re) (\<lambda>reset_c.
            let run_live = serial_from (re_db_group re) 0
                  ([reset_s, reset_m] @ jobs_of singular_plan ''run-live''
                     @ jobs_of microflows_plan ''run-live'' @ sps
                     @ [reset_c, coordinator_harness_job re (work (lit ''participant-stub''))
                                   (work (lit ''microflows-runner'')) (work (lit ''uflowsd''))])
            in Inr \<lparr>plan_name = lit ''root-combined-test'', plan_phases =
                 [(lit ''build'', build), (lit ''run-unit'', run_unit), (lit ''run-live'', run_live)]\<rparr>)))))))"

section \<open>The version gate\<close>

text \<open>
  \<open>re.search\<close> for the constant: the first place where the text before the opening quote is
  followed by a non-empty run without quotes, a quote and a semicolon.
\<close>

definition version_prefix :: str where
  "version_prefix = lit ''const RUNNER_VERSION: String = '' @ [34]"

fun runner_version :: "str \<Rightarrow> str option" where
  "runner_version [] = None"
| "runner_version (c # cs) =
     (let here = c # cs; rest = drop (length version_prefix) here;
          body = takeWhile (\<lambda>x. x \<noteq> 34) rest
      in if take (length version_prefix) here = version_prefix \<and> body \<noteq> [] \<and>
            take 2 (drop (length body) rest) = [34, 59]
         then Some body else runner_version cs)"

definition check_version_sync :: "json tool \<Rightarrow> str tool \<Rightarrow> unit tool" where
  "check_version_sync manifest source =
     bind_res manifest (\<lambda>m.
     bind_res (bind_res (json_at m ''artifacts'') json_items) (\<lambda>arts.
     bind_res (bind_res (find_named (lit ''uflowsd'') arts) (option_res Stop_Iteration)) (\<lambda>uflowsd.
     bind_res source (\<lambda>src.
     bind_res (option_res (Exit_Error ''RUNNER_VERSION constant not found'') (runner_version src)) (\<lambda>v.
     bind_res (json_at uflowsd ''version'') (\<lambda>version.
       if version \<noteq> JStr v then Inl (Exit_Error ''version drift'') else Inr ()))))))"

section \<open>Properties\<close>

lemma root_plan:
  assumes "root_emit_test re = Inr p"
  obtains sp mp ip rs rm sps rc where
    "singular_emit_test (re_singular re) = Inr sp" "microflows_emit_test (re_microflows re) = Inr mp"
    "integ_emit_test (re_integration re) = Inr ip" "reset_singular_job re = Inr rs"
    "reset_microflows_job re = Inr rm" "sp_regression_jobs re (work (lit ''microflows-runner'')) = Inr sps"
    "reset_coordinator_fixtures_job re = Inr rc"
    "jobs_of p ''build'' = jobs_of sp ''build'' @ jobs_of mp ''build'' @ jobs_of ip ''build'' @ fst (runner_ir_jobs re)"
    "jobs_of p ''run-unit'' = jobs_of sp ''run-unit'' @ jobs_of mp ''run-unit'' @ snd (runner_ir_jobs re)
       @ runner_fixture_jobs re (work (lit ''microflows-runner''))
       @ [plain_job (lit ''cert-deps-floor-test'')
            [re_python re, root_join (re_root re) (lit ''tools/tests/test_cert_deps_floor.py'')] []]"
    "jobs_of p ''run-live'' = serial_from (re_db_group re) 0
       ([rs, rm] @ jobs_of sp ''run-live'' @ jobs_of mp ''run-live'' @ sps @
        [rc, coordinator_harness_job re (work (lit ''participant-stub''))
               (work (lit ''microflows-runner'')) (work (lit ''uflowsd''))])"
    "plan_phases p = [(lit ''build'', jobs_of p ''build''), (lit ''run-unit'', jobs_of p ''run-unit''),
       (lit ''run-live'', jobs_of p ''run-live'')]"
proof -
  from assms obtain sp mp ip rs rm sps rc where
    parts: "singular_emit_test (re_singular re) = Inr sp" "microflows_emit_test (re_microflows re) = Inr mp"
      "integ_emit_test (re_integration re) = Inr ip" "reset_singular_job re = Inr rs"
      "reset_microflows_job re = Inr rm" "sp_regression_jobs re (work (lit ''microflows-runner'')) = Inr sps"
      "reset_coordinator_fixtures_job re = Inr rc"
    unfolding root_emit_test_def Let_def case_prod_unfold bind_res_eq_Inr by blast
  from assms have "plan_phases p = [(lit ''build'', jobs_of sp ''build'' @ jobs_of mp ''build'' @ jobs_of ip ''build''
       @ fst (runner_ir_jobs re)),
     (lit ''run-unit'', jobs_of sp ''run-unit'' @ jobs_of mp ''run-unit'' @ snd (runner_ir_jobs re)
       @ runner_fixture_jobs re (work (lit ''microflows-runner''))
       @ [plain_job (lit ''cert-deps-floor-test'')
            [re_python re, root_join (re_root re) (lit ''tools/tests/test_cert_deps_floor.py'')] []]),
     (lit ''run-live'', serial_from (re_db_group re) 0
       ([rs, rm] @ jobs_of sp ''run-live'' @ jobs_of mp ''run-live'' @ sps @
        [rc, coordinator_harness_job re (work (lit ''participant-stub''))
               (work (lit ''microflows-runner'')) (work (lit ''uflowsd''))]))]"
    unfolding root_emit_test_def Let_def case_prod_unfold parts bind_res_simps by auto
  then show thesis
    by (intro that [OF parts]) (simp_all only: jobs_of_def, simp_all)
qed


lemma two_step_job_simps: "two_step_job i a b = Inr j \<Longrightarrow> j_id j = i \<and> j_needs j = []"
  by (auto simp: two_step_job_def bind_res_eq_Inr)

lemma reset_jobs:
  "reset_singular_job re = Inr j \<Longrightarrow> j_id j = lit ''reset-singular-schema'' \<and> j_needs j = []"
  "reset_microflows_job re = Inr j \<Longrightarrow> j_id j = lit ''reset-microflows-schema'' \<and> j_needs j = []"
  "reset_coordinator_fixtures_job re = Inr j \<Longrightarrow> j_id j = lit ''reset-coordinator-fixtures'' \<and> j_needs j = []"
  unfolding reset_singular_job_def reset_microflows_job_def reset_coordinator_fixtures_job_def
  by (rule two_step_job_simps; assumption)+

lemma sp_jobs:
  assumes "sp_regression_jobs re out = Inr sps"
  shows "map j_id sps = [lit ''microflows-sp-operation-regression'', lit ''microflows-sp-call-regression'',
      lit ''microflows-call-integration-regression'']"
    and "\<forall>j \<in> set sps. set (j_needs j) \<subseteq> {lit ''microflows-runner''}"
  using assms by (auto simp: sp_regression_jobs_def bind_res_eq_Inr Let_def)

lemma runner_ir_jobs_needs:
  "j \<in> set (snd (runner_ir_jobs re)) \<Longrightarrow> set (j_needs j) \<subseteq> j_id ` set (fst (runner_ir_jobs re))"
  by (auto simp: runner_ir_jobs_def ir_jobs_def Let_def)

lemma runner_ir_jobs_build:
  "j \<in> set (fst (runner_ir_jobs re)) \<Longrightarrow> j_needs j = [] \<and> (\<exists>r. j_id j = lit ''runner-'' @ r)"
  by (auto simp: runner_ir_jobs_def ir_jobs_def Let_def)

lemma track_ids:
  assumes "component_tracks en co = Inr (bs, us, ls)" and "j \<in> set bs"
  shows "\<exists>leaf \<in> {''-unit-'', ''-e2e-''}. \<exists>r. j_id j = co_artifact co @ lit leaf @ r"
proof -
  from assms(1) obtain srcs deps rels unit live where
    u: "map_res (unit_jobs en co srcs deps) rels = Inr unit"
    and l: "map_res (live_build en co srcs deps) (co_live_tests co) = Inr live"
    and bs: "bs = concat (map fst unit) @ concat (map snd live)"
    by (auto simp: component_tracks_def bind_res_eq_Inr)
  from assms(2) bs consider x where "x \<in> set unit" "j \<in> set (fst x)" | x where "x \<in> set live" "j \<in> set (snd x)"
    by auto
  then show ?thesis
  proof cases
    case (1 x)
    from map_res_memD [OF u 1(1)] 1(2) show ?thesis
      by (cases x) (auto simp: unit_jobs_def Let_def bind_res_eq_Inr qual_def)
  next
    case (2 x)
    from map_res_memD [OF l 2(1)] 2(2) show ?thesis
      by (cases x) (auto simp: live_build_def Let_def bind_res_eq_Inr qual_def split: if_splits)
  qed
qed

text \<open>
  Both component emitters keep the executor's contract: in the plan of Singular and in the
  plan of Microflows every job needs only builds of that plan, and the live jobs are one
  serial chain on the database group, numbered from 0 without gaps.
\<close>

theorem component_plans_keep_contract:
  "(singular_emit_test e = Inr p \<longrightarrow> needs_closed p \<and> live_serialized (em_db_group (fst e)) p) \<and>
   (microflows_emit_test en = Inr q \<longrightarrow> needs_closed q \<and> live_serialized (em_db_group en) q)"
  using singular.emit_needs singular.emit_live microflows.emit_needs microflows.emit_live by blast

text \<open>
  The combined live phase is one serial chain on the held group, numbered from 0 without
  gaps, in the order the comments promise: both schema resets, Singular's live jobs in their
  own order, then Microflows's, the three stored-procedure regressions, and strictly last the
  reset to the coordinator fixtures and the harness.
\<close>

theorem combined_chain_order:
  assumes "root_emit_test re = Inr p"
  shows "live_serialized (re_db_group re) p \<and>
    (\<exists>sp mp. singular_emit_test (re_singular re) = Inr sp \<and> microflows_emit_test (re_microflows re) = Inr mp \<and>
      map j_id (jobs_of p ''run-live'') =
        [lit ''reset-singular-schema'', lit ''reset-microflows-schema''] @
        map j_id (jobs_of sp ''run-live'') @ map j_id (jobs_of mp ''run-live'') @
        [lit ''microflows-sp-operation-regression'', lit ''microflows-sp-call-regression'',
         lit ''microflows-call-integration-regression'', lit ''reset-coordinator-fixtures'',
         lit ''coordinator-singular-harness''])"
  using assms
proof (rule root_plan)
  fix sp mp ip rs rm sps rc
  assume parts: "singular_emit_test (re_singular re) = Inr sp" "microflows_emit_test (re_microflows re) = Inr mp"
    "reset_singular_job re = Inr rs" "reset_microflows_job re = Inr rm"
    "sp_regression_jobs re (work (lit ''microflows-runner'')) = Inr sps"
    "reset_coordinator_fixtures_job re = Inr rc"
    and live: "jobs_of p ''run-live'' = serial_from (re_db_group re) 0
       ([rs, rm] @ jobs_of sp ''run-live'' @ jobs_of mp ''run-live'' @ sps @
        [rc, coordinator_harness_job re (work (lit ''participant-stub''))
               (work (lit ''microflows-runner'')) (work (lit ''uflowsd''))])"
  have "live_serialized (re_db_group re) p"
    unfolding live_serialized_def live list_all_iff serial_from_orders length_serial_from add_0
    using serial_from_mem by blast
  moreover have "map j_id (jobs_of p ''run-live'') =
        [lit ''reset-singular-schema'', lit ''reset-microflows-schema''] @
        map j_id (jobs_of sp ''run-live'') @ map j_id (jobs_of mp ''run-live'') @
        [lit ''microflows-sp-operation-regression'', lit ''microflows-sp-call-regression'',
         lit ''microflows-call-integration-regression'', lit ''reset-coordinator-fixtures'',
         lit ''coordinator-singular-harness'']"
    unfolding live serial_from_same map_append sp_jobs(1) [OF parts(5)]
    using reset_jobs(1) [OF parts(3)] reset_jobs(2) [OF parts(4)] reset_jobs(3) [OF parts(6)]
    by (simp add: coordinator_harness_job_def)
  ultimately show ?thesis using parts(1,2) by blast
qed

lemma integ_builds:
  assumes "integ_emit_test ie = Inr ip"
  shows "build_ids ip = {lit ''participant-stub'', lit ''microflows-runner'', lit ''uflowsd''}"
proof -
  from assms obtain jobs where "map j_id (jobs_of ip ''build'') =
      [lit ''participant-stub'', lit ''microflows-runner'', lit ''uflowsd'']"
    by (rule integ_plan) (auto simp: jobs_of_def dest: integ_jobs(1))
  then show ?thesis
    by (auto simp: build_ids_def simp flip: set_map)
qed

lemma combined_builds:
  assumes "root_emit_test re = Inr p"
  shows "singular_emit_test (re_singular re) = Inr sp \<Longrightarrow> build_ids sp \<subseteq> build_ids p"
    and "microflows_emit_test (re_microflows re) = Inr mp \<Longrightarrow> build_ids mp \<subseteq> build_ids p"
    and "integ_emit_test (re_integration re) = Inr ip \<Longrightarrow> build_ids ip \<subseteq> build_ids p"
    and "j_id ` set (fst (runner_ir_jobs re)) \<subseteq> build_ids p"
    and "{lit ''participant-stub'', lit ''microflows-runner'', lit ''uflowsd''} \<subseteq> build_ids p"
proof -
  from assms obtain sp' mp' ip' where parts: "singular_emit_test (re_singular re) = Inr sp'"
    "microflows_emit_test (re_microflows re) = Inr mp'" "integ_emit_test (re_integration re) = Inr ip'"
    and build: "jobs_of p ''build'' = jobs_of sp' ''build'' @ jobs_of mp' ''build'' @ jobs_of ip' ''build''
       @ fst (runner_ir_jobs re)"
    by (rule root_plan)
  show "singular_emit_test (re_singular re) = Inr sp \<Longrightarrow> build_ids sp \<subseteq> build_ids p"
    and "microflows_emit_test (re_microflows re) = Inr mp \<Longrightarrow> build_ids mp \<subseteq> build_ids p"
    and "integ_emit_test (re_integration re) = Inr ip \<Longrightarrow> build_ids ip \<subseteq> build_ids p"
    and "j_id ` set (fst (runner_ir_jobs re)) \<subseteq> build_ids p"
    using parts by (auto simp: build_ids_def build)
  have "build_ids ip' \<subseteq> build_ids p" by (auto simp: build_ids_def build)
  then show "{lit ''participant-stub'', lit ''microflows-runner'', lit ''uflowsd''} \<subseteq> build_ids p"
    by (simp only: integ_builds [OF parts(3)])
qed

lemma component_needs:
  assumes "root_emit_test re = Inr p"
  shows "singular_emit_test (re_singular re) = Inr sp \<Longrightarrow> j \<in> set (jobs_of sp name) \<Longrightarrow> set (j_needs j) \<subseteq> build_ids p"
    and "microflows_emit_test (re_microflows re) = Inr mp \<Longrightarrow> j \<in> set (jobs_of mp name) \<Longrightarrow> set (j_needs j) \<subseteq> build_ids p"
    and "integ_emit_test (re_integration re) = Inr ip \<Longrightarrow> j \<in> set (jobs_of ip name) \<Longrightarrow> set (j_needs j) \<subseteq> build_ids p"
  using combined_builds(1-3) [OF assms] singular.jobs_of_mem microflows.jobs_of_mem integration.jobs_of_mem
  by (meson subset_trans)+

lemma combined_needs:
  assumes "root_emit_test re = Inr p"
  shows "j \<in> set (jobs_of p ''build'') \<Longrightarrow> set (j_needs j) \<subseteq> build_ids p" (is "?b \<Longrightarrow> ?ok")
    and "j \<in> set (jobs_of p ''run-unit'') \<Longrightarrow> set (j_needs j) \<subseteq> build_ids p" (is "?u \<Longrightarrow> ?ok")
    and "j \<in> set (jobs_of p ''run-live'') \<Longrightarrow> set (j_needs j) \<subseteq> build_ids p" (is "?l \<Longrightarrow> ?ok")
proof -
  note needs = component_needs [OF assms]
  note builds = combined_builds(4,5) [OF assms]
  have fixture: "set (j_needs i) \<subseteq> build_ids p"
    if "i \<in> set (runner_fixture_jobs re (work (lit ''microflows-runner'')))" for i
    using that builds(2) by (auto simp: runner_fixture_jobs_def)
  have ir: "set (j_needs i) \<subseteq> build_ids p" if "i \<in> set (snd (runner_ir_jobs re))" for i
    using runner_ir_jobs_needs [OF that] builds(1) by blast
  from assms show "?b \<Longrightarrow> ?ok"
    by (rule root_plan) (use needs runner_ir_jobs_build in fastforce)
  from assms show "?u \<Longrightarrow> ?ok"
    by (rule root_plan) (use needs fixture ir in fastforce)
  from assms show "?l \<Longrightarrow> ?ok"
  proof (rule root_plan)
    fix sp mp ip rs rm sps rc
    assume parts: "singular_emit_test (re_singular re) = Inr sp" "microflows_emit_test (re_microflows re) = Inr mp"
      "reset_singular_job re = Inr rs" "reset_microflows_job re = Inr rm"
      "sp_regression_jobs re (work (lit ''microflows-runner'')) = Inr sps" "reset_coordinator_fixtures_job re = Inr rc"
      and live: "jobs_of p ''run-live'' = serial_from (re_db_group re) 0
       ([rs, rm] @ jobs_of sp ''run-live'' @ jobs_of mp ''run-live'' @ sps @
        [rc, coordinator_harness_job re (work (lit ''participant-stub''))
               (work (lit ''microflows-runner'')) (work (lit ''uflowsd''))])"
    have "j_needs rs = []" "j_needs rm = []" "j_needs rc = []"
      using reset_jobs parts(3,4,6) by blast+
    moreover have "set (j_needs i) \<subseteq> build_ids p" if "i \<in> set sps" for i
      using sp_jobs(2) [OF parts(5)] builds(2) that by blast
    moreover have "set (j_needs (coordinator_harness_job re a b c)) \<subseteq> build_ids p" for a b c
      using builds(2) by (simp add: coordinator_harness_job_def)
    ultimately have "set (j_needs i) \<subseteq> build_ids p"
      if "i \<in> set ([rs, rm] @ jobs_of sp ''run-live'' @ jobs_of mp ''run-live'' @ sps @
        [rc, coordinator_harness_job re (work (lit ''participant-stub''))
               (work (lit ''microflows-runner'')) (work (lit ''uflowsd''))])" for i
      using that needs(1) [OF parts(1), of i "''run-live''"] needs(2) [OF parts(2), of i "''run-live''"]
      by (simp only: set_append set_simps Un_iff insert_iff empty_iff) (elim disjE; simp)
    moreover assume ?l
    ultimately show ?ok using serial_from_mem [of j] unfolding live by metis
  qed
qed

text \<open>The builds the combined plan names itself: the three applications and the runner's own tests.\<close>

definition own_builds :: "str list" where
  "own_builds = map lit [''participant-stub'', ''microflows-runner'', ''uflowsd'',
     ''runner-ir_graph_test#base'', ''runner-ir_graph_test#asan'', ''runner-ir_exec_test#base'',
     ''runner-ir_exec_test#asan'', ''runner-strict_json_test#base'', ''runner-strict_json_test#asan'']"

lemma component_id_not_own:
  assumes "x = lit ''singular'' \<or> x = lit ''microflows''" and "leaf \<in> {''-unit-'', ''-e2e-''}"
  shows "x @ lit leaf @ r \<notin> set own_builds"
  using assms by (elim disjE insertE emptyE) (simp_all add: own_builds_def lit_def)

lemma component_builds_not_own:
  "singular_emit_test e = Inr sp \<Longrightarrow> set (map j_id (jobs_of sp ''build'')) \<inter> set own_builds = {}"
  "microflows_emit_test en = Inr mp \<Longrightarrow> set (map j_id (jobs_of mp ''build'')) \<inter> set own_builds = {}"
proof -
  have none: "set (map j_id bs) \<inter> set own_builds = {}"
    if t: "component_tracks en co = Inr (bs, us, ls)" and co: "co_artifact co = lit ''singular'' \<or> co_artifact co = lit ''microflows''"
    for en co bs us ls
  proof -
    have "j_id j \<notin> set own_builds" if "j \<in> set bs" for j
    proof -
      from track_ids [OF t that] obtain leaf r where
        "leaf \<in> {''-unit-'', ''-e2e-''}" "j_id j = co_artifact co @ lit leaf @ r" by blast
      with component_id_not_own [OF co] show ?thesis by simp
    qed
    then show ?thesis by auto
  qed
  show "singular_emit_test e = Inr sp \<Longrightarrow> set (map j_id (jobs_of sp ''build'')) \<inter> set own_builds = {}"
    by (erule singular_plan) (use none in \<open>simp add: jobs_of_def SINGULAR_def\<close>)
  show "microflows_emit_test en = Inr mp \<Longrightarrow> set (map j_id (jobs_of mp ''build'')) \<inter> set own_builds = {}"
    by (erule microflows_plan) (use none in \<open>simp add: jobs_of_def MICROFLOWS_def\<close>)
qed

lemma integ_build_names:
  assumes "integ_emit_test ie = Inr ip"
  shows "map j_id (jobs_of ip ''build'') = [lit ''participant-stub'', lit ''microflows-runner'', lit ''uflowsd'']"
  using assms by (rule integ_plan) (auto simp: jobs_of_def dest: integ_jobs(1))

lemma ir_build_names: "map j_id (fst (runner_ir_jobs re)) = drop 3 own_builds"
  by (simp add: runner_ir_jobs_def ir_jobs_def own_builds_def Let_def flip: lit_append)

lemma own_builds_once: "x \<in> set own_builds \<Longrightarrow> count_list own_builds x = 1"
proof -
  have "distinct own_builds" by (simp add: own_builds_def)
  moreover have "distinct ys \<Longrightarrow> y \<in> set ys \<Longrightarrow> count_list ys y = 1" for ys and y :: str
    by (induction ys) auto
  ultimately show "x \<in> set own_builds \<Longrightarrow> count_list own_builds x = 1" by blast
qed

text \<open>
  C39. The combined plan is self-contained: every job needs only binaries the plan itself
  builds; and nothing several components share is compiled twice: the three applications
  (the participant stub, the runner and the service) and the runner's own tests, each in both
  variants, are each built by exactly one job of the plan.
\<close>

theorem combined_plan_self_contained:
  assumes "root_emit_test re = Inr p"
  shows "needs_closed p \<and>
    (\<forall>x \<in> lit ` {''participant-stub'', ''microflows-runner'', ''uflowsd'',
        ''runner-ir_graph_test#base'', ''runner-ir_graph_test#asan'', ''runner-ir_exec_test#base'',
        ''runner-ir_exec_test#asan'', ''runner-strict_json_test#base'', ''runner-strict_json_test#asan''}.
      count_list (map j_id (jobs_of p ''build'')) x = 1)"
proof
  from assms have "plan_phases p = [(lit ''build'', jobs_of p ''build''), (lit ''run-unit'', jobs_of p ''run-unit''),
       (lit ''run-live'', jobs_of p ''run-live'')]"
    by (rule root_plan)
  with combined_needs [OF assms] show "needs_closed p" by (auto simp: needs_closed_def)
  have "count_list (map j_id (jobs_of p ''build'')) x = 1" if x: "x \<in> set own_builds" for x
    using assms
  proof (rule root_plan)
    fix sp mp ip
    assume parts: "singular_emit_test (re_singular re) = Inr sp" "microflows_emit_test (re_microflows re) = Inr mp"
      "integ_emit_test (re_integration re) = Inr ip"
      and build: "jobs_of p ''build'' = jobs_of sp ''build'' @ jobs_of mp ''build'' @ jobs_of ip ''build''
       @ fst (runner_ir_jobs re)"
    have own: "map j_id (jobs_of ip ''build'') @ map j_id (fst (runner_ir_jobs re)) = own_builds"
      unfolding integ_build_names [OF parts(3)] ir_build_names by (simp add: own_builds_def)
    have "count_list (map j_id (jobs_of sp ''build'')) x = 0" "count_list (map j_id (jobs_of mp ''build'')) x = 0"
      using component_builds_not_own(1) [OF parts(1)] component_builds_not_own(2) [OF parts(2)] x
      by (auto simp: count_list_0_iff)
    moreover have "count_list own_builds x = 1" using x by (rule own_builds_once)
    ultimately show ?thesis by (simp add: build flip: own)
  qed
  then show "\<forall>x \<in> lit ` {''participant-stub'', ''microflows-runner'', ''uflowsd'',
        ''runner-ir_graph_test#base'', ''runner-ir_graph_test#asan'', ''runner-ir_exec_test#base'',
        ''runner-ir_exec_test#asan'', ''runner-strict_json_test#base'', ''runner-strict_json_test#asan''}.
      count_list (map j_id (jobs_of p ''build'')) x = 1"
    by (simp add: own_builds_def)
qed

section \<open>The properties at an example\<close>

text \<open>A checkout in which every directory holds one source and every file is a test entry.\<close>

definition ex_artifact :: "string \<Rightarrow> json" where
  "ex_artifact n = JObj [(lit ''name'', JStr (lit n)), (lit ''entry_point'', JStr (lit ''m::main'')),
     (lit ''modules'', JArr [JStr (lit ''src/m.drift'')])]"

definition ex_manifest :: json where
  "ex_manifest = JObj [(lit ''artifacts'', JArr (map ex_artifact [''singular'', ''microflows'', ''uflowsd'']))]"

definition ex_pool :: cert_env where
  "ex_pool = ex_cert\<lparr>ce_environ := [(lit ''DRIFT_CERT_MODE'', lit ''certify'')],
     ce_run := (\<lambda>argv. (0, lit ''--dep a@1''))\<rparr>"

definition ex_emit :: emit_env where
  "ex_emit = \<lparr>em_root = lit ''/r'', em_pkg_root = lit ''/p'', em_manifest = Inr ex_manifest,
     em_rglob = (\<lambda>d. Some [d @ lit ''/m.drift'']), em_glob = (\<lambda>d. [d @ lit ''/t.drift'']),
     em_read = (\<lambda>p. Inr (lit ''module m'' @ 10 # lit ''fn main('')), em_cert = ex_pool,
     em_db_group = lit ''db'', em_nonce = lit ''1''\<rparr>"

definition ex_integ :: integ_env where
  "ex_integ = \<lparr>ie_root = lit ''/r'', ie_pkg_root = lit ''/p'', ie_manifest = (\<lambda>p. Inr ex_manifest),
     ie_glob = (\<lambda>d. Some [d @ lit ''/m.drift'']), ie_cert = ex_pool\<rparr>"

definition ex_re :: root_env where
  "ex_re = \<lparr>re_root = lit ''/r'', re_python = lit ''python3'',
     re_environ = [(lit ''MARIACHI_BIN'', lit ''/m/mariachi'')], re_singular = (ex_emit, None),
     re_microflows = ex_emit, re_integration = ex_integ\<rparr>"

lemma ex_artifact_fields [simp]:
  "json_at (ex_artifact n) ''name'' = Inr (JStr (lit n))"
  "json_at (ex_artifact n) ''entry_point'' = Inr (JStr (lit ''m::main''))"
  "module_dirs (ex_artifact n) = Inr [dirname (lit ''src/m.drift'')]"
  by (simp_all add: ex_artifact_def module_dirs_def)

lemma ex_named [simp]:
  "named_artifact (JArr [ex_artifact ''singular'', ex_artifact ''microflows'', ex_artifact ''uflowsd'']) (lit n) =
     (if n \<in> {''singular'', ''microflows'', ''uflowsd''} then Inr (ex_artifact n)
      else Inl (Exit_Error ''artifact not in manifest''))"
  by (simp add: named_artifact_def)

lemma ex_project:
  "project_artifact ex_integ pr n =
     (case n of None \<Rightarrow> Inr (ex_artifact ''singular'')
      | Some m \<Rightarrow> named_artifact (JArr (map ex_artifact [''singular'', ''microflows'', ''uflowsd''])) m)"
proof -
  have "ie_manifest ex_integ pr = Inr ex_manifest" by (simp add: ex_integ_def)
  then show ?thesis
    by (simp add: project_artifact_def ex_manifest_def falsy_def split: option.split)
qed

lemma ex_pool_floor: "enforce_toolchain_floor ex_pool = Inr ()"
  by (simp add: enforce_toolchain_floor_def Let_def ex_pool_def ex_cert_def driftc_version_def
      obj_field_def version_parts_three small_digits TOOLCHAIN_FLOOR_def)

lemma ex_pool_flags: "\<exists>deps. dep_flags ex_pool manifest artifact lock exclude = Inr deps"
proof -
  have "split_space (lit ''--dep a@1'') = [lit ''--dep'', lit ''a@1'']"
    by (simp add: lit_def split_space.simps py_space_def ascii_space_def wide_space_def)
  with ex_pool_floor show ?thesis
    by (simp add: dep_flags_def resolved_versions_def certify_versions_def Let_def)
       (simp add: ex_pool_def ex_cert_def partition_on_def lit_def)
qed

lemma ex_source: "em_read ex_emit f = Inr (lit ''module m'' @ 10 # lit ''fn main('')"
  by (simp add: ex_emit_def)

lemma ex_entry: "is_test_entry ex_emit rel = Inr True" and ex_module: "module_of ex_emit rel = Inr (lit ''m'')"
proof -
  let ?t = "lit ''module m'' @ 10 # lit ''fn main(''"
  have "has_module ?t" "has_main ?t"
    by (simp_all add: has_module_def has_main_def fn_main_def line_starts_def after_word_def after_space_def
        lit_def py_space_def ascii_space_def wide_space_def)
  then show "is_test_entry ex_emit rel = Inr True" by (simp add: is_test_entry_def ex_source)
  have "declared_module ?t = Some (lit ''m'')"
    using declared_module_line [of "lit ''m''" "[]"] by (simp add: lit_def py_space_def ascii_space_def wide_space_def)
  then show "module_of ex_emit rel = Inr (lit ''m'')" by (simp add: module_of_def ex_source)
qed

lemma ex_tracks:
  assumes "co_artifact co = lit ''singular'' \<or> co_artifact co = lit ''microflows''"
  shows "\<exists>t. component_tracks ex_emit co = Inr t"
proof -
  have "em_manifest ex_emit = Inr ex_manifest" by (simp add: ex_emit_def)
  moreover obtain deps where "resolved_dep_flags ex_emit co = Inr deps"
    using ex_pool_flags by (force simp: resolved_dep_flags_def ex_emit_def)
  moreover obtain srcs where
    "src_files (em_rglob ex_emit) (em_root ex_emit) (Inr ex_manifest) (co_artifact co) = Inr srcs"
    using assms by (auto simp: src_files_def ex_manifest_def Let_def)
  moreover obtain rels where "entries ex_emit (co_unit_root co) = Inr rels"
    using map_res_pure by (force simp: entries_def ex_entry)
  moreover obtain unit where "map_res (unit_jobs ex_emit co srcs deps) rels = Inr unit"
    using map_res_total [of _ "unit_jobs ex_emit co srcs deps"] by (force simp: unit_jobs_def Let_def ex_module)
  moreover obtain live where "map_res (live_build ex_emit co srcs deps) (co_live_tests co) = Inr live"
    using map_res_total [of _ "live_build ex_emit co srcs deps"]
    by (force simp: live_build_def Let_def ex_entry ex_module)
  ultimately show ?thesis by (simp add: component_tracks_def)
qed

lemma ex_singular: "\<exists>p. singular_emit_test (ex_emit, None) = Inr p"
  using ex_tracks [of SINGULAR] by (auto simp: singular_emit_test_def SINGULAR_def Let_def)

lemma ex_microflows: "\<exists>p. microflows_emit_test ex_emit = Inr p"
  using ex_tracks [of MICROFLOWS] by (auto simp: microflows_emit_test_def MICROFLOWS_def)

lemma ex_integration: "\<exists>p. integ_emit_test ex_integ = Inr p"
proof -
  let ?A = "ex_artifact ` {''singular'', ''microflows'', ''uflowsd''}"
  have srcs: "\<exists>fs. manifest_src_files ex_integ pr a = Inr fs" if "a \<in> ?A" for pr a
    using that by (auto simp: manifest_src_files_def Let_def ex_integ_def)
  have art: "\<exists>a \<in> ?A. project_artifact ex_integ pr n = Inr a"
    if "n \<in> {None, Some (lit ''singular''), Some (lit ''microflows''), Some (lit ''uflowsd'')}" for pr n
    using that by (elim insertE emptyE) (simp_all add: ex_project)
  have "\<exists>js. map_res (integ_build_job ex_integ) APPS = Inr js"
  proof (rule map_res_total)
    fix a
    assume "a \<in> set APPS"
    then have n: "ap_artifact a \<in> {None, Some (lit ''uflowsd'')}"
      "Some (ap_local_lib a) \<in> {Some (lit ''singular''), Some (lit ''microflows'')}"
      by (auto simp: APPS_def)
    obtain x where x: "x \<in> ?A" "project_artifact ex_integ (ap_proj a) (ap_artifact a) = Inr x"
      using art [of "ap_artifact a"] n(1) by blast
    obtain y where y: "y \<in> ?A"
      "project_artifact ex_integ (ap_lib_proj a) (Some (ap_local_lib a)) = Inr y"
      using art [of "Some (ap_local_lib a)"] n(2) by blast
    obtain nm where nm: "json_at x ''name'' = Inr (JStr nm)" "json_at x ''entry_point'' = Inr (JStr (lit ''m::main''))"
      using x(1) by auto
    obtain fs gs where "manifest_src_files ex_integ (ap_lib_proj a) y = Inr fs"
      "manifest_src_files ex_integ (ap_proj a) x = Inr gs"
      using srcs [OF y(1)] srcs [OF x(1)] by metis
    moreover have "ie_cert ex_integ = ex_pool" by (simp add: ex_integ_def)
    then have "\<exists>deps. external_deps ex_integ a nm = Inr deps"
      by (simp add: external_deps_def Let_def ex_pool_flags)
    then obtain deps where "external_deps ex_integ a nm = Inr deps" ..
    ultimately show "\<exists>j. integ_build_job ex_integ a = Inr j"
      using x(2) y(2) nm by (simp add: integ_build_job_def Let_def)
  qed
  then show ?thesis by (auto simp: integ_emit_test_def)
qed

lemma ex_root_plan: "\<exists>p. root_emit_test ex_re = Inr p"
proof -
  obtain sp mp ip where "singular_emit_test (re_singular ex_re) = Inr sp"
    "microflows_emit_test (re_microflows ex_re) = Inr mp" "integ_emit_test (re_integration ex_re) = Inr ip"
    using ex_singular ex_microflows ex_integration by (auto simp: ex_re_def)
  moreover have bin: "mariachi_bin ex_re = Inr (lit ''/m/mariachi'')"
    by (simp add: mariachi_bin_def ex_re_def lit_def)
  moreover have "\<exists>j. two_step_job i (mariachi_argv ex_re a b c) (mariachi_argv ex_re d e f) = Inr j" for i a b c d e f
    by (simp add: two_step_job_def mariachi_argv_def bin)
  then have "\<exists>j. reset_singular_job ex_re = Inr j" "\<exists>j. reset_microflows_job ex_re = Inr j"
    "\<exists>j. reset_coordinator_fixtures_job ex_re = Inr j"
    unfolding reset_singular_job_def reset_microflows_job_def reset_coordinator_fixtures_job_def by blast+
  ultimately show ?thesis
    by (auto simp: root_emit_test_def case_prod_unfold Let_def sp_regression_jobs_def)
qed

theorem component_plans_keep_contract_witness:
  "\<exists>p q. singular_emit_test (ex_emit, None) = Inr p \<and> microflows_emit_test ex_emit = Inr q \<and>
     needs_closed p \<and> needs_closed q"
  using ex_singular ex_microflows component_plans_keep_contract by blast

theorem combined_chain_order_witness:
  "\<exists>p. root_emit_test ex_re = Inr p \<and> live_serialized (re_db_group ex_re) p"
  using ex_root_plan combined_chain_order by blast

theorem combined_plan_self_contained_witness:
  "\<exists>p. root_emit_test ex_re = Inr p \<and> needs_closed p \<and>
     count_list (map j_id (jobs_of p ''build'')) (lit ''uflowsd'') = 1"
  using ex_root_plan combined_plan_self_contained by blast

end
