(* ===== verification/Plan_Text.thy ===== *)
theory Plan_Text
  imports Job_Plan Json_Round_Trip
begin

text \<open>
  The JSON text of a plan: the keys a job has, in the order the emitters put them, and
  \<open>json.dumps\<close> with an indentation of two.  A plan can be told from its JSON value, and the text
  reads back as that value.
\<close>

definition opt_key :: "string \<Rightarrow> json option \<Rightarrow> (string \<times> json) list" where
  "opt_key k v = (case v of None \<Rightarrow> [] | Some w \<Rightarrow> [(k, w)])"

definition texts_json :: "str list \<Rightarrow> json" where
  "texts_json ts = JArr (map JStr ts)"

definition job_fields :: "job \<Rightarrow> (string \<times> json) list" where
  "job_fields j =
     [(''id'', JStr (j_id j))] @ opt_key ''out'' (map_option JStr (j_out j)) @ [(''cmd'', texts_json (j_cmd j))]
     @ opt_key ''needs'' (map_option texts_json (j_needs_key j)) @ opt_key ''wrap'' (map_option JStr (j_wrap j))
     @ opt_key ''mode'' (map_option JStr (j_mode j)) @ opt_key ''group'' (map_option JStr (j_group j))
     @ opt_key ''order'' (map_option (\<lambda>k. JInt (int k)) (j_order j))
     @ opt_key ''env'' (if j_env j = [] then None else Some (JObj (map (\<lambda>(k, v). (k, JStr v)) (j_env j))))"

definition job_json :: "job \<Rightarrow> json" where
  "job_json j = obj (job_fields j)"

definition phase_json :: "phase \<Rightarrow> json" where
  "phase_json = (\<lambda>(name, jobs). obj [(''name'', JStr name), (''jobs'', JArr (map job_json jobs))])"

definition plan_json :: "plan \<Rightarrow> json" where
  "plan_json p = obj [(''name'', JStr (plan_name p)), (''phases'', JArr (map phase_json (plan_phases p)))]"

definition plan_text :: "plan \<Rightarrow> str" where
  "plan_text p = dumps (Some 2) False 0 (plan_json p)"

section \<open>A plan can be told from its JSON value\<close>

lemma obj_eq_iff [simp]: "obj xs = obj ys \<longleftrightarrow> xs = ys"
proof -
  have "inj (\<lambda>(k, v :: json). (lit k, v))" by (rule injI) auto
  from inj_map_eq_map [OF this, of xs ys] show ?thesis by (simp add: obj_def)
qed

lemma map_of_opt_key [simp]: "map_of (opt_key k v) x = (if x = k then v else None)"
  by (simp add: opt_key_def split: option.split)

lemma texts_json_eq_iff [simp]: "texts_json xs = texts_json ys \<longleftrightarrow> xs = ys"
  by (simp add: texts_json_def inj_map_eq_map inj_def)

lemma job_field [simp]:
  "map_of (job_fields j) ''id'' = Some (JStr (j_id j))"
  "map_of (job_fields j) ''out'' = map_option JStr (j_out j)"
  "map_of (job_fields j) ''cmd'' = Some (texts_json (j_cmd j))"
  "map_of (job_fields j) ''needs'' = map_option texts_json (j_needs_key j)"
  "map_of (job_fields j) ''wrap'' = map_option JStr (j_wrap j)"
  "map_of (job_fields j) ''mode'' = map_option JStr (j_mode j)"
  "map_of (job_fields j) ''group'' = map_option JStr (j_group j)"
  "map_of (job_fields j) ''order'' = map_option (\<lambda>k. JInt (int k)) (j_order j)"
  "map_of (job_fields j) ''env'' =
     (if j_env j = [] then None else Some (JObj (map (\<lambda>(k, v). (k, JStr v)) (j_env j))))"
  by (simp_all add: job_fields_def map_add_def split: option.split)

lemma job_json_inj: "job_json i = job_json j \<Longrightarrow> i = j"
proof (rule job.equality)
  assume "job_json i = job_json j"
  then have same: "map_of (job_fields i) k = map_of (job_fields j) k" for k by (simp add: job_json_def)
  show "j_id i = j_id j" using same [of "''id''"] by simp
  show "j_cmd i = j_cmd j" using same [of "''cmd''"] by simp
  have "inj (map_option JStr)" "inj (map_option texts_json)" "inj (map_option (\<lambda>k. JInt (int k)))"
    by (rule option.inj_map; simp add: inj_def)+
  with same [of "''out''"] same [of "''wrap''"] same [of "''mode''"] same [of "''group''"]
    same [of "''needs''"] same [of "''order''"]
  show "j_out i = j_out j" "j_wrap i = j_wrap j" "j_mode i = j_mode j" "j_group i = j_group j"
    "j_needs_key i = j_needs_key j" "j_order i = j_order j"
    by (simp_all add: inj_eq)
  have "inj (map (\<lambda>(k :: str, v). (k, JStr v)))" by (simp add: inj_def)
  with same [of "''env''"] show "j_env i = j_env j" by (simp add: inj_eq split: if_splits)
qed simp

lemma plan_json_eq_iff: "plan_json p = plan_json q \<longleftrightarrow> p = q"
proof
  assume eq: "plan_json p = plan_json q"
  have "inj phase_json" by (auto simp: inj_def phase_json_def inj_map_eq_map job_json_inj)
  with eq show "p = q" by (auto simp: plan_json_def inj_map_eq_map intro: plan.equality)
qed simp

section \<open>The text reads back\<close>

text \<open>The texts of a job that come from the checkout and the environment hold no lone surrogates in a row.\<close>

definition job_ok :: "job \<Rightarrow> bool" where
  "job_ok j \<longleftrightarrow>
     text_ok (j_id j) \<and> pred_option text_ok (j_out j) \<and> list_all text_ok (j_cmd j) \<and>
     pred_option (list_all text_ok) (j_needs_key j) \<and> pred_option text_ok (j_wrap j) \<and>
     pred_option text_ok (j_mode j) \<and> pred_option text_ok (j_group j) \<and>
     pred_option (\<lambda>k. length (nat_str k) \<le> max_int_digits) (j_order j) \<and>
     distinct (map fst (j_env j)) \<and> list_all (\<lambda>(k, v). text_ok k \<and> text_ok v) (j_env j)"

definition plan_ok :: "plan \<Rightarrow> bool" where
  "plan_ok p \<longleftrightarrow> text_ok (plan_name p) \<and> list_all (\<lambda>(name, jobs). text_ok name \<and> list_all job_ok jobs) (plan_phases p)"

lemma json_ok_fields:
  assumes "distinct (map fst kvs)" and "list_all (\<lambda>(k, v). json_ok canon v) kvs"
  shows "json_ok canon (obj kvs)"
proof -
  have "map fst (map (\<lambda>(k, v). (lit k, v)) kvs) = map lit (map fst kvs)" by auto
  moreover have "distinct (map lit (map fst kvs))"
    using assms(1) by (simp only: distinct_map) (auto intro: inj_on_subset [OF injI])
  ultimately have "distinct (map fst (map (\<lambda>(k, v). (lit k, v)) kvs))" by metis
  with assms(2) show ?thesis
    by (auto simp: obj_def list_all_iff scalar_text_ok split_beta)
qed

lemma set_opt_key: "kv \<in> set (opt_key k v) \<longleftrightarrow> (\<exists>w. v = Some w \<and> kv = (k, w))"
  by (simp add: opt_key_def split: option.split) auto

lemma keys_opt_key: "map fst (opt_key k v) = (if v = None then [] else [k])"
  by (simp add: opt_key_def split: option.split)

lemma json_ok_job:
  assumes "job_ok j"
  shows "json_ok canon (job_json j)"
  unfolding job_json_def
proof (rule json_ok_fields)
  show "distinct (map fst (job_fields j))"
    by (simp add: job_fields_def keys_opt_key)
  show "list_all (\<lambda>(k, v). json_ok canon v) (job_fields j)"
    using assms
    by (auto simp: list_all_iff job_fields_def set_opt_key job_ok_def texts_json_def comp_def split_beta
        split: if_splits)
qed

lemma json_ok_plan:
  assumes "plan_ok p"
  shows "json_ok canon (plan_json p)"
proof -
  have "json_ok canon (phase_json ph)" if "ph \<in> set (plan_phases p)" for ph
    using assms that
    by (auto simp: phase_json_def plan_ok_def list_all_iff json_ok_job intro!: json_ok_fields)
  with assms show ?thesis
    unfolding plan_json_def by (intro json_ok_fields) (auto simp: plan_ok_def list_all_iff)
qed

lemma plan_text_reads:
  assumes "plan_ok p"
  shows "json_loads canon (plan_text p) = Inr (plan_json p)" "json_loads canon (plan_text p @ [10]) = Inr (plan_json p)"
  using loads_dumps_same [OF json_ok_plan [OF assms]] by (simp_all add: plan_text_def)

end
