(* ===== verification/Emit_Main.thy ===== *)
theory Emit_Main
  imports Root_Plan Plan_Text
begin

text \<open>
  The command lines of the four plan emitters: the toolchain floor before anything else, the gate
  the arguments ask for, the database group they may replace, and the plan's JSON text, printed or
  written to a file.  \<open>argparse\<close> is represented by its result; a gate that is no choice of the
  emitter is its exit.  \<open>write\<close> is \<open>Path.write_text\<close>.
\<close>

section \<open>Output\<close>

text \<open>What is left on stdout, or in a file with a note on stderr.\<close>

datatype emitted = Printed str | Written str str str

fun emitted_text :: "emitted \<Rightarrow> str" where
  "emitted_text (Printed t) = t"
| "emitted_text (Written file t note) = t"

definition emit_output ::
    "(str \<Rightarrow> str \<Rightarrow> unit tool) \<Rightarrow> str \<Rightarrow> (str \<Rightarrow> plan \<Rightarrow> str) \<Rightarrow> plan \<Rightarrow> emitted tool" where
  "emit_output write out note p =
     (let text = plan_text p
      in if out = lit ''-'' then Inr (Printed (text @ [10]))
         else bind_res (write out text) (\<lambda>_. Inr (Written out text (note out p @ [10]))))"

definition job_count :: "plan \<Rightarrow> nat" where
  "job_count p = sum_list (map (\<lambda>(name, jobs). length jobs) (plan_phases p))"

definition jobs_note :: "str \<Rightarrow> plan \<Rightarrow> str" where
  "jobs_note out p =
     lit ''wrote '' @ out @ lit '': '' @ plan_name p @ lit '' plan, '' @ nat_str (job_count p)
     @ lit '' jobs across '' @ nat_str (length (plan_phases p)) @ lit '' phase(s)''"

definition builds_note :: "str \<Rightarrow> plan \<Rightarrow> str" where
  "builds_note out p =
     lit ''wrote '' @ out @ lit '': '' @ plan_name p @ lit '', '' @ nat_str (job_count p) @ lit '' build job(s)''"

section \<open>Arguments\<close>

record emit_args =
  ea_gate :: string
  ea_file :: "str option"
  ea_out :: str
  ea_db_group :: "str option"

definition DB_GROUP :: str where
  "DB_GROUP = lit ''mariadb-mdb114-a''"

definition requested_group :: "emit_args \<Rightarrow> str" where
  "requested_group args = (case ea_db_group args of None \<Rightarrow> DB_GROUP | Some g \<Rightarrow> g)"

definition choose_gate :: "string list \<Rightarrow> emit_args \<Rightarrow> string tool" where
  "choose_gate choices args =
     (if ea_gate args \<in> set choices then Inr (ea_gate args) else Inl (Exit_Error ''invalid choice''))"

definition file_argument :: "emit_args \<Rightarrow> str tool" where
  "file_argument args =
     (case ea_file args of
        Some (c # cs) \<Rightarrow> Inr (c # cs)
      | _ \<Rightarrow> Inl (Exit_Error ''--file required for one|compile''))"

section \<open>The component emitters\<close>

definition singular_gate :: "emit_env \<times> str option \<Rightarrow> emit_args \<Rightarrow> plan tool" where
  "singular_gate = (\<lambda>(en, mariachi_bin) args.
     bind_res (choose_gate [''test'', ''stress'', ''perf'', ''one'', ''compile''] args) (\<lambda>gate.
       let en = en\<lparr>em_db_group := requested_group args\<rparr>
       in if gate \<in> {''one'', ''compile''}
          then bind_res (file_argument args) (\<lambda>file.
                 if gate = ''one'' then emit_one en SINGULAR file else emit_compile en SINGULAR file)
          else if gate = ''stress'' then singular_emit_stress en
          else if gate = ''perf'' then singular_emit_perf en
          else singular_emit_test (en, mariachi_bin)))"

definition singular_main ::
    "cert_env \<Rightarrow> (str \<Rightarrow> str \<Rightarrow> unit tool) \<Rightarrow> emit_env \<times> str option \<Rightarrow> emit_args \<Rightarrow> emitted tool" where
  "singular_main ce write env args =
     bind_res (enforce_toolchain_floor ce) (\<lambda>_.
     bind_res (singular_gate env args) (emit_output write (ea_out args) jobs_note))"

definition microflows_gate :: "emit_env \<Rightarrow> emit_args \<Rightarrow> plan tool" where
  "microflows_gate en args =
     bind_res (choose_gate [''test'', ''one'', ''compile''] args) (\<lambda>gate.
       let en = en\<lparr>em_db_group := requested_group args\<rparr>
       in if gate \<in> {''one'', ''compile''}
          then bind_res (file_argument args) (\<lambda>file.
                 if gate = ''one'' then emit_one en MICROFLOWS file else emit_compile en MICROFLOWS file)
          else microflows_emit_test en)"

definition microflows_main ::
    "cert_env \<Rightarrow> (str \<Rightarrow> str \<Rightarrow> unit tool) \<Rightarrow> emit_env \<Rightarrow> emit_args \<Rightarrow> emitted tool" where
  "microflows_main ce write en args =
     bind_res (enforce_toolchain_floor ce) (\<lambda>_.
     bind_res (microflows_gate en args) (emit_output write (ea_out args) jobs_note))"

definition integration_main ::
    "cert_env \<Rightarrow> (str \<Rightarrow> str \<Rightarrow> unit tool) \<Rightarrow> integ_env \<Rightarrow> emit_args \<Rightarrow> emitted tool" where
  "integration_main ce write ie args =
     bind_res (enforce_toolchain_floor ce) (\<lambda>_.
     bind_res (choose_gate [''test''] args) (\<lambda>_.
     bind_res (integ_emit_test ie) (emit_output write (ea_out args) builds_note)))"

text \<open>The root emitter parses its arguments first, then takes the floor and the version gate.\<close>

definition root_main ::
    "cert_env \<Rightarrow> (str \<Rightarrow> str \<Rightarrow> unit tool) \<Rightarrow> json tool \<Rightarrow> str tool \<Rightarrow> root_env \<Rightarrow> emit_args \<Rightarrow> emitted tool" where
  "root_main ce write manifest runner_source re args =
     bind_res (choose_gate [''test''] args) (\<lambda>_.
     bind_res (enforce_toolchain_floor ce) (\<lambda>_.
     bind_res (check_version_sync manifest runner_source) (\<lambda>_.
     bind_res (root_emit_test re) (emit_output write (ea_out args) jobs_note))))"

section \<open>What reaches the executor\<close>

text \<open>The executor, which parses the text, gets the plan and no other.\<close>

definition hands_over :: "(str \<Rightarrow> str) \<Rightarrow> emitted \<Rightarrow> plan \<Rightarrow> bool" where
  "hands_over canon out p \<longleftrightarrow>
     (plan_ok p \<longrightarrow> json_loads canon (emitted_text out) = Inr (plan_json p)) \<and>
     (\<forall>q. plan_json q = plan_json p \<longrightarrow> q = p)"

lemma emit_output_hands_over:
  "emit_output write file note p = Inr out \<Longrightarrow> hands_over canon out p"
  by (auto simp: emit_output_def Let_def bind_res_eq_Inr hands_over_def plan_text_reads plan_json_eq_iff
      split: if_splits)

lemma singular_test_gate:
  assumes "singular_gate (en, mariachi) args = Inr p" and "ea_gate args = ''test''"
  shows "needs_closed p \<and> live_serialized (requested_group args) p"
  using assms singular.emit_needs singular.emit_live by (fastforce simp: singular_gate_def choose_gate_def Let_def)

lemma microflows_test_gate:
  assumes "microflows_gate en args = Inr p" and "ea_gate args = ''test''"
  shows "needs_closed p \<and> live_serialized (requested_group args) p"
  using assms microflows.emit_needs microflows.emit_live by (fastforce simp: microflows_gate_def choose_gate_def Let_def)

text \<open>The plan a gate stands for: its name and the names of its phases.\<close>

definition gate_plan :: "string \<Rightarrow> plan \<Rightarrow> bool" where
  "gate_plan gate p \<longleftrightarrow>
     (gate, plan_name p, map fst (plan_phases p)) \<in>
       {(''test'', lit ''test'', [lit ''build'', lit ''run-unit'']),
        (''test'', lit ''test'', [lit ''build'', lit ''run-unit'', lit ''run-live'']),
        (''stress'', lit ''singular-stress'', [lit ''build'', lit ''run'']),
        (''perf'', lit ''singular-perf'', [lit ''build'']),
        (''one'', lit ''one'', [lit ''build'', lit ''run'']),
        (''compile'', lit ''compile'', [lit ''compile''])}"

lemma plan_shapes:
  "singular_emit_test e = Inr p \<Longrightarrow> gate_plan ''test'' p"
  "microflows_emit_test en = Inr p \<Longrightarrow> gate_plan ''test'' p"
  "singular_emit_stress en = Inr p \<Longrightarrow> gate_plan ''stress'' p"
  "singular_emit_perf en = Inr p \<Longrightarrow> gate_plan ''perf'' p"
  "emit_one en co f = Inr p \<Longrightarrow> gate_plan ''one'' p"
  "emit_compile en co f = Inr p \<Longrightarrow> gate_plan ''compile'' p"
  by (auto simp: gate_plan_def singular_emit_test_def microflows_emit_test_def singular_emit_stress_def singular_emit_perf_def
      emit_one_def emit_compile_def single_plan_def bind_res_eq_Inr Let_def split: prod.splits if_splits)

text \<open>The plan's first job compiles the file, named by its path below the root.\<close>

definition compiles_file :: "emit_env \<Rightarrow> str \<Rightarrow> plan \<Rightarrow> bool" where
  "compiles_file en file p \<longleftrightarrow> file \<noteq> [] \<and>
     (\<exists>name j jobs rest. plan_phases p = (name, j # jobs) # rest \<and> root_join (em_root en) file \<in> set (j_cmd j))"

lemma emit_compiles_file:
  "emit_one (en\<lparr>em_db_group := g\<rparr>) co f = Inr p \<Longrightarrow> f \<noteq> [] \<Longrightarrow> compiles_file en f p"
  "emit_compile (en\<lparr>em_db_group := g\<rparr>) co f = Inr p \<Longrightarrow> f \<noteq> [] \<Longrightarrow> compiles_file en f p"
  by (auto simp: emit_one_def emit_compile_def compiles_file_def single_plan_def src_build_def plain_job_def
      bind_res_eq_Inr Let_def split: if_splits)

lemma singular_gate_plan:
  assumes "singular_gate (en, mariachi) args = Inr p"
  shows "gate_plan (ea_gate args) p \<and>
    (ea_gate args \<in> {''one'', ''compile''} \<longrightarrow> (\<exists>file. ea_file args = Some file \<and> compiles_file en file p))"
  using assms plan_shapes emit_compiles_file
  by (auto simp: singular_gate_def choose_gate_def file_argument_def Let_def bind_res_eq_Inr
      split: if_splits option.splits list.splits)

lemma microflows_gate_plan:
  assumes "microflows_gate en args = Inr p"
  shows "gate_plan (ea_gate args) p \<and> ea_gate args \<notin> {''stress'', ''perf''} \<and>
    (ea_gate args \<in> {''one'', ''compile''} \<longrightarrow> (\<exists>file. ea_file args = Some file \<and> compiles_file en file p))"
  using assms plan_shapes emit_compiles_file
  by (auto simp: microflows_gate_def choose_gate_def file_argument_def Let_def bind_res_eq_Inr
      split: if_splits option.splits list.splits)

lemma combined_shapes:
  "integ_emit_test ie = Inr p \<Longrightarrow>
     plan_name p = lit ''coordinator-singular-build'' \<and> map fst (plan_phases p) = [lit ''build'']"
  "root_emit_test re = Inr p \<Longrightarrow> plan_name p = lit ''root-combined-test'' \<and>
     map fst (plan_phases p) = [lit ''build'', lit ''run-unit'', lit ''run-live'']"
  by (auto simp: integ_emit_test_def root_emit_test_def Let_def case_prod_unfold bind_res_eq_Inr)

text \<open>
  C37. What the emitters' command lines hand to the executor: a text only comes out when the
  toolchain floor holds (for the combined plan, the version gate as well) and the gate is one the
  emitter has; parsed as JSON it is one plan and no other, of the name and phases of the gate
  that was asked for; a plan for one file only comes out when a file was named, and compiles that
  file; and the test plans keep the executor's contract on the database group that was asked for.
\<close>

theorem emitters_hand_over:
  "(singular_main ce write (en, mariachi) args = Inr out \<longrightarrow>
      enforce_toolchain_floor ce = Inr () \<and>
      (\<exists>p. singular_gate (en, mariachi) args = Inr p \<and> hands_over canon out p \<and> gate_plan (ea_gate args) p \<and>
        (ea_gate args \<in> {''one'', ''compile''} \<longrightarrow> (\<exists>file. ea_file args = Some file \<and> compiles_file en file p)) \<and>
        (ea_gate args = ''test'' \<longrightarrow> needs_closed p \<and>
          live_serialized (case ea_db_group args of None \<Rightarrow> lit ''mariadb-mdb114-a'' | Some g \<Rightarrow> g) p))) \<and>
   (microflows_main ce write en args = Inr out \<longrightarrow>
      enforce_toolchain_floor ce = Inr () \<and>
      (\<exists>p. microflows_gate en args = Inr p \<and> hands_over canon out p \<and> gate_plan (ea_gate args) p \<and> ea_gate args \<notin> {''stress'', ''perf''} \<and>
        (ea_gate args \<in> {''one'', ''compile''} \<longrightarrow> (\<exists>file. ea_file args = Some file \<and> compiles_file en file p)) \<and>
        (ea_gate args = ''test'' \<longrightarrow> needs_closed p \<and>
          live_serialized (case ea_db_group args of None \<Rightarrow> lit ''mariadb-mdb114-a'' | Some g \<Rightarrow> g) p))) \<and>
   (integration_main ce write ie args = Inr out \<longrightarrow>
      enforce_toolchain_floor ce = Inr () \<and> ea_gate args = ''test'' \<and>
      (\<exists>p. hands_over canon out p \<and> integ_emit_test ie = Inr p \<and>
        plan_name p = lit ''coordinator-singular-build'' \<and> map fst (plan_phases p) = [lit ''build''])) \<and>
   (root_main ce write manifest src re args = Inr out \<longrightarrow>
      enforce_toolchain_floor ce = Inr () \<and> check_version_sync manifest src = Inr () \<and> ea_gate args = ''test'' \<and>
      (\<exists>p. hands_over canon out p \<and> root_emit_test re = Inr p \<and> plan_name p = lit ''root-combined-test'' \<and>
        map fst (plan_phases p) = [lit ''build'', lit ''run-unit'', lit ''run-live'']))"
proof (intro conjI impI)
  have group: "requested_group args = (case ea_db_group args of None \<Rightarrow> lit ''mariadb-mdb114-a'' | Some g \<Rightarrow> g)"
    by (simp add: requested_group_def DB_GROUP_def split: option.split)
  show "\<exists>p. singular_gate (en, mariachi) args = Inr p \<and> hands_over canon out p \<and> gate_plan (ea_gate args) p \<and>
        (ea_gate args \<in> {''one'', ''compile''} \<longrightarrow> (\<exists>file. ea_file args = Some file \<and> compiles_file en file p)) \<and>
        (ea_gate args = ''test'' \<longrightarrow> needs_closed p \<and>
          live_serialized (case ea_db_group args of None \<Rightarrow> lit ''mariadb-mdb114-a'' | Some g \<Rightarrow> g) p)"
    if "singular_main ce write (en, mariachi) args = Inr out"
    using that singular_test_gate [of en mariachi args] singular_gate_plan [of en mariachi args]
    unfolding group by (fastforce simp: singular_main_def bind_res_eq_Inr dest: emit_output_hands_over)
  show "\<exists>p. microflows_gate en args = Inr p \<and> hands_over canon out p \<and> gate_plan (ea_gate args) p \<and> ea_gate args \<notin> {''stress'', ''perf''} \<and>
        (ea_gate args \<in> {''one'', ''compile''} \<longrightarrow> (\<exists>file. ea_file args = Some file \<and> compiles_file en file p)) \<and>
        (ea_gate args = ''test'' \<longrightarrow> needs_closed p \<and>
          live_serialized (case ea_db_group args of None \<Rightarrow> lit ''mariadb-mdb114-a'' | Some g \<Rightarrow> g) p)"
    if "microflows_main ce write en args = Inr out"
    using that microflows_test_gate [of en args] microflows_gate_plan [of en args]
    unfolding group by (fastforce simp: microflows_main_def bind_res_eq_Inr dest: emit_output_hands_over)
  show "\<exists>p. hands_over canon out p \<and> integ_emit_test ie = Inr p \<and>
        plan_name p = lit ''coordinator-singular-build'' \<and> map fst (plan_phases p) = [lit ''build'']"
    if "integration_main ce write ie args = Inr out"
    using that combined_shapes(1) [of ie] by (fastforce simp: integration_main_def bind_res_eq_Inr dest: emit_output_hands_over)
  show "\<exists>p. hands_over canon out p \<and> root_emit_test re = Inr p \<and> plan_name p = lit ''root-combined-test'' \<and>
        map fst (plan_phases p) = [lit ''build'', lit ''run-unit'', lit ''run-live'']"
    if "root_main ce write manifest src re args = Inr out"
    using that combined_shapes(2) [of re] by (fastforce simp: root_main_def bind_res_eq_Inr dest: emit_output_hands_over)
qed (auto simp: singular_main_def microflows_main_def integration_main_def root_main_def choose_gate_def bind_res_eq_Inr
      split: if_splits)

section \<open>The property at an example\<close>

definition ex_perf :: emit_args where
  "ex_perf = \<lparr>ea_gate = ''perf'', ea_file = None, ea_out = lit ''-'', ea_db_group = None\<rparr>"

lemma ex_flags: "dep_flags ex_pool manifest artifact lock {} = Inr [lit ''--dep'', lit ''a@1'']"
proof -
  have "split_space (lit ''--dep a@1'') = [lit ''--dep'', lit ''a@1'']"
    by (simp add: lit_def split_space.simps py_space_def ascii_space_def wide_space_def)
  with ex_pool_floor show ?thesis
    by (simp add: dep_flags_def resolved_versions_def certify_versions_def Let_def)
       (simp add: ex_pool_def ex_cert_def partition_on_def flags_of_def lit_def)
qed

lemma ex_dir: "root_join (lit ''/r'') (dirname (lit ''src/m.drift'')) = lit ''/r/src''"
  by code_simp

lemma ex_perf_plan: "\<exists>p. singular_gate (ex_emit, None) ex_perf = Inr p \<and> plan_ok p"
proof -
  let ?en = "ex_emit\<lparr>em_db_group := DB_GROUP\<rparr>"
  have en: "em_rglob ex_emit = (\<lambda>d. Some [d @ lit ''/m.drift''])" "em_root ex_emit = lit ''/r''" "em_manifest ex_emit = Inr ex_manifest"
    "em_cert ex_emit = ex_pool" "em_pkg_root ex_emit = lit ''/p''"
    by (simp_all add: ex_emit_def)
  have srcs: "src_files (em_rglob ex_emit) (em_root ex_emit) (em_manifest ex_emit) (co_artifact SINGULAR) = Inr [lit ''/r/src/m.drift'']"
    by (simp add: src_files_def en ex_manifest_def SINGULAR_def ex_dir Let_def flip: lit_append)
  have deps: "resolved_dep_flags ?en SINGULAR = Inr [lit ''--dep'', lit ''a@1'']"
    by (simp add: resolved_dep_flags_def en ex_flags)
  have m: "module_of ?en PERF_SRC = Inr (lit ''m'')"
    using ex_module [of PERF_SRC] by (simp add: module_of_def)
  have "singular_gate (ex_emit, None) ex_perf = singular_emit_perf ?en"
    by (simp add: singular_gate_def ex_perf_def choose_gate_def Let_def requested_group_def)
  moreover have "plan_ok (single_plan (lit ''singular-perf'')
      (src_build ?en (lit ''singular-perf'') [lit ''/r/src/m.drift''] [lit ''--dep'', lit ''a@1'']
        (main_entry (lit ''m'')) PERF_SRC False) [])"
    by (simp add: plan_ok_def single_plan_def job_ok_def src_build_def plain_job_def Let_def main_entry_def
        work_def PERF_SRC_def sanitize_flags_def en scalar_text_ok)
  ultimately show ?thesis
    by (simp add: singular_emit_perf_def srcs deps m)
qed

theorem emitters_hand_over_witness:
  "\<exists>p t. singular_gate (ex_emit, None) ex_perf = Inr p \<and> gate_plan ''perf'' p \<and>
     singular_main ex_pool (\<lambda>f t. Inr ()) (ex_emit, None) ex_perf = Inr (Printed t) \<and>
     json_loads (\<lambda>t. t) t = Inr (plan_json p)"
proof -
  obtain p where p: "singular_gate (ex_emit, None) ex_perf = Inr p" "plan_ok p"
    using ex_perf_plan by blast
  have "enforce_toolchain_floor ex_pool = Inr ()" by (rule ex_pool_floor)
  then obtain t where t: "singular_main ex_pool (\<lambda>f t. Inr ()) (ex_emit, None) ex_perf = Inr (Printed t)"
    using p(1) by (simp add: singular_main_def emit_output_def ex_perf_def Let_def)
  note holds = emitters_hand_over [THEN conjunct1, rule_format, OF t, where canon = "\<lambda>t. t"]
  from holds [THEN conjunct2] obtain q where "singular_gate (ex_emit, None) ex_perf = Inr q"
    "hands_over (\<lambda>t. t) (Printed t) q" "gate_plan (ea_gate ex_perf) q"
    by blast
  with p t show ?thesis by (auto simp: hands_over_def ex_perf_def)
qed

end
