(* ===== verification/Gates.thy ===== *)
theory Gates
  imports Tooling
begin

text \<open>
  The certification gates that judge a measurement: \<open>singular/drift/tools/perf_gate.py\<close> and
  \<open>integration/coordinator-singular/perf.py\<close> (cost against a committed baseline), and
  \<open>integration/coordinator-singular/stress.py\<close> (exactly-once dispatch under races).  What is
  measured is an argument: the output of the scenario, the answers to the submissions, the
  counters and exit codes of the rounds.  Numbers are of any linearly ordered type, and
  \<open>limit_of\<close> is the product of a recorded number with \<open>TOLERANCE\<close> in Python's arithmetic.
  Both performance gates keep the contract of the locale \<open>baseline_gate\<close>.
\<close>

section \<open>Baselines\<close>

record 'n baseline_doc =
  bd_machine_id :: str
  bd_scenarios :: "(str, (string, 'n) dict) dict"

record 'n metric =
  mt_scenario :: str
  mt_values :: "(string, 'n) dict"

text \<open>The files a gate reads and writes: the baselines by machine, and the latest result.\<close>

record 'n gate_files =
  gf_baselines :: "(str, 'n baseline_doc) dict"
  gf_latest :: "(str \<times> 'n metric) option"

definition load_baseline :: "str \<Rightarrow> 'n gate_files \<Rightarrow> 'n baseline_doc" where
  "load_baseline mid files =
     (case dict_get (gf_baselines files) mid of
        None \<Rightarrow> \<lparr>bd_machine_id = mid, bd_scenarios = []\<rparr> | Some d \<Rightarrow> d)"

text \<open>\<open>base.get("scenarios", {}).get(name, {}).get(GATED)\<close>.\<close>

definition recorded_value :: "string \<Rightarrow> str \<Rightarrow> str \<Rightarrow> 'n gate_files \<Rightarrow> 'n option" where
  "recorded_value gated mid name files =
     (case dict_get (bd_scenarios (load_baseline mid files)) name of
        None \<Rightarrow> None | Some d \<Rightarrow> dict_get d gated)"

definition record_baseline :: "string \<Rightarrow> str \<Rightarrow> str \<Rightarrow> 'n \<Rightarrow> 'n gate_files \<Rightarrow> 'n gate_files" where
  "record_baseline gated mid name val files =
     (let base = load_baseline mid files
      in files\<lparr>gf_baselines := dict_set mid
           (base\<lparr>bd_scenarios := dict_set name [(gated, val)] (bd_scenarios base)\<rparr>) (gf_baselines files)\<rparr>)"

definition write_latest :: "str \<Rightarrow> 'n metric \<Rightarrow> 'n gate_files \<Rightarrow> 'n gate_files" where
  "write_latest mid m files = files\<lparr>gf_latest := Some (mid, m)\<rparr>"

lemma recorded_after_record [simp]:
  "recorded_value gated mid name (record_baseline gated mid name val files) = Some val"
  by (simp add: recorded_value_def record_baseline_def load_baseline_def Let_def)

lemma write_latest_baselines [simp]:
  "gf_baselines (write_latest mid m files) = gf_baselines files"
  "recorded_value gated mid name (write_latest mid' m files) = recorded_value gated mid name files"
  by (simp_all add: write_latest_def recorded_value_def load_baseline_def)

section \<open>The Singular gate\<close>

definition SINGULAR_GATED :: string where
  "SINGULAR_GATED = ''per_cycle_us''"

fun contains :: "str \<Rightarrow> str \<Rightarrow> bool" where
  "contains u [] \<longleftrightarrow> u = []"
| "contains u (c # cs) \<longleftrightarrow> take (length u) (c # cs) = u \<or> contains u cs"

text \<open>
  The first line that looks like the metric is parsed; \<open>read_metric\<close> is \<open>json.loads\<close> on it with
  the scenario's name and numbers taken out, \<open>None\<close> in it a falsy document.
\<close>

definition metric_line :: "str \<Rightarrow> str option" where
  "metric_line stdout =
     find (\<lambda>s. s \<noteq> [] \<and> hd s = 123 \<and> contains (lit ''scenario'') s) (map py_strip (splitlines stdout))"

definition singular_metric ::
    "(str \<Rightarrow> 'n metric option tool) \<Rightarrow> int \<times> str \<Rightarrow> 'n metric tool" where
  "singular_metric read_metric run =
     (if fst run \<noteq> 0 then Inl (Exit_Error ''perf scenario exited (logical failure)'')
      else case metric_line (snd run) of
             None \<Rightarrow> Inl (Exit_Error ''no perf metric line'')
           | Some line \<Rightarrow> bind_res (read_metric line) (option_res (Exit_Error ''no perf metric line'')))"

definition singular_judge ::
    "('n::linorder \<Rightarrow> 'n) \<Rightarrow> str \<Rightarrow> 'n metric \<Rightarrow> 'n \<Rightarrow> bool \<Rightarrow> 'n gate_files \<Rightarrow>
       unit tool \<times> 'n gate_files" where
  "singular_judge limit_of mid m val update files =
     (let name = mt_scenario m in
      if update then (Inr (), write_latest mid m (record_baseline SINGULAR_GATED mid name val files))
      else case recorded_value SINGULAR_GATED mid name files of
             None \<Rightarrow> (Inl (Exit_Error ''no committed perf baseline''), files)
           | Some recorded \<Rightarrow>
               (if val \<le> limit_of recorded then Inr () else Inl (Exit_Error ''perf regression''),
                write_latest mid m files))"

definition singular_perf_gate ::
    "('n::linorder \<Rightarrow> 'n) \<Rightarrow> (str \<Rightarrow> 'n metric option tool) \<Rightarrow> bool \<Rightarrow> int \<times> str \<Rightarrow> str \<Rightarrow>
       bool \<Rightarrow> 'n gate_files \<Rightarrow> unit tool \<times> 'n gate_files" where
  "singular_perf_gate limit_of read_metric bin_present run mid update files =
     (if \<not> bin_present then (Inl (Exit_Error ''perf binary not found''), files)
      else case singular_metric read_metric run of
             Inl e \<Rightarrow> (Inl e, files)
           | Inr m \<Rightarrow>
               (case dict_get (mt_values m) SINGULAR_GATED of
                  None \<Rightarrow> (Inl (Tool_Exception (Key_Error (lit SINGULAR_GATED))), files)
                | Some val \<Rightarrow> singular_judge limit_of mid m val update files))"

section \<open>The coordinator's performance gate\<close>

definition SERVICE_GATED :: string where
  "SERVICE_GATED = ''per_wf_ms''"

text \<open>A submission's answer: the HTTP status and the \<open>workflow\<close> field of the body, if any.\<close>

definition completed_count :: "(int \<times> str option) list \<Rightarrow> nat" where
  "completed_count answers =
     length (filter (\<lambda>(st, workflow). st = 200 \<and> workflow = Some (lit ''completed'')) answers)"

definition service_judge ::
    "('n::linorder \<Rightarrow> 'n) \<Rightarrow> str \<Rightarrow> 'n metric \<Rightarrow> 'n \<Rightarrow> bool \<Rightarrow> 'n gate_files \<Rightarrow> nat \<times> 'n gate_files" where
  "service_judge limit_of mid m val update files =
     (let name = mt_scenario m;
          (rc, files') =
            (if update then (0, record_baseline SERVICE_GATED mid name val files)
             else case recorded_value SERVICE_GATED mid name files of
                    None \<Rightarrow> (1, files)
                  | Some recorded \<Rightarrow> (if val \<le> limit_of recorded then 0 else 1, files))
      in (rc, write_latest mid m files'))"

text \<open>
  \<open>main\<close>: the stub, then the service have to come up; every one of the submissions has to
  complete; \<open>measured\<close> is the rounded time per workflow, with the metric it is part of.  With no
  submissions the division by their number ends the program with status 1.
\<close>

definition service_perf_gate ::
    "('n::linorder \<Rightarrow> 'n) \<Rightarrow> bool \<Rightarrow> bool \<Rightarrow> (int \<times> str option) list \<Rightarrow> 'n \<times> 'n metric \<Rightarrow> str \<Rightarrow>
       bool \<Rightarrow> 'n gate_files \<Rightarrow> nat \<times> 'n gate_files" where
  "service_perf_gate limit_of stub_ready service_ready answers measured mid update files =
     (if \<not> stub_ready then (1, files)
      else if \<not> service_ready then (1, files)
      else if completed_count answers \<noteq> length answers then (1, files)
      else if answers = [] then (1, files)
      else service_judge limit_of mid (snd measured) (fst measured) update files)"

section \<open>The contract of a baseline gate\<close>

locale baseline_gate =
  fixes judge :: "bool \<Rightarrow> 'f \<Rightarrow> bool \<times> 'f"
    and recorded :: "'f \<Rightarrow> 'n::linorder option"
    and limit_of :: "'n \<Rightarrow> 'n"
    and val :: 'n
  assumes no_baseline: "recorded files = None \<Longrightarrow> \<not> fst (judge False files)"
    and compared: "recorded files = Some r \<Longrightarrow> fst (judge False files) \<longleftrightarrow> val \<le> limit_of r"
    and read_only: "recorded (snd (judge False files)) = recorded files"
    and updated: "fst (judge True files) \<and> recorded (snd (judge True files)) = Some val"
begin

lemma passes_iff: "fst (judge False files) \<longleftrightarrow> (\<exists>r. recorded files = Some r \<and> val \<le> limit_of r)"
  using no_baseline [of files] compared [of files] by (cases "recorded files") auto

text \<open>A run never makes a later run pass, unless it was asked to record.\<close>

lemma no_self_baseline: "recorded files = None \<Longrightarrow> \<not> fst (judge False (snd (judge False files)))"
  using passes_iff [of "snd (judge False files)"] read_only [of files] by simp

lemma update_then_pass: "val \<le> limit_of val \<Longrightarrow> fst (judge False (snd (judge True files)))"
  using passes_iff updated by auto

end

interpretation singular_gate: baseline_gate
  "\<lambda>update files. case singular_judge limit_of mid m val update files of (r, f) \<Rightarrow> (r = Inr (), f)"
  "recorded_value SINGULAR_GATED mid (mt_scenario m)" limit_of val
  for limit_of mid m val
  by unfold_locales (auto simp: singular_judge_def Let_def split: option.splits)

interpretation service_gate: baseline_gate
  "\<lambda>update files. case service_judge limit_of mid m val update files of (rc, f) \<Rightarrow> (rc = 0, f)"
  "recorded_value SERVICE_GATED mid (mt_scenario m)" limit_of val
  for limit_of mid m val
  by unfold_locales (auto simp: service_judge_def Let_def split: option.splits)

section \<open>The stress gate\<close>

text \<open>
  A round: the execution counter before, the drivers' exit codes, the counter after.  \<open>main\<close>
  returns at the first round that fails.
\<close>

fun stress_rounds :: "(int \<times> int list \<times> int) list \<Rightarrow> nat" where
  "stress_rounds [] = 0"
| "stress_rounds ((before, codes, after) # rounds) =
     (if after - before \<noteq> 1 then 1
      else if 0 \<notin> set codes then 1
      else stress_rounds rounds)"

definition stress_main :: "bool \<Rightarrow> (int \<times> int list \<times> int) list \<Rightarrow> nat" where
  "stress_main stub_ready rounds = (if \<not> stub_ready then 1 else stress_rounds rounds)"

text \<open>A driver's exit code, 999 when it could not be run to its end.\<close>

definition drive_code :: "int option \<Rightarrow> int" where
  "drive_code run = (case run of None \<Rightarrow> 999 | Some rc \<Rightarrow> rc)"

lemma stress_rounds_pass:
  "stress_rounds rounds = 0 \<longleftrightarrow> (\<forall>(before, codes, after) \<in> set rounds. after = before + 1 \<and> 0 \<in> set codes)"
  by (induction rounds rule: stress_rounds.induct) auto

section \<open>Properties\<close>

lemma judged_baselines:
  "gf_baselines (snd (singular_judge limit_of mid m val False files)) = gf_baselines files"
  "gf_baselines (snd (service_judge limit_of mid m val False files)) = gf_baselines files"
  by (simp_all add: singular_judge_def service_judge_def Let_def split: option.split)

lemma completed_all:
  "completed_count answers = length answers \<longleftrightarrow>
     list_all (\<lambda>(st, workflow). st = 200 \<and> workflow = Some (lit ''completed'')) answers"
  unfolding completed_count_def list_all_iff
  by (metis (no_types, lifting) filter_True length_filter_less less_irrefl)

text \<open>
  Both performance gates pass a normal run exactly when what they measure ran to its end
  without a logical failure, there is a committed baseline for this machine and scenario, and
  the measurement is within its tolerance; a normal run writes no baseline, so no run is
  judged against itself; an update run records what it measured.
\<close>

theorem perf_gates_need_baseline:
  "(fst (singular_perf_gate limit_of read_metric present run mid False files) = Inr () \<longleftrightarrow>
      (\<exists>m val r. present \<and> singular_metric read_metric run = Inr m \<and>
         dict_get (mt_values m) SINGULAR_GATED = Some val \<and>
         recorded_value SINGULAR_GATED mid (mt_scenario m) files = Some r \<and> val \<le> limit_of r)) \<and>
   (fst (service_perf_gate limit_of stub service answers (val, m) mid False files) = 0 \<longleftrightarrow>
      (\<exists>r. stub \<and> service \<and> answers \<noteq> [] \<and>
         list_all (\<lambda>(st, workflow). st = 200 \<and> workflow = Some (lit ''completed'')) answers \<and>
         recorded_value SERVICE_GATED mid (mt_scenario m) files = Some r \<and> val \<le> limit_of r)) \<and>
   gf_baselines (snd (singular_perf_gate limit_of read_metric present run mid False files)) = gf_baselines files \<and>
   gf_baselines (snd (service_perf_gate limit_of stub service answers (val, m) mid False files)) = gf_baselines files \<and>
   (fst (singular_perf_gate limit_of read_metric present run mid True files) = Inr () \<longleftrightarrow>
      (\<exists>m val. present \<and> singular_metric read_metric run = Inr m \<and>
         dict_get (mt_values m) SINGULAR_GATED = Some val \<and>
         recorded_value SINGULAR_GATED mid (mt_scenario m)
           (snd (singular_perf_gate limit_of read_metric present run mid True files)) = Some val))"
proof (intro conjI)
  show "fst (singular_perf_gate limit_of read_metric present run mid False files) = Inr () \<longleftrightarrow>
      (\<exists>m val r. present \<and> singular_metric read_metric run = Inr m \<and>
         dict_get (mt_values m) SINGULAR_GATED = Some val \<and>
         recorded_value SINGULAR_GATED mid (mt_scenario m) files = Some r \<and> val \<le> limit_of r)"
    using singular_gate.passes_iff [where files = files]
    by (auto simp: singular_perf_gate_def case_prod_unfold split: sum.split option.split)
  show "fst (service_perf_gate limit_of stub service answers (val, m) mid False files) = 0 \<longleftrightarrow>
      (\<exists>r. stub \<and> service \<and> answers \<noteq> [] \<and>
         list_all (\<lambda>(st, workflow). st = 200 \<and> workflow = Some (lit ''completed'')) answers \<and>
         recorded_value SERVICE_GATED mid (mt_scenario m) files = Some r \<and> val \<le> limit_of r)"
    using service_gate.passes_iff [where files = files]
    by (simp add: service_perf_gate_def completed_all case_prod_unfold)
  show "gf_baselines (snd (singular_perf_gate limit_of read_metric present run mid False files)) = gf_baselines files"
    by (simp add: singular_perf_gate_def judged_baselines split: sum.split option.split)
  show "gf_baselines (snd (service_perf_gate limit_of stub service answers (val, m) mid False files)) = gf_baselines files"
    by (simp add: service_perf_gate_def judged_baselines)
  show "fst (singular_perf_gate limit_of read_metric present run mid True files) = Inr () \<longleftrightarrow>
      (\<exists>m val. present \<and> singular_metric read_metric run = Inr m \<and>
         dict_get (mt_values m) SINGULAR_GATED = Some val \<and>
         recorded_value SINGULAR_GATED mid (mt_scenario m)
           (snd (singular_perf_gate limit_of read_metric present run mid True files)) = Some val)"
    using singular_gate.updated [where files = files]
    by (auto simp: singular_perf_gate_def case_prod_unfold split: sum.split option.split)
qed

text \<open>
  The stress gate passes exactly when every round raised the participant's execution count
  by exactly one and had a driver that succeeded; then the count over the whole run has risen
  by exactly the number of rounds, when each round starts from the count the last one left.
\<close>

theorem stress_gate_exactly_once:
  assumes "\<forall>i < length rounds - 1. fst (rounds ! Suc i) = snd (snd (rounds ! i))"
  shows "(stress_main True rounds = 0 \<longleftrightarrow>
      (\<forall>(before, codes, after) \<in> set rounds. after = before + 1 \<and> 0 \<in> set codes)) \<and>
    (stress_main True rounds = 0 \<and> rounds \<noteq> [] \<longrightarrow>
      snd (snd (last rounds)) - fst (hd rounds) = int (length rounds))"
proof -
  have "snd (snd (last rs)) - fst (hd rs) = int (length rs)"
    if "\<forall>r \<in> set rs. snd (snd r) = fst r + 1" "rs \<noteq> []"
      "\<forall>i < length rs - 1. fst (rs ! Suc i) = snd (snd (rs ! i))" for rs :: "(int \<times> int list \<times> int) list"
    using that
  proof (induction rs)
    case (Cons r rs)
    show ?case
    proof (cases rs)
      case Nil
      with Cons.prems(1) show ?thesis by simp
    next
      case (Cons s ss)
      have "\<forall>i < length rs - 1. fst (rs ! Suc i) = snd (snd (rs ! i))"
        using Cons.prems(3) by (auto dest: spec [of _ "Suc _"])
      then have "snd (snd (last rs)) - fst (hd rs) = int (length rs)"
        by (intro Cons.IH) (use Cons.prems(1) Cons in auto)
      moreover have "fst (hd rs) = snd (snd r)" using Cons.prems(3) Cons by auto
      moreover have "snd (snd r) = fst r + 1" using Cons.prems(1) by simp
      moreover have "last (r # rs) = last rs" using Cons by simp
      ultimately show ?thesis by simp
    qed
  qed simp
  note rise = this
  have "snd (snd (last rounds)) - fst (hd rounds) = int (length rounds)"
    if "\<forall>(before, codes, after) \<in> set rounds. after = before + 1 \<and> 0 \<in> set codes" "rounds \<noteq> []"
    by (rule rise) (use that assms in auto)
  then show ?thesis
    unfolding stress_main_def by (simp add: stress_rounds_pass del: One_nat_def)
qed

theorem stress_gate_exactly_once_witness:
  "stress_main True [(0, [1, 0], 1), (1, [0, 999], 2)] = 0"
  using stress_gate_exactly_once [of "[(0, [1, 0], 1), (1, [0, 999], 2)]"] by simp

end
