(* ===== verification/Zipapp.thy ===== *)
theory Zipapp
  imports Tooling "HOL-Library.Multiset"
begin

text \<open>
  \<open>microflows-viz/tools/build_zipapp.py\<close>: staging the package, PyMySQL and its license, the
  deterministic archive and the atomic replacement of the artifact.  A directory is the list
  of its files in the order the operating system lists them; the zip encoding is left out, an
  archive is its shebang and its entries with their headers.
\<close>

section \<open>Version and names\<close>

text \<open>
  The pattern of \<open>read_version\<close> at one line start: white space, the word, white space, the
  equals sign, white space, a quote, a non-empty body without quotes, a quote.
\<close>

definition after_prefix :: "str \<Rightarrow> str \<Rightarrow> str option" where
  "after_prefix u s = (if take (length u) s = u then Some (drop (length u) s) else None)"

definition quote_char :: "nat \<Rightarrow> bool" where
  "quote_char c \<longleftrightarrow> c = 34 \<or> c = 39"

definition version_at :: "str \<Rightarrow> str option" where
  "version_at s =
     (case after_prefix (lit ''version'') (dropWhile py_space s) of
        None \<Rightarrow> None
      | Some s1 \<Rightarrow>
          (case after_prefix (lit ''='') (dropWhile py_space s1) of
             None \<Rightarrow> None
           | Some s2 \<Rightarrow>
               (case dropWhile py_space s2 of
                  [] \<Rightarrow> None
                | q # s3 \<Rightarrow>
                    let body = takeWhile (\<lambda>c. \<not> quote_char c) s3
                    in if quote_char q \<and> body \<noteq> [] \<and> length body < length s3 then Some body else None)))"

fun search_version :: "bool \<Rightarrow> str \<Rightarrow> str option" where
  "search_version line_start [] = None"
| "search_version line_start (c # cs) =
     (case (if line_start then version_at (c # cs) else None) of
        Some v \<Rightarrow> Some v
      | None \<Rightarrow> search_version (c = 10) cs)"

definition read_version :: "str option \<Rightarrow> str tool" where
  "read_version pyproject =
     (case pyproject of
        None \<Rightarrow> Inl (Exit_Error ''pyproject.toml not found'')
      | Some text \<Rightarrow> option_res (Exit_Error ''could not find version'') (search_version True text))"

text \<open>\<open>str.upper\<close>, as far as its result contains ASCII letters.\<close>

definition upper_special :: "(nat, str) dict" where
  "upper_special = [(223, [83, 83]), (305, [73]), (329, [700, 78]), (383, [83]), (496, [74, 780]),
     (7830, [72, 817]), (7831, [84, 776]), (7832, [87, 778]), (7833, [89, 778]), (7834, [65, 702]),
     (64256, [70, 70]), (64257, [70, 73]), (64258, [70, 76]), (64259, [70, 70, 73]),
     (64260, [70, 70, 76]), (64261, [83, 84]), (64262, [83, 84])]"

definition upper :: "str \<Rightarrow> str" where
  "upper s = concat (map (\<lambda>c. if 97 \<le> c \<and> c \<le> 122 then [c - 32]
     else case dict_get upper_special c of Some u \<Rightarrow> u | None \<Rightarrow> [c]) s)"

definition LICENSE_PREFIXES :: "str list" where
  "LICENSE_PREFIXES = map lit [''LICENSE'', ''LICENCE'', ''COPYING'', ''NOTICE'', ''AUTHORS'']"

definition is_license_file :: "str \<Rightarrow> bool" where
  "is_license_file name \<longleftrightarrow> list_ex (\<lambda>u. after_prefix u (upper name) \<noteq> None) LICENSE_PREFIXES"

definition ends_with :: "str \<Rightarrow> str \<Rightarrow> bool" where
  "ends_with u s \<longleftrightarrow> length u \<le> length s \<and> drop (length s - length u) s = u"

definition EXCLUDE_DIRS :: "str set" where
  "EXCLUDE_DIRS = lit ` {''__pycache__'', ''tests'', ''test''}"

definition ignored :: "str \<Rightarrow> bool" where
  "ignored name \<longleftrightarrow> name \<in> EXCLUDE_DIRS \<or>
     list_ex (\<lambda>u. ends_with (lit u) name) [''.pyc'', ''.pyo'', ''.pyd'']"

section \<open>Staging\<close>

text \<open>Files by their path relative to the directory, with what was written into them.\<close>

datatype content = Copied bytes | Written str

type_synonym listing = "(str \<times> content) list"

definition file_name :: "str \<Rightarrow> str" where
  "file_name p = (case rpartition_on slash p of (_, _, name) \<Rightarrow> name)"

record dist_info =
  di_name :: str
  di_files :: listing

text \<open>\<open>copytree\<close> with \<open>_ignore\<close>: a name that is ignored hides everything below it.\<close>

definition copytree :: "str \<Rightarrow> listing \<Rightarrow> listing" where
  "copytree target files =
     map (\<lambda>(p, c). (target @ slash # p, c)) (filter (\<lambda>(p, c). \<not> list_ex ignored (split_on slash p)) files)"

text \<open>\<open>sorted\<close> on paths compares them component by component.\<close>

definition collect_license_files :: "dist_info option \<Rightarrow> listing" where
  "collect_license_files di =
     (case di of
        None \<Rightarrow> []
      | Some d \<Rightarrow>
          sort_key (\<lambda>f. split_on slash (fst f))
            (filter (\<lambda>(p, c). is_license_file (file_name p)) (di_files d)))"

text \<open>
  The version in the name of the dist-info directory, which the glob has matched: between
  \<open>pymysql-\<close> and \<open>.dist-info\<close>, a non-empty text without a line break.
\<close>

definition pymysql_version :: "dist_info option \<Rightarrow> str" where
  "pymysql_version di =
     (case di of
        None \<Rightarrow> lit ''unknown''
      | Some d \<Rightarrow>
          let v = take (length (di_name d) - 18) (drop 8 (di_name d))
          in if v = [] \<or> 10 \<in> set v then lit ''unknown'' else v)"

definition newline :: str where
  "newline = [10]"

text \<open>
  A slash in the version names a directory below one that does not exist, which \<open>mkdir\<close> refuses.
\<close>

definition stage :: "str \<Rightarrow> listing \<Rightarrow> listing \<Rightarrow> dist_info option \<Rightarrow> listing tool" where
  "stage version src pymysql di =
     (let py_version = pymysql_version di;
          licenses = collect_license_files di;
          py_dist = lit ''pymysql-'' @ py_version @ lit ''.dist-info/'';
          license_lines = concat (map (\<lambda>(p, c). lit ''License-File: '' @ file_name p @ newline) licenses);
          dist = lit ''microflows_viz-'' @ version @ lit ''.dist-info/''
      in if licenses = [] then Inl (Exit_Error ''PyMySQL license file not found'')
         else if slash \<in> set version then Inl (Exit_Error ''mkdir: no such directory'')
         else
           let staged = copytree (lit ''mfviz'') src @ copytree (lit ''pymysql'') pymysql;
               licensed = foldl (\<lambda>t (p, c). dict_set (py_dist @ file_name p) c t) staged licenses;
               meta = dict_set (py_dist @ lit ''METADATA'')
                 (Written (lit ''Metadata-Version: 2.1'' @ newline @ lit ''Name: PyMySQL'' @ newline
                    @ lit ''Version: '' @ py_version @ newline @ lit ''License-Expression: MIT'' @ newline
                    @ license_lines)) licensed;
               own = dict_set (dist @ lit ''METADATA'')
                 (Written (lit ''Metadata-Version: 2.1'' @ newline @ lit ''Name: microflows-viz'' @ newline
                    @ lit ''Version: '' @ version @ newline
                    @ lit ''Summary: Operator-facing viewer for Microflows workflow state (serve backend + browser UI).''
                    @ newline @ lit ''Requires-Python: >=3.10'' @ newline)) meta
           in Inr (dict_set (lit ''__main__.py'')
                (Written (lit ''from mfviz.cli import run'' @ newline @ newline
                   @ lit ''if __name__ == '' @ [34] @ lit ''__main__'' @ [34] @ lit '':'' @ newline
                   @ [9] @ lit ''run()'' @ newline)) own))"

section \<open>The archive\<close>

record entry =
  en_arcname :: str
  en_date_time :: "nat list"
  en_mode :: nat
  en_content :: content

record archive =
  ar_shebang :: str
  ar_entries :: "entry list"

definition FIXED_DATE_TIME :: "nat list" where
  "FIXED_DATE_TIME = [1980, 1, 1, 0, 0, 0]"

definition write_archive :: "listing \<Rightarrow> archive" where
  "write_archive staged =
     \<lparr>ar_shebang = lit ''#!/usr/bin/env python3'' @ newline,
      ar_entries = map (\<lambda>(p, c). \<lparr>en_arcname = p, en_date_time = FIXED_DATE_TIME,
          en_mode = 0x81a4, en_content = c\<rparr>) (sort_key fst staged)\<rparr>"

section \<open>The build\<close>

record build_env =
  be_src :: "listing option"
  be_pyproject :: "str option"
  be_venv :: "(bool \<times> listing \<times> dist_info list) list option"

text \<open>The first candidate with an \<open>__init__.py\<close>, with the first of its dist-infos by name.\<close>

definition find_pymysql :: "build_env \<Rightarrow> (listing \<times> dist_info option) tool" where
  "find_pymysql be =
     (case be_venv be of
        None \<Rightarrow> Inl (Exit_Error ''.venv not found'')
      | Some candidates \<Rightarrow>
          (case find fst candidates of
             None \<Rightarrow> Inl (Exit_Error ''PyMySQL not found in .venv'')
           | Some (_, files, dis) \<Rightarrow>
               Inr (files, case sort_key di_name dis of [] \<Rightarrow> None | d # _ \<Rightarrow> Some d)))"

text \<open>
  What a build touches: the ancestors of the artifact that do not exist yet, the artifact and the
  pending file beside it, each with its mode and its archive (\<open>None\<close>: not completely written),
  and whether the temporary directory of the staging is there.
\<close>

record zfile =
  zf_archive :: "archive option"
  zf_mode :: nat

record dest =
  ds_missing :: nat
  ds_artifact :: "zfile option"
  ds_pending :: "zfile option"
  ds_staging :: bool

text \<open>
  The operations that touch it, \<open>faults\<close> says which raises, before it has its effect: making a
  directory of which so many below it are missing, finding that the parent is one, making and
  removing the temporary directory, making and filling the staging directory in it, and the steps
  on the pending file.
\<close>

datatype build_step =
    Make_Dir nat | Check_Dir | Mkdtemp | Mkdir_Staging | Stage_Files | Mkstemp | Close
  | Write_Archive | Chmod | Os_Replace | Unlink | Rmtree

type_synonym faults = "build_step \<Rightarrow> tool_fault option"

definition do_step :: "faults \<Rightarrow> build_step \<Rightarrow> (dest \<Rightarrow> dest) \<Rightarrow> dest \<Rightarrow> unit tool \<times> dest" where
  "do_step faults s f d = (case faults s of Some e \<Rightarrow> (Inl e, d) | None \<Rightarrow> (Inr (), f d))"

definition and_then :: "unit tool \<times> dest \<Rightarrow> (dest \<Rightarrow> unit tool \<times> dest) \<Rightarrow> unit tool \<times> dest" where
  "and_then r f = (case r of (Inl e, d) \<Rightarrow> (Inl e, d) | (Inr _, d) \<Rightarrow> f d)"

text \<open>\<open>artifact.parent.mkdir(parents=True, exist_ok=True)\<close>: the outermost missing directory first.\<close>

fun make_dirs :: "faults \<Rightarrow> nat \<Rightarrow> dest \<Rightarrow> unit tool \<times> dest" where
  "make_dirs faults 0 d = (Inr (), d)"
| "make_dirs faults (Suc k) d =
     and_then (do_step faults (Make_Dir k) (\<lambda>d. d\<lparr>ds_missing := k\<rparr>) d) (make_dirs faults k)"

definition parent_mkdir :: "faults \<Rightarrow> dest \<Rightarrow> unit tool \<times> dest" where
  "parent_mkdir faults d =
     (if ds_missing d = 0 then do_step faults Check_Dir id d else make_dirs faults (ds_missing d) d)"

definition pending_made :: "dest \<Rightarrow> dest" where
  "pending_made d = d\<lparr>ds_pending := Some \<lparr>zf_archive = None, zf_mode = 0x180\<rparr>\<rparr>"

definition pending_written :: "listing \<Rightarrow> dest \<Rightarrow> dest" where
  "pending_written staged d =
     d\<lparr>ds_pending := map_option (\<lambda>z. z\<lparr>zf_archive := Some (write_archive staged)\<rparr>) (ds_pending d)\<rparr>"

definition pending_chmod :: "dest \<Rightarrow> dest" where
  "pending_chmod d = d\<lparr>ds_pending := map_option (\<lambda>z. z\<lparr>zf_mode := 0x1ed\<rparr>) (ds_pending d)\<rparr>"

definition pending_replace :: "dest \<Rightarrow> dest" where
  "pending_replace d = d\<lparr>ds_artifact := ds_pending d, ds_pending := None\<rparr>"

text \<open>
  The body of the \<open>try\<close>, and its \<open>except BaseException\<close>, whose \<open>unlink\<close> may itself raise.
\<close>

definition try_swap :: "faults \<Rightarrow> listing \<Rightarrow> dest \<Rightarrow> unit tool \<times> dest" where
  "try_swap faults staged d =
     (case and_then (and_then (do_step faults Write_Archive (pending_written staged) d)
                      (do_step faults Chmod pending_chmod))
             (do_step faults Os_Replace pending_replace) of
        (Inl e, d') \<Rightarrow>
          (case faults Unlink of
             Some e' \<Rightarrow> (Inl e', d')
           | None \<Rightarrow> (Inl e, d'\<lparr>ds_pending := None\<rparr>))
      | (Inr _, d') \<Rightarrow> (Inr (), d'))"

text \<open>The body of the \<open>with\<close>: \<open>os.close\<close> is outside the \<open>try\<close>.\<close>

definition stage_and_swap :: "faults \<Rightarrow> listing tool \<Rightarrow> dest \<Rightarrow> unit tool \<times> dest" where
  "stage_and_swap faults staging d =
     and_then (do_step faults Mkdir_Staging id d) (\<lambda>d.
     and_then (do_step faults Stage_Files id d) (\<lambda>d.
       case staging of
         Inl e \<Rightarrow> (Inl e, d)
       | Inr staged \<Rightarrow>
           and_then (do_step faults Mkstemp pending_made d) (\<lambda>d.
           and_then (do_step faults Close id d) (try_swap faults staged))))"

text \<open>\<open>with tempfile.TemporaryDirectory(...)\<close>: removed on every exit; a failing removal is what raises.\<close>

definition with_tempdir :: "faults \<Rightarrow> (dest \<Rightarrow> unit tool \<times> dest) \<Rightarrow> dest \<Rightarrow> unit tool \<times> dest" where
  "with_tempdir faults body d =
     and_then (do_step faults Mkdtemp (\<lambda>d. d\<lparr>ds_staging := True\<rparr>) d) (\<lambda>d.
       case body d of (r, d') \<Rightarrow>
         (case faults Rmtree of Some e \<Rightarrow> (Inl e, d') | None \<Rightarrow> (r, d'\<lparr>ds_staging := False\<rparr>)))"

definition locate :: "build_env \<Rightarrow> (str \<times> listing \<times> dist_info option) tool" where
  "locate be =
     bind_res (read_version (be_pyproject be)) (\<lambda>version.
     bind_res (find_pymysql be) (\<lambda>(pymysql, di). Inr (version, pymysql, di)))"

definition zip_build :: "build_env \<Rightarrow> faults \<Rightarrow> dest \<Rightarrow> str tool \<times> dest" where
  "zip_build be faults d =
     (case be_src be of
        None \<Rightarrow> (Inl (Exit_Error ''package source not found''), d)
      | Some src \<Rightarrow>
          (case locate be of
             Inl e \<Rightarrow> (Inl e, d)
           | Inr (version, pymysql, di) \<Rightarrow>
               (case and_then (parent_mkdir faults d)
                       (with_tempdir faults (stage_and_swap faults (stage version src pymysql di))) of
                  (Inl e, d') \<Rightarrow> (Inl e, d')
                | (Inr _, d') \<Rightarrow> (Inr version, d'))))"

section \<open>Properties\<close>

lemma write_archive_perm:
  assumes "mset xs = mset ys" and "distinct (map fst xs)"
  shows "write_archive xs = write_archive ys"
proof -
  have "inj_on fst (set xs)" using assms(2) by (simp add: distinct_map)
  moreover have "mset xs = mset (sort_key fst ys)" using assms(1) by simp
  ultimately have "sort_key fst xs = sort_key fst ys"
    by (intro sort_key_inj_key_eq) simp_all
  then show ?thesis by (simp add: write_archive_def)
qed

lemma mset_dict_set:
  "mset xs = mset ys \<Longrightarrow> distinct (map fst xs) \<Longrightarrow>
     mset (dict_set k v xs) = mset (dict_set k v ys) \<and> distinct (map fst (dict_set k v xs))"
proof -
  have upd: "mset (dict_set k v zs) = add_mset (k, v) (filter_mset (\<lambda>p. fst p \<noteq> k) (mset zs))"
    if "distinct (map fst zs)" for zs
    using that
  proof (induction zs)
    case (Cons z zs)
    show ?case
    proof (cases "fst z = k")
      case True
      then have "filter_mset (\<lambda>p. fst p \<noteq> k) (mset zs) = mset zs"
        using Cons.prems filter_True [of zs "\<lambda>p. fst p \<noteq> k"]
        by (metis (mono_tags, lifting) distinct.simps(2) image_eqI list.set_map list.simps(9) mset_filter)
      with True show ?thesis by (cases z) simp
    next
      case False
      with Cons show ?thesis by (cases z) simp
    qed
  qed simp
  assume "mset xs = mset ys" "distinct (map fst xs)"
  moreover from this have "distinct (map fst ys)"
    by (metis mset_map mset_eq_imp_distinct_iff)
  ultimately show ?thesis by (simp add: upd distinct_update)
qed

text \<open>Two environments that differ in the order the operating system lists files in.\<close>

definition same_listing :: "listing \<Rightarrow> listing \<Rightarrow> bool" where
  "same_listing xs ys \<longleftrightarrow> mset xs = mset ys \<and> distinct (map fst xs)"

definition same_info :: "dist_info \<Rightarrow> dist_info \<Rightarrow> bool" where
  "same_info a b \<longleftrightarrow> di_name a = di_name b \<and> same_listing (di_files a) (di_files b)"

lemma sort_key_eqI:
  "mset xs = mset ys \<Longrightarrow> inj_on f (set xs) \<Longrightarrow> sort_key f xs = sort_key f ys"
  by (intro sort_key_inj_key_eq) simp_all

lemma same_listing_sort:
  assumes "same_listing xs ys" and "inj h"
  shows "sort_key (\<lambda>f. h (fst f)) xs = sort_key (\<lambda>f. h (fst f)) ys"
proof (rule sort_key_eqI)
  have "inj_on fst (set xs)" using assms(1) by (simp add: same_listing_def distinct_map)
  then have "inj_on (h \<circ> fst) (set xs)"
    by (rule comp_inj_on) (rule inj_on_subset [OF assms(2)], simp)
  then show "inj_on (\<lambda>f. h (fst f)) (set xs)" by (simp only: comp_def)
  show "mset xs = mset ys" using assms(1) by (simp add: same_listing_def)
qed

lemma same_listing_filter:
  "same_listing xs ys \<Longrightarrow> same_listing (filter P xs) (filter P ys)"
  by (simp add: same_listing_def distinct_map_filter)

lemma same_licenses:
  assumes "rel_option same_info a b"
  shows "collect_license_files a = collect_license_files b" and "pymysql_version a = pymysql_version b"
proof -
  have inj: "inj (split_on slash)" by (metis injI join_split)
  have "collect_license_files (Some d) = collect_license_files (Some e)" if "same_info d e" for d e
    unfolding collect_license_files_def option.case
    by (rule same_listing_sort [OF same_listing_filter inj]) (use that in \<open>simp add: same_info_def\<close>)
  with assms show "collect_license_files a = collect_license_files b"
    by (cases rule: option.rel_cases) simp_all
  show "pymysql_version a = pymysql_version b"
    using assms by (cases rule: option.rel_cases) (simp_all add: pymysql_version_def same_info_def)
qed

lemma rel_sum_cases:
  assumes "rel_sum R S x y"
  obtains (Left) e f where "x = Inl e" "y = Inl f" "R e f"
    | (Right) p q where "x = Inr p" "y = Inr q" "S p q"
  using assms by (cases x; cases y) auto

lemma first_info:
  assumes "mset ms = mset dis" and "distinct (map di_name dis)" and "list_all2 same_info ms ejs"
  shows "rel_option same_info
           (case sort_key di_name dis of [] \<Rightarrow> None | d # _ \<Rightarrow> Some d)
           (case sort_key di_name ejs of [] \<Rightarrow> None | d # _ \<Rightarrow> Some d)"
proof -
  have "sort_key di_name dis = sort_key di_name ms"
    using assms(1,2) by (intro sort_key_eqI) (simp_all add: distinct_map)
  moreover have "list_all2 same_info (sort_key di_name ms) (sort_key di_name ejs)"
    using assms(3) by (intro list_all2_sort_key) (simp_all add: same_info_def)
  ultimately show ?thesis
    by (cases "sort_key di_name ms"; cases "sort_key di_name ejs") simp_all
qed

definition same_candidate :: "bool \<times> listing \<times> dist_info list \<Rightarrow> bool \<times> listing \<times> dist_info list \<Rightarrow> bool" where
  "same_candidate = (\<lambda>(i, fs, dis) (j, gs, ejs). i = j \<and> same_listing fs gs \<and>
     (\<exists>ms. mset ms = mset dis \<and> distinct (map di_name dis) \<and> list_all2 same_info ms ejs))"

lemma same_candidate_find:
  assumes "list_all2 same_candidate xs ys"
  shows "rel_option same_candidate (find fst xs) (find fst ys)"
  using assms
proof (induction rule: list_all2_induct)
  case (Cons x xs y ys)
  then have "fst x = fst y" by (auto simp: same_candidate_def split: prod.splits)
  with Cons show ?case by simp
qed simp

definition same_inputs :: "build_env \<Rightarrow> build_env \<Rightarrow> bool" where
  "same_inputs a b \<longleftrightarrow>
     be_pyproject a = be_pyproject b \<and> rel_option same_listing (be_src a) (be_src b) \<and>
     rel_option (list_all2 same_candidate) (be_venv a) (be_venv b)"

lemma same_find_pymysql:
  assumes "rel_option (list_all2 same_candidate) (be_venv a) (be_venv b)"
  shows "rel_sum (=) (rel_prod same_listing (rel_option same_info)) (find_pymysql a) (find_pymysql b)"
proof (cases "be_venv a")
  case None
  with assms show ?thesis by (simp add: find_pymysql_def option_rel_Some1)
next
  case (Some xs)
  with assms obtain ys where ys: "be_venv b = Some ys" "list_all2 same_candidate xs ys"
    by (auto simp: option_rel_Some1)
  from same_candidate_find [OF ys(2)] show ?thesis
  proof (cases rule: option.rel_cases)
    case None
    with Some ys show ?thesis by (simp add: find_pymysql_def)
  next
    case (Some x y)
    then show ?thesis using ys \<open>be_venv a = Some xs\<close>
      by (cases x; cases y) (auto simp: find_pymysql_def same_candidate_def intro: first_info)
  qed
qed

lemma same_listing_copytree:
  assumes "same_listing xs ys"
  shows "same_listing (copytree t xs) (copytree t ys)"
proof -
  define zs ws where "zs = filter (\<lambda>(p, c). \<not> list_ex ignored (split_on slash p)) xs"
    and "ws = filter (\<lambda>(p, c). \<not> list_ex ignored (split_on slash p)) ys"
  have rel: "same_listing zs ws" using assms unfolding zs_def ws_def by (rule same_listing_filter)
  have keys: "map fst (map (\<lambda>(p, c). (t @ slash # p, c)) zs) = map (\<lambda>p. t @ slash # p) (map fst zs)"
    by (induction zs) auto
  have "distinct (map (\<lambda>p. t @ slash # p) (map fst zs))"
    using rel by (simp only: distinct_map [of _ "map fst zs"]) (simp add: same_listing_def inj_on_def)
  moreover have "mset (map (\<lambda>(p, c). (t @ slash # p, c)) zs) = mset (map (\<lambda>(p, c). (t @ slash # p, c)) ws)"
    using rel by (simp only: mset_map same_listing_def)
  ultimately show ?thesis
    by (simp only: same_listing_def copytree_def keys flip: zs_def ws_def)
qed

lemma same_listing_dict_set:
  "same_listing xs ys \<Longrightarrow> same_listing (dict_set k v xs) (dict_set k v ys)"
  by (simp add: same_listing_def mset_dict_set)

lemma same_listing_licensed:
  "same_listing xs ys \<Longrightarrow>
     same_listing (foldl (\<lambda>t (p, c). dict_set (h p) c t) xs ls) (foldl (\<lambda>t (p, c). dict_set (h p) c t) ys ls)"
  by (induction ls arbitrary: xs ys) (auto intro: same_listing_dict_set)

lemma same_listing_append:
  assumes "same_listing xs ys" and "same_listing zs ws" and "fst ` set xs \<inter> fst ` set zs = {}"
  shows "same_listing (xs @ zs) (ys @ ws)"
  using assms by (simp add: same_listing_def)

lemma copytree_first: "p \<in> fst ` set (copytree t fs) \<Longrightarrow> slash \<notin> set t \<Longrightarrow> hd (split_on slash p) = t"
  by (auto simp: copytree_def split_on_append)

lemma same_stage:
  assumes "same_listing src src'" and "same_listing py py'" and "rel_option same_info di di'"
  shows "rel_sum (=) same_listing (stage v src py di) (stage v src' py' di')"
proof -
  have parts: "slash \<notin> set (lit ''mfviz'')" "slash \<notin> set (lit ''pymysql'')" "lit ''mfviz'' \<noteq> lit ''pymysql''"
    by (simp_all add: lit_def)
  have "same_listing (copytree (lit ''mfviz'') src @ copytree (lit ''pymysql'') py)
      (copytree (lit ''mfviz'') src' @ copytree (lit ''pymysql'') py')"
  proof (rule same_listing_append)
    show "fst ` set (copytree (lit ''mfviz'') src) \<inter> fst ` set (copytree (lit ''pymysql'') py) = {}"
      using copytree_first [OF _ parts(1)] copytree_first [OF _ parts(2)] parts(3) by fastforce
  qed (use assms(1,2) in \<open>simp_all add: same_listing_copytree\<close>)
  then show ?thesis
    unfolding stage_def Let_def same_licenses [OF assms(3)]
    by (simp add: same_listing_dict_set same_listing_licensed)
qed

lemma same_listing_archive: "same_listing xs ys \<Longrightarrow> write_archive xs = write_archive ys"
  by (simp add: same_listing_def write_archive_perm)

lemma same_locate:
  assumes "same_inputs a b"
  shows "rel_sum (=) (rel_prod (=) (rel_prod same_listing (rel_option same_info))) (locate a) (locate b)"
proof (cases "read_version (be_pyproject b)")
  case (Inl e)
  with assms show ?thesis by (simp add: locate_def same_inputs_def)
next
  case (Inr v)
  from assms have "rel_sum (=) (rel_prod same_listing (rel_option same_info)) (find_pymysql a) (find_pymysql b)"
    by (intro same_find_pymysql) (simp add: same_inputs_def)
  then show ?thesis
    using Inr assms by (cases rule: rel_sum_cases) (auto simp: locate_def same_inputs_def)
qed

lemma same_listing_swap: "same_listing xs ys \<Longrightarrow> try_swap faults xs = try_swap faults ys"
  by (rule ext)
     (simp add: try_swap_def and_then_def do_step_def pending_written_def same_listing_archive split: option.split)

lemma same_staging:
  assumes "rel_sum (=) same_listing x y"
  shows "stage_and_swap faults x = stage_and_swap faults y"
  using assms by (cases rule: rel_sum_cases) (simp_all add: stage_and_swap_def fun_eq_iff same_listing_swap)

lemma same_build:
  assumes "same_inputs a b"
  shows "zip_build a faults d = zip_build b faults d"
proof (cases "be_src a")
  case None
  with assms show ?thesis by (simp add: zip_build_def same_inputs_def)
next
  case (Some src)
  with assms obtain src' where src': "be_src b = Some src'" "same_listing src src'"
    by (auto simp: same_inputs_def option_rel_Some1)
  from same_locate [OF assms] show ?thesis
  proof (cases rule: rel_sum_cases)
    case (Left e f)
    with Some src' show ?thesis by (simp add: zip_build_def)
  next
    case (Right p q)
    then obtain v py di py' di' where pq: "p = (v, py, di)" "q = (v, py', di')" "same_listing py py'" "rel_option same_info di di'"
      by (cases p; cases q) auto
    with Right Some src' same_staging [OF same_stage [OF src'(2) pq(3,4)]] show ?thesis by (simp add: zip_build_def)
  qed
qed

lemma make_dirs_result:
  "\<exists>m \<le> k. snd (make_dirs faults k d) = d\<lparr>ds_missing := m\<rparr> \<and>
     (fst (make_dirs faults k d) = Inr () \<longrightarrow> m = 0 \<and> (\<forall>i < k. faults (Make_Dir i) = None))"
  if "ds_missing d = k"
  using that
proof (induction k arbitrary: d)
  case 0
  then show ?case by (cases d) auto
next
  case (Suc k)
  show ?case
  proof (cases "faults (Make_Dir k)")
    case None
    obtain m where m: "m \<le> k" "snd (make_dirs faults k (d\<lparr>ds_missing := k\<rparr>)) = d\<lparr>ds_missing := m\<rparr>"
      "fst (make_dirs faults k (d\<lparr>ds_missing := k\<rparr>)) = Inr () \<longrightarrow> m = 0 \<and> (\<forall>i < k. faults (Make_Dir i) = None)"
      using Suc.IH [of "d\<lparr>ds_missing := k\<rparr>"] by auto
    with None show ?thesis
      by (intro exI [of _ m]) (auto simp: and_then_def do_step_def less_Suc_eq)
  next
    case (Some e)
    then show ?thesis
      using Suc.prems by (intro exI [of _ "Suc k"]) (cases d; simp add: and_then_def do_step_def)
  qed
qed

lemma parent_mkdir_result:
  obtains m where "m \<le> ds_missing d" "snd (parent_mkdir faults d) = d\<lparr>ds_missing := m\<rparr>"
    "fst (parent_mkdir faults d) = Inr () \<Longrightarrow> m = 0"
proof (cases "ds_missing d = 0")
  case True
  then have "snd (parent_mkdir faults d) = d\<lparr>ds_missing := 0\<rparr>"
    by (cases d) (simp add: parent_mkdir_def do_step_def split: option.split)
  then show thesis by (intro that [of 0]) simp_all
next
  case False
  then show thesis using make_dirs_result [of d "ds_missing d" faults] that by (auto simp: parent_mkdir_def)
qed

text \<open>What the build leaves of the file system, whatever raised.\<close>

definition completed :: "listing \<Rightarrow> zfile" where
  "completed staged = \<lparr>zf_archive = Some (write_archive staged), zf_mode = 0x1ed\<rparr>"

definition leftover_pending :: "faults \<Rightarrow> bool" where
  "leftover_pending faults \<longleftrightarrow>
     faults Close \<noteq> None \<or> faults Unlink \<noteq> None \<and> (\<exists>s \<in> {Write_Archive, Chmod, Os_Replace}. faults s \<noteq> None)"

lemma stage_and_swap_result:
  assumes "ds_pending d = None" and "stage_and_swap faults staging d = (r, d')"
  shows "r = Inr () \<Longrightarrow> \<exists>staged. staging = Inr staged \<and> d' = d\<lparr>ds_artifact := Some (completed staged)\<rparr> \<and>
      list_all (\<lambda>s. faults s = None) [Mkdir_Staging, Stage_Files, Mkstemp, Close, Write_Archive, Chmod, Os_Replace]"
    and "r = Inl e \<Longrightarrow> \<exists>z. d' = d\<lparr>ds_pending := z\<rparr> \<and> (z \<noteq> None \<longrightarrow> leftover_pending faults)"
proof -
  have keep: "d = d\<lparr>ds_pending := None\<rparr>" using assms(1) by (cases d) simp
  note defs = stage_and_swap_def try_swap_def and_then_def do_step_def pending_made_def pending_written_def
    pending_chmod_def pending_replace_def completed_def leftover_pending_def
  show "r = Inr () \<Longrightarrow> \<exists>staged. staging = Inr staged \<and> d' = d\<lparr>ds_artifact := Some (completed staged)\<rparr> \<and>
      list_all (\<lambda>s. faults s = None) [Mkdir_Staging, Stage_Files, Mkstemp, Close, Write_Archive, Chmod, Os_Replace]"
    using assms(2) keep by (cases d) (auto simp: defs split: option.splits sum.splits)
  show "r = Inl e \<Longrightarrow> \<exists>z. d' = d\<lparr>ds_pending := z\<rparr> \<and> (z \<noteq> None \<longrightarrow> leftover_pending faults)"
    using assms(2) keep by (cases d) (auto simp: defs split: option.splits sum.splits)
qed

lemma with_tempdir_result:
  assumes "ds_pending d = None" and "\<not> ds_staging d"
    and "with_tempdir faults (stage_and_swap faults staging) d = (r, d')"
  shows "r = Inr () \<Longrightarrow> (\<exists>staged. staging = Inr staged \<and> d' = d\<lparr>ds_artifact := Some (completed staged)\<rparr>) \<and>
      list_all (\<lambda>s. faults s = None) [Mkdtemp, Mkdir_Staging, Stage_Files, Mkstemp, Close, Write_Archive, Chmod,
        Os_Replace, Rmtree]"
    and "r = Inl e \<Longrightarrow> ds_missing d' = ds_missing d \<and> (ds_staging d' \<longrightarrow> faults Rmtree \<noteq> None) \<and>
      (ds_pending d' \<noteq> None \<longrightarrow> leftover_pending faults) \<and>
      (ds_artifact d' = ds_artifact d \<or> faults Rmtree = Some e \<and> ds_pending d' = None \<and>
        (\<exists>staged. staging = Inr staged \<and> ds_artifact d' = Some (completed staged)))"
proof -
  let ?d = "d\<lparr>ds_staging := True\<rparr>"
  obtain q d1 where body: "stage_and_swap faults staging ?d = (q, d1)" by fastforce
  have pending: "ds_pending ?d = None" using assms(1) by simp
  note results = stage_and_swap_result [OF pending body]
  have run: "(case faults Mkdtemp of Some x \<Rightarrow> (Inl x, d) | None \<Rightarrow>
      (case faults Rmtree of Some x \<Rightarrow> (Inl x, d1) | None \<Rightarrow> (q, d1\<lparr>ds_staging := False\<rparr>))) = (r, d')"
    using assms(3) by (simp add: with_tempdir_def and_then_def do_step_def body split: option.splits)
  show "(\<exists>staged. staging = Inr staged \<and> d' = d\<lparr>ds_artifact := Some (completed staged)\<rparr>) \<and>
      list_all (\<lambda>s. faults s = None) [Mkdtemp, Mkdir_Staging, Stage_Files, Mkstemp, Close, Write_Archive, Chmod,
        Os_Replace, Rmtree]" if r: "r = Inr ()"
  proof -
    from run r have q: "q = Inr ()" and d': "d' = d1\<lparr>ds_staging := False\<rparr>"
      and ran: "faults Mkdtemp = None" "faults Rmtree = None"
      by (auto split: option.splits)
    from results(1) [OF q] obtain staged where s: "staging = Inr staged" "d1 = ?d\<lparr>ds_artifact := Some (completed staged)\<rparr>"
      "list_all (\<lambda>s. faults s = None) [Mkdir_Staging, Stage_Files, Mkstemp, Close, Write_Archive, Chmod, Os_Replace]"
      by blast
    have "d' = d\<lparr>ds_artifact := Some (completed staged)\<rparr>"
      unfolding d' s(2) using assms(2) by (cases d) simp
    with s ran show ?thesis by simp
  qed
  show "ds_missing d' = ds_missing d \<and> (ds_staging d' \<longrightarrow> faults Rmtree \<noteq> None) \<and>
      (ds_pending d' \<noteq> None \<longrightarrow> leftover_pending faults) \<and>
      (ds_artifact d' = ds_artifact d \<or> faults Rmtree = Some e \<and> ds_pending d' = None \<and>
        (\<exists>staged. staging = Inr staged \<and> ds_artifact d' = Some (completed staged)))" if "r = Inl e"
  proof (cases q)
    case (Inl x)
    from results(2) [OF Inl] obtain z where z: "d1 = ?d\<lparr>ds_pending := z\<rparr>" "z \<noteq> None \<longrightarrow> leftover_pending faults" by blast
    show ?thesis using run assms(1,2) that z by (auto split: option.splits)
  next
    case (Inr u)
    then have "q = Inr ()" by simp
    from results(1) [OF this] obtain staged where s: "staging = Inr staged" "d1 = ?d\<lparr>ds_artifact := Some (completed staged)\<rparr>"
      by blast
    show ?thesis using run assms(1,2) that s Inr by (auto split: option.splits)
  qed
qed

text \<open>
  C40. Builds are reproducible and atomic.  Two environments that differ only in the order the
  operating system lists files in give the same result and the same artifact, entry by entry.
  Whatever raises, the artifact is what it was before or, when only the clean-up after the swap
  failed, the complete new one, never a partly written file; a pending file is left behind only
  when closing or removing it failed, the temporary directory only when its removal failed, and
  otherwise nothing changes but that missing parent directories may have been made.  A build
  that returns has put in place the complete archive of the staged files, executable, has left
  nothing else behind, and no step failed.
\<close>

theorem build_reproducible_and_atomic:
  assumes "same_inputs a b" and "ds_pending d = None" and "\<not> ds_staging d"
  shows "zip_build a faults d = zip_build b faults d \<and>
    (case zip_build a faults d of
       (Inl e, d') \<Rightarrow>
         (ds_artifact d' = ds_artifact d \<or>
          faults Rmtree = Some e \<and> ds_pending d' = None \<and>
            (\<exists>src v py di staged. be_src a = Some src \<and> locate a = Inr (v, py, di) \<and>
              stage v src py di = Inr staged \<and> ds_artifact d' = Some (completed staged))) \<and>
         (ds_pending d' \<noteq> None \<longrightarrow> faults Close \<noteq> None \<or>
            faults Unlink \<noteq> None \<and> (\<exists>s \<in> {Write_Archive, Chmod, Os_Replace}. faults s \<noteq> None)) \<and>
         (ds_staging d' \<longrightarrow> faults Rmtree \<noteq> None) \<and> ds_missing d' \<le> ds_missing d
     | (Inr v, d') \<Rightarrow>
         list_all (\<lambda>s. faults s = None) [Mkdtemp, Mkdir_Staging, Stage_Files, Mkstemp, Close, Write_Archive, Chmod,
           Os_Replace, Rmtree] \<and>
         (\<exists>src py di staged. be_src a = Some src \<and> locate a = Inr (v, py, di) \<and> stage v src py di = Inr staged \<and>
            d' = d\<lparr>ds_missing := 0, ds_artifact := Some (completed staged)\<rparr>))"
    (is "_ \<and> ?outcome")
proof
  show "zip_build a faults d = zip_build b faults d" using assms(1) by (rule same_build)
  obtain m where m: "m \<le> ds_missing d" "snd (parent_mkdir faults d) = d\<lparr>ds_missing := m\<rparr>"
    "fst (parent_mkdir faults d) = Inr () \<Longrightarrow> m = 0"
    using parent_mkdir_result [of d faults] by blast
  let ?d = "d\<lparr>ds_missing := m\<rparr>"
  have clean: "ds_pending ?d = None" "\<not> ds_staging ?d" using assms(2,3) by simp_all
  show ?outcome
  proof (cases "\<exists>src v py di. be_src a = Some src \<and> locate a = Inr (v, py, di) \<and> fst (parent_mkdir faults d) = Inr ()")
    case False
    then show ?thesis using m assms(2,3)
      by (cases "parent_mkdir faults d") (auto simp: zip_build_def and_then_def split: option.splits sum.splits)
  next
    case True
    then obtain src v py di where src: "be_src a = Some src" "locate a = Inr (v, py, di)"
      and made: "parent_mkdir faults d = (Inr (), ?d)" "m = 0"
      using m by (cases "parent_mkdir faults d") auto
    obtain r d' where t: "with_tempdir faults (stage_and_swap faults (stage v src py di)) ?d = (r, d')" by fastforce
    note results = with_tempdir_result [OF clean t]
    have built: "zip_build a faults d = (case (r, d') of (Inl e, d') \<Rightarrow> (Inl e, d') | (Inr _, d') \<Rightarrow> (Inr v, d'))"
      using src made(1) t by (simp add: zip_build_def and_then_def)
    show ?thesis
    proof (cases r)
      case (Inl e)
      with results(2) [OF Inl] src made(2) show ?thesis unfolding leftover_pending_def built by auto
    next
      case (Inr u)
      then have "r = Inr ()" by simp
      from results(1) [OF this] Inr src made(2) show ?thesis unfolding built by auto
    qed
  qed
qed

definition sample_env :: "bool \<Rightarrow> build_env" where
  "sample_env b =
     (let cli = (lit ''cli.py'', Copied [1]); dbq = (lit ''dbq.py'', Copied [2]);
          lic = (lit ''license'', Copied [3]); rec = (lit ''RECORD'', Copied [4])
      in \<lparr>be_src = Some (if b then [cli, dbq] else [dbq, cli]),
          be_pyproject = Some (lit ''version='' @ [34] @ lit ''1'' @ [34]),
          be_venv = Some [(True, [(lit ''err.py'', Copied [5])],
            [\<lparr>di_name = lit ''PyMySQL-1.1.dist-info'', di_files = if b then [lic, rec] else [rec, lic]\<rparr>])]\<rparr>)"

lemma stage_returns:
  "collect_license_files di \<noteq> [] \<Longrightarrow> slash \<notin> set version \<Longrightarrow> \<not> isl (stage version src py di)"
  by (simp add: stage_def Let_def)

lemma sample_version: "read_version (be_pyproject (sample_env True)) = Inr (lit ''1'')"
  by (simp add: read_version_def sample_env_def Let_def version_at_def after_prefix_def quote_char_def
      py_space_def ascii_space_def wide_space_def lit_def)

lemma sample_license_file: "is_license_file (file_name (lit ''license''))"
proof -
  have "file_name (lit ''license'') = lit ''license''"
    by (simp add: file_name_def rpartition_on_def lit_def)
  moreover have "upper (lit ''license'') = lit ''LICENSE''"
    by (simp add: upper_def lit_def)
  moreover have "after_prefix (lit ''LICENSE'') (lit ''LICENSE'') \<noteq> None"
    by (simp add: after_prefix_def)
  ultimately show ?thesis by (simp add: is_license_file_def LICENSE_PREFIXES_def)
qed

lemma sample_license:
  "case find_pymysql (sample_env True) of Inr (py, di) \<Rightarrow> collect_license_files di \<noteq> [] | _ \<Rightarrow> False"
  using sample_license_file by (auto simp: find_pymysql_def sample_env_def Let_def collect_license_files_def filter_empty_conv)

lemma sample_builds: "\<exists>v py di staged. locate (sample_env True) = Inr (v, py, di) \<and> stage v src py di = Inr staged"
proof -
  obtain py di where py: "find_pymysql (sample_env True) = Inr (py, di)" "collect_license_files di \<noteq> []"
    using sample_license by (auto split: sum.splits)
  have "\<not> isl (stage (lit ''1'') src py di)" using py(2) by (rule stage_returns) (simp add: lit_def)
  then show ?thesis using py by (cases "stage (lit ''1'') src py di") (simp_all add: locate_def sample_version)
qed

lemma same_listing_swap2: "fst x \<noteq> fst y \<Longrightarrow> same_listing [x, y] [y, x]"
  by (simp add: same_listing_def)

lemma same_candidate_single:
  "same_info d e \<Longrightarrow> distinct (map fst fs) \<Longrightarrow> same_candidate (i, fs, [d]) (i, fs, [e])"
  by (simp add: same_candidate_def same_listing_def)

lemma sample_same: "same_inputs (sample_env True) (sample_env False)"
  unfolding same_inputs_def sample_env_def Let_def if_True if_False build_env.simps
    option.rel_inject list.rel_inject
  by (intro conjI same_listing_swap2 same_candidate_single refl list.rel_intros; simp add: same_info_def same_listing_swap2 lit_def)

lemma build_reproducible_and_atomic_witness:
  "let d = \<lparr>ds_missing = 1, ds_artifact = None, ds_pending = None, ds_staging = False\<rparr>;
       f = (\<lambda>s. if s = Os_Replace then Some (Exit_Error ''replace'') else None) in
   zip_build (sample_env True) f d = zip_build (sample_env False) f d \<and>
   ds_artifact (snd (zip_build (sample_env True) f d)) = None \<and> ds_pending (snd (zip_build (sample_env True) f d)) = None \<and>
   \<not> isl (fst (zip_build (sample_env True) (\<lambda>_. None) d)) \<and> ds_missing (snd (zip_build (sample_env True) (\<lambda>_. None) d)) = 0"
proof -
  define d where "d = \<lparr>ds_missing = 1, ds_artifact = (None :: zfile option), ds_pending = None, ds_staging = False\<rparr>"
  define f where "f = (\<lambda>s. if s = Os_Replace then Some (Exit_Error ''replace'') else None)"
  have d: "ds_pending d = None" "\<not> ds_staging d" by (simp_all add: d_def)
  note holds = build_reproducible_and_atomic [OF sample_same d]
  obtain src where src: "be_src (sample_env True) = Some src" by (simp add: sample_env_def Let_def)
  then obtain v py di staged where p: "locate (sample_env True) = Inr (v, py, di)" "stage v src py di = Inr staged"
    using sample_builds [of src] by blast
  note run = zip_build_def parent_mkdir_def with_tempdir_def stage_and_swap_def try_swap_def and_then_def do_step_def
    pending_made_def pending_written_def pending_chmod_def pending_replace_def
  have ok: "\<not> isl (fst (zip_build (sample_env True) (\<lambda>_. None) d))"
    using src p by (simp add: run d_def)
  have bad: "isl (fst (zip_build (sample_env True) f d))"
    using src p by (simp add: run d_def f_def)
  obtain e d1 where bad': "zip_build (sample_env True) f d = (Inl e, d1)"
    using bad by (cases "zip_build (sample_env True) f d"; cases "fst (zip_build (sample_env True) f d)") auto
  have "ds_artifact d1 = None \<and> ds_pending d1 = None"
    using holds [of f, THEN conjunct2, unfolded bad' prod.case sum.case] by (simp add: f_def d_def)
  then have left: "ds_artifact (snd (zip_build (sample_env True) f d)) = None"
      "ds_pending (snd (zip_build (sample_env True) f d)) = None"
    by (simp_all add: bad')
  obtain u d2 where ok': "zip_build (sample_env True) (\<lambda>_. None) d = (Inr u, d2)"
    using ok by (cases "zip_build (sample_env True) (\<lambda>_. None) d"; cases "fst (zip_build (sample_env True) (\<lambda>_. None) d)") auto
  have "ds_missing d2 = 0"
    using holds [of "\<lambda>_. None", THEN conjunct2, unfolded ok' prod.case sum.case] by auto
  then have "ds_missing (snd (zip_build (sample_env True) (\<lambda>_. None) d)) = 0" by (simp add: ok')
  then show ?thesis
    unfolding Let_def d_def [symmetric] f_def [symmetric] using holds [of f, THEN conjunct1] left ok by blast
qed

end
