(* ===== verification/Singular_DB.thy ===== *)
theory Singular_DB
  imports Values
begin

text \<open>
  The Singular backend: the two tables of \<open>singular/db/schema\<close> and the stored procedures of
  \<open>singular/db/procs\<close>.  A work unit is named by its service group and its idempotency key; its row
  in \<open>tb_singular_work_item\<close> points at the newest of its events in
  \<open>tb_singular_work_item_history\<close>.  A procedure runs in one transaction of its caller, so it
  either commits with an outcome or leaves the tables as they were: \<open>Inl\<close> is a \<open>SIGNAL\<close> or a
  constraint the server refuses, \<open>Inr\<close> the outcome document with the new tables.  SQL \<open>NULL\<close> is
  \<open>None\<close>.

  Arguments are within the widths the procedures declare (the server refuses others before the
  body runs).  Two things of the server are parameters: which texts \<open>JSON_VALID\<close> and \<open>JSON_TYPE\<close> call a JSON
  object, and the collation under which service groups are equal.  \<open>UTC_TIMESTAMP\<close> is the
  argument \<open>now\<close>; it only reaches the audit columns.
\<close>

section \<open>Tables\<close>

record work_item =
  wi_service_group :: str
  wi_idempotency_key :: bytes
  wi_current_event_ts :: datetime
  wi_checkpoint_payload :: str
  wi_current_lease_token :: "bytes option"
  wi_terminal_lease_token :: "bytes option"
  wi_created_at :: datetime
  wi_updated_at :: datetime

record work_event =
  we_service_group :: str
  we_idempotency_key :: bytes
  we_event_ts :: datetime
  we_item_meta :: str
  we_lease_owner :: bytes
  we_lease_meta :: str
  we_lease_expires_at :: "datetime option"
  we_event_type :: nat
  we_status :: nat
  we_event_payload :: str
  we_lease_token :: "bytes option"
  we_checkpoint_payload :: str

record singular_db =
  sd_items :: "work_item list"
  sd_history :: "work_event list"

record singular_env =
  se_document :: "str \<Rightarrow> bool"
  se_collate :: "str \<Rightarrow> str"

definition STATUS_WORKING :: nat where "STATUS_WORKING = 1"
definition STATUS_DONE :: nat where "STATUS_DONE = 2"
definition STATUS_FAILED :: nat where "STATUS_FAILED = 3"
definition EVENT_CLAIMED :: nat where "EVENT_CLAIMED = 10"
definition EVENT_EXTENDED :: nat where "EVENT_EXTENDED = 11"
definition EVENT_COMPLETED :: nat where "EVENT_COMPLETED = 20"
definition EVENT_FAILED :: nat where "EVENT_FAILED = 40"

lemmas singular_codes = STATUS_WORKING_def STATUS_DONE_def STATUS_FAILED_def EVENT_CLAIMED_def
  EVENT_EXTENDED_def EVENT_COMPLETED_def EVENT_FAILED_def

definition empty_document :: str where
  "empty_document = lit ''{}''"

section \<open>Faults and outcomes\<close>

datatype singular_fault =
    Lease_Token_Invalid
  | Lease_Owner_Invalid
  | Item_Meta_Invalid
  | Lease_Meta_Invalid
  | Event_Time_Invalid
  | Invalid_Lease_Expiry
  | Event_Time_Conflict
  | Head_History_Missing
  | Invalid_State
  | Response_Invalid
  | Error_Invalid
  | Duplicate_Entry
  | Check_Violation

text \<open>The discriminated result documents; a \<open>bool\<close> is the state, true for \<open>done\<close>.\<close>

datatype singular_outcome =
    Granted datetime
  | Exists
  | Not_Found_Key
  | Active "datetime option"
  | Terminal bool str
  | Reclaimed datetime nat str
  | Extended datetime
  | Token_Stale
  | Settled bool str
  | Working bytes "datetime option" str
  | Terminal_State bool str str

section \<open>Rows of a work unit\<close>

type_synonym unit_key = "str \<times> bytes"

definition unit_key :: "singular_env \<Rightarrow> str \<Rightarrow> bytes \<Rightarrow> unit_key" where
  "unit_key se g k = (se_collate se g, k)"

definition item_unit :: "singular_env \<Rightarrow> work_item \<Rightarrow> unit_key" where
  "item_unit se i = unit_key se (wi_service_group i) (wi_idempotency_key i)"

definition event_unit :: "singular_env \<Rightarrow> work_event \<Rightarrow> unit_key" where
  "event_unit se e = unit_key se (we_service_group e) (we_idempotency_key e)"

definition find_item :: "singular_env \<Rightarrow> unit_key \<Rightarrow> singular_db \<Rightarrow> work_item option" where
  "find_item se u db = find (\<lambda>i. item_unit se i = u) (sd_items db)"

definition unit_events :: "singular_env \<Rightarrow> unit_key \<Rightarrow> singular_db \<Rightarrow> work_event list" where
  "unit_events se u db = filter (\<lambda>e. event_unit se e = u) (sd_history db)"

definition find_event :: "singular_env \<Rightarrow> unit_key \<Rightarrow> datetime \<Rightarrow> singular_db \<Rightarrow> work_event option" where
  "find_event se u ts db = find (\<lambda>e. we_event_ts e = ts) (unit_events se u db)"

section \<open>Statements\<close>

text \<open>An \<open>INSERT\<close> is refused by the table's checks or its primary key.\<close>

definition insert_item :: "singular_env \<Rightarrow> work_item \<Rightarrow> singular_db \<Rightarrow> singular_fault + singular_db" where
  "insert_item se i db =
     (if \<not> se_document se (wi_checkpoint_payload i) then Inl Check_Violation
      else if find_item se (item_unit se i) db \<noteq> None then Inl Duplicate_Entry
      else Inr (db\<lparr>sd_items := sd_items db @ [i]\<rparr>))"

definition event_checks :: "singular_env \<Rightarrow> work_event \<Rightarrow> bool" where
  "event_checks se e \<longleftrightarrow>
     se_document se (we_item_meta e) \<and> se_document se (we_lease_meta e) \<and>
     se_document se (we_event_payload e) \<and> se_document se (we_checkpoint_payload e) \<and>
     (we_status e \<noteq> 1 \<or> we_lease_expires_at e \<noteq> None) \<and>
     (we_event_type e = 10 \<and> we_status e = 1 \<or> we_event_type e = 11 \<and> we_status e = 1 \<or>
      we_event_type e = 20 \<and> we_status e = 2 \<or> we_event_type e = 40 \<and> we_status e = 3)"

definition insert_event :: "singular_env \<Rightarrow> work_event \<Rightarrow> singular_db \<Rightarrow> singular_fault + singular_db" where
  "insert_event se e db =
     (if \<not> event_checks se e then Inl Check_Violation
      else if find_event se (event_unit se e) (we_event_ts e) db \<noteq> None then Inl Duplicate_Entry
      else Inr (db\<lparr>sd_history := sd_history db @ [e]\<rparr>))"

definition update_item ::
    "singular_env \<Rightarrow> unit_key \<Rightarrow> (work_item \<Rightarrow> work_item) \<Rightarrow> singular_db \<Rightarrow> singular_fault + singular_db" where
  "update_item se u f db =
     (let items = map (\<lambda>i. if item_unit se i = u then f i else i) (sd_items db)
      in if list_all (\<lambda>i. se_document se (wi_checkpoint_payload i)) items
         then Inr (db\<lparr>sd_items := items\<rparr>) else Inl Check_Violation)"

text \<open>The guards on arguments, in the order each procedure runs them.\<close>

definition require :: "bool \<Rightarrow> singular_fault \<Rightarrow> singular_fault + unit" where
  "require ok e = (if ok then Inr () else Inl e)"

lemma require_simps [simp]: "require True e = Inr ()" "require False e = Inl e"
  by (simp_all add: require_def)

lemma require_eq_Inr [simp]: "require ok e = Inr u \<longleftrightarrow> ok"
  by (simp add: require_def)

lemma require_eq_Inl [simp]: "require ok e = Inl f \<longleftrightarrow> \<not> ok \<and> f = e"
  by (auto simp: require_def)

definition is_id16 :: "bytes option \<Rightarrow> bool" where
  "is_id16 b = (case b of None \<Rightarrow> False | Some x \<Rightarrow> length x = 16)"

definition is_document :: "singular_env \<Rightarrow> str option \<Rightarrow> bool" where
  "is_document se t = (case t of None \<Rightarrow> False | Some x \<Rightarrow> se_document se x)"

text \<open>A deadline is there and strictly after the event; the event time is known to be there.\<close>

definition bounded_lease :: "datetime option \<Rightarrow> datetime option \<Rightarrow> bool" where
  "bounded_lease ts deadline =
     (case (ts, deadline) of (Some t, Some d) \<Rightarrow> \<not> d \<le> t | _ \<Rightarrow> False)"

section \<open>sp_singular_start\<close>

record start_args =
  sa_service_group :: str
  sa_idempotency_key :: bytes
  sa_item_meta :: "str option"
  sa_lease_owner :: "bytes option"
  sa_lease_meta :: "str option"
  sa_event_ts :: "datetime option"
  sa_lease_expires_at :: "datetime option"
  sa_lease_token :: "bytes option"

definition start_valid :: "singular_env \<Rightarrow> start_args \<Rightarrow> singular_fault + unit" where
  "start_valid se a =
     bind_res (require (is_id16 (sa_lease_token a)) Lease_Token_Invalid) (\<lambda>_.
     bind_res (require (is_id16 (sa_lease_owner a)) Lease_Owner_Invalid) (\<lambda>_.
     bind_res (require (is_document se (sa_item_meta a)) Item_Meta_Invalid) (\<lambda>_.
     bind_res (require (is_document se (sa_lease_meta a)) Lease_Meta_Invalid) (\<lambda>_.
     bind_res (require (sa_event_ts a \<noteq> None) Event_Time_Invalid) (\<lambda>_.
       require (bounded_lease (sa_event_ts a) (sa_lease_expires_at a)) Invalid_Lease_Expiry)))))"

definition start_item :: "datetime \<Rightarrow> start_args \<Rightarrow> work_item" where
  "start_item now a =
     \<lparr>wi_service_group = sa_service_group a, wi_idempotency_key = sa_idempotency_key a,
      wi_current_event_ts = the (sa_event_ts a), wi_checkpoint_payload = empty_document,
      wi_current_lease_token = sa_lease_token a, wi_terminal_lease_token = None,
      wi_created_at = now, wi_updated_at = now\<rparr>"

definition start_event :: "start_args \<Rightarrow> work_event" where
  "start_event a =
     \<lparr>we_service_group = sa_service_group a, we_idempotency_key = sa_idempotency_key a,
      we_event_ts = the (sa_event_ts a), we_item_meta = the (sa_item_meta a),
      we_lease_owner = the (sa_lease_owner a), we_lease_meta = the (sa_lease_meta a),
      we_lease_expires_at = sa_lease_expires_at a, we_event_type = EVENT_CLAIMED,
      we_status = STATUS_WORKING, we_event_payload = empty_document,
      we_lease_token = sa_lease_token a, we_checkpoint_payload = empty_document\<rparr>"

text \<open>The handler for the duplicate key covers the insert of the item only.\<close>

definition sp_start ::
    "singular_env \<Rightarrow> datetime \<Rightarrow> start_args \<Rightarrow> singular_db \<Rightarrow> singular_fault + singular_outcome \<times> singular_db" where
  "sp_start se now a db =
     bind_res (start_valid se a) (\<lambda>_.
       case insert_item se (start_item now a) db of
         Inl e \<Rightarrow> if e = Duplicate_Entry then Inr (Exists, db) else Inl e
       | Inr db1 \<Rightarrow>
           bind_res (insert_event se (start_event a) db1) (\<lambda>db2.
             Inr (Granted (the (sa_lease_expires_at a)), db2)))"

section \<open>The head of a unit\<close>

text \<open>The row of the unit, locked, and the event it points at; a missing event is corruption.\<close>

definition head_of ::
    "singular_env \<Rightarrow> unit_key \<Rightarrow> singular_db \<Rightarrow> singular_fault + (work_item \<times> work_event) option" where
  "head_of se u db =
     (case find_item se u db of
        None \<Rightarrow> Inr None
      | Some i \<Rightarrow>
          (case find_event se u (wi_current_event_ts i) db of
             None \<Rightarrow> Inl Head_History_Missing
           | Some h \<Rightarrow> Inr (Some (i, h))))"

definition settled_status :: "work_event \<Rightarrow> bool" where
  "settled_status h \<longleftrightarrow> we_status h = STATUS_DONE \<or> we_status h = STATUS_FAILED"

definition is_done :: "work_event \<Rightarrow> bool" where
  "is_done h \<longleftrightarrow> we_status h = STATUS_DONE"

section \<open>sp_singular_resume\<close>

record resume_args =
  ra_service_group :: str
  ra_idempotency_key :: bytes
  ra_lease_owner :: "bytes option"
  ra_lease_meta :: "str option"
  ra_event_ts :: "datetime option"
  ra_lease_expires_at :: "datetime option"
  ra_lease_token :: "bytes option"

definition resume_valid :: "singular_env \<Rightarrow> resume_args \<Rightarrow> singular_fault + unit" where
  "resume_valid se a =
     bind_res (require (is_id16 (ra_lease_token a)) Lease_Token_Invalid) (\<lambda>_.
     bind_res (require (is_id16 (ra_lease_owner a)) Lease_Owner_Invalid) (\<lambda>_.
     bind_res (require (is_document se (ra_lease_meta a)) Lease_Meta_Invalid) (\<lambda>_.
     bind_res (require (ra_event_ts a \<noteq> None) Event_Time_Invalid) (\<lambda>_.
       require (bounded_lease (ra_event_ts a) (ra_lease_expires_at a)) Invalid_Lease_Expiry))))"

text \<open>Not expired at the caller's time; without a deadline the comparison is \<open>NULL\<close> and not true.\<close>

definition live_at :: "datetime \<Rightarrow> work_event \<Rightarrow> bool" where
  "live_at ts h = (case we_lease_expires_at h of None \<Rightarrow> False | Some d \<Rightarrow> \<not> ts > d)"

definition claimed_count :: "singular_env \<Rightarrow> unit_key \<Rightarrow> singular_db \<Rightarrow> nat" where
  "claimed_count se u db = length (filter (\<lambda>e. we_event_type e = EVENT_CLAIMED) (unit_events se u db))"

definition reclaim_event :: "resume_args \<Rightarrow> work_event \<Rightarrow> work_event" where
  "reclaim_event a h =
     \<lparr>we_service_group = ra_service_group a, we_idempotency_key = ra_idempotency_key a,
      we_event_ts = the (ra_event_ts a), we_item_meta = we_item_meta h,
      we_lease_owner = the (ra_lease_owner a), we_lease_meta = the (ra_lease_meta a),
      we_lease_expires_at = ra_lease_expires_at a, we_event_type = EVENT_CLAIMED,
      we_status = STATUS_WORKING, we_event_payload = empty_document,
      we_lease_token = ra_lease_token a, we_checkpoint_payload = we_checkpoint_payload h\<rparr>"

definition sp_resume ::
    "singular_env \<Rightarrow> datetime \<Rightarrow> resume_args \<Rightarrow> singular_db \<Rightarrow> singular_fault + singular_outcome \<times> singular_db" where
  "sp_resume se now a db =
     (let u = unit_key se (ra_service_group a) (ra_idempotency_key a)
      in bind_res (head_of se u db) (\<lambda>head.
         case head of
           None \<Rightarrow> Inr (Not_Found_Key, db)
         | Some (i, h) \<Rightarrow>
             if settled_status h then Inr (Terminal (is_done h) (we_event_payload h), db)
             else if we_status h \<noteq> STATUS_WORKING then Inl Invalid_State
             else if ra_lease_token a = None then Inr (Active (we_lease_expires_at h), db)
             else bind_res (resume_valid se a) (\<lambda>_.
               if live_at (the (ra_event_ts a)) h then Inr (Active (we_lease_expires_at h), db)
               else if the (ra_event_ts a) \<le> wi_current_event_ts i then Inl Event_Time_Conflict
               else
                 let attempt = claimed_count se u db
                 in bind_res (insert_event se (reclaim_event a h) db) (\<lambda>db1.
                    bind_res (update_item se u (\<lambda>i. i\<lparr>wi_current_event_ts := the (ra_event_ts a),
                        wi_current_lease_token := ra_lease_token a, wi_updated_at := now\<rparr>) db1) (\<lambda>db2.
                      Inr (Reclaimed (the (ra_lease_expires_at a)) attempt (we_checkpoint_payload h), db2))))))"

section \<open>sp_singular_extend_lease\<close>

record extend_args =
  xa_service_group :: str
  xa_idempotency_key :: bytes
  xa_lease_owner :: "bytes option"
  xa_lease_token :: "bytes option"
  xa_event_ts :: "datetime option"
  xa_lease_expires_at :: "datetime option"

definition extend_valid :: "extend_args \<Rightarrow> singular_fault + unit" where
  "extend_valid a =
     bind_res (require (is_id16 (xa_lease_token a)) Lease_Token_Invalid) (\<lambda>_.
     bind_res (require (is_id16 (xa_lease_owner a)) Lease_Owner_Invalid) (\<lambda>_.
       require (xa_event_ts a \<noteq> None) Event_Time_Invalid))"

definition extend_event :: "extend_args \<Rightarrow> work_event \<Rightarrow> work_event" where
  "extend_event a h =
     \<lparr>we_service_group = xa_service_group a, we_idempotency_key = xa_idempotency_key a,
      we_event_ts = the (xa_event_ts a), we_item_meta = we_item_meta h,
      we_lease_owner = the (xa_lease_owner a), we_lease_meta = we_lease_meta h,
      we_lease_expires_at = xa_lease_expires_at a, we_event_type = EVENT_EXTENDED,
      we_status = STATUS_WORKING, we_event_payload = empty_document,
      we_lease_token = xa_lease_token a, we_checkpoint_payload = we_checkpoint_payload h\<rparr>"

definition sp_extend_lease ::
    "singular_env \<Rightarrow> datetime \<Rightarrow> extend_args \<Rightarrow> singular_db \<Rightarrow> singular_fault + singular_outcome \<times> singular_db" where
  "sp_extend_lease se now a db =
     (let u = unit_key se (xa_service_group a) (xa_idempotency_key a)
      in bind_res (extend_valid a) (\<lambda>_.
         bind_res (head_of se u db) (\<lambda>head.
         case head of
           None \<Rightarrow> Inr (Not_Found_Key, db)
         | Some (i, h) \<Rightarrow>
             if settled_status h
             then if xa_lease_token a = wi_terminal_lease_token i
                  then Inr (Terminal (is_done h) (we_event_payload h), db)
                  else Inr (Token_Stale, db)
             else if we_status h \<noteq> STATUS_WORKING then Inl Invalid_State
             else if xa_lease_token a \<noteq> wi_current_lease_token i then Inr (Token_Stale, db)
             else if the (xa_event_ts a) \<le> wi_current_event_ts i then Inl Event_Time_Conflict
             else bind_res (require (bounded_lease (xa_event_ts a) (xa_lease_expires_at a)) Invalid_Lease_Expiry) (\<lambda>_.
                  bind_res (insert_event se (extend_event a h) db) (\<lambda>db1.
                  bind_res (update_item se u (\<lambda>i. i\<lparr>wi_current_event_ts := the (xa_event_ts a),
                      wi_updated_at := now\<rparr>) db1) (\<lambda>db2.
                    Inr (Extended (the (xa_lease_expires_at a)), db2)))))))"

section \<open>sp_singular_complete and sp_singular_fail\<close>

text \<open>
  The two terminal transitions are one procedure over the event's kind, the status it records
  and the fault of a document that is no object.
\<close>

record settle_args =
  ta_service_group :: str
  ta_idempotency_key :: bytes
  ta_lease_owner :: "bytes option"
  ta_lease_token :: "bytes option"
  ta_event_ts :: "datetime option"
  ta_document :: "str option"

definition settle_valid :: "singular_env \<Rightarrow> singular_fault \<Rightarrow> settle_args \<Rightarrow> singular_fault + unit" where
  "settle_valid se bad a =
     bind_res (require (is_id16 (ta_lease_token a)) Lease_Token_Invalid) (\<lambda>_.
     bind_res (require (is_id16 (ta_lease_owner a)) Lease_Owner_Invalid) (\<lambda>_.
       require (is_document se (ta_document a)) bad))"

definition settle_event :: "bool \<Rightarrow> settle_args \<Rightarrow> work_event \<Rightarrow> work_event" where
  "settle_event success a h =
     \<lparr>we_service_group = ta_service_group a, we_idempotency_key = ta_idempotency_key a,
      we_event_ts = the (ta_event_ts a), we_item_meta = we_item_meta h,
      we_lease_owner = the (ta_lease_owner a), we_lease_meta = we_lease_meta h,
      we_lease_expires_at = None,
      we_event_type = (if success then EVENT_COMPLETED else EVENT_FAILED),
      we_status = (if success then STATUS_DONE else STATUS_FAILED),
      we_event_payload = the (ta_document a),
      we_lease_token = ta_lease_token a, we_checkpoint_payload = we_checkpoint_payload h\<rparr>"

definition sp_settle ::
    "bool \<Rightarrow> singular_env \<Rightarrow> datetime \<Rightarrow> settle_args \<Rightarrow> singular_db \<Rightarrow> singular_fault + singular_outcome \<times> singular_db" where
  "sp_settle success se now a db =
     (let u = unit_key se (ta_service_group a) (ta_idempotency_key a)
      in bind_res (settle_valid se (if success then Response_Invalid else Error_Invalid) a) (\<lambda>_.
         bind_res (head_of se u db) (\<lambda>head.
         case head of
           None \<Rightarrow> Inr (Not_Found_Key, db)
         | Some (i, h) \<Rightarrow>
             if we_status h = STATUS_WORKING
             then if ta_lease_token a \<noteq> wi_current_lease_token i then Inr (Token_Stale, db)
                  else if ta_event_ts a = None \<or> the (ta_event_ts a) \<le> wi_current_event_ts i
                  then Inl Event_Time_Conflict
                  else bind_res (insert_event se (settle_event success a h) db) (\<lambda>db1.
                       bind_res (update_item se u (\<lambda>i. i\<lparr>wi_current_event_ts := the (ta_event_ts a),
                           wi_updated_at := now, wi_terminal_lease_token := ta_lease_token a,
                           wi_current_lease_token := None,
                           wi_checkpoint_payload := we_checkpoint_payload h\<rparr>) db1) (\<lambda>db2.
                         Inr (Settled success (the (ta_document a)), db2)))
             else if settled_status h
             then if ta_lease_token a = wi_terminal_lease_token i
                  then Inr (Settled (is_done h) (we_event_payload h), db)
                  else Inr (Token_Stale, db)
             else Inl Invalid_State)))"

definition sp_complete ::
    "singular_env \<Rightarrow> datetime \<Rightarrow> settle_args \<Rightarrow> singular_db \<Rightarrow> singular_fault + singular_outcome \<times> singular_db" where
  "sp_complete = sp_settle True"

definition sp_fail ::
    "singular_env \<Rightarrow> datetime \<Rightarrow> settle_args \<Rightarrow> singular_db \<Rightarrow> singular_fault + singular_outcome \<times> singular_db" where
  "sp_fail = sp_settle False"

section \<open>sp_singular_inspect and sp_singular_history\<close>

definition sp_inspect :: "singular_env \<Rightarrow> str \<Rightarrow> bytes \<Rightarrow> singular_db \<Rightarrow> singular_fault + singular_outcome" where
  "sp_inspect se g k db =
     bind_res (head_of se (unit_key se g k) db) (\<lambda>head.
       case head of
         None \<Rightarrow> Inr Not_Found_Key
       | Some (i, h) \<Rightarrow>
           if we_status h = STATUS_WORKING
           then Inr (Working (we_lease_owner h) (we_lease_expires_at h) (we_checkpoint_payload h))
           else if settled_status h
           then Inr (Terminal_State (is_done h) (we_event_payload h) (we_checkpoint_payload h))
           else Inl Invalid_State)"

definition event_name :: "nat \<Rightarrow> string option" where
  "event_name t =
     (if t = 10 then Some ''claimed'' else if t = 11 then Some ''extended''
      else if t = 20 then Some ''completed'' else if t = 40 then Some ''failed'' else None)"

record audit_event =
  au_event :: "string option"
  au_status :: nat
  au_event_ts :: datetime
  au_item_meta :: str
  au_lease_owner :: str
  au_lease_meta :: str
  au_lease_expires_at :: "datetime option"
  au_event_payload :: str
  au_checkpoint :: str

definition audit_of :: "work_event \<Rightarrow> audit_event" where
  "audit_of e =
     \<lparr>au_event = event_name (we_event_type e), au_status = we_status e, au_event_ts = we_event_ts e,
      au_item_meta = we_item_meta e, au_lease_owner = hex (we_lease_owner e), au_lease_meta = we_lease_meta e,
      au_lease_expires_at = we_lease_expires_at e, au_event_payload = we_event_payload e,
      au_checkpoint = we_checkpoint_payload e\<rparr>"

definition sp_history :: "singular_env \<Rightarrow> str \<Rightarrow> bytes \<Rightarrow> singular_db \<Rightarrow> audit_event list" where
  "sp_history se g k db = map audit_of (sort_key we_event_ts (unit_events se (unit_key se g k) db))"

section \<open>Calls\<close>

datatype singular_call =
    Start start_args
  | Resume resume_args
  | Extend extend_args
  | Complete settle_args
  | Fail settle_args

fun run_call ::
    "singular_env \<Rightarrow> datetime \<Rightarrow> singular_call \<Rightarrow> singular_db \<Rightarrow> singular_fault + singular_outcome \<times> singular_db" where
  "run_call se now (Start a) db = sp_start se now a db"
| "run_call se now (Resume a) db = sp_resume se now a db"
| "run_call se now (Extend a) db = sp_extend_lease se now a db"
| "run_call se now (Complete a) db = sp_complete se now a db"
| "run_call se now (Fail a) db = sp_fail se now a db"

fun call_unit :: "singular_env \<Rightarrow> singular_call \<Rightarrow> unit_key" where
  "call_unit se (Start a) = unit_key se (sa_service_group a) (sa_idempotency_key a)"
| "call_unit se (Resume a) = unit_key se (ra_service_group a) (ra_idempotency_key a)"
| "call_unit se (Extend a) = unit_key se (xa_service_group a) (xa_idempotency_key a)"
| "call_unit se (Complete a) = unit_key se (ta_service_group a) (ta_idempotency_key a)"
| "call_unit se (Fail a) = unit_key se (ta_service_group a) (ta_idempotency_key a)"

definition empty_tables :: singular_db where
  "empty_tables = \<lparr>sd_items = [], sd_history = []\<rparr>"

end
