(* ===== verification/Singular_Spec.thy ===== *)
theory Singular_Spec
  imports Singular_DB
begin

text \<open>
  What the Singular protocol (\<open>singular/doc/singular-protocol.md\<close>, sections 2 to 6) promises of one
  work unit, as a machine over an abstract state, and the proof that the stored procedures
  refine it on all tables they can reach: same outcome, same fault, same next state, and no
  other unit touched.
\<close>

section \<open>The abstract machine\<close>

text \<open>
  A unit is absent, leased (token, deadline, time of the last event, number of attempts so far)
  or settled (the writer's token, success or failure, the document).
\<close>

datatype unit_state =
    Absent
  | Leased bytes datetime datetime nat
  | Settled_By bytes bool str

definition settle_spec ::
    "singular_env \<Rightarrow> bool \<Rightarrow> settle_args \<Rightarrow> unit_state \<Rightarrow> singular_fault + singular_outcome \<times> unit_state" where
  "settle_spec se success a s =
     bind_res (settle_valid se (if success then Response_Invalid else Error_Invalid) a) (\<lambda>_.
       case s of
         Absent \<Rightarrow> Inr (Not_Found_Key, s)
       | Leased tok deadline prev n \<Rightarrow>
           if ta_lease_token a \<noteq> Some tok then Inr (Token_Stale, s)
           else (case ta_event_ts a of
                   None \<Rightarrow> Inl Event_Time_Conflict
                 | Some ts \<Rightarrow>
                     if ts \<le> prev then Inl Event_Time_Conflict
                     else Inr (Settled success (the (ta_document a)), Settled_By tok success (the (ta_document a))))
       | Settled_By tok ok doc \<Rightarrow>
           if ta_lease_token a = Some tok then Inr (Settled ok doc, s) else Inr (Token_Stale, s))"

fun spec_call :: "singular_env \<Rightarrow> singular_call \<Rightarrow> unit_state \<Rightarrow> singular_fault + singular_outcome \<times> unit_state" where
  "spec_call se (Start a) s =
     bind_res (start_valid se a) (\<lambda>_.
       if s = Absent
       then Inr (Granted (the (sa_lease_expires_at a)),
                 Leased (the (sa_lease_token a)) (the (sa_lease_expires_at a)) (the (sa_event_ts a)) 1)
       else Inr (Exists, s))"
| "spec_call se (Resume a) s =
     (case s of
        Absent \<Rightarrow> Inr (Not_Found_Key, s)
      | Settled_By tok ok doc \<Rightarrow> Inr (Terminal ok doc, s)
      | Leased tok deadline prev n \<Rightarrow>
          if ra_lease_token a = None then Inr (Active (Some deadline), s)
          else bind_res (resume_valid se a) (\<lambda>_.
            if the (ra_event_ts a) \<le> deadline then Inr (Active (Some deadline), s)
            else Inr (Reclaimed (the (ra_lease_expires_at a)) n empty_document,
                      Leased (the (ra_lease_token a)) (the (ra_lease_expires_at a)) (the (ra_event_ts a)) (Suc n))))"
| "spec_call se (Extend a) s =
     bind_res (extend_valid a) (\<lambda>_.
       case s of
         Absent \<Rightarrow> Inr (Not_Found_Key, s)
       | Settled_By tok ok doc \<Rightarrow>
           if xa_lease_token a = Some tok then Inr (Terminal ok doc, s) else Inr (Token_Stale, s)
       | Leased tok deadline prev n \<Rightarrow>
           if xa_lease_token a \<noteq> Some tok then Inr (Token_Stale, s)
           else if the (xa_event_ts a) \<le> prev then Inl Event_Time_Conflict
           else bind_res (require (bounded_lease (xa_event_ts a) (xa_lease_expires_at a)) Invalid_Lease_Expiry) (\<lambda>_.
             Inr (Extended (the (xa_lease_expires_at a)),
                  Leased tok (the (xa_lease_expires_at a)) (the (xa_event_ts a)) n)))"
| "spec_call se (Complete a) s = settle_spec se True a s"
| "spec_call se (Fail a) s = settle_spec se False a s"

section \<open>The state of a unit in the tables\<close>

definition state_of :: "nat \<Rightarrow> work_event \<Rightarrow> unit_state" where
  "state_of n h =
     (if we_status h = STATUS_WORKING
      then Leased (the (we_lease_token h)) (the (we_lease_expires_at h)) (we_event_ts h) n
      else Settled_By (the (we_lease_token h)) (is_done h) (we_event_payload h))"

definition unit_state :: "singular_env \<Rightarrow> unit_key \<Rightarrow> singular_db \<Rightarrow> unit_state" where
  "unit_state se u db =
     (case head_of se u db of
        Inr (Some (i, h)) \<Rightarrow> state_of (claimed_count se u db) h
      | _ \<Rightarrow> Absent)"

section \<open>The invariant of the tables\<close>

definition event_ok :: "singular_env \<Rightarrow> work_event \<Rightarrow> bool" where
  "event_ok se e \<longleftrightarrow>
     event_checks se e \<and> is_id16 (we_lease_token e) \<and> length (we_lease_owner e) = 16 \<and>
     (\<forall>d. we_lease_expires_at e = Some d \<longrightarrow> we_event_ts e < d) \<and> we_checkpoint_payload e = empty_document"

text \<open>
  The events of a unit: strictly increasing in time, the first a claim, all but the last
  working, the last the one the item points at; the item's tokens are those of that event.
\<close>

definition unit_ok :: "singular_env \<Rightarrow> work_item option \<Rightarrow> work_event list \<Rightarrow> bool" where
  "unit_ok se io es \<longleftrightarrow>
     (case io of
        None \<Rightarrow> es = []
      | Some i \<Rightarrow>
          es \<noteq> [] \<and> wi_current_event_ts i = we_event_ts (last es) \<and>
          sorted_wrt (<) (map we_event_ts es) \<and> list_all (event_ok se) es \<and>
          list_all (\<lambda>e. we_status e = STATUS_WORKING) (butlast es) \<and> we_event_type (hd es) = EVENT_CLAIMED \<and>
          wi_checkpoint_payload i = empty_document \<and>
          (if we_status (last es) = STATUS_WORKING
           then wi_current_lease_token i = we_lease_token (last es) \<and> wi_terminal_lease_token i = None
           else wi_current_lease_token i = None \<and> wi_terminal_lease_token i = we_lease_token (last es)))"

definition tables_ok :: "singular_env \<Rightarrow> singular_db \<Rightarrow> bool" where
  "tables_ok se db \<longleftrightarrow>
     distinct (map (item_unit se) (sd_items db)) \<and> list_all (\<lambda>i. se_document se (wi_checkpoint_payload i)) (sd_items db) \<and>
     (\<forall>u. unit_ok se (find_item se u db) (unit_events se u db))"

lemma tables_okD: "tables_ok se db \<Longrightarrow> unit_ok se (find_item se u db) (unit_events se u db)"
  by (cases u) (simp add: tables_ok_def)

lemma find_last:
  fixes f :: "'a \<Rightarrow> 'b :: linorder"
  assumes "sorted_wrt (<) (map f es)" and "es \<noteq> []"
  shows "find (\<lambda>e. f e = f (last es)) es = Some (last es)"
  using assms
proof (induction es)
  case (Cons e es)
  show ?case
  proof (cases "es = []")
    case False
    then have "f e < f (last es)" using Cons.prems(1) last_in_set by auto
    with False Cons show ?thesis by auto
  qed simp
qed simp

lemma head_of_ok:
  assumes "tables_ok se db"
  shows "head_of se u db = Inr (map_option (\<lambda>i. (i, last (unit_events se u db))) (find_item se u db))"
proof (cases "find_item se u db")
  case (Some i)
  with tables_okD [OF assms, of u] show ?thesis
    by (simp add: head_of_def unit_ok_def find_event_def find_last)
qed (simp add: head_of_def)

lemma unit_state_ok:
  assumes "tables_ok se db"
  shows "unit_state se u db =
    (case find_item se u db of None \<Rightarrow> Absent | Some i \<Rightarrow> state_of (claimed_count se u db) (last (unit_events se u db)))"
  by (simp add: unit_state_def head_of_ok [OF assms] split: option.split)

section \<open>Appending an event and moving the head\<close>

text \<open>The tables after a successful write: one event more, the head of its unit moved.\<close>

lemma find_map_unit:
  assumes "\<And>i. item_unit se (f i) = item_unit se i"
  shows "find (\<lambda>i. item_unit se i = v) (map (\<lambda>i. if item_unit se i = u then f i else i) xs) =
    map_option (\<lambda>i. if v = u then f i else i) (find (\<lambda>i. item_unit se i = v) xs)"
  by (induction xs) (auto simp: assms)

lemma insert_event_ok:
  assumes "tables_ok se db" and "event_checks se e" and "event_unit se e = u"
    and "\<forall>h \<in> set (unit_events se u db). we_event_ts h < we_event_ts e"
  shows "insert_event se e db = Inr (db\<lparr>sd_history := sd_history db @ [e]\<rparr>)"
proof -
  have "find_event se u (we_event_ts e) db = None"
    using assms(4) by (fastforce simp: find_event_def find_None_iff)
  with assms(2,3) show ?thesis by (simp add: insert_event_def)
qed

text \<open>Events before a time later than the head's are all before it.\<close>

lemma sorted_last:
  fixes f :: "'a \<Rightarrow> 'b :: linorder"
  assumes "sorted_wrt (<) (map f es)" and "es \<noteq> []" and "f (last es) < t"
  shows "\<forall>e \<in> set es. f e < t"
  using assms
proof (induction es)
  case (Cons e es)
  show ?case
  proof (cases "es = []")
    case False
    then have "f e < f (last es)" using Cons.prems(1) last_in_set by auto
    moreover have last: "f (last es) < t" using Cons.prems(3) False by simp
    ultimately have "f e < t" by (rule less_trans)
    moreover have "\<forall>e \<in> set es. f e < t" using Cons.prems(1) False last by (intro Cons.IH) simp_all
    ultimately show ?thesis by simp
  qed (use Cons.prems in simp)
qed simp

text \<open>A write of a procedure, as the procedures run it.\<close>

definition write_head :: "singular_env \<Rightarrow> unit_key \<Rightarrow> work_event \<Rightarrow> (work_item \<Rightarrow> work_item) \<Rightarrow> singular_db \<Rightarrow> singular_fault + singular_db" where
  "write_head se u e f db = bind_res (insert_event se e db) (update_item se u f)"

text \<open>What is the same in all units but one.\<close>

definition only_unit :: "singular_env \<Rightarrow> unit_key \<Rightarrow> singular_db \<Rightarrow> singular_db \<Rightarrow> bool" where
  "only_unit se u db db' \<longleftrightarrow>
     (\<forall>v. v \<noteq> u \<longrightarrow> find_item se v db' = find_item se v db \<and> unit_events se v db' = unit_events se v db)"

lemma write_head_ok:
  assumes ok: "tables_ok se db" and i: "find_item se u db = Some i"
    and e: "event_ok se e" "event_unit se e = u" "we_event_ts (last (unit_events se u db)) < we_event_ts e"
    and w: "we_status (last (unit_events se u db)) = STATUS_WORKING"
    and f: "\<And>i. item_unit se (f i) = item_unit se i" "wi_current_event_ts (f i) = we_event_ts e"
      "wi_checkpoint_payload (f i) = empty_document"
      "if we_status e = STATUS_WORKING
       then wi_current_lease_token (f i) = we_lease_token e \<and> wi_terminal_lease_token (f i) = None
       else wi_current_lease_token (f i) = None \<and> wi_terminal_lease_token (f i) = we_lease_token e"
    and doc: "se_document se empty_document"
  obtains db' where "write_head se u e f db = Inr db'" "tables_ok se db'" "only_unit se u db db'"
    "find_item se u db' = Some (f i)" "unit_events se u db' = unit_events se u db @ [e]"
proof -
  let ?es = "unit_events se u db"
  let ?items = "map (\<lambda>i. if item_unit se i = u then f i else i) (sd_items db)"
  let ?db = "db\<lparr>sd_history := sd_history db @ [e], sd_items := ?items\<rparr>"
  have U: "?es \<noteq> []" "sorted_wrt (<) (map we_event_ts ?es)" "list_all (event_ok se) ?es"
    "list_all (\<lambda>e. we_status e = STATUS_WORKING) (butlast ?es)" "we_event_type (hd ?es) = EVENT_CLAIMED"
    using tables_okD [OF ok, of u] i by (auto simp: unit_ok_def)
  have before: "\<forall>h \<in> set ?es. we_event_ts h < we_event_ts e" by (rule sorted_last [OF U(2,1) e(3)])
  have ins: "insert_event se e db = Inr (db\<lparr>sd_history := sd_history db @ [e]\<rparr>)"
    using e(1) by (intro insert_event_ok [OF ok _ e(2) before]) (simp add: event_ok_def)
  have mem: "j \<in> set (sd_items db) \<Longrightarrow> item_unit se j = u \<Longrightarrow> j = i" for j
    using ok i by (auto simp: tables_ok_def find_item_def find_Some_iff distinct_conv_nth in_set_conv_nth)
  have "list_all (\<lambda>i. se_document se (wi_checkpoint_payload i)) ?items"
    using ok mem f(3) doc by (auto simp: tables_ok_def list_all_iff)
  then have upd: "write_head se u e f db = Inr ?db"
    by (simp add: write_head_def ins update_item_def Let_def)
  have items: "find_item se v ?db = map_option (\<lambda>i. if v = u then f i else i) (find_item se v db)" for v
    by (simp add: find_item_def find_map_unit [OF f(1)])
  have events: "unit_events se v ?db = unit_events se v db @ (if v = u then [e] else [])" for v
    using e(2) by (auto simp: unit_events_def)
  have W: "list_all (\<lambda>e. we_status e = STATUS_WORKING) ?es"
    using U(1,4) w by (cases ?es rule: rev_cases) simp_all
  have "unit_ok se (find_item se v ?db) (unit_events se v ?db)" for v
  proof (cases "v = u")
    case True
    with U before e(1,2) f(2-4) W i show ?thesis
      by (simp add: items events unit_ok_def sorted_wrt_append list_all_iff)
  next
    case False
    with tables_okD [OF ok, of v] e(2) show ?thesis by (simp add: items events option.map_ident)
  qed
  moreover have "map (item_unit se) ?items = map (item_unit se) (sd_items db)" by (simp add: f(1))
  then have "distinct (map (item_unit se) ?items)" using ok by (simp only: tables_ok_def)
  ultimately have "tables_ok se ?db"
    using \<open>list_all _ ?items\<close> by (simp add: tables_ok_def del: map_map distinct_map)
  moreover have "only_unit se u db ?db" using e(2) by (simp add: only_unit_def items events option.map_ident)
  ultimately show thesis using upd items [of u] events [of u] i by (intro that [of ?db]) simp_all
qed

lemma unit_state_head:
  assumes "tables_ok se db" and "find_item se u db = Some i" and "unit_events se u db = es @ [e]"
  shows "unit_state se u db = state_of (claimed_count se u db) e"
  using assms by (simp add: unit_state_ok)

lemma claimed_count_append:
  assumes "unit_events se u db' = unit_events se u db @ [e]"
  shows "claimed_count se u db' = claimed_count se u db + (if we_event_type e = EVENT_CLAIMED then 1 else 0)"
  by (simp add: claimed_count_def assms)

text \<open>What the invariant says of the head of a unit.\<close>

lemma head_cases:
  assumes "tables_ok se db" and "find_item se u db = Some i"
  obtains (working) tok d where "we_status (last (unit_events se u db)) = STATUS_WORKING"
      "we_lease_token (last (unit_events se u db)) = Some tok"
      "we_lease_expires_at (last (unit_events se u db)) = Some d" "we_event_ts (last (unit_events se u db)) < d"
      "wi_current_lease_token i = Some tok" "wi_terminal_lease_token i = None"
  | (settled) tok where "settled_status (last (unit_events se u db))"
      "we_status (last (unit_events se u db)) \<noteq> STATUS_WORKING"
      "we_lease_token (last (unit_events se u db)) = Some tok"
      "wi_current_lease_token i = None" "wi_terminal_lease_token i = Some tok"
proof -
  let ?h = "last (unit_events se u db)"
  have U: "unit_ok se (Some i) (unit_events se u db)" using tables_okD [OF assms(1), of u] assms(2) by simp
  then have h: "event_ok se ?h" by (auto simp: unit_ok_def list_all_iff)
  then obtain tok where tok: "we_lease_token ?h = Some tok"
    by (auto simp: event_ok_def is_id16_def split: option.splits)
  show thesis
  proof (cases "we_status ?h = STATUS_WORKING")
    case True
    with h obtain d where "we_lease_expires_at ?h = Some d" "we_event_ts ?h < d"
      by (auto simp: event_ok_def event_checks_def singular_codes)
    with True U tok show ?thesis by (intro working) (auto simp: unit_ok_def)
  next
    case False
    with h have "settled_status ?h" by (auto simp: event_ok_def event_checks_def settled_status_def singular_codes)
    with False U tok show ?thesis by (intro settled) (auto simp: unit_ok_def)
  qed
qed

lemma head_checkpoint:
  assumes "tables_ok se db" and "find_item se u db = Some i"
  shows "event_ok se (last (unit_events se u db))" and "wi_current_event_ts i = we_event_ts (last (unit_events se u db))"
  using tables_okD [OF assms(1), of u] assms(2) by (auto simp: unit_ok_def list_all_iff)

section \<open>The procedures refine the machine\<close>

definition refines ::
    "singular_env \<Rightarrow> unit_key \<Rightarrow> singular_call \<Rightarrow> singular_db \<Rightarrow> singular_fault + singular_outcome \<times> singular_db \<Rightarrow> bool" where
  "refines se u c db r \<longleftrightarrow>
     (case r of
        Inl e \<Rightarrow> spec_call se c (unit_state se u db) = Inl e
      | Inr (out, db') \<Rightarrow>
          spec_call se c (unit_state se u db) = Inr (out, unit_state se u db') \<and> tables_ok se db' \<and>
          only_unit se u db db' \<and> (\<exists>es. unit_events se u db' = unit_events se u db @ es))"

lemma only_unit_refl [simp]: "only_unit se u db db"
  by (simp add: only_unit_def)

lemma refines_same:
  "tables_ok se db \<Longrightarrow> spec_call se c (unit_state se u db) = Inr (out, unit_state se u db) \<Longrightarrow>
     refines se u c db (Inr (out, db))"
  by (simp add: refines_def)

lemma refines_fault: "spec_call se c (unit_state se u db) = Inl e \<Longrightarrow> refines se u c db (Inl e)"
  by (simp add: refines_def)

lemma refines_write:
  assumes "tables_ok se db'" and "only_unit se u db db'" and "find_item se u db' = Some i"
    and "unit_events se u db' = unit_events se u db @ [e]"
    and "spec_call se c (unit_state se u db) =
      Inr (out, state_of (claimed_count se u db + (if we_event_type e = EVENT_CLAIMED then 1 else 0)) e)"
  shows "refines se u c db (Inr (out, db'))"
  using assms unit_state_head [OF assms(1,3,4)] claimed_count_append [OF assms(4)]
  by (simp add: refines_def)

lemma start_refines:
  assumes ok: "tables_ok se db" and doc: "se_document se empty_document" and u: "u = call_unit se (Start a)"
  shows "refines se u (Start a) db (sp_start se now a db)"
proof (cases "start_valid se a")
  case (Inl e)
  then show ?thesis by (simp add: sp_start_def refines_def)
next
  case (Inr v)
  have item: "item_unit se (start_item now a) = u" and ev: "event_unit se (start_event a) = u"
    by (simp_all add: u item_unit_def event_unit_def start_item_def start_event_def)
  show ?thesis
  proof (cases "find_item se u db")
    case (Some i)
    then have "unit_state se u db \<noteq> Absent" by (simp add: unit_state_ok [OF ok] state_of_def)
    with Some Inr ok item show ?thesis
      by (simp add: sp_start_def insert_item_def start_item_def doc refines_def)
  next
    case None
    let ?e = "start_event a" and ?i = "start_item now a"
    let ?db = "db\<lparr>sd_items := sd_items db @ [?i], sd_history := sd_history db @ [?e]\<rparr>"
    have none: "unit_events se u db = []" using tables_okD [OF ok, of u] None by (simp add: unit_ok_def)
    have e: "event_ok se ?e"
      using Inr doc by (auto simp: start_valid_def bind_res_eq_Inr event_ok_def event_checks_def start_event_def
        singular_codes is_document_def is_id16_def bounded_lease_def split: option.splits)
    have items: "find_item se v ?db = (if v = u then Some ?i else find_item se v db)" for v
      using None item by (auto simp: find_item_def find_append split: option.split)
    have events: "unit_events se v ?db = unit_events se v db @ (if v = u then [?e] else [])" for v
      using ev by (auto simp: unit_events_def)
    have "find_event se u (we_event_ts ?e) (db\<lparr>sd_items := sd_items db @ [?i]\<rparr>) = None"
      using none by (simp add: find_event_def unit_events_def)
    then have run: "sp_start se now a db = Inr (Granted (the (sa_lease_expires_at a)), ?db)"
      using None Inr item ev e doc
      by (simp add: sp_start_def insert_item_def insert_event_def event_ok_def start_item_def [of now a])
    have "unit_ok se (Some ?i) [?e]"
      using e by (simp add: unit_ok_def start_item_def start_event_def)
    then have "unit_ok se (find_item se v ?db) (unit_events se v ?db)" for v
      using tables_okD [OF ok, of v] none by (simp add: items events)
    moreover have "u \<notin> item_unit se ` set (sd_items db)"
      using None by (auto simp: find_item_def find_None_iff)
    ultimately have "tables_ok se ?db"
      using ok item doc by (auto simp: tables_ok_def start_item_def)
    moreover have "only_unit se u db ?db" by (simp add: only_unit_def items events)
    moreover have "find_item se u ?db = Some ?i" "unit_events se u ?db = unit_events se u db @ [?e]"
      by (simp_all add: items events)
    moreover have "claimed_count se u db = 0" by (simp add: claimed_count_def none)
    then have "spec_call se (Start a) (unit_state se u db) = Inr (Granted (the (sa_lease_expires_at a)),
        state_of (claimed_count se u db + (if we_event_type ?e = EVENT_CLAIMED then 1 else 0)) ?e)"
      using None Inr by (simp add: unit_state_ok [OF ok] state_of_def start_event_def)
    ultimately show ?thesis unfolding run by (rule refines_write)
  qed
qed

text \<open>The other procedures write through the head they locked.\<close>

lemma write_nested:
  "bind_res (insert_event se e db) (\<lambda>db1. bind_res (update_item se u f db1) k) = bind_res (write_head se u e f db) k"
  by (simp add: write_head_def bind_res_assoc)

lemma resume_refines:
  assumes ok: "tables_ok se db" and doc: "se_document se empty_document" and u: "u = call_unit se (Resume a)"
  shows "refines se u (Resume a) db (sp_resume se now a db)"
proof -
  have key: "unit_key se (ra_service_group a) (ra_idempotency_key a) = u" by (simp add: u)
  show ?thesis
  proof (cases "find_item se u db")
  case None
  then show ?thesis
    using ok by (simp add: sp_resume_def key Let_def head_of_ok refines_same unit_state_ok)
next
  case (Some i)
  let ?h = "last (unit_events se u db)"
  have head: "head_of se u db = Inr (Some (i, ?h))" using Some by (simp add: head_of_ok [OF ok])
  have state: "unit_state se u db = state_of (claimed_count se u db) ?h" using Some by (simp add: unit_state_ok [OF ok])
  note h = head_checkpoint [OF ok Some]
  from ok Some show ?thesis
  proof (cases rule: head_cases)
    case (settled tok)
    then show ?thesis using head ok
      by (simp add: sp_resume_def key Let_def refines_same state state_of_def)
  next
    case (working tok d)
    have W: "\<not> settled_status ?h" using working(1) by (simp add: settled_status_def singular_codes)
    have L: "unit_state se u db = Leased tok d (we_event_ts ?h) (claimed_count se u db)"
      using working by (simp add: state state_of_def)
    show ?thesis
    proof (cases "ra_lease_token a = None \<or> (\<exists>e. resume_valid se a = Inl e) \<or> live_at (the (ra_event_ts a)) ?h")
      case True
      then show ?thesis
        using head ok working(1,3) W L
        by (cases "resume_valid se a") (auto simp: sp_resume_def key Let_def refines_def live_at_def not_less)
    next
      case False
      then obtain v t ts d' where v: "resume_valid se a = Inr v" and t: "ra_lease_token a = Some t" and late: "d < ts"
        and ts: "ra_event_ts a = Some ts" "ra_lease_expires_at a = Some d'" "ts < d'"
        using working(3)
        by (cases "resume_valid se a")
           (auto simp: resume_valid_def bind_res_eq_Inr live_at_def bounded_lease_def split: option.splits)
      let ?e = "reclaim_event a ?h"
      let ?f = "\<lambda>i. i\<lparr>wi_current_event_ts := the (ra_event_ts a), wi_current_lease_token := ra_lease_token a,
        wi_updated_at := now\<rparr>"
      have e: "event_ok se ?e"
        using v t ts h(1) doc
        by (auto simp: resume_valid_def bind_res_eq_Inr event_ok_def event_checks_def reclaim_event_def singular_codes
            is_document_def is_id16_def split: option.splits)
      have "event_unit se ?e = u" by (simp add: key event_unit_def reclaim_event_def)
      moreover have "we_event_ts ?h < we_event_ts ?e" using working(4) late ts(1) by (simp add: reclaim_event_def)
      ultimately obtain db' where db': "write_head se u ?e ?f db = Inr db'" "tables_ok se db'" "only_unit se u db db'"
        "find_item se u db' = Some (?f i)" "unit_events se u db' = unit_events se u db @ [?e]"
        using write_head_ok [OF ok Some e _ _ working(1), of ?f] working(6) doc tables_okD [OF ok, of u] Some
        by (auto simp: item_unit_def reclaim_event_def unit_ok_def)
      have "\<not> ts \<le> wi_current_event_ts i" using late working(4) h(2) by simp
      with False v t ts(1) head W working(1) db'(1)
      have run: "sp_resume se now a db = Inr (Reclaimed (the (ra_lease_expires_at a)) (claimed_count se u db)
          (we_checkpoint_payload ?h), db')"
        by (simp add: sp_resume_def key Let_def write_nested)
      show ?thesis
        unfolding run
        by (rule refines_write [OF db'(2-5)])
           (use v t ts late h(1) in \<open>simp add: L state_of_def reclaim_event_def event_ok_def\<close>)
    qed
  qed
  qed
qed

lemma extend_refines:
  assumes ok: "tables_ok se db" and doc: "se_document se empty_document" and u: "u = call_unit se (Extend a)"
  shows "refines se u (Extend a) db (sp_extend_lease se now a db)"
proof -
  have key: "unit_key se (xa_service_group a) (xa_idempotency_key a) = u" by (simp add: u)
  show ?thesis
  proof (cases "extend_valid a")
    case (Inl e)
    then show ?thesis by (simp add: sp_extend_lease_def refines_def)
  next
    case (Inr v)
    show ?thesis
    proof (cases "find_item se u db")
      case None
      then show ?thesis
        using ok Inr by (simp add: sp_extend_lease_def key Let_def head_of_ok refines_same unit_state_ok)
    next
      case (Some i)
      let ?h = "last (unit_events se u db)"
      have head: "head_of se u db = Inr (Some (i, ?h))" using Some by (simp add: head_of_ok [OF ok])
      have state: "unit_state se u db = state_of (claimed_count se u db) ?h" using Some by (simp add: unit_state_ok [OF ok])
      note h = head_checkpoint [OF ok Some]
      from ok Some show ?thesis
      proof (cases rule: head_cases)
        case (settled tok)
        then show ?thesis using head ok Inr
          by (auto simp: sp_extend_lease_def key Let_def refines_same state state_of_def)
      next
        case (working tok d)
        have W: "\<not> settled_status ?h" using working(1) by (simp add: settled_status_def singular_codes)
        have L: "unit_state se u db = Leased tok d (we_event_ts ?h) (claimed_count se u db)"
          using working by (simp add: state state_of_def)
        show ?thesis
        proof (cases "xa_lease_token a = Some tok \<and> we_event_ts ?h < the (xa_event_ts a) \<and>
            bounded_lease (xa_event_ts a) (xa_lease_expires_at a)")
          case False
          then show ?thesis
            using head ok working(1,3,5) W L Inr h(2)
            by (auto simp: sp_extend_lease_def key Let_def refines_def not_less)
        next
          case True
          let ?e = "extend_event a ?h"
          let ?f = "\<lambda>i. i\<lparr>wi_current_event_ts := the (xa_event_ts a), wi_updated_at := now\<rparr>"
          have e: "event_ok se ?e"
            using Inr True h(1) doc
            by (auto simp: extend_valid_def bind_res_eq_Inr event_ok_def event_checks_def extend_event_def singular_codes
                bounded_lease_def is_id16_def split: option.splits)
          have "event_unit se ?e = u" by (simp add: key event_unit_def extend_event_def)
          moreover have "we_event_ts ?h < we_event_ts ?e" using True by (simp add: extend_event_def)
          ultimately obtain db' where db': "write_head se u ?e ?f db = Inr db'" "tables_ok se db'" "only_unit se u db db'"
            "find_item se u db' = Some (?f i)" "unit_events se u db' = unit_events se u db @ [?e]"
            using write_head_ok [OF ok Some e _ _ working(1), of ?f] working(5,6) True doc tables_okD [OF ok, of u] Some
            by (auto simp: item_unit_def extend_event_def unit_ok_def)
          have "\<not> the (xa_event_ts a) \<le> wi_current_event_ts i" using True h(2) by (metis leD)
          with True Inr head W working(1,5) db'(1)
          have run: "sp_extend_lease se now a db = Inr (Extended (the (xa_lease_expires_at a)), db')"
            by (simp add: sp_extend_lease_def key Let_def write_nested)
          show ?thesis
            unfolding run
            by (rule refines_write [OF db'(2-5)])
               (use True Inr in \<open>simp add: L state_of_def extend_event_def singular_codes not_le\<close>)
        qed
      qed
    qed
  qed
qed

lemma settle_refines:
  assumes ok: "tables_ok se db" and doc: "se_document se empty_document"
    and u: "u = unit_key se (ta_service_group a) (ta_idempotency_key a)"
    and c: "c = (if success then Complete a else Fail a)"
  shows "refines se u c db (sp_settle success se now a db)"
proof -
  let ?bad = "if success then Response_Invalid else Error_Invalid"
  have spec: "spec_call se c s = settle_spec se success a s" for s by (simp add: c)
  show ?thesis
  proof (cases "settle_valid se ?bad a")
    case (Inl e)
    then show ?thesis by (simp add: sp_settle_def Let_def refines_def spec settle_spec_def)
  next
    case (Inr v)
    show ?thesis
    proof (cases "find_item se u db")
      case None
      then show ?thesis
        using ok Inr by (simp add: sp_settle_def u [symmetric] Let_def head_of_ok refines_same unit_state_ok spec settle_spec_def)
    next
      case (Some i)
      let ?h = "last (unit_events se u db)"
      have head: "head_of se u db = Inr (Some (i, ?h))" using Some by (simp add: head_of_ok [OF ok])
      have state: "unit_state se u db = state_of (claimed_count se u db) ?h" using Some by (simp add: unit_state_ok [OF ok])
      note h = head_checkpoint [OF ok Some]
      from ok Some show ?thesis
      proof (cases rule: head_cases)
        case (settled tok)
        then show ?thesis using head ok Inr
          by (auto simp: sp_settle_def u [symmetric] Let_def refines_same state state_of_def spec settle_spec_def)
      next
        case (working tok d)
        have L: "unit_state se u db = Leased tok d (we_event_ts ?h) (claimed_count se u db)"
          using working by (simp add: state state_of_def)
        show ?thesis
        proof (cases "ta_lease_token a = Some tok \<and> (\<exists>ts. ta_event_ts a = Some ts \<and> we_event_ts ?h < ts)")
          case False
          then show ?thesis
            using head ok working(1,3,5) L Inr h(2)
            by (cases "ta_event_ts a")
               (auto simp: sp_settle_def u [symmetric] Let_def refines_def not_less spec settle_spec_def)
        next
          case True
          let ?e = "settle_event success a ?h"
          let ?f = "\<lambda>i. i\<lparr>wi_current_event_ts := the (ta_event_ts a), wi_updated_at := now,
            wi_terminal_lease_token := ta_lease_token a, wi_current_lease_token := None,
            wi_checkpoint_payload := we_checkpoint_payload ?h\<rparr>"
          have e: "event_ok se ?e"
            using Inr True h(1) doc
            by (auto simp: settle_valid_def bind_res_eq_Inr event_ok_def event_checks_def settle_event_def singular_codes
                is_document_def is_id16_def split: option.splits)
          have unit: "event_unit se ?e = u" by (simp add: u event_unit_def settle_event_def)
          have later: "we_event_ts ?h < we_event_ts ?e" using True by (auto simp: settle_event_def)
          obtain db' where db': "write_head se u ?e ?f db = Inr db'" "tables_ok se db'" "only_unit se u db db'"
            "find_item se u db' = Some (?f i)" "unit_events se u db' = unit_events se u db @ [?e]"
          proof (rule write_head_ok [OF ok Some e unit later working(1), of ?f])
            show "wi_checkpoint_payload (?f i) = empty_document" using h(1) by (simp add: event_ok_def)
            show "if we_status ?e = STATUS_WORKING
              then wi_current_lease_token (?f i) = we_lease_token ?e \<and> wi_terminal_lease_token (?f i) = None
              else wi_current_lease_token (?f i) = None \<and> wi_terminal_lease_token (?f i) = we_lease_token ?e"
              by (simp add: settle_event_def singular_codes)
          qed (use doc in \<open>simp_all add: item_unit_def settle_event_def\<close>)
          from True obtain ts where ts: "ta_event_ts a = Some ts" "\<not> ts \<le> wi_current_event_ts i"
            using h(2) by auto
          with True Inr head working(1,5) db'(1)
          have run: "sp_settle success se now a db = Inr (Settled success (the (ta_document a)), db')"
            by (simp add: sp_settle_def u [symmetric] Let_def write_nested)
          show ?thesis
            unfolding run
            by (rule refines_write [OF db'(2-5)])
               (use True Inr ts h(2) in \<open>auto simp: L state_of_def settle_event_def singular_codes spec settle_spec_def is_done_def\<close>)
        qed
      qed
    qed
  qed
qed

theorem run_call_refines:
  assumes "tables_ok se db" and "se_document se empty_document"
  shows "refines se (call_unit se c) c db (run_call se now c db)"
  using assms start_refines resume_refines extend_refines
    settle_refines [of se db _ _ "Complete _" True] settle_refines [of se db _ _ "Fail _" False]
  by (cases c) (simp_all add: sp_complete_def sp_fail_def)

end
