(* ===== verification/Traces.thy ===== *)
theory Traces
  imports Prelude
begin

text \<open>
  Services that clients call in any order, each call one transaction on shared tables.  A run
  is the list of the calls that committed, with their answers; a refused call leaves the tables
  alone and does not occur in it.  The locales are the contracts of such services: one whose
  tables keep an invariant and whose units have a history that calls only extend, and one whose
  calls, beyond that, each concern one unit of the tables (a row and its history) and answer as
  an abstract machine over that unit's state.  Their lemmas carry what a call does to every run.
\<close>

section \<open>Runs\<close>

inductive calls_run :: "('c \<Rightarrow> 'd \<Rightarrow> 'o \<Rightarrow> 'd \<Rightarrow> bool) \<Rightarrow> 'd \<Rightarrow> ('c \<times> 'o) list \<Rightarrow> 'd \<Rightarrow> bool"
  for step where
  no_call: "calls_run step d [] d"
| one_call: "step c d out d' \<Longrightarrow> calls_run step d' tr d'' \<Longrightarrow> calls_run step d ((c, out) # tr) d''"

inductive_simps calls_run_Nil [simp]: "calls_run step d [] d'"
inductive_cases calls_run_Cons: "calls_run step d (p # tr) d'"

lemma calls_run_append:
  "calls_run step d tr d' \<Longrightarrow> calls_run step d' tr' d'' \<Longrightarrow> calls_run step d (tr @ tr') d''"
  by (induction rule: calls_run.induct) (auto intro: calls_run.intros)

text \<open>The machine's answers are those of the run, and this is the state it ends in.\<close>

fun machine_run :: "('c \<Rightarrow> 's \<Rightarrow> 'e + 'o \<times> 's) \<Rightarrow> ('c \<times> 'o) list \<Rightarrow> 's \<Rightarrow> 's option" where
  "machine_run m [] s = Some s"
| "machine_run m ((c, out) # tr) s =
     (case m c s of
        Inl _ \<Rightarrow> None
      | Inr (out', s') \<Rightarrow> if out' = out then machine_run m tr s' else None)"

lemma machine_run_Cons_Some:
  "machine_run m ((c, out) # tr) s = Some s' \<longleftrightarrow> (\<exists>t. m c s = Inr (out, t) \<and> machine_run m tr t = Some s')"
  by (auto split: sum.splits prod.splits if_splits)

text \<open>An invariant of the machine holds at the end, and a fact of each step at every call.\<close>

lemma machine_run_invariant:
  assumes "machine_run m tr s = Some s'" and "I s"
    and "\<And>c s out t. I s \<Longrightarrow> m c s = Inr (out, t) \<Longrightarrow> I t \<and> Q c out"
  shows "I s' \<and> (\<forall>(c, out) \<in> set tr. Q c out)"
  using assms(1,2)
proof (induction tr arbitrary: s)
  case (Cons p tr)
  obtain c out where p: "p = (c, out)" by (cases p)
  with Cons.prems obtain t where "m c s = Inr (out, t)" and t: "machine_run m tr t = Some s'"
    by (auto simp: machine_run_Cons_Some simp del: machine_run.simps)
  with assms(3) [OF Cons.prems(2)] have "I t" "Q c out" by blast+
  with Cons.IH [OF t] p show ?case by simp
qed simp

section \<open>Services over units\<close>

text \<open>What the tables keep, and a history per unit that calls only extend.\<close>

locale logged_service =
  fixes ok :: "'d \<Rightarrow> bool" and step :: "'c \<Rightarrow> 'd \<Rightarrow> 'o \<Rightarrow> 'd \<Rightarrow> bool" and log :: "'u \<Rightarrow> 'd \<Rightarrow> 'h list"
  assumes step_ok: "ok d \<Longrightarrow> step c d out d' \<Longrightarrow> ok d'"
    and step_log: "ok d \<Longrightarrow> step c d out d' \<Longrightarrow> \<exists>es. log u d' = log u d @ es"
begin

lemma run_ok: "calls_run step d tr d' \<Longrightarrow> ok d \<Longrightarrow> ok d'"
  by (induction rule: calls_run.induct) (auto dest: step_ok)

lemma run_log: "calls_run step d tr d' \<Longrightarrow> ok d \<Longrightarrow> \<exists>es. log u d' = log u d @ es"
proof (induction rule: calls_run.induct)
  case (one_call c d out d' tr d'')
  with step_ok step_log [of d c out d' u] show ?case by (metis append.assoc)
qed simp

end

text \<open>Each call concerns one unit and answers as the machine does on its state.\<close>

locale unit_service = logged_service ok step log
  for ok :: "'d \<Rightarrow> bool" and step :: "'c \<Rightarrow> 'd \<Rightarrow> 'o \<Rightarrow> 'd \<Rightarrow> bool" and log :: "'u \<Rightarrow> 'd \<Rightarrow> 'h list" +
  fixes unit_of :: "'c \<Rightarrow> 'u" and state :: "'u \<Rightarrow> 'd \<Rightarrow> 's" and machine :: "'c \<Rightarrow> 's \<Rightarrow> 'e + 'o \<times> 's"
  assumes step_machine: "ok d \<Longrightarrow> step c d out d' \<Longrightarrow>
      machine c (state (unit_of c) d) = Inr (out, state (unit_of c) d')"
    and step_frame: "ok d \<Longrightarrow> step c d out d' \<Longrightarrow> u \<noteq> unit_of c \<Longrightarrow> state u d' = state u d"
begin

lemma run_machine:
  "calls_run step d tr d' \<Longrightarrow> ok d \<Longrightarrow>
     machine_run machine (filter (\<lambda>(c, _). unit_of c = u) tr) (state u d) = Some (state u d')"
proof (induction rule: calls_run.induct)
  case (one_call c d out d' tr d'')
  from one_call.prems one_call.hyps(1) have "ok d'" by (rule step_ok)
  with one_call show ?case
    using step_machine [of d c out d'] step_frame [of d c out d' u] by (cases "unit_of c = u") simp_all
qed simp

text \<open>What no step of the machine undoes, no run undoes; what each step answers, each call answers.\<close>

lemma run_invariant:
  assumes "calls_run step d tr d'" and "ok d" and "I (state u d)"
    and "\<And>c s out t. I s \<Longrightarrow> machine c s = Inr (out, t) \<Longrightarrow> I t \<and> Q c out"
  shows "I (state u d') \<and> (\<forall>(c, out) \<in> set tr. unit_of c = u \<longrightarrow> Q c out)"
  using machine_run_invariant [where I = I and Q = Q, OF run_machine [OF assms(1,2), where u = u] assms(3)] assms(4)
  by fastforce

end

end
