(* ===== verification/Singular_Safety.thy ===== *)
theory Singular_Safety
  imports Singular_Spec Traces
begin

text \<open>
  Runs of the Singular backend: any clients, any calls, any order.  The backend is a
  \<open>unit_service\<close> of the machine of \<open>Singular_Spec\<close>, so what the machine keeps, every run keeps:
  one grant per unit, one authoritative verdict, a token fenced out by the next claim, a history
  that only grows.
\<close>

section \<open>Runs of the backend\<close>

definition singular_step ::
    "singular_env \<Rightarrow> singular_call \<Rightarrow> singular_db \<Rightarrow> singular_outcome \<Rightarrow> singular_db \<Rightarrow> bool" where
  "singular_step se c db out db' \<longleftrightarrow> (\<exists>now. run_call se now c db = Inr (out, db'))"

definition singular_run ::
    "singular_env \<Rightarrow> singular_db \<Rightarrow> (singular_call \<times> singular_outcome) list \<Rightarrow> singular_db \<Rightarrow> bool" where
  "singular_run se = calls_run (singular_step se)"

text \<open>A schedule of calls, each with the server's clock; a refused call is rolled back.\<close>

fun execute ::
    "singular_env \<Rightarrow> (datetime \<times> singular_call) list \<Rightarrow> singular_db \<Rightarrow> (singular_call \<times> singular_outcome) list \<times> singular_db" where
  "execute se [] db = ([], db)"
| "execute se ((now, c) # cs) db =
     (case run_call se now c db of
        Inl _ \<Rightarrow> execute se cs db
      | Inr (out, db') \<Rightarrow> (let (tr, db'') = execute se cs db' in ((c, out) # tr, db'')))"

lemma execute_run: "execute se cs db = (tr, db') \<Longrightarrow> singular_run se db tr db'"
proof (induction cs arbitrary: db tr)
  case (Cons p cs)
  obtain now c where p: "p = (now, c)" by (cases p)
  show ?case
  proof (cases "run_call se now c db")
    case (Inr r)
    obtain out db1 where r: "r = (out, db1)" by (cases r)
    with Cons.prems Inr p obtain tr1 where tr: "tr = (c, out) # tr1" "execute se cs db1 = (tr1, db')"
      by (auto split: prod.splits)
    have "singular_step se c db out db1" using Inr r by (auto simp: singular_step_def)
    with Cons.IH [OF tr(2)] tr(1) show ?thesis by (simp add: singular_run_def calls_run.intros)
  qed (use Cons p in simp)
qed (simp add: singular_run_def)

section \<open>The backend is a service of the machine\<close>

definition reachable_tables :: "singular_env \<Rightarrow> singular_db \<Rightarrow> bool" where
  "reachable_tables se db \<longleftrightarrow> (\<exists>tr. singular_run se empty_tables tr db)"

lemma empty_tables_ok: "tables_ok se empty_tables"
  by (simp add: tables_ok_def empty_tables_def find_item_def unit_events_def unit_ok_def)

lemma run_call_step:
  assumes "tables_ok se db \<and> se_document se empty_document" and "singular_step se c db out db'"
  shows "spec_call se c (unit_state se (call_unit se c) db) = Inr (out, unit_state se (call_unit se c) db')"
    and "tables_ok se db'" and "only_unit se (call_unit se c) db db'"
    and "\<exists>es. unit_events se (call_unit se c) db' = unit_events se (call_unit se c) db @ es"
proof -
  from assms(2) obtain now where "run_call se now c db = Inr (out, db')" by (auto simp: singular_step_def)
  with run_call_refines [of se db c now] assms(1)
  show "spec_call se c (unit_state se (call_unit se c) db) = Inr (out, unit_state se (call_unit se c) db')"
    and "tables_ok se db'" and "only_unit se (call_unit se c) db db'"
    and "\<exists>es. unit_events se (call_unit se c) db' = unit_events se (call_unit se c) db @ es"
    by (simp_all add: refines_def)
qed

lemma only_unitD:
  assumes "only_unit se u db db'" and "v \<noteq> u"
  shows "find_item se v db' = find_item se v db" and "unit_events se v db' = unit_events se v db"
  using assms unfolding only_unit_def by blast+

lemma only_unit_state:
  assumes "tables_ok se db" and "tables_ok se db'" and "only_unit se u db db'" and "v \<noteq> u"
  shows "unit_state se v db' = unit_state se v db"
  using only_unitD [OF assms(3,4)] assms(1,2)
  by (simp add: unit_state_ok claimed_count_def split: option.split)

interpretation backend: unit_service "\<lambda>db. tables_ok se db \<and> se_document se empty_document" "singular_step se"
    "unit_events se" "call_unit se" "unit_state se" "spec_call se" for se
proof unfold_locales
  fix db c out db' u
  assume ok: "tables_ok se db \<and> se_document se empty_document" and step: "singular_step se c db out db'"
  note s = run_call_step [OF ok step]
  show "tables_ok se db' \<and> se_document se empty_document" using s(2) ok by simp
  show "spec_call se c (unit_state se (call_unit se c) db) = Inr (out, unit_state se (call_unit se c) db')" by (rule s(1))
  show "unit_state se u db' = unit_state se u db" if "u \<noteq> call_unit se c"
    using only_unit_state [OF _ s(2,3) that] ok by simp
  show "\<exists>es. unit_events se u db' = unit_events se u db @ es"
    using s(4) only_unitD(2) [OF s(3), of u] by (cases "u = call_unit se c") simp_all
qed

lemma reachable_ok:
  "singular_run se empty_tables tr db \<Longrightarrow> se_document se empty_document \<Longrightarrow> tables_ok se db"
  using backend.run_ok [of se empty_tables tr db] by (simp add: singular_run_def empty_tables_ok)

lemma absent_in_empty [simp]: "unit_state se u empty_tables = Absent"
  by (simp add: unit_state_def head_of_def find_item_def empty_tables_def)

section \<open>What the machine keeps\<close>

text \<open>A settled unit stays settled, and every answer that names a verdict names this one.\<close>

fun verdict :: "singular_outcome \<Rightarrow> (bool \<times> str) option" where
  "verdict (Settled ok doc) = Some (ok, doc)"
| "verdict (Terminal ok doc) = Some (ok, doc)"
| "verdict _ = None"

fun is_grant :: "singular_outcome \<Rightarrow> bool" where
  "is_grant (Granted _) = True"
| "is_grant _ = False"

text \<open>The token a call leaves in charge of the unit, when it takes charge.\<close>

fun claim_token :: "singular_call \<Rightarrow> singular_outcome \<Rightarrow> bytes option" where
  "claim_token (Start a) (Granted _) = sa_lease_token a"
| "claim_token (Resume a) (Reclaimed _ _ _) = ra_lease_token a"
| "claim_token _ _ = None"

fun state_token :: "unit_state \<Rightarrow> bytes option" where
  "state_token Absent = None"
| "state_token (Leased tok _ _ _) = Some tok"
| "state_token (Settled_By tok _ _) = Some tok"

lemma spec_call_settled:
  "spec_call se c (Settled_By tok ok doc) = Inr (out, s) \<Longrightarrow>
     s = Settled_By tok ok doc \<and> verdict out \<in> {None, Some (ok, doc)} \<and> \<not> is_grant out"
  by (cases c) (auto simp: settle_spec_def bind_res_eq_Inr split: if_splits)

lemma spec_call_verdict:
  "spec_call se c s = Inr (out, t) \<Longrightarrow> verdict out = Some (ok, doc) \<Longrightarrow> \<exists>tok. t = Settled_By tok ok doc"
  by (cases c; cases s) (auto simp: settle_spec_def bind_res_eq_Inr split: if_splits option.splits)

lemma spec_call_present:
  "s \<noteq> Absent \<Longrightarrow> spec_call se c s = Inr (out, t) \<Longrightarrow> t \<noteq> Absent \<and> \<not> is_grant out"
  by (cases c; cases s) (auto simp: settle_spec_def bind_res_eq_Inr split: if_splits option.splits)

lemma spec_call_grant:
  "spec_call se c s = Inr (out, t) \<Longrightarrow> is_grant out \<Longrightarrow> t \<noteq> Absent"
  by (cases c; cases s) (auto simp: settle_spec_def bind_res_eq_Inr split: if_splits option.splits)

lemma spec_call_token:
  "spec_call se c s = Inr (out, t) \<Longrightarrow>
     state_token t = (case claim_token c out of None \<Rightarrow> state_token s | Some tok \<Rightarrow> Some tok)"
  by (cases c; cases s)
     (auto simp: settle_spec_def bind_res_eq_Inr start_valid_def resume_valid_def is_id16_def split: if_splits option.splits)

text \<open>Who is in charge of a unit after a run: the caller of the last grant or reclaim.\<close>

fun holder :: "singular_env \<Rightarrow> unit_key \<Rightarrow> (singular_call \<times> singular_outcome) list \<Rightarrow> bytes option \<Rightarrow> bytes option" where
  "holder se u [] h = h"
| "holder se u ((c, out) # tr) h =
     holder se u tr (if call_unit se c = u \<and> claim_token c out \<noteq> None then claim_token c out else h)"

abbreviation of_unit :: "singular_env \<Rightarrow> unit_key \<Rightarrow> (singular_call \<times> singular_outcome) list \<Rightarrow> (singular_call \<times> singular_outcome) list" where
  "of_unit se u \<equiv> filter (\<lambda>(c, _). call_unit se c = u)"

lemma machine_holder:
  "machine_run (spec_call se) (of_unit se u tr) s = Some s' \<Longrightarrow> state_token s' = holder se u tr (state_token s)"
proof (induction tr arbitrary: s)
  case (Cons p tr)
  obtain c out where p: "p = (c, out)" by (cases p)
  show ?case
  proof (cases "call_unit se c = u")
    case True
    with Cons.prems p obtain t where t: "spec_call se c s = Inr (out, t)"
      "machine_run (spec_call se) (of_unit se u tr) t = Some s'"
      by (auto simp: machine_run_Cons_Some simp del: machine_run.simps)
    from spec_call_token [OF t(1)] Cons.IH [OF t(2)] True p show ?thesis by (auto split: option.splits)
  qed (use Cons p in simp)
qed simp

lemma machine_verdict:
  "machine_run (spec_call se) tr s = Some s' \<Longrightarrow> (c, out) \<in> set tr \<Longrightarrow> verdict out = Some (ok, doc) \<Longrightarrow>
     \<exists>tok. s' = Settled_By tok ok doc"
proof (induction tr arbitrary: s)
  case (Cons p tr)
  obtain c1 out1 where p: "p = (c1, out1)" by (cases p)
  with Cons.prems obtain t where t: "spec_call se c1 s = Inr (out1, t)" "machine_run (spec_call se) tr t = Some s'"
    by (auto simp: machine_run_Cons_Some simp del: machine_run.simps)
  show ?case
  proof (cases "(c, out) \<in> set tr")
    case False
    with Cons.prems p t(1) spec_call_verdict obtain tok where tok: "t = Settled_By tok ok doc" by fastforce
    have "s' = Settled_By tok ok doc \<and> (\<forall>(c, out) \<in> set tr. True)"
      using t(2) tok by (rule machine_run_invariant) (auto dest: spec_call_settled)
    then show ?thesis by simp
  qed (use Cons t in blast)
qed simp

lemma machine_grants:
  "machine_run (spec_call se) tr s = Some s' \<Longrightarrow>
     length (filter (\<lambda>(c, out). is_grant out) tr) \<le> 1 \<and>
     (s \<noteq> Absent \<longrightarrow> filter (\<lambda>(c, out). is_grant out) tr = [])"
proof (induction tr arbitrary: s)
  case (Cons p tr)
  obtain c out where p: "p = (c, out)" by (cases p)
  with Cons.prems obtain t where t: "spec_call se c s = Inr (out, t)" "machine_run (spec_call se) tr t = Some s'"
    by (auto simp: machine_run_Cons_Some simp del: machine_run.simps)
  show ?case using Cons.IH [OF t(2)] p spec_call_present [OF _ t(1)] spec_call_grant [OF t(1)] by auto
qed simp

section \<open>What every run keeps\<close>

lemma run_to_state:
  assumes "singular_run se empty_tables tr db" and "se_document se empty_document"
  shows "machine_run (spec_call se) (of_unit se u tr) Absent = Some (unit_state se u db)"
  using backend.run_machine [of se empty_tables tr db u] assms by (simp add: singular_run_def empty_tables_ok)

lemma run_token:
  assumes "singular_run se empty_tables tr db" and "se_document se empty_document"
  shows "state_token (unit_state se u db) = holder se u tr None"
  using machine_holder [OF run_to_state [OF assms]] by simp

lemma inspect_settled:
  assumes "tables_ok se db" and "unit_state se (unit_key se g k) db = Settled_By tok ok doc"
  shows "sp_inspect se g k db = Inr (Terminal_State ok doc empty_document)"
proof -
  from assms obtain i where i: "find_item se (unit_key se g k) db = Some i"
    by (auto simp: unit_state_ok split: option.splits)
  with assms head_checkpoint(1) [OF assms(1) i] show ?thesis
    by (auto simp: sp_inspect_def head_of_ok unit_state_ok state_of_def event_ok_def event_checks_def
        settled_status_def is_done_def singular_codes split: if_splits)
qed

text \<open>Only a grant, a reclaim, an extension and a settlement write.\<close>

fun is_write :: "singular_outcome \<Rightarrow> bool" where
  "is_write (Granted _) = True"
| "is_write (Reclaimed _ _ _) = True"
| "is_write (Extended _) = True"
| "is_write (Settled _ _) = True"
| "is_write _ = False"

lemma answer_without_write:
  "run_call se now c db = Inr (out, db') \<Longrightarrow> \<not> is_write out \<Longrightarrow> db' = db"
  by (cases c)
     (auto simp: sp_start_def sp_resume_def sp_extend_lease_def sp_complete_def sp_fail_def sp_settle_def Let_def
       elim!: bind_res_InrE split: sum.split_asm option.split_asm prod.split_asm if_split_asm)

lemma run_call_answer:
  assumes "tables_ok se db" and "se_document se empty_document"
    and "spec_call se c (unit_state se (call_unit se c) db) = Inr (out, s)"
  obtains db' where "run_call se now c db = Inr (out, db')" "tables_ok se db'"
    "unit_state se (call_unit se c) db' = s" "only_unit se (call_unit se c) db db'"
  using run_call_refines [OF assms(1,2), of c now] assms(3) that
  by (cases "run_call se now c db") (auto simp: refines_def)

lemma run_call_fault:
  assumes "tables_ok se db" and "se_document se empty_document"
  shows "run_call se now c db = Inl e \<longleftrightarrow> spec_call se c (unit_state se (call_unit se c) db) = Inl e"
  using run_call_refines [OF assms, of c now] by (cases "run_call se now c db") (auto simp: refines_def)

fun presented_token :: "singular_call \<Rightarrow> bytes option option" where
  "presented_token (Extend a) = Some (xa_lease_token a)"
| "presented_token (Complete a) = Some (ta_lease_token a)"
| "presented_token (Fail a) = Some (ta_lease_token a)"
| "presented_token _ = None"

definition argument_faults :: "singular_fault list" where
  "argument_faults = [Lease_Token_Invalid, Lease_Owner_Invalid, Event_Time_Invalid, Response_Invalid, Error_Invalid]"

lemma spec_call_stale:
  assumes "presented_token c = Some t" and "t \<noteq> state_token s"
  shows "case spec_call se c s of Inl e \<Rightarrow> e \<in> set argument_faults
    | Inr (out, s') \<Rightarrow> out = (if s = Absent then Not_Found_Key else Token_Stale)"
  using assms
  by (cases c; cases s)
     (auto simp: argument_faults_def settle_spec_def settle_valid_def extend_valid_def bind_res_def require_def
       split: sum.splits)

lemma state_token_None: "state_token s = None \<longleftrightarrow> s = Absent"
  by (cases s) simp_all

lemma history_of_ok:
  assumes "tables_ok se db"
  shows "sp_history se g k db = map audit_of (unit_events se (unit_key se g k) db)"
proof -
  have "sorted_wrt (<) (map we_event_ts (unit_events se (unit_key se g k) db))"
    using tables_okD [OF assms, of "unit_key se g k"] by (auto simp: unit_ok_def split: option.splits)
  then have "sorted (map we_event_ts (unit_events se (unit_key se g k) db))" by (rule strict_sorted_imp_sorted)
  then show ?thesis by (simp add: sp_history_def sort_key_id_if_sorted)
qed

lemma distinct_by_unit:
  "(\<And>u. distinct (map f (filter (\<lambda>e. k e = u) es))) \<Longrightarrow> distinct (map (\<lambda>e. (k e, f e)) es)"
proof (induction es)
  case (Cons e es)
  have "distinct (map f (filter (\<lambda>e. k e = u) es))" for u using Cons.prems [of u] by (auto split: if_split_asm)
  with Cons.IH Cons.prems [of "k e"] show ?case by (auto simp: image_iff)
qed simp

lemma tables_ok_events:
  assumes "tables_ok se db" and "e \<in> set (sd_history db)"
  shows "event_ok se e"
proof -
  have "e \<in> set (unit_events se (event_unit se e) db)" using assms(2) by (simp add: unit_events_def)
  with tables_okD [OF assms(1), of "event_unit se e"] show ?thesis
    by (auto simp: unit_ok_def list_all_iff split: option.splits)
qed

lemma tables_ok_times: "tables_ok se db \<Longrightarrow> sorted_wrt (<) (map we_event_ts (unit_events se u db))"
  using tables_okD [of se db u] by (auto simp: unit_ok_def split: option.splits)

lemma spec_call_fault:
  assumes "spec_call se c s = Inl e"
  shows "e \<notin> {Head_History_Missing, Invalid_State, Duplicate_Entry, Check_Violation}"
    and "e = Event_Time_Conflict \<Longrightarrow> presented_token c = Some (state_token s) \<and> state_token s \<noteq> None"
  using assms
  by (cases c; cases s; auto simp: settle_spec_def settle_valid_def extend_valid_def start_valid_def resume_valid_def
      bind_res_def require_def split: sum.splits if_splits option.splits)+

lemma inspect_working:
  assumes "tables_ok se db" and "sp_inspect se g k db = Inr (Working ow (Some deadline) cp)"
  obtains tok prev n where "unit_state se (unit_key se g k) db = Leased tok deadline prev n"
  using assms by (auto simp: sp_inspect_def head_of_ok unit_state_ok state_of_def split: option.splits if_splits)

lemma settled_replay:
  assumes "tables_ok se db" and "se_document se empty_document"
    and "unit_state se (call_unit se (Resume x)) db = Settled_By tok ok doc"
  shows "run_call se now (Resume x) db = Inr (Terminal ok doc, db)"
proof -
  have "spec_call se (Resume x) (unit_state se (call_unit se (Resume x)) db) = Inr (Terminal ok doc, Settled_By tok ok doc)"
    by (simp add: assms(3) del: call_unit.simps)
  from run_call_answer [OF assms(1,2) this, where now = now] obtain db'
    where "run_call se now (Resume x) db = Inr (Terminal ok doc, db')" .
  with answer_without_write [OF this] show ?thesis by simp
qed

section \<open>A concrete run\<close>

text \<open>
  One unit, two clients.  The first starts the unit and lets its lease run out, the second reclaims
  it and completes it; late calls of both follow.
\<close>

definition demo_env :: singular_env where
  "demo_env = \<lparr>se_document = (\<lambda>t. take 1 t = lit ''{''), se_collate = id\<rparr>"

definition demo_time :: "nat \<Rightarrow> datetime" where
  "demo_time s = DateTime 2026 1 2 3 4 s 0"

definition demo_token :: "8 word \<Rightarrow> bytes option" where
  "demo_token b = Some (replicate 16 b)"

definition demo_start :: "8 word \<Rightarrow> nat \<Rightarrow> start_args" where
  "demo_start b s =
     \<lparr>sa_service_group = lit ''billing'', sa_idempotency_key = [7], sa_item_meta = Some empty_document,
      sa_lease_owner = demo_token 9, sa_lease_meta = Some empty_document, sa_event_ts = Some (demo_time s),
      sa_lease_expires_at = Some (demo_time (s + 10)), sa_lease_token = demo_token b\<rparr>"

definition demo_resume :: "8 word \<Rightarrow> nat \<Rightarrow> resume_args" where
  "demo_resume b s =
     \<lparr>ra_service_group = lit ''billing'', ra_idempotency_key = [7], ra_lease_owner = demo_token 8,
      ra_lease_meta = Some empty_document, ra_event_ts = Some (demo_time s),
      ra_lease_expires_at = Some (demo_time (s + 10)), ra_lease_token = demo_token b\<rparr>"

definition demo_settle :: "8 word \<Rightarrow> nat \<Rightarrow> settle_args" where
  "demo_settle b s =
     \<lparr>ta_service_group = lit ''billing'', ta_idempotency_key = [7], ta_lease_owner = demo_token 8,
      ta_lease_token = demo_token b, ta_event_ts = Some (demo_time s), ta_document = Some (lit ''{1}'')\<rparr>"

definition demo_schedule :: "(datetime \<times> singular_call) list" where
  "demo_schedule =
     [(demo_time 0, Start (demo_start 1 5)), (demo_time 0, Start (demo_start 2 6)),
      (demo_time 0, Resume (demo_resume 2 20)), (demo_time 0, Complete (demo_settle 1 21)),
      (demo_time 0, Complete (demo_settle 2 22)), (demo_time 0, Fail (demo_settle 2 23)),
      (demo_time 0, Resume (demo_resume 3 50))]"

lemmas demo_defs = demo_env_def demo_time_def demo_token_def demo_start_def demo_resume_def demo_settle_def demo_schedule_def

lemmas sp_defs = sp_start_def sp_resume_def sp_complete_def sp_fail_def sp_settle_def start_valid_def resume_valid_def
  settle_valid_def is_id16_def is_document_def bounded_lease_def insert_item_def insert_event_def event_checks_def
  update_item_def find_item_def find_event_def unit_events_def head_of_def item_unit_def event_unit_def unit_key_def
  start_item_def start_event_def reclaim_event_def settle_event_def settled_status_def is_done_def live_at_def
  claimed_count_def empty_tables_def empty_document_def lit_def less_eq_datetime_def less_datetime_def singular_codes

lemma demo_answers:
  "map snd (fst (execute demo_env demo_schedule empty_tables)) =
     [Granted (demo_time 15), Exists, Reclaimed (demo_time 30) 1 empty_document, Token_Stale,
      Settled True (lit ''{1}''), Settled True (lit ''{1}''), Terminal True (lit ''{1}'')]"
  by (simp add: demo_defs sp_defs)

text \<open>The run of the schedule, and the tables it leaves.\<close>

definition demo_run :: "(singular_call \<times> singular_outcome) list \<times> singular_db" where
  "demo_run = execute demo_env demo_schedule empty_tables"

definition demo_begin :: "(singular_call \<times> singular_outcome) list \<times> singular_db" where
  "demo_begin = execute demo_env (take 1 demo_schedule) empty_tables"

lemma demo_runs:
  "singular_run demo_env empty_tables (fst demo_run) (snd demo_run)"
  "singular_run demo_env empty_tables (fst demo_begin) (snd demo_begin)"
  by (rule execute_run [of _ "demo_schedule"], simp add: demo_run_def)
    (rule execute_run [of _ "take 1 demo_schedule"], simp add: demo_begin_def)

lemma demo_document [simp]: "se_document demo_env empty_document"
  by (simp add: demo_defs empty_document_def lit_def)

lemma demo_begin_eq:
  "demo_begin = ([(Start (demo_start 1 5), Granted (demo_time 15))],
     \<lparr>sd_items = [start_item (demo_time 0) (demo_start 1 5)], sd_history = [start_event (demo_start 1 5)]\<rparr>)"
  by (simp add: demo_begin_def demo_defs sp_defs)

section \<open>Properties\<close>

text \<open>
  C26. The tables are well typed and the procedures never fail on them: whatever clients call, in
  whatever order, the reachable tables keep their keys unique and their documents objects, every
  event has a legal pair of kind and status, tokens and owners of 16 bytes and a deadline after
  its time, and no call meets a missing head event, an unknown status, a duplicate key or a
  violated check; an event-time conflict is only ever the answer to a holder's own write.
\<close>

theorem singular_type_soundness:
  assumes "singular_run se empty_tables tr db" and "se_document se empty_document"
  shows "distinct (map (item_unit se) (sd_items db)) \<and>
    distinct (map (\<lambda>e. (event_unit se e, we_event_ts e)) (sd_history db)) \<and>
    list_all (event_ok se) (sd_history db) \<and>
    (\<forall>now c e. run_call se now c db = Inl e \<longrightarrow>
      e \<notin> {Head_History_Missing, Invalid_State, Duplicate_Entry, Check_Violation} \<and>
      (e = Event_Time_Conflict \<longrightarrow>
        presented_token c = Some (holder se (call_unit se c) tr None) \<and> holder se (call_unit se c) tr None \<noteq> None))"
proof (intro conjI allI impI)
  note ok = reachable_ok [OF assms] and token = run_token [OF assms]
  show "distinct (map (item_unit se) (sd_items db))" using ok by (simp add: tables_ok_def)
  show "distinct (map (\<lambda>e. (event_unit se e, we_event_ts e)) (sd_history db))"
    using tables_ok_times [OF ok] by (intro distinct_by_unit) (simp add: unit_events_def strict_sorted_iff)
  show "list_all (event_ok se) (sd_history db)" using tables_ok_events [OF ok] by (simp add: list_all_iff)
  fix now c e
  assume "run_call se now c db = Inl e"
  then have fault: "spec_call se c (unit_state se (call_unit se c) db) = Inl e" by (simp add: run_call_fault [OF ok assms(2)])
  then show "e \<notin> {Head_History_Missing, Invalid_State, Duplicate_Entry, Check_Violation}" by (rule spec_call_fault(1))
  assume "e = Event_Time_Conflict"
  with spec_call_fault(2) [OF fault] token [of "call_unit se c"]
  show "presented_token c = Some (holder se (call_unit se c) tr None)" and "holder se (call_unit se c) tr None \<noteq> None"
    by simp_all
qed

theorem singular_type_soundness_witness:
  "list_all (event_ok demo_env) (sd_history (snd demo_run)) \<and>
    run_call demo_env (demo_time 0) (Complete (demo_settle 1 5)) (snd demo_begin) = Inl Event_Time_Conflict \<and>
    presented_token (Complete (demo_settle 1 5)) = Some (holder demo_env (lit ''billing'', [7]) (fst demo_begin) None)"
proof -
  have "run_call demo_env (demo_time 0) (Complete (demo_settle 1 5)) (snd demo_begin) = Inl Event_Time_Conflict"
    by (simp add: demo_begin_eq demo_defs sp_defs)
  moreover have "call_unit demo_env (Complete (demo_settle 1 5)) = (lit ''billing'', [7])"
    by (simp add: demo_defs unit_key_def)
  ultimately show ?thesis
    using singular_type_soundness [OF demo_runs(1) demo_document] singular_type_soundness [OF demo_runs(2) demo_document]
    by metis
qed

text \<open>
  C25. The stored procedures are the protocol: on tables reached by any run, a call answers, and
  changes its unit, exactly as the machine of the protocol does from the unit's state, faults
  included; the state of every other unit is as before.
\<close>

theorem singular_refines_protocol:
  assumes "singular_run se empty_tables tr db" and "se_document se empty_document"
  shows "map_sum id (map_prod id (unit_state se (call_unit se c))) (run_call se now c db) =
      spec_call se c (unit_state se (call_unit se c) db) \<and>
    (\<forall>out db' v. run_call se now c db = Inr (out, db') \<longrightarrow> v \<noteq> call_unit se c \<longrightarrow> unit_state se v db' = unit_state se v db)"
proof -
  have ok: "tables_ok se db" by (rule reachable_ok [OF assms])
  show ?thesis
    using run_call_refines [OF ok assms(2), of c now] only_unit_state [OF ok, of _ "call_unit se c"]
    by (cases "run_call se now c db") (auto simp: refines_def)
qed

theorem singular_refines_protocol_witness:
  "map_sum id (map_prod id (unit_state demo_env (lit ''billing'', [7])))
      (run_call demo_env (demo_time 0) (Complete (demo_settle 1 9)) (snd demo_begin)) =
    Inr (Settled True (lit ''{1}''), Settled_By (replicate 16 1) True (lit ''{1}''))"
proof -
  have "call_unit demo_env (Complete (demo_settle 1 9)) = (lit ''billing'', [7])"
    by (simp add: demo_defs unit_key_def)
  moreover have "unit_state demo_env (lit ''billing'', [7]) (snd demo_begin) =
      Leased (replicate 16 1) (demo_time 15) (demo_time 5) 1"
    by (simp add: demo_begin_eq demo_defs sp_defs unit_state_def state_of_def)
  moreover have "spec_call demo_env (Complete (demo_settle 1 9)) (Leased (replicate 16 1) (demo_time 15) (demo_time 5) 1) =
      Inr (Settled True (lit ''{1}''), Settled_By (replicate 16 1) True (lit ''{1}''))"
    by (simp add: demo_defs sp_defs settle_spec_def)
  ultimately show ?thesis
    using singular_refines_protocol [OF demo_runs(2) demo_document, of "Complete (demo_settle 1 9)" "demo_time 0"] by simp
qed

text \<open>
  C27. One grant and one verdict: in any run at most one start of a unit is granted, and all the
  answers that report how the unit ended, to settlers and to readers, report the same state and
  document; the inspection afterwards reports it too.
\<close>

theorem one_grant_one_verdict:
  assumes "singular_run se empty_tables tr db" and "se_document se empty_document"
  shows "length (filter (\<lambda>(c, out). call_unit se c = unit_key se g k \<and> is_grant out) tr) \<le> 1 \<and>
    (\<forall>(c, out) \<in> set tr. \<forall>ok doc. call_unit se c = unit_key se g k \<longrightarrow> verdict out = Some (ok, doc) \<longrightarrow>
       sp_inspect se g k db = Inr (Terminal_State ok doc empty_document))"
proof -
  let ?u = "unit_key se g k"
  note m = run_to_state [OF assms, of ?u]
  have "filter (\<lambda>(c, out). is_grant out) (of_unit se ?u tr) = filter (\<lambda>(c, out). call_unit se c = ?u \<and> is_grant out) tr"
    by (auto intro: filter_cong)
  moreover have "sp_inspect se g k db = Inr (Terminal_State ok doc empty_document)"
    if "(c, out) \<in> set tr" "call_unit se c = ?u" "verdict out = Some (ok, doc)" for c out ok doc
    using machine_verdict [OF m, of c out ok doc] that inspect_settled [OF reachable_ok [OF assms]] by auto
  ultimately show ?thesis using machine_grants [OF m] by auto
qed

theorem one_grant_one_verdict_witness:
  "sp_inspect demo_env (lit ''billing'') [7] (snd demo_run) = Inr (Terminal_State True (lit ''{1}'') empty_document)"
proof -
  have "(Complete (demo_settle 2 22), Settled True (lit ''{1}'')) \<in> set (fst demo_run)"
    by (simp add: demo_run_def demo_defs sp_defs)
  moreover have "call_unit demo_env (Complete (demo_settle 2 22)) = unit_key demo_env (lit ''billing'') [7]"
    by (simp add: demo_defs)
  ultimately show ?thesis using one_grant_one_verdict [OF demo_runs(1) demo_document] by fastforce
qed

text \<open>
  C28. A superseded token is fenced out: a call that presents another token than that of the last
  grant or reclaim of its unit leaves the tables as they were and is told that its token is stale
  (or that the unit does not exist), unless its arguments are malformed.
\<close>

theorem superseded_token_fenced:
  assumes "singular_run se empty_tables tr db" and "se_document se empty_document"
    and "presented_token c = Some t" and "t \<noteq> holder se (call_unit se c) tr None"
  shows "case run_call se now c db of
      Inr (out, db') \<Rightarrow> db' = db \<and> out = (if holder se (call_unit se c) tr None = None then Not_Found_Key else Token_Stale)
    | Inl e \<Rightarrow> e \<in> set argument_faults"
proof -
  note ok = reachable_ok [OF assms(1,2)] and token = run_token [OF assms(1,2), of "call_unit se c"]
  from assms(4) token have stale: "t \<noteq> state_token (unit_state se (call_unit se c) db)" by simp
  show ?thesis
  proof (cases "run_call se now c db")
    case (Inl e)
    then have "spec_call se c (unit_state se (call_unit se c) db) = Inl e" by (simp add: run_call_fault [OF ok assms(2)])
    with spec_call_stale [OF assms(3) stale, of se] Inl show ?thesis by simp
  next
    case (Inr r)
    obtain out db' where r: "r = (out, db')" by (cases r)
    with Inr run_call_refines [OF ok assms(2), of c now] spec_call_stale [OF assms(3) stale, of se]
    have out: "out = (if holder se (call_unit se c) tr None = None then Not_Found_Key else Token_Stale)"
      by (simp add: refines_def token [symmetric] state_token_None)
    then have "db' = db" using Inr r answer_without_write [of se now c db out db'] by auto
    with out Inr r show ?thesis by simp
  qed
qed

theorem superseded_token_fenced_witness:
  "run_call demo_env (demo_time 0) (Complete (demo_settle 1 40)) (snd demo_run) = Inr (Token_Stale, snd demo_run)"
proof -
  let ?c = "Complete (demo_settle 1 40)"
  have "holder demo_env (call_unit demo_env ?c) (fst demo_run) None = demo_token 2"
    by (simp add: demo_run_def demo_defs sp_defs)
  moreover have "presented_token ?c = Some (demo_token 1)" by (simp add: demo_settle_def)
  moreover have "demo_token 1 \<noteq> demo_token 2" "demo_token 2 \<noteq> None" by (simp_all add: demo_token_def)
  moreover have "\<exists>r. run_call demo_env (demo_time 0) ?c (snd demo_run) = Inr r"
    by (simp add: demo_run_def demo_defs sp_defs)
  ultimately show ?thesis
    using superseded_token_fenced [OF demo_runs(1) demo_document, of ?c "demo_token 1" "demo_time 0"] by auto
qed

text \<open>
  C29. A live lease is never stolen and an expired one is never stuck: on a unit whose inspection
  shows a deadline, a reclaim up to the deadline changes nothing, and a well-formed one after it
  is granted, whereupon the new holder's completion settles the unit and every later reader is
  told so.
\<close>

theorem expired_lease_recovered:
  assumes "singular_run se empty_tables tr db" and "se_document se empty_document"
    and "sp_inspect se (ra_service_group a) (ra_idempotency_key a) db = Inr (Working ow (Some deadline) cp)"
    and "resume_valid se a = Inr ()"
  shows "if the (ra_event_ts a) \<le> deadline then run_call se now (Resume a) db = Inr (Active (Some deadline), db)
    else \<exists>n db1. run_call se now (Resume a) db = Inr (Reclaimed (the (ra_lease_expires_at a)) n empty_document, db1) \<and>
      (\<forall>b now'. call_unit se (Complete b) = call_unit se (Resume a) \<longrightarrow> ta_lease_token b = ra_lease_token a \<longrightarrow>
        settle_valid se Response_Invalid b = Inr () \<longrightarrow> ta_event_ts b \<noteq> None \<longrightarrow>
        \<not> the (ta_event_ts b) \<le> the (ra_event_ts a) \<longrightarrow>
        (\<exists>db2. run_call se now' (Complete b) db1 = Inr (Settled True (the (ta_document b)), db2) \<and>
          (\<forall>x now''. call_unit se (Resume x) = call_unit se (Resume a) \<longrightarrow>
            run_call se now'' (Resume x) db2 = Inr (Terminal True (the (ta_document b)), db2))))"
proof -
  note ok = reachable_ok [OF assms(1,2)]
  let ?u = "call_unit se (Resume a)"
  from inspect_working [OF ok assms(3)] obtain tok prev n where leased: "unit_state se ?u db = Leased tok deadline prev n"
    by auto
  from assms(4) obtain t where t: "ra_lease_token a = Some t"
    by (auto simp: resume_valid_def bind_res_eq_Inr is_id16_def split: option.splits)
  show ?thesis
  proof (cases "the (ra_event_ts a) \<le> deadline")
    case True
    then have "spec_call se (Resume a) (unit_state se ?u db) = Inr (Active (Some deadline), unit_state se ?u db)"
      unfolding leased by (simp add: t assms(4))
    with run_call_answer [OF ok assms(2), of "Resume a", where now = now] obtain db'
      where "run_call se now (Resume a) db = Inr (Active (Some deadline), db')" by blast
    with answer_without_write [OF this] True show ?thesis by simp
  next
    case False
    let ?s = "Leased t (the (ra_lease_expires_at a)) (the (ra_event_ts a)) (Suc n)"
    from False have "spec_call se (Resume a) (unit_state se ?u db) =
        Inr (Reclaimed (the (ra_lease_expires_at a)) n empty_document, ?s)"
      unfolding leased by (simp add: t assms(4))
    from run_call_answer [OF ok assms(2) this, where now = now] obtain db1
      where db1: "run_call se now (Resume a) db = Inr (Reclaimed (the (ra_lease_expires_at a)) n empty_document, db1)"
        "tables_ok se db1" "unit_state se ?u db1 = ?s" .
    have "\<exists>db2. run_call se now' (Complete b) db1 = Inr (Settled True (the (ta_document b)), db2) \<and>
        (\<forall>x now''. call_unit se (Resume x) = ?u \<longrightarrow>
          run_call se now'' (Resume x) db2 = Inr (Terminal True (the (ta_document b)), db2))"
      if b: "call_unit se (Complete b) = ?u" "ta_lease_token b = ra_lease_token a"
        "settle_valid se Response_Invalid b = Inr ()" "ta_event_ts b \<noteq> None"
        "\<not> the (ta_event_ts b) \<le> the (ra_event_ts a)" for b now'
    proof -
      have "spec_call se (Complete b) (unit_state se (call_unit se (Complete b)) db1) =
          Inr (Settled True (the (ta_document b)), Settled_By t True (the (ta_document b)))"
        unfolding b(1) db1(3) using b(2-5) t by (auto simp: settle_spec_def)
      from run_call_answer [OF db1(2) assms(2) this, where now = now'] obtain db2
        where db2: "run_call se now' (Complete b) db1 = Inr (Settled True (the (ta_document b)), db2)"
          "tables_ok se db2" "unit_state se (call_unit se (Complete b)) db2 = Settled_By t True (the (ta_document b))" .
      have "run_call se now'' (Resume x) db2 = Inr (Terminal True (the (ta_document b)), db2)"
        if "call_unit se (Resume x) = ?u" for x now''
        using settled_replay [OF db2(2) assms(2)] db2(3) that b(1) by simp
      with db2(1) show ?thesis by blast
    qed
    with db1(1) False show ?thesis by auto
  qed
qed

theorem expired_lease_recovered_witness:
  "\<exists>n db. run_call demo_env (demo_time 0) (Resume (demo_resume 2 20)) (snd demo_begin) =
    Inr (Reclaimed (demo_time 30) n empty_document, db)"
proof -
  have "sp_inspect demo_env (ra_service_group (demo_resume 2 20)) (ra_idempotency_key (demo_resume 2 20)) (snd demo_begin) =
      Inr (Working (replicate 16 9) (Some (demo_time 15)) empty_document)"
    by (simp add: demo_begin_eq demo_defs sp_defs sp_inspect_def)
  moreover have "resume_valid demo_env (demo_resume 2 20) = Inr ()" by (simp add: demo_defs sp_defs)
  ultimately show ?thesis
    using expired_lease_recovered [OF demo_runs(2) demo_document, of "demo_resume 2 20" _ "demo_time 15" _ "demo_time 0"]
    by (auto simp: demo_defs less_eq_datetime_def)
qed

text \<open>
  C30. History is append-only: after any further calls the history a client reads is the one it
  read before with events appended, in strictly increasing time, begun by a claim, and with no
  event after a terminal one.
\<close>

theorem history_only_grows:
  assumes "singular_run se empty_tables tr db" and "singular_run se db tr' db'" and "se_document se empty_document"
  shows "\<exists>es. sp_history se g k db' = sp_history se g k db @ es \<and>
    sorted_wrt (<) (map au_event_ts (sp_history se g k db')) \<and>
    list_all (\<lambda>e. au_status e = STATUS_WORKING) (butlast (sp_history se g k db')) \<and>
    (sp_history se g k db' \<noteq> [] \<longrightarrow> au_event (hd (sp_history se g k db')) = Some ''claimed'')"
proof -
  have ok: "tables_ok se db" "tables_ok se db'"
    using reachable_ok [OF assms(1,3)] backend.run_ok [of se db tr' db'] assms(2,3) by (simp_all add: singular_run_def)
  let ?u = "unit_key se g k"
  obtain es where es: "unit_events se ?u db' = unit_events se ?u db @ es"
    using backend.run_log [of se db tr' db' ?u] assms(2,3) ok(1) by (auto simp: singular_run_def)
  have "sp_history se g k db' = sp_history se g k db @ map audit_of es"
    by (simp add: history_of_ok [OF ok(1)] history_of_ok [OF ok(2)] es)
  moreover have "map au_event_ts (sp_history se g k db') = map we_event_ts (unit_events se ?u db')"
    by (simp add: history_of_ok [OF ok(2)] audit_of_def)
  moreover have "list_all (\<lambda>e. au_status e = STATUS_WORKING) (butlast (sp_history se g k db'))"
    using tables_okD [OF ok(2), of ?u]
    by (auto simp: history_of_ok [OF ok(2)] unit_ok_def audit_of_def map_butlast [symmetric] list.pred_map o_def split: option.splits)
  moreover have "sp_history se g k db' \<noteq> [] \<Longrightarrow> au_event (hd (sp_history se g k db')) = Some ''claimed''"
    using tables_okD [OF ok(2), of ?u]
    by (auto simp: history_of_ok [OF ok(2)] unit_ok_def audit_of_def hd_map event_name_def singular_codes split: option.splits)
  ultimately show ?thesis using tables_ok_times [OF ok(2), of ?u] by auto
qed

theorem history_only_grows_witness:
  "\<exists>es. sp_history demo_env (lit ''billing'') [7] (snd (execute demo_env (drop 1 demo_schedule) (snd demo_begin))) =
      sp_history demo_env (lit ''billing'') [7] (snd demo_begin) @ es"
  using history_only_grows [OF demo_runs(2) execute_run [OF prod.collapse [symmetric]] demo_document] by blast

end
