(* ===== verification/Coord_Tables.thy ===== *)
theory Coord_Tables
  imports Coord_DB
begin

text \<open>
  What the coordinator's stored procedures (\<open>microflows/db/procs\<close>) are made of: the guards on
  their arguments, the rows they read under lock, and the INSERT and UPDATE statements with the
  constraints of \<open>microflows/db/schema\<close> that the server enforces.  A procedure runs in its
  caller's transaction: \<open>Inl\<close> is a \<open>SIGNAL\<close> or a refused statement and leaves the tables as they
  were.

  The record \<open>coord_env\<close> holds what the server computes and the sources do not show: which
  texts are JSON objects, when two texts are equal under the columns' collation, the text
  \<open>JSON_OBJECT\<close> builds, the deferral margin of five seconds, the milliseconds between two
  instants, the \<open>reason\<close> member of a payload, the match of a version with its \<open>REGEXP\<close> and the
  bytes of a text stored in a blob.
\<close>

section \<open>The server\<close>

datatype jarg = JA_Text str | JA_Num int | JA_Null

record coord_env =
  ce_document :: "str \<Rightarrow> bool"
  ce_same :: "str \<Rightarrow> str \<Rightarrow> bool"
  ce_object :: "(string \<times> jarg) list \<Rightarrow> str"
  ce_defer :: "datetime \<Rightarrow> datetime"
  ce_elapsed_ms :: "datetime \<Rightarrow> datetime \<Rightarrow> int"
  ce_reason :: "str \<Rightarrow> str option"
  ce_plan_version :: "str \<Rightarrow> bool"
  ce_bytes :: "str \<Rightarrow> bytes"

datatype coord_fault =
    Signal string
  | Duplicate_Key
  | Constraint_Failed
  | Out_Of_Range

section \<open>Guards on arguments\<close>

text \<open>The guards in order; the first that fails is signalled.\<close>

fun guards :: "(bool \<times> string) list \<Rightarrow> coord_fault + unit" where
  "guards [] = Inr ()"
| "guards ((ok, m) # gs) = (if ok then guards gs else Inl (Signal m))"

lemma guards_Inr: "guards gs = Inr u \<longleftrightarrow> list_all fst gs"
  by (induction gs rule: guards.induct) simp_all

lemma guards_Inl: "guards gs = Inl e \<Longrightarrow> \<exists>m. e = Signal m"
  by (induction gs rule: guards.induct) (auto split: if_splits)

declare guards.simps [simp del]

definition id16 :: "bytes option \<Rightarrow> bool" where
  "id16 b = (case b of None \<Rightarrow> False | Some x \<Rightarrow> length x = 16)"

definition at_least :: "int \<Rightarrow> int option \<Rightarrow> bool" where
  "at_least k v = (case v of None \<Rightarrow> False | Some x \<Rightarrow> k \<le> x)"

definition object_text :: "coord_env \<Rightarrow> str option \<Rightarrow> bool" where
  "object_text ce t = (case t of None \<Rightarrow> False | Some x \<Rightarrow> ce_document ce x)"

definition non_empty :: "coord_env \<Rightarrow> str option \<Rightarrow> bool" where
  "non_empty ce t = (case t of None \<Rightarrow> False | Some x \<Rightarrow> \<not> ce_same ce x [])"

definition after :: "datetime option \<Rightarrow> datetime option \<Rightarrow> bool" where
  "after t d = (case (t, d) of (Some x, Some y) \<Rightarrow> \<not> y \<le> x | _ \<Rightarrow> False)"

section \<open>The constraints of the tables\<close>

text \<open>The CHECK constraints of \<open>tb_mf_workflow\<close>.\<close>

definition workflow_row_ok :: "coord_env \<Rightarrow> workflow_row \<Rightarrow> bool" where
  "workflow_row_ok ce r \<longleftrightarrow>
     ce_document ce (w_continuation r) \<and>
     w_state r \<in> {1, 2, 3, 4, 5, 6, 7} \<and> w_execution_direction r \<in> {1, 2} \<and>
     w_current_disposition r \<in> {0, 1, 2, 3, 4} \<and>
     (w_state r = 1 \<and> w_current_disposition r = 0 \<or>
      w_state r = 2 \<and> w_current_disposition r \<in> {2, 3} \<or>
      w_state r = 3 \<and> w_current_disposition r \<in> {2, 3, 4} \<or>
      w_state r = 4 \<and> w_current_disposition r = 1 \<or>
      w_state r = 5 \<and> w_current_disposition r \<in> {2, 3} \<or>
      w_state r = 6 \<and> w_current_disposition r \<in> {2, 3, 4} \<or>
      w_state r = 7 \<and> w_current_disposition r \<in> {2, 3}) \<and>
     (w_state r = 1 \<and> w_execution_direction r = 1 \<or>
      w_state r = 2 \<and> w_execution_direction r = 2 \<or>
      w_state r = 3 \<or>
      w_state r = 4 \<and> w_execution_direction r = 1 \<or>
      w_state r = 5 \<and> w_execution_direction r = 2 \<or>
      w_state r = 6 \<or>
      w_state r = 7 \<and> w_execution_direction r = 2) \<and>
     (w_lease_owner r = None \<longleftrightarrow> w_lease_expires_at r = None) \<and>
     (w_state r = 4 \<and> object_text ce (w_workflow_return_json r) \<or>
      w_state r \<noteq> 4 \<and> w_workflow_return_json r = None) \<and>
     (w_parent_workflow_id r = None \<and> w_parent_node_id r = None \<and> w_root_workflow_id r = None \<and> w_call_depth r = None \<or>
      w_parent_workflow_id r \<noteq> None \<and> w_parent_node_id r \<noteq> None \<and> w_root_workflow_id r \<noteq> None \<and>
      at_least 1 (w_call_depth r))"

text \<open>Those of \<open>tb_mf_operation\<close> and \<open>tb_mf_workflow_checkpoint\<close>.\<close>

definition operation_row_ok :: "coord_env \<Rightarrow> operation_row \<Rightarrow> bool" where
  "operation_row_ok ce r \<longleftrightarrow>
     ce_document ce (o_input_json r) \<and> o_call_kind r \<in> {1, 2} \<and> o_status r \<in> {1, 2} \<and>
     (o_status r = 1 \<and> o_result_json r = None \<or> o_status r = 2 \<and> object_text ce (o_result_json r))"

definition checkpoint_row_ok :: "coord_env \<Rightarrow> checkpoint_row \<Rightarrow> bool" where
  "checkpoint_row_ok ce r \<longleftrightarrow>
     ce_document ce (k_payload r) \<and> k_reversal_state r \<in> {1, 2, 3, 4} \<and>
     (k_reverse_invocation_id r = None \<and> k_reverse_operation_name r = None \<and> k_reverse_schema_version r = None \<and>
      k_reverse_input_json r = None \<and> k_reverse_input_hash r = None \<or>
      id16 (k_reverse_invocation_id r) \<and> non_empty ce (k_reverse_operation_name r) \<and>
      at_least 1 (k_reverse_schema_version r) \<and> object_text ce (k_reverse_input_json r) \<and>
      non_empty ce (k_reverse_input_hash r))"

section \<open>Statements\<close>

definition insert_workflow :: "coord_env \<Rightarrow> workflow_row \<Rightarrow> database \<Rightarrow> coord_fault + database" where
  "insert_workflow ce r db =
     (if \<not> workflow_row_ok ce r then Inl Constraint_Failed
      else if select_workflow db (w_workflow_id r) \<noteq> None then Inl Duplicate_Key
      else Inr (db\<lparr>tb_workflow := tb_workflow db @ [r]\<rparr>))"

definition update_workflow ::
    "coord_env \<Rightarrow> bytes \<Rightarrow> (workflow_row \<Rightarrow> workflow_row) \<Rightarrow> database \<Rightarrow> coord_fault + database" where
  "update_workflow ce wid f db =
     (if list_all (\<lambda>r. w_workflow_id r = wid \<longrightarrow> workflow_row_ok ce (f r)) (tb_workflow db)
      then Inr (db\<lparr>tb_workflow := map (\<lambda>r. if w_workflow_id r = wid then f r else r) (tb_workflow db)\<rparr>)
      else Inl Constraint_Failed)"

definition insert_workflow_event :: "coord_env \<Rightarrow> event_row \<Rightarrow> database \<Rightarrow> coord_fault + database" where
  "insert_workflow_event ce e db =
     (if \<not> ce_document ce (e_payload e) \<or> select_workflow db (e_workflow_id e) = None then Inl Constraint_Failed
      else if list_ex (\<lambda>x. e_workflow_id x = e_workflow_id e \<and>
          (e_event_ts x = e_event_ts e \<or> e_request_id e \<noteq> None \<and> e_request_id x = e_request_id e)) (tb_event db)
      then Inl Duplicate_Key
      else Inr (db\<lparr>tb_event := tb_event db @ [e]\<rparr>))"

definition insert_operation :: "coord_env \<Rightarrow> operation_row \<Rightarrow> database \<Rightarrow> coord_fault + database" where
  "insert_operation ce r db =
     (if \<not> operation_row_ok ce r \<or> select_workflow db (o_workflow_id r) = None then Inl Constraint_Failed
      else if list_ex (\<lambda>x. o_operation_id x = o_operation_id r \<or>
          o_workflow_id x = o_workflow_id r \<and> o_operation_seq x = o_operation_seq r) (tb_operation db)
      then Inl Duplicate_Key
      else Inr (db\<lparr>tb_operation := tb_operation db @ [r]\<rparr>))"

definition update_operation ::
    "coord_env \<Rightarrow> bytes \<Rightarrow> int \<Rightarrow> (operation_row \<Rightarrow> operation_row) \<Rightarrow> database \<Rightarrow> coord_fault + database" where
  "update_operation ce wid seq f db =
     (if list_all (\<lambda>r. o_workflow_id r = wid \<and> o_operation_seq r = seq \<longrightarrow> operation_row_ok ce (f r)) (tb_operation db)
      then Inr (db\<lparr>tb_operation :=
        map (\<lambda>r. if o_workflow_id r = wid \<and> o_operation_seq r = seq then f r else r) (tb_operation db)\<rparr>)
      else Inl Constraint_Failed)"

definition insert_checkpoint :: "coord_env \<Rightarrow> checkpoint_row \<Rightarrow> database \<Rightarrow> coord_fault + database" where
  "insert_checkpoint ce r db =
     (if \<not> checkpoint_row_ok ce r \<or> select_workflow db (k_workflow_id r) = None then Inl Constraint_Failed
      else if list_ex (\<lambda>x. k_workflow_id x = k_workflow_id r \<and>
          (k_seq x = k_seq r \<or> k_operation_id x = k_operation_id r)) (tb_checkpoint db)
      then Inl Duplicate_Key
      else Inr (db\<lparr>tb_checkpoint := tb_checkpoint db @ [r]\<rparr>))"

definition update_checkpoint ::
    "coord_env \<Rightarrow> bytes \<Rightarrow> int \<Rightarrow> (checkpoint_row \<Rightarrow> checkpoint_row) \<Rightarrow> database \<Rightarrow> coord_fault + database" where
  "update_checkpoint ce wid seq f db =
     (if list_all (\<lambda>r. k_workflow_id r = wid \<and> k_seq r = seq \<longrightarrow> checkpoint_row_ok ce (f r)) (tb_checkpoint db)
      then Inr (db\<lparr>tb_checkpoint :=
        map (\<lambda>r. if k_workflow_id r = wid \<and> k_seq r = seq then f r else r) (tb_checkpoint db)\<rparr>)
      else Inl Constraint_Failed)"

definition insert_plan :: "coord_env \<Rightarrow> plan_row \<Rightarrow> database \<Rightarrow> coord_fault + database" where
  "insert_plan ce r db =
     (if p_plan_length r < 1 \<or> length (p_content_hash r) \<noteq> 33 \<or> \<not> ce_plan_version ce (p_plan_version r) \<or>
         select_workflow db (p_workflow_id r) = None
      then Inl Constraint_Failed
      else if select_plan db (p_workflow_id r) \<noteq> None then Inl Duplicate_Key
      else Inr (db\<lparr>tb_plan := tb_plan db @ [r]\<rparr>))"

definition insert_args :: "args_row \<Rightarrow> database \<Rightarrow> coord_fault + database" where
  "insert_args r db =
     (if length (a_args_canonical r) < 2 \<or> select_workflow db (a_workflow_id r) = None then Inl Constraint_Failed
      else if select_args db (a_workflow_id r) \<noteq> None then Inl Duplicate_Key
      else Inr (db\<lparr>tb_args := tb_args db @ [r]\<rparr>))"

text \<open>\<open>tb_mf_call\<close>: its primary key, the unique child, its CHECKs and its two foreign keys.\<close>

definition insert_call :: "call_row \<Rightarrow> database \<Rightarrow> coord_fault + database" where
  "insert_call r db =
     (if c_child_status r \<notin> {1, 2, 3, 4} \<or> length (c_child_content_hash r) \<noteq> 33 \<or>
         \<not> list_ex (\<lambda>x. o_workflow_id x = c_workflow_id r \<and> o_operation_seq x = c_operation_seq r) (tb_operation db) \<or>
         select_workflow db (c_child_workflow_id r) = None
      then Inl Constraint_Failed
      else if list_ex (\<lambda>x. c_child_workflow_id x = c_child_workflow_id r \<or>
          c_workflow_id x = c_workflow_id r \<and> c_operation_seq x = c_operation_seq r) (tb_call db)
      then Inl Duplicate_Key
      else Inr (db\<lparr>tb_call := tb_call db @ [r]\<rparr>))"

definition update_call ::
    "bytes \<Rightarrow> int \<Rightarrow> (call_row \<Rightarrow> call_row) \<Rightarrow> database \<Rightarrow> coord_fault + database" where
  "update_call wid seq f db =
     (if list_all (\<lambda>r. c_workflow_id r = wid \<and> c_operation_seq r = seq \<longrightarrow> c_child_status (f r) \<in> {1, 2, 3, 4}) (tb_call db)
      then Inr (db\<lparr>tb_call := map (\<lambda>r. if c_workflow_id r = wid \<and> c_operation_seq r = seq then f r else r) (tb_call db)\<rparr>)
      else Inl Constraint_Failed)"

section \<open>Rows read by the procedures\<close>

definition find_call :: "database \<Rightarrow> bytes \<Rightarrow> int \<Rightarrow> call_row option" where
  "find_call db wid seq = find (\<lambda>r. c_workflow_id r = wid \<and> c_operation_seq r = seq) (tb_call db)"

definition find_call_of_child :: "database \<Rightarrow> bytes \<Rightarrow> call_row option" where
  "find_call_of_child db child = find (\<lambda>r. c_child_workflow_id r = child) (tb_call db)"

definition find_operation :: "database \<Rightarrow> bytes \<Rightarrow> int \<Rightarrow> operation_row option" where
  "find_operation db wid seq = find (\<lambda>r. o_workflow_id r = wid \<and> o_operation_seq r = seq) (tb_operation db)"

definition find_checkpoint :: "database \<Rightarrow> bytes \<Rightarrow> int \<Rightarrow> checkpoint_row option" where
  "find_checkpoint db wid seq = find (\<lambda>r. k_workflow_id r = wid \<and> k_seq r = seq) (tb_checkpoint db)"

text \<open>\<open>MAX(seq)\<close> over the active checkpoints of a workflow; \<open>None\<close> when there is none.\<close>

definition active_seqs :: "checkpoint_row list \<Rightarrow> int list" where
  "active_seqs ks = map k_seq (filter (\<lambda>r. k_reversal_state r = 1) ks)"

definition max_seq :: "int list \<Rightarrow> int option" where
  "max_seq xs = (if xs = [] then None else Some (Max (set xs)))"

definition top_seq :: "database \<Rightarrow> bytes \<Rightarrow> int option" where
  "top_seq db wid = max_seq (active_seqs (filter (\<lambda>r. k_workflow_id r = wid) (tb_checkpoint db)))"

text \<open>The fence of every publication: the lease's owner, its token, and the states it may start from.\<close>

definition fence_lost :: "workflow_row \<Rightarrow> bytes option \<Rightarrow> int option \<Rightarrow> int set \<Rightarrow> bool" where
  "fence_lost r ex tok states \<longleftrightarrow>
     w_lease_owner r = None \<or> w_lease_owner r \<noteq> ex \<or> Some (w_fencing_token r) \<noteq> tok \<or> w_state r \<notin> states"

text \<open>The UPDATE of the workflow row and the event that goes with it.\<close>

definition publish ::
    "coord_env \<Rightarrow> bytes \<Rightarrow> (workflow_row \<Rightarrow> workflow_row) \<Rightarrow> event_row \<Rightarrow> database \<Rightarrow> coord_fault + database" where
  "publish ce wid f e db = bind_res (update_workflow ce wid f db) (insert_workflow_event ce e)"

definition event_of :: "bytes \<Rightarrow> datetime \<Rightarrow> string \<Rightarrow> bytes option \<Rightarrow> str \<Rightarrow> event_row" where
  "event_of wid ts kind actor payload =
     \<lparr>e_workflow_id = wid, e_event_ts = ts, e_kind = lit kind, e_actor = actor, e_request_id = None, e_payload = payload\<rparr>"

end
