(* ===== verification/Coord_Forward.thy ===== *)
theory Coord_Forward
  imports Coord_Tables
begin

text \<open>
  The forward half of the coordinator's stored procedures: creating a workflow, claiming,
  keeping and releasing its lease, requesting and settling its operations, and the definite
  failure of one.  The arguments are nullable, as the procedures check; their outcome documents
  are the constructors of \<open>coord_outcome\<close>.
\<close>

section \<open>Outcomes\<close>

text \<open>The snapshot a claim returns.\<close>

record claim_snapshot =
  cs_workflow_id :: str
  cs_fencing_token :: int
  cs_state :: int
  cs_execution_direction :: int
  cs_current_disposition :: int
  cs_script_name :: str
  cs_script_revision :: int
  cs_current_operation_attempt :: int
  cs_continuation :: str

datatype coord_outcome =
    Created
  | Workflow_Exists
  | Plan_Created str str str int
  | Plan_Exists str str str int
  | Plan_Conflict int
  | Workflow_Conflict int
  | None_Due
  | Not_Claimable
  | Claimed claim_snapshot
  | Workflow_Not_Found
  | Fence_Lost
  | Lease_Extended
  | Released
  | Plan_Violation string int
  | Operation_Conflict
  | Operation_Exists str
  | Operation_Requested str
  | Operation_Not_Found
  | Already_Settled "str option"
  | Operation_Settled str
  | Already_Blocked
  | Blocked
  | Event_Time_Skew datetime
  | Deferred bool
  | Budget_Deferred int bool
  | Route_Unknown
  | Operation_Not_Requested int
  | Trigger_Mismatch
  | Already_Begun int "str option"
  | Operation_Not_Failed int
  | Workflow_Failed str
  | Reversing int
  | Checkpoint_Not_Found
  | Checkpoint_Inactive int
  | Checkpoint_Not_Active int
  | Binding_Conflict
  | Already_Requested bytes str int str str
  | Compensation_Requested str
  | Out_Of_Order "int option"
  | Not_Requested
  | Reverse_Id_Mismatch
  | Already_Reversed
  | Not_Settleable int
  | Not_Blockable int
  | Reversed "str option"
  | Pending_Deferred int bool
  | Pending_Redispatch int bool
  | Reverse_Route_Unknown
  | Call_Conflict
  | Already_Submitted str
  | Call_Rejected string
  | Submitted str
  | Call_Not_Found
  | Refreshed
  | Notified
  | Not_Call_Checkpoint
  | Call_Sidecar_Not_Found
  | Child_Not_Found
  | Already_Reopened int
  | Child_State_Inconsistent int
  | Child_No_Active_Checkpoint
  | Reopened str
  | Child_Not_Terminal int
  | Child_Not_Compensated int

section \<open>sp_mf_workflow_create\<close>

record create_args =
  wa_workflow_id :: "bytes option"
  wa_script_name :: "str option"
  wa_script_revision :: "int option"
  wa_event_ts :: "datetime option"
  wa_next_attempt_at :: "datetime option"
  wa_continuation :: "str option"
  wa_event_payload :: "str option"

definition new_workflow :: "bytes \<Rightarrow> str \<Rightarrow> int \<Rightarrow> datetime \<Rightarrow> datetime \<Rightarrow> str \<Rightarrow> workflow_row" where
  "new_workflow wid name revision ts due doc =
     \<lparr>w_workflow_id = wid, w_script_name = name, w_script_revision = revision, w_state = 1,
      w_execution_direction = 1, w_current_disposition = 0, w_current_event_ts = ts,
      w_fencing_token = 0, w_lease_owner = None, w_lease_expires_at = None, w_next_attempt_at = due,
      w_current_operation_attempt = 0, w_continuation = doc, w_reversal_trigger_operation_id = None,
      w_terminal_reason = None, w_workflow_return_json = None, w_parent_workflow_id = None,
      w_parent_node_id = None, w_root_workflow_id = None, w_call_depth = None, w_created_at = ts,
      w_updated_at = ts\<rparr>"

definition sp_workflow_create ::
    "coord_env \<Rightarrow> create_args \<Rightarrow> database \<Rightarrow> coord_fault + coord_outcome \<times> database" where
  "sp_workflow_create ce a db =
     bind_res (guards
       [(id16 (wa_workflow_id a), ''MfWorkflowIdInvalid''),
        (non_empty ce (wa_script_name a), ''MfScriptNameInvalid''),
        (at_least 1 (wa_script_revision a), ''MfScriptRevisionInvalid''),
        (wa_event_ts a \<noteq> None, ''MfEventTsInvalid''),
        (wa_next_attempt_at a \<noteq> None, ''MfNextAttemptAtInvalid''),
        (object_text ce (wa_continuation a), ''MfContinuationInvalid''),
        (object_text ce (wa_event_payload a), ''MfEventPayloadInvalid'')]) (\<lambda>_.
     let wid = the (wa_workflow_id a); ts = the (wa_event_ts a)
     in case insert_workflow ce (new_workflow wid (the (wa_script_name a)) (the (wa_script_revision a)) ts
            (the (wa_next_attempt_at a)) (the (wa_continuation a))) db of
          Inl e \<Rightarrow> if e = Duplicate_Key then Inr (Workflow_Exists, db) else Inl e
        | Inr db1 \<Rightarrow>
            bind_res (insert_workflow_event ce (event_of wid ts ''created'' None (the (wa_event_payload a))) db1) (\<lambda>db2.
              Inr (Created, db2)))"

section \<open>sp_mf_workflow_create_planned\<close>

record planned_args =
  na_workflow_id :: "bytes option"
  na_script_name :: "str option"
  na_plan_version :: "str option"
  na_event_ts :: "datetime option"
  na_next_attempt_at :: "datetime option"
  na_continuation :: "str option"
  na_event_payload :: "str option"
  na_content_hash :: "bytes option"
  na_plan_length :: "int option"
  na_args :: "bytes option"

definition args_document :: "coord_env \<Rightarrow> bytes option \<Rightarrow> bool" where
  "args_document ce b =
     (case b of None \<Rightarrow> False
      | Some x \<Rightarrow> (case utf8_strict (map unat x) of None \<Rightarrow> False | Some t \<Rightarrow> ce_document ce t))"

definition adopt_plan :: "coord_env \<Rightarrow> planned_args \<Rightarrow> bytes \<Rightarrow> database \<Rightarrow> coord_outcome" where
  "adopt_plan ce a wid db =
     (case (select_workflow db wid, select_plan db wid) of
        (Some w, Some p) \<Rightarrow>
          if \<not> ce_same ce (w_script_name w) (the (na_script_name a)) then Plan_Conflict (p_plan_length p)
          else (case select_args db wid of
                  None \<Rightarrow> Workflow_Conflict (p_plan_length p)
                | Some x \<Rightarrow>
                    if a_args_canonical x \<noteq> the (na_args a) then Workflow_Conflict (p_plan_length p)
                    else Plan_Exists (w_script_name w) (p_plan_version p) (hex (p_content_hash p)) (p_plan_length p))
      | _ \<Rightarrow> Plan_Conflict 0)"

definition sp_workflow_create_planned ::
    "coord_env \<Rightarrow> planned_args \<Rightarrow> database \<Rightarrow> coord_fault + coord_outcome \<times> database" where
  "sp_workflow_create_planned ce a db =
     bind_res (guards
       [(id16 (na_workflow_id a), ''MfWorkflowIdInvalid''),
        (non_empty ce (na_script_name a), ''MfScriptNameInvalid''),
        (case na_plan_version a of None \<Rightarrow> False | Some v \<Rightarrow> ce_plan_version ce v, ''MfPlanVersionInvalid''),
        (na_event_ts a \<noteq> None, ''MfEventTsInvalid''),
        (na_next_attempt_at a \<noteq> None, ''MfNextAttemptAtInvalid''),
        (object_text ce (na_continuation a), ''MfContinuationInvalid''),
        (object_text ce (na_event_payload a), ''MfEventPayloadInvalid''),
        (case na_content_hash a of None \<Rightarrow> False | Some h \<Rightarrow> length h = 33, ''MfContentHashInvalid''),
        (at_least 1 (na_plan_length a), ''MfPlanLengthInvalid''),
        (args_document ce (na_args a), ''MfArgsInvalid'')]) (\<lambda>_.
     let wid = the (na_workflow_id a); ts = the (na_event_ts a)
     in case insert_workflow ce (new_workflow wid (the (na_script_name a)) 1 ts
            (the (na_next_attempt_at a)) (the (na_continuation a))) db of
          Inl e \<Rightarrow> if e = Duplicate_Key then Inr (adopt_plan ce a wid db, db) else Inl e
        | Inr db1 \<Rightarrow>
            bind_res (insert_plan ce \<lparr>p_workflow_id = wid, p_plan_version = the (na_plan_version a),
                p_content_hash = the (na_content_hash a), p_plan_length = the (na_plan_length a), p_created_at = ts\<rparr> db1) (\<lambda>db2.
            bind_res (insert_args \<lparr>a_workflow_id = wid, a_args_canonical = the (na_args a), a_created_at = ts\<rparr> db2) (\<lambda>db3.
            bind_res (insert_workflow_event ce (event_of wid ts ''created'' None (the (na_event_payload a))) db3) (\<lambda>db4.
              Inr (Plan_Created (the (na_script_name a)) (the (na_plan_version a)) (hex (the (na_content_hash a)))
                (the (na_plan_length a)), db4)))))"

section \<open>The lease: claim, claim_by_id, heartbeat, release\<close>

text \<open>The WHERE clause of the claim scan.\<close>

definition claim_predicate :: "workflow_row \<Rightarrow> datetime \<Rightarrow> bool" where
  "claim_predicate row now \<longleftrightarrow> w_state row \<in> {1, 2} \<and> w_next_attempt_at row \<le> now \<and>
     (w_lease_owner row = None \<or> (case w_lease_expires_at row of None \<Rightarrow> False | Some t \<Rightarrow> t < now))"

definition snapshot_of :: "workflow_row \<Rightarrow> claim_snapshot" where
  "snapshot_of r =
     \<lparr>cs_workflow_id = hex (w_workflow_id r), cs_fencing_token = w_fencing_token r, cs_state = w_state r,
      cs_execution_direction = w_execution_direction r, cs_current_disposition = w_current_disposition r,
      cs_script_name = w_script_name r, cs_script_revision = w_script_revision r,
      cs_current_operation_attempt = w_current_operation_attempt r, cs_continuation = w_continuation r\<rparr>"

definition claimed_row :: "bytes option \<Rightarrow> datetime \<Rightarrow> datetime option \<Rightarrow> workflow_row \<Rightarrow> workflow_row" where
  "claimed_row ex now deadline r =
     r\<lparr>w_lease_owner := ex, w_lease_expires_at := deadline, w_fencing_token := w_fencing_token r + 1, w_updated_at := now\<rparr>"

text \<open>Installing the lease on the row found; the token is a \<open>bigint\<close>.\<close>

definition install_lease ::
    "coord_env \<Rightarrow> bytes option \<Rightarrow> datetime \<Rightarrow> datetime option \<Rightarrow> workflow_row \<Rightarrow> database \<Rightarrow> coord_fault + coord_outcome \<times> database" where
  "install_lease ce ex now deadline r db =
     (if w_fencing_token r + 1 \<ge> 2 ^ 63 then Inl Out_Of_Range
      else bind_res (update_workflow ce (w_workflow_id r) (claimed_row ex now deadline) db) (\<lambda>db1.
        Inr (Claimed (snapshot_of (claimed_row ex now deadline r)), db1)))"

record claim_args =
  ca_script_name :: "str option"
  ca_executor :: "bytes option"
  ca_db_now :: "datetime option"
  ca_lease_expires_at :: "datetime option"

text \<open>
  \<open>FOR UPDATE SKIP LOCKED\<close>: rows that another open transaction holds are passed over;
  \<open>locked\<close> says which.
\<close>

definition sp_workflow_claim ::
    "coord_env \<Rightarrow> (bytes \<Rightarrow> bool) \<Rightarrow> claim_args \<Rightarrow> database \<Rightarrow> coord_fault + coord_outcome \<times> database" where
  "sp_workflow_claim ce locked a db =
     bind_res (guards
       [(non_empty ce (ca_script_name a), ''MfScriptNameInvalid''),
        (id16 (ca_executor a), ''MfExecutorInvalid''),
        (ca_db_now a \<noteq> None, ''MfDbNowInvalid''),
        (after (ca_db_now a) (ca_lease_expires_at a), ''MfLeaseExpiryInvalid'')]) (\<lambda>_.
     let now = the (ca_db_now a)
     in case sort_key (\<lambda>r. (w_next_attempt_at r, w_workflow_id r))
            (filter (\<lambda>r. ce_same ce (w_script_name r) (the (ca_script_name a)) \<and> claim_predicate r now \<and>
                \<not> locked (w_workflow_id r)) (tb_workflow db)) of
          [] \<Rightarrow> Inr (None_Due, db)
        | r # _ \<Rightarrow> install_lease ce (ca_executor a) now (ca_lease_expires_at a) r db)"

record claim_by_id_args =
  ia_workflow_id :: "bytes option"
  ia_executor :: "bytes option"
  ia_db_now :: "datetime option"
  ia_lease_expires_at :: "datetime option"

definition sp_workflow_claim_by_id ::
    "coord_env \<Rightarrow> (bytes \<Rightarrow> bool) \<Rightarrow> claim_by_id_args \<Rightarrow> database \<Rightarrow> coord_fault + coord_outcome \<times> database" where
  "sp_workflow_claim_by_id ce locked a db =
     bind_res (guards
       [(id16 (ia_workflow_id a), ''MfWorkflowIdInvalid''),
        (id16 (ia_executor a), ''MfExecutorInvalid''),
        (ia_db_now a \<noteq> None, ''MfDbNowInvalid''),
        (after (ia_db_now a) (ia_lease_expires_at a), ''MfLeaseExpiryInvalid'')]) (\<lambda>_.
     let wid = the (ia_workflow_id a); now = the (ia_db_now a)
     in case select_workflow db wid of
          None \<Rightarrow> Inr (Workflow_Not_Found, db)
        | Some r \<Rightarrow>
            if claim_predicate r now \<and> \<not> locked wid
            then install_lease ce (ia_executor a) now (ia_lease_expires_at a) r db
            else Inr (Not_Claimable, db))"

text \<open>The arguments every fenced procedure starts with, and their guards.\<close>

record fenced_args =
  fa_workflow_id :: "bytes option"
  fa_executor :: "bytes option"
  fa_fencing_token :: "int option"

definition fence_guards :: "'a fenced_args_scheme \<Rightarrow> (bool \<times> string) list" where
  "fence_guards a =
     [(id16 (fa_workflow_id a), ''MfWorkflowIdInvalid''),
      (id16 (fa_executor a), ''MfExecutorInvalid''),
      (at_least 1 (fa_fencing_token a), ''MfFencingTokenInvalid'')]"

definition stale_fence :: "'a fenced_args_scheme \<Rightarrow> int set \<Rightarrow> workflow_row \<Rightarrow> bool" where
  "stale_fence a states r = fence_lost r (fa_executor a) (fa_fencing_token a) states"

text \<open>The row locked at the start, or \<open>not_found\<close>.\<close>

definition with_workflow ::
    "'a fenced_args_scheme \<Rightarrow> database \<Rightarrow> (bytes \<Rightarrow> workflow_row \<Rightarrow> coord_fault + coord_outcome \<times> database) \<Rightarrow>
     coord_fault + coord_outcome \<times> database" where
  "with_workflow a db k =
     (case select_workflow db (the (fa_workflow_id a)) of
        None \<Rightarrow> Inr (Workflow_Not_Found, db)
      | Some r \<Rightarrow> k (the (fa_workflow_id a)) r)"

record heartbeat_args = fenced_args +
  ha_db_now :: "datetime option"
  ha_lease_expires_at :: "datetime option"

definition sp_workflow_heartbeat ::
    "coord_env \<Rightarrow> heartbeat_args \<Rightarrow> database \<Rightarrow> coord_fault + coord_outcome \<times> database" where
  "sp_workflow_heartbeat ce a db =
     bind_res (guards (fence_guards a @
       [(ha_db_now a \<noteq> None, ''MfDbNowInvalid''),
        (after (ha_db_now a) (ha_lease_expires_at a), ''MfLeaseExpiryInvalid'')])) (\<lambda>_.
     with_workflow a db (\<lambda>wid r.
       if stale_fence a {1, 2} r \<or> (case w_lease_expires_at r of None \<Rightarrow> False | Some t \<Rightarrow> t < the (ha_db_now a))
       then Inr (Fence_Lost, db)
       else bind_res (update_workflow ce wid (\<lambda>r. r\<lparr>w_lease_expires_at := ha_lease_expires_at a,
              w_updated_at := the (ha_db_now a)\<rparr>) db) (\<lambda>db1. Inr (Lease_Extended, db1))))"

record release_args = fenced_args +
  la_db_now :: "datetime option"
  la_next_attempt_at :: "datetime option"

definition sp_workflow_release ::
    "coord_env \<Rightarrow> release_args \<Rightarrow> database \<Rightarrow> coord_fault + coord_outcome \<times> database" where
  "sp_workflow_release ce a db =
     bind_res (guards (fence_guards a @
       [(la_db_now a \<noteq> None, ''MfDbNowInvalid''),
        (la_next_attempt_at a \<noteq> None, ''MfNextAttemptAtInvalid'')])) (\<lambda>_.
     with_workflow a db (\<lambda>wid r.
       if stale_fence a {1, 2} r then Inr (Fence_Lost, db)
       else bind_res (update_workflow ce wid (\<lambda>r. r\<lparr>w_lease_owner := None, w_lease_expires_at := None,
              w_next_attempt_at := the (la_next_attempt_at a), w_updated_at := the (la_db_now a)\<rparr>) db) (\<lambda>db1.
              Inr (Released, db1))))"

section \<open>sp_mf_operation_request\<close>

record request_args = fenced_args +
  qa_operation_seq :: "int option"
  qa_operation_id :: "bytes option"
  qa_operation_name :: "str option"
  qa_schema_version :: "int option"
  qa_input_json :: "str option"
  qa_input_hash :: "str option"
  qa_new_continuation :: "str option"
  qa_event_ts :: "datetime option"
  qa_event_payload :: "str option"

definition request_guards :: "coord_env \<Rightarrow> request_args \<Rightarrow> (bool \<times> string) list" where
  "request_guards ce a = fence_guards a @
     [(at_least 1 (qa_operation_seq a), ''MfOperationSeqInvalid''),
      (id16 (qa_operation_id a), ''MfOperationIdInvalid''),
      (non_empty ce (qa_operation_name a), ''MfOperationNameInvalid''),
      (at_least 1 (qa_schema_version a), ''MfSchemaVersionInvalid''),
      (non_empty ce (qa_input_hash a), ''MfInputHashInvalid''),
      (object_text ce (qa_input_json a), ''MfInputJsonInvalid''),
      (object_text ce (qa_new_continuation a), ''MfContinuationInvalid''),
      (object_text ce (qa_event_payload a), ''MfEventPayloadInvalid''),
      (qa_event_ts a \<noteq> None, ''MfEventTsInvalid'')]"

text \<open>The plan's verdict on a request; a workflow without a pinned plan has none.\<close>

definition request_plan_violation :: "database \<Rightarrow> bytes \<Rightarrow> int \<Rightarrow> (string \<times> int) option" where
  "request_plan_violation db wid seq =
     (case select_plan db wid of
        None \<Rightarrow> None
      | Some p \<Rightarrow>
          if seq < 1 \<or> seq > p_plan_length p then Some (''seq_out_of_range'', p_plan_length p)
          else if seq > 1 \<and>
              (case find_operation db wid (seq - 1) of None \<Rightarrow> True | Some x \<Rightarrow> o_status x \<noteq> 2)
          then Some (''predecessor_incomplete'', p_plan_length p)
          else None)"

definition same_request :: "coord_env \<Rightarrow> request_args \<Rightarrow> operation_row \<Rightarrow> bool" where
  "same_request ce a x \<longleftrightarrow>
     o_operation_id x = the (qa_operation_id a) \<and> ce_same ce (o_operation_name x) (the (qa_operation_name a)) \<and>
     o_schema_version x = the (qa_schema_version a) \<and> ce_same ce (o_input_hash x) (the (qa_input_hash a))"

definition requested_operation :: "request_args \<Rightarrow> operation_row" where
  "requested_operation a =
     \<lparr>o_workflow_id = the (fa_workflow_id a), o_operation_seq = the (qa_operation_seq a),
      o_operation_id = the (qa_operation_id a), o_operation_name = the (qa_operation_name a),
      o_schema_version = the (qa_schema_version a), o_input_json = the (qa_input_json a),
      o_input_hash = the (qa_input_hash a), o_call_kind = 1, o_status = 1, o_result_json = None,
      o_created_at = the (qa_event_ts a), o_updated_at = the (qa_event_ts a), o_reconcile_attempts = 0,
      o_reconcile_first_seen_at = None, o_reconcile_last_seen_at = None, o_reconcile_reason = None,
      o_redispatch_first_seen_at = None, o_redispatch_last_at = None, o_redispatch_count = 0\<rparr>"

definition advance :: "str \<Rightarrow> datetime \<Rightarrow> workflow_row \<Rightarrow> workflow_row" where
  "advance doc ts r = r\<lparr>w_continuation := doc, w_current_event_ts := ts, w_updated_at := ts\<rparr>"

definition sp_operation_request ::
    "coord_env \<Rightarrow> request_args \<Rightarrow> database \<Rightarrow> coord_fault + coord_outcome \<times> database" where
  "sp_operation_request ce a db =
     bind_res (guards (request_guards ce a)) (\<lambda>_.
     with_workflow a db (\<lambda>wid r.
       let seq = the (qa_operation_seq a); ts = the (qa_event_ts a)
       in if stale_fence a {1} r then Inr (Fence_Lost, db)
          else case request_plan_violation db wid seq of
            Some (why, n) \<Rightarrow> Inr (Plan_Violation why n, db)
          | None \<Rightarrow>
              (case find_operation db wid seq of
                 Some x \<Rightarrow>
                   if same_request ce a x then Inr (Operation_Exists (hex (o_operation_id x)), db)
                   else Inr (Operation_Conflict, db)
               | None \<Rightarrow>
                   if ts \<le> w_current_event_ts r then Inr (Event_Time_Skew (ce_defer ce (w_current_event_ts r)), db)
                   else bind_res (insert_operation ce (requested_operation a) db) (\<lambda>db1.
                        bind_res (publish ce wid (advance (the (qa_new_continuation a)) ts)
                          (event_of wid ts ''operation_requested'' (fa_executor a) (the (qa_event_payload a))) db1) (\<lambda>db2.
                          Inr (Operation_Requested (hex (the (qa_operation_id a))), db2))))))"

section \<open>sp_mf_operation_settle\<close>

record op_settle_args = fenced_args +
  oa_operation_seq :: "int option"
  oa_operation_id :: "bytes option"
  oa_checkpoint_seq :: "int option"
  oa_result_json :: "str option"
  oa_checkpoint_payload :: "str option"
  oa_workflow_return_json :: "str option"
  oa_new_continuation :: "str option"
  oa_event_ts :: "datetime option"
  oa_event_payload :: "str option"
  oa_is_final :: "int option"

definition op_settle_guards :: "coord_env \<Rightarrow> op_settle_args \<Rightarrow> (bool \<times> string) list" where
  "op_settle_guards ce a = fence_guards a @
     [(at_least 1 (oa_operation_seq a), ''MfOperationSeqInvalid''),
      (id16 (oa_operation_id a), ''MfOperationIdInvalid''),
      (at_least 1 (oa_checkpoint_seq a), ''MfCheckpointSeqInvalid''),
      (object_text ce (oa_result_json a), ''MfResultJsonInvalid''),
      (object_text ce (oa_checkpoint_payload a), ''MfCheckpointPayloadInvalid''),
      (object_text ce (oa_new_continuation a), ''MfContinuationInvalid''),
      (object_text ce (oa_event_payload a), ''MfEventPayloadInvalid''),
      (oa_event_ts a \<noteq> None, ''MfEventTsInvalid''),
      (oa_is_final a = Some 0 \<or> oa_is_final a = Some 1, ''MfIsFinalInvalid''),
      (oa_is_final a \<noteq> Some 1 \<or> object_text ce (oa_workflow_return_json a), ''MfWorkflowReturnJsonInvalid''),
      (oa_is_final a \<noteq> Some 0 \<or> oa_workflow_return_json a = None, ''MfWorkflowReturnJsonUnexpected'')]"

definition settle_plan_violation :: "op_settle_args \<Rightarrow> database \<Rightarrow> bytes \<Rightarrow> (string \<times> int) option" where
  "settle_plan_violation a db wid =
     (let seq = the (oa_operation_seq a)
      in case select_plan db wid of
           None \<Rightarrow> None
         | Some p \<Rightarrow>
             if seq < 1 \<or> seq > p_plan_length p then Some (''seq_out_of_range'', p_plan_length p)
             else if the (oa_checkpoint_seq a) \<noteq> seq then Some (''checkpoint_mismatch'', p_plan_length p)
             else if oa_is_final a = Some 1 \<and> seq \<noteq> p_plan_length p then Some (''finality_early'', p_plan_length p)
             else None)"

definition settled_operation :: "op_settle_args \<Rightarrow> operation_row \<Rightarrow> operation_row" where
  "settled_operation a x = x\<lparr>o_status := 2, o_result_json := oa_result_json a, o_updated_at := the (oa_event_ts a)\<rparr>"

definition new_checkpoint :: "op_settle_args \<Rightarrow> operation_row \<Rightarrow> checkpoint_row" where
  "new_checkpoint a x =
     \<lparr>k_workflow_id = the (fa_workflow_id a), k_seq = the (oa_checkpoint_seq a), k_operation_name = o_operation_name x,
      k_operation_id = o_operation_id x, k_payload = the (oa_checkpoint_payload a), k_reversal_state = 1,
      k_reverse_invocation_id = None, k_reverse_operation_name = None, k_reverse_schema_version = None,
      k_reverse_input_json = None, k_reverse_input_hash = None, k_reversed_at = None, k_resolution_event_ts = None,
      k_created_at = the (oa_event_ts a), k_updated_at = the (oa_event_ts a), k_reconcile_attempts = 0,
      k_reconcile_first_seen_at = None, k_reconcile_last_seen_at = None, k_reconcile_reason = None,
      k_redispatch_first_seen_at = None, k_redispatch_last_at = None, k_redispatch_count = 0\<rparr>"

text \<open>The last operation completes the workflow, an earlier one keeps the lease.\<close>

definition settled_row :: "op_settle_args \<Rightarrow> workflow_row \<Rightarrow> workflow_row" where
  "settled_row a r =
     (let r1 = advance (the (oa_new_continuation a)) (the (oa_event_ts a)) r
      in if oa_is_final a = Some 1
         then r1\<lparr>w_state := 4, w_current_disposition := 1, w_lease_owner := None, w_lease_expires_at := None,
                w_workflow_return_json := oa_workflow_return_json a\<rparr>
         else r1)"

definition sp_operation_settle ::
    "coord_env \<Rightarrow> op_settle_args \<Rightarrow> database \<Rightarrow> coord_fault + coord_outcome \<times> database" where
  "sp_operation_settle ce a db =
     bind_res (guards (op_settle_guards ce a)) (\<lambda>_.
     with_workflow a db (\<lambda>wid r.
       let seq = the (oa_operation_seq a); ts = the (oa_event_ts a)
       in case settle_plan_violation a db wid of
            Some (why, n) \<Rightarrow> Inr (Plan_Violation why n, db)
          | None \<Rightarrow>
              (case find_operation db wid seq of
                 None \<Rightarrow> Inr (Operation_Not_Found, db)
               | Some x \<Rightarrow>
                   if o_operation_id x \<noteq> the (oa_operation_id a) then Inr (Operation_Conflict, db)
                   else if o_status x = 2 then Inr (Already_Settled (o_result_json x), db)
                   else if stale_fence a {1} r then Inr (Fence_Lost, db)
                   else if ts \<le> w_current_event_ts r then Inr (Event_Time_Skew (ce_defer ce (w_current_event_ts r)), db)
                   else bind_res (update_operation ce wid seq (settled_operation a) db) (\<lambda>db1.
                        bind_res (insert_checkpoint ce (new_checkpoint a x) db1) (\<lambda>db2.
                        bind_res (publish ce wid (settled_row a) (event_of wid ts
                            (if oa_is_final a = Some 1 then ''workflow_completed'' else ''operation_settled'')
                            (fa_executor a) (the (oa_event_payload a))) db2) (\<lambda>db3.
                          Inr (Operation_Settled (the (oa_result_json a)), db3)))))))"

section \<open>sp_mf_operation_fail\<close>

record fail_args = fenced_args +
  ba_operation_seq :: "int option"
  ba_operation_id :: "bytes option"
  ba_new_continuation :: "str option"
  ba_event_ts :: "datetime option"
  ba_event_payload :: "str option"

definition failed_row :: "fail_args \<Rightarrow> workflow_row \<Rightarrow> workflow_row" where
  "failed_row a r = (advance (the (ba_new_continuation a)) (the (ba_event_ts a)) r)
     \<lparr>w_state := 3, w_current_disposition := 2, w_lease_owner := None, w_lease_expires_at := None\<rparr>"

definition sp_operation_fail ::
    "coord_env \<Rightarrow> fail_args \<Rightarrow> database \<Rightarrow> coord_fault + coord_outcome \<times> database" where
  "sp_operation_fail ce a db =
     bind_res (guards (fence_guards a @
       [(at_least 1 (ba_operation_seq a), ''MfOperationSeqInvalid''),
        (id16 (ba_operation_id a), ''MfOperationIdInvalid''),
        (object_text ce (ba_new_continuation a), ''MfContinuationInvalid''),
        (object_text ce (ba_event_payload a), ''MfEventPayloadInvalid''),
        (ba_event_ts a \<noteq> None, ''MfEventTsInvalid'')])) (\<lambda>_.
     with_workflow a db (\<lambda>wid r.
       let ts = the (ba_event_ts a)
       in case find_operation db wid (the (ba_operation_seq a)) of
            None \<Rightarrow> Inr (Operation_Not_Found, db)
          | Some x \<Rightarrow>
              if o_operation_id x \<noteq> the (ba_operation_id a) then Inr (Operation_Conflict, db)
              else if w_state r = 3 then Inr (Already_Blocked, db)
              else if stale_fence a {1} r then Inr (Fence_Lost, db)
              else if ts \<le> w_current_event_ts r then Inr (Event_Time_Skew (ce_defer ce (w_current_event_ts r)), db)
              else bind_res (publish ce wid (failed_row a)
                     (event_of wid ts ''operation_failed'' (fa_executor a) (the (ba_event_payload a))) db) (\<lambda>db1.
                     Inr (Blocked, db1))))"

section \<open>sp_mf_operation_dispatch_defer and sp_mf_workflow_reconcile_defer\<close>

record defer_args = fenced_args +
  da_db_now :: "datetime option"
  da_next_attempt_at :: "datetime option"
  da_event_ts :: "datetime option"
  da_reason :: "str option"

text \<open>Putting the workflow off: the lease goes, and the event pointer moves when an event is appended.\<close>

definition deferred_row :: "datetime \<Rightarrow> datetime \<Rightarrow> datetime \<Rightarrow> workflow_row \<Rightarrow> workflow_row" where
  "deferred_row due ts now r =
     r\<lparr>w_lease_owner := None, w_lease_expires_at := None, w_next_attempt_at := due,
       w_current_event_ts := ts, w_updated_at := now\<rparr>"

definition repeats_last_event :: "coord_env \<Rightarrow> database \<Rightarrow> bytes \<Rightarrow> str option \<Rightarrow> bool" where
  "repeats_last_event ce db wid reason =
     (let es = select_events db wid
      in es \<noteq> [] \<and> ce_same ce (e_kind (last es)) (lit ''operation_dispatch_deferred'') \<and>
         (case (ce_reason ce (e_payload (last es)), reason) of
            (Some x, Some y) \<Rightarrow> ce_same ce x y
          | _ \<Rightarrow> False))"

definition sp_operation_dispatch_defer ::
    "coord_env \<Rightarrow> defer_args \<Rightarrow> database \<Rightarrow> coord_fault + coord_outcome \<times> database" where
  "sp_operation_dispatch_defer ce a db =
     bind_res (guards (fence_guards a @
       [(da_db_now a \<noteq> None, ''MfDbNowInvalid''),
        (da_next_attempt_at a \<noteq> None, ''MfNextAttemptAtInvalid''),
        (da_event_ts a \<noteq> None, ''MfEventTsInvalid''),
        (non_empty ce (da_reason a), ''MfReasonInvalid''),
        (after (da_db_now a) (da_next_attempt_at a), ''MfNextAttemptNotFuture'')])) (\<lambda>_.
     with_workflow a db (\<lambda>wid r.
       let now = the (da_db_now a); due = the (da_next_attempt_at a); ts = the (da_event_ts a)
       in if stale_fence a {1, 2} r then Inr (Fence_Lost, db)
          else if repeats_last_event ce db wid (da_reason a) \<or> ts \<le> w_current_event_ts r
          then bind_res (update_workflow ce wid (deferred_row due (w_current_event_ts r) now) db) (\<lambda>db1.
                 Inr (Deferred False, db1))
          else bind_res (publish ce wid (deferred_row due ts now)
                 (event_of wid ts ''operation_dispatch_deferred'' (fa_executor a)
                   (ce_object ce [(''reason'', JA_Text (the (da_reason a)))])) db) (\<lambda>db1.
                 Inr (Deferred True, db1))))"

end
