(* ===== verification/Coord_Reverse.thy ===== *)
theory Coord_Reverse
  imports Coord_Forward
begin

text \<open>
  The other half of the coordinator's stored procedures: the bounded reconcile budget, the two
  ways a reversal begins, and the compensation of the checkpoint stack from its top.
\<close>

section \<open>sp_mf_workflow_reconcile_defer\<close>

record reconcile_args = fenced_args +
  za_operation_seq :: "int option"
  za_operation_id :: "bytes option"
  za_db_now :: "datetime option"
  za_next_attempt_at :: "datetime option"
  za_event_ts :: "datetime option"
  za_max_elapsed_ms :: "int option"
  za_min_attempts :: "int option"

definition budget_row :: "datetime \<Rightarrow> operation_row \<Rightarrow> operation_row" where
  "budget_row now x =
     x\<lparr>o_reconcile_attempts := o_reconcile_attempts x + 1,
       o_reconcile_first_seen_at := Some (case o_reconcile_first_seen_at x of None \<Rightarrow> now | Some t \<Rightarrow> t),
       o_reconcile_last_seen_at := Some now, o_reconcile_reason := Some (lit ''participant_route_404''),
       o_updated_at := now\<rparr>"

definition budget_elapsed :: "coord_env \<Rightarrow> datetime \<Rightarrow> operation_row \<Rightarrow> int" where
  "budget_elapsed ce now x = ce_elapsed_ms ce (case o_reconcile_first_seen_at x of None \<Rightarrow> now | Some t \<Rightarrow> t) now"

definition budget_exhausted :: "coord_env \<Rightarrow> reconcile_args \<Rightarrow> operation_row \<Rightarrow> bool" where
  "budget_exhausted ce a x \<longleftrightarrow>
     budget_elapsed ce (the (za_db_now a)) x \<ge> the (za_max_elapsed_ms a) \<and>
     o_reconcile_attempts x + 1 \<ge> the (za_min_attempts a)"

definition route_unknown_row :: "coord_env \<Rightarrow> reconcile_args \<Rightarrow> workflow_row \<Rightarrow> workflow_row" where
  "route_unknown_row ce a r =
     r\<lparr>w_state := 3, w_execution_direction := 1, w_current_disposition := 4,
       w_continuation := ce_object ce [(''pos'', JA_Text (lit ''blocked'')), (''direction'', JA_Text (lit ''forward'')),
         (''reason'', JA_Text (lit ''participant_route_unknown'')), (''operation_seq'', JA_Num (the (za_operation_seq a))),
         (''operation_id'', JA_Text (hex (the (za_operation_id a))))],
       w_lease_owner := None, w_lease_expires_at := None, w_current_event_ts := the (za_event_ts a),
       w_updated_at := the (za_db_now a)\<rparr>"

definition budget_payload :: "coord_env \<Rightarrow> string \<Rightarrow> string \<Rightarrow> reconcile_args \<Rightarrow> operation_row \<Rightarrow> str" where
  "budget_payload ce reason attempts a x =
     ce_object ce [(''reason'', JA_Text (lit reason)), (''operation_seq'', JA_Num (the (za_operation_seq a))),
       (''operation_id'', JA_Text (hex (the (za_operation_id a)))), (attempts, JA_Num (o_reconcile_attempts x + 1)),
       (''elapsed_ms'', JA_Num (budget_elapsed ce (the (za_db_now a)) x))]"

definition sp_workflow_reconcile_defer ::
    "coord_env \<Rightarrow> reconcile_args \<Rightarrow> database \<Rightarrow> coord_fault + coord_outcome \<times> database" where
  "sp_workflow_reconcile_defer ce a db =
     bind_res (guards (fence_guards a @
       [(at_least 1 (za_operation_seq a), ''MfOperationSeqInvalid''),
        (id16 (za_operation_id a), ''MfOperationIdInvalid''),
        (za_db_now a \<noteq> None \<and> za_next_attempt_at a \<noteq> None \<and> za_event_ts a \<noteq> None, ''MfTimestampInvalid''),
        (at_least 0 (za_max_elapsed_ms a) \<and> at_least 1 (za_min_attempts a), ''MfBudgetInvalid''),
        (after (za_db_now a) (za_next_attempt_at a), ''MfNextAttemptNotFuture'')])) (\<lambda>_.
     with_workflow a db (\<lambda>wid r.
       let seq = the (za_operation_seq a); now = the (za_db_now a); ts = the (za_event_ts a);
           due = the (za_next_attempt_at a)
       in if stale_fence a {1} r then Inr (Fence_Lost, db)
          else case find_operation db wid seq of
            None \<Rightarrow> Inr (Operation_Not_Found, db)
          | Some x \<Rightarrow>
              if o_operation_id x \<noteq> the (za_operation_id a) then Inr (Operation_Conflict, db)
              else if o_status x \<noteq> 1 then Inr (Operation_Not_Requested (o_status x), db)
              else if o_reconcile_attempts x + 1 \<ge> 2 ^ 31 then Inl Out_Of_Range
              else if budget_exhausted ce a x \<and> ts \<le> w_current_event_ts r
              then Inr (Event_Time_Skew (ce_defer ce (w_current_event_ts r)), db)
              else bind_res (update_operation ce wid seq (budget_row now) db) (\<lambda>db1.
                if budget_exhausted ce a x
                then bind_res (publish ce wid (route_unknown_row ce a)
                       (event_of wid ts ''participant_route_unknown'' (fa_executor a)
                         (budget_payload ce ''participant_route_unknown'' ''attempts'' a x)) db1) (\<lambda>db2.
                       Inr (Route_Unknown, db2))
                else if ts \<le> w_current_event_ts r
                then bind_res (update_workflow ce wid (deferred_row due (w_current_event_ts r) now) db1) (\<lambda>db2.
                       Inr (Budget_Deferred (o_reconcile_attempts x + 1) False, db2))
                else bind_res (publish ce wid (deferred_row due ts now)
                       (event_of wid ts ''participant_route_404'' (fa_executor a)
                         (budget_payload ce ''participant_route_404'' ''attempt'' a x)) db1) (\<lambda>db2.
                       Inr (Budget_Deferred (o_reconcile_attempts x + 1) True, db2)))))"

section \<open>sp_mf_workflow_begin_reversal and sp_mf_workflow_authored_fail\<close>

text \<open>Both leave the forward path the same way; they differ in how the trigger is identified.\<close>

definition reversal_failed_row :: "coord_env \<Rightarrow> bytes \<Rightarrow> str \<Rightarrow> datetime \<Rightarrow> workflow_row \<Rightarrow> workflow_row" where
  "reversal_failed_row ce trigger reason ts r =
     r\<lparr>w_state := 7, w_execution_direction := 2, w_current_disposition := 2,
       w_continuation := ce_object ce [(''pos'', JA_Text (lit ''failed''))],
       w_reversal_trigger_operation_id := Some trigger, w_terminal_reason := Some reason,
       w_lease_owner := None, w_lease_expires_at := None, w_current_event_ts := ts, w_updated_at := ts\<rparr>"

definition reverse_cursor :: "coord_env \<Rightarrow> string \<Rightarrow> int \<Rightarrow> str" where
  "reverse_cursor ce pos seq = ce_object ce [(''pos'', JA_Text (lit pos)), (''seq'', JA_Num seq)]"

definition reversal_begun_row :: "coord_env \<Rightarrow> bytes \<Rightarrow> str \<Rightarrow> datetime \<Rightarrow> int \<Rightarrow> workflow_row \<Rightarrow> workflow_row" where
  "reversal_begun_row ce trigger reason ts highest r =
     r\<lparr>w_state := 2, w_execution_direction := 2, w_current_disposition := 2,
       w_continuation := reverse_cursor ce ''reverse'' highest,
       w_reversal_trigger_operation_id := Some trigger, w_terminal_reason := Some reason,
       w_current_event_ts := ts, w_updated_at := ts\<rparr>"

definition leave_forward ::
    "coord_env \<Rightarrow> bytes \<Rightarrow> bytes option \<Rightarrow> bytes \<Rightarrow> str \<Rightarrow> datetime \<Rightarrow> (string \<times> jarg) list \<Rightarrow> database \<Rightarrow>
     coord_fault + coord_outcome \<times> database" where
  "leave_forward ce wid actor trigger reason ts origin db =
     (case top_seq db wid of
        None \<Rightarrow>
          bind_res (publish ce wid (reversal_failed_row ce trigger reason ts)
            (event_of wid ts ''failed'' actor
              (ce_object ce ([(''reason'', JA_Text reason), (''compensated'', JA_Num 0)] @ origin))) db) (\<lambda>db1.
            Inr (Workflow_Failed reason, db1))
      | Some highest \<Rightarrow>
          bind_res (publish ce wid (reversal_begun_row ce trigger reason ts highest)
            (event_of wid ts ''reversal_begun'' actor
              (ce_object ce ([(''reason'', JA_Text reason), (''top_seq'', JA_Num highest)] @ origin))) db) (\<lambda>db1.
            Inr (Reversing highest, db1)))"

record begin_args = fenced_args +
  ga_operation_seq :: "int option"
  ga_operation_id :: "bytes option"
  ga_event_ts :: "datetime option"
  ga_reason :: "str option"

definition sp_workflow_begin_reversal ::
    "coord_env \<Rightarrow> begin_args \<Rightarrow> database \<Rightarrow> coord_fault + coord_outcome \<times> database" where
  "sp_workflow_begin_reversal ce a db =
     bind_res (guards (fence_guards a @
       [(at_least 1 (ga_operation_seq a), ''MfOperationSeqInvalid''),
        (id16 (ga_operation_id a), ''MfOperationIdInvalid''),
        (ga_event_ts a \<noteq> None, ''MfEventTsInvalid''),
        (non_empty ce (ga_reason a), ''MfReasonInvalid'')])) (\<lambda>_.
     with_workflow a db (\<lambda>wid r.
       let seq = the (ga_operation_seq a); opid = the (ga_operation_id a); ts = the (ga_event_ts a)
       in case w_reversal_trigger_operation_id r of
            Some trigger \<Rightarrow>
              if trigger \<noteq> opid then Inr (Trigger_Mismatch, db)
              else Inr (Already_Begun (w_state r) (w_terminal_reason r), db)
          | None \<Rightarrow>
              (case find_operation db wid seq of
                 None \<Rightarrow> Inr (Operation_Not_Found, db)
               | Some x \<Rightarrow>
                   if o_operation_id x \<noteq> opid then Inr (Operation_Conflict, db)
                   else if o_status x \<noteq> 1 then Inr (Operation_Not_Failed (o_status x), db)
                   else if stale_fence a {1} r then Inr (Fence_Lost, db)
                   else if ts \<le> w_current_event_ts r then Inr (Event_Time_Skew (ce_defer ce (w_current_event_ts r)), db)
                   else leave_forward ce wid (fa_executor a) opid (the (ga_reason a)) ts
                     [(''operation_seq'', JA_Num seq), (''operation_id'', JA_Text (hex opid))] db)))"

record authored_args = fenced_args +
  ya_fail_id :: "bytes option"
  ya_event_ts :: "datetime option"
  ya_reason :: "str option"

definition sp_workflow_authored_fail ::
    "coord_env \<Rightarrow> authored_args \<Rightarrow> database \<Rightarrow> coord_fault + coord_outcome \<times> database" where
  "sp_workflow_authored_fail ce a db =
     bind_res (guards (fence_guards a @
       [(id16 (ya_fail_id a), ''MfFailIdInvalid''),
        (ya_event_ts a \<noteq> None, ''MfEventTsInvalid''),
        (non_empty ce (ya_reason a), ''MfReasonInvalid'')])) (\<lambda>_.
     with_workflow a db (\<lambda>wid r.
       let ts = the (ya_event_ts a); failid = the (ya_fail_id a)
       in case w_reversal_trigger_operation_id r of
            Some trigger \<Rightarrow>
              if trigger \<noteq> failid then Inr (Trigger_Mismatch, db)
              else Inr (Already_Begun (w_state r) (w_terminal_reason r), db)
          | None \<Rightarrow>
              if stale_fence a {1} r then Inr (Fence_Lost, db)
              else if ts \<le> w_current_event_ts r then Inr (Event_Time_Skew (ce_defer ce (w_current_event_ts r)), db)
              else leave_forward ce wid (fa_executor a) failid (the (ya_reason a)) ts
                [(''source'', JA_Text (lit ''authored_fail'')), (''fail_id'', JA_Text (hex failid))] db))"

section \<open>sp_mf_checkpoint_reverse_request\<close>

text \<open>
  The order guard compares with \<open>MAX(seq)\<close>, which is not \<open>NULL\<close> there: the checkpoint itself is
  active.
\<close>

record reverse_request_args = fenced_args +
  va_seq :: "int option"
  va_reverse_id :: "bytes option"
  va_operation_name :: "str option"
  va_schema_version :: "int option"
  va_input_json :: "str option"
  va_input_hash :: "str option"
  va_event_ts :: "datetime option"

definition same_binding :: "coord_env \<Rightarrow> reverse_request_args \<Rightarrow> checkpoint_row \<Rightarrow> bool" where
  "same_binding ce a k \<longleftrightarrow>
     k_reverse_invocation_id k = va_reverse_id a \<and>
     (case (k_reverse_operation_name k, va_operation_name a) of (Some x, Some y) \<Rightarrow> ce_same ce x y | _ \<Rightarrow> False) \<and>
     k_reverse_schema_version k = va_schema_version a \<and>
     (case (k_reverse_input_hash k, va_input_hash a) of (Some x, Some y) \<Rightarrow> ce_same ce x y | _ \<Rightarrow> False) \<and>
     (case (k_reverse_input_json k, va_input_json a) of (Some x, Some y) \<Rightarrow> ce_same ce x y | _ \<Rightarrow> False)"

definition bound_checkpoint :: "reverse_request_args \<Rightarrow> checkpoint_row \<Rightarrow> checkpoint_row" where
  "bound_checkpoint a k =
     k\<lparr>k_reverse_invocation_id := va_reverse_id a, k_reverse_operation_name := va_operation_name a,
       k_reverse_schema_version := va_schema_version a, k_reverse_input_json := va_input_json a,
       k_reverse_input_hash := va_input_hash a, k_updated_at := the (va_event_ts a)\<rparr>"

definition sp_checkpoint_reverse_request ::
    "coord_env \<Rightarrow> reverse_request_args \<Rightarrow> database \<Rightarrow> coord_fault + coord_outcome \<times> database" where
  "sp_checkpoint_reverse_request ce a db =
     bind_res (guards (fence_guards a @
       [(at_least 1 (va_seq a), ''MfSeqInvalid''),
        (id16 (va_reverse_id a), ''MfReverseIdInvalid''),
        (non_empty ce (va_operation_name a), ''MfReverseOpNameInvalid''),
        (at_least 1 (va_schema_version a), ''MfReverseSchemaVersionInvalid''),
        (object_text ce (va_input_json a), ''MfReverseInputJsonInvalid''),
        (non_empty ce (va_input_hash a), ''MfReverseInputHashInvalid''),
        (va_event_ts a \<noteq> None, ''MfEventTsInvalid'')])) (\<lambda>_.
     with_workflow a db (\<lambda>wid r.
       let seq = the (va_seq a); ts = the (va_event_ts a)
       in case find_checkpoint db wid seq of
            None \<Rightarrow> Inr (Checkpoint_Not_Found, db)
          | Some k \<Rightarrow>
              if k_reversal_state k \<noteq> 1 then Inr (Checkpoint_Inactive (k_reversal_state k), db)
              else if k_reverse_invocation_id k \<noteq> None
              then if \<not> same_binding ce a k then Inr (Binding_Conflict, db)
                   else Inr (Already_Requested (the (k_reverse_invocation_id k)) (the (k_reverse_operation_name k))
                     (the (k_reverse_schema_version k)) (the (k_reverse_input_json k)) (the (k_reverse_input_hash k)), db)
              else if stale_fence a {2} r then Inr (Fence_Lost, db)
              else if top_seq db wid \<noteq> Some seq then Inr (Out_Of_Order (top_seq db wid), db)
              else if ts \<le> w_current_event_ts r then Inr (Event_Time_Skew (ce_defer ce (w_current_event_ts r)), db)
              else bind_res (update_checkpoint ce wid seq (bound_checkpoint a) db) (\<lambda>db1.
                   bind_res (publish ce wid (advance (reverse_cursor ce ''reverse:dispatched'' seq) ts)
                     (event_of wid ts ''compensation_requested'' (fa_executor a)
                       (ce_object ce [(''seq'', JA_Num seq), (''reverse_invocation_id'', JA_Text (hex (the (va_reverse_id a)))),
                         (''reverse_operation'', JA_Text (the (va_operation_name a))),
                         (''reverse_schema_version'', JA_Num (the (va_schema_version a)))])) db1) (\<lambda>db2.
                     Inr (Compensation_Requested (hex (the (va_reverse_id a))), db2)))))"

section \<open>sp_mf_checkpoint_reverse_settle and sp_mf_checkpoint_reverse_block\<close>

record reverse_settle_args = fenced_args +
  ka_seq :: "int option"
  ka_reverse_id :: "bytes option"
  ka_result_json :: "str option"
  ka_event_ts :: "datetime option"

definition reversed_checkpoint :: "datetime \<Rightarrow> checkpoint_row \<Rightarrow> checkpoint_row" where
  "reversed_checkpoint ts k = k\<lparr>k_reversal_state := 2, k_reversed_at := Some ts, k_updated_at := ts\<rparr>"

definition reversed_row :: "coord_env \<Rightarrow> datetime \<Rightarrow> workflow_row \<Rightarrow> workflow_row" where
  "reversed_row ce ts r = (advance (ce_object ce [(''pos'', JA_Text (lit ''reversed''))]) ts r)
     \<lparr>w_state := 5, w_lease_owner := None, w_lease_expires_at := None\<rparr>"

definition sp_checkpoint_reverse_settle ::
    "coord_env \<Rightarrow> reverse_settle_args \<Rightarrow> database \<Rightarrow> coord_fault + coord_outcome \<times> database" where
  "sp_checkpoint_reverse_settle ce a db =
     bind_res (guards (fence_guards a @
       [(at_least 1 (ka_seq a), ''MfSeqInvalid''),
        (id16 (ka_reverse_id a), ''MfReverseIdInvalid''),
        (object_text ce (ka_result_json a), ''MfResultJsonInvalid''),
        (ka_event_ts a \<noteq> None, ''MfEventTsInvalid'')])) (\<lambda>_.
     with_workflow a db (\<lambda>wid r.
       let seq = the (ka_seq a); ts = the (ka_event_ts a)
       in case find_checkpoint db wid seq of
            None \<Rightarrow> Inr (Checkpoint_Not_Found, db)
          | Some k \<Rightarrow>
              if k_reverse_invocation_id k = None then Inr (Not_Requested, db)
              else if k_reverse_invocation_id k \<noteq> ka_reverse_id a then Inr (Reverse_Id_Mismatch, db)
              else if k_reversal_state k = 2 then Inr (Already_Reversed, db)
              else if k_reversal_state k \<noteq> 1 then Inr (Not_Settleable (k_reversal_state k), db)
              else if stale_fence a {2} r then Inr (Fence_Lost, db)
              else if top_seq db wid \<noteq> Some seq then Inr (Out_Of_Order (top_seq db wid), db)
              else if ts \<le> w_current_event_ts r then Inr (Event_Time_Skew (ce_defer ce (w_current_event_ts r)), db)
              else bind_res (update_checkpoint ce wid seq (reversed_checkpoint ts) db) (\<lambda>db1.
                case top_seq db1 wid of
                  None \<Rightarrow>
                    bind_res (publish ce wid (reversed_row ce ts)
                      (event_of wid ts ''compensation_settled'' (fa_executor a)
                        (ce_object ce [(''seq'', JA_Num seq), (''terminal'', JA_Text (lit ''reversed''))])) db1) (\<lambda>db2.
                      Inr (Reversed (w_terminal_reason r), db2))
                | Some below \<Rightarrow>
                    bind_res (publish ce wid (advance (reverse_cursor ce ''reverse'' below) ts)
                      (event_of wid ts ''compensation_settled'' (fa_executor a)
                        (ce_object ce [(''seq'', JA_Num seq), (''next_seq'', JA_Num below)])) db1) (\<lambda>db2.
                      Inr (Reversing below, db2)))))"

record reverse_block_args = fenced_args +
  ua_seq :: "int option"
  ua_reverse_id :: "bytes option"
  ua_disposition :: "int option"
  ua_reason :: "str option"
  ua_event_ts :: "datetime option"

definition blocked_checkpoint :: "datetime \<Rightarrow> checkpoint_row \<Rightarrow> checkpoint_row" where
  "blocked_checkpoint ts k = k\<lparr>k_reversal_state := 3, k_resolution_event_ts := Some ts, k_updated_at := ts\<rparr>"

definition reverse_blocked_row :: "coord_env \<Rightarrow> int \<Rightarrow> int \<Rightarrow> datetime \<Rightarrow> workflow_row \<Rightarrow> workflow_row" where
  "reverse_blocked_row ce disposition seq ts r = (advance (reverse_cursor ce ''blocked'' seq) ts r)
     \<lparr>w_state := 3, w_current_disposition := disposition, w_lease_owner := None, w_lease_expires_at := None\<rparr>"

definition sp_checkpoint_reverse_block ::
    "coord_env \<Rightarrow> reverse_block_args \<Rightarrow> database \<Rightarrow> coord_fault + coord_outcome \<times> database" where
  "sp_checkpoint_reverse_block ce a db =
     bind_res (guards (fence_guards a @
       [(at_least 1 (ua_seq a), ''MfSeqInvalid''),
        (id16 (ua_reverse_id a), ''MfReverseIdInvalid''),
        (ua_disposition a = Some 2 \<or> ua_disposition a = Some 4, ''MfDispositionInvalid''),
        (non_empty ce (ua_reason a), ''MfReasonInvalid''),
        (ua_event_ts a \<noteq> None, ''MfEventTsInvalid'')])) (\<lambda>_.
     with_workflow a db (\<lambda>wid r.
       let seq = the (ua_seq a); ts = the (ua_event_ts a); disposition = the (ua_disposition a)
       in case find_checkpoint db wid seq of
            None \<Rightarrow> Inr (Checkpoint_Not_Found, db)
          | Some k \<Rightarrow>
              if k_reverse_invocation_id k = None then Inr (Not_Requested, db)
              else if k_reverse_invocation_id k \<noteq> ua_reverse_id a then Inr (Reverse_Id_Mismatch, db)
              else if k_reversal_state k = 3 then Inr (Already_Blocked, db)
              else if k_reversal_state k \<noteq> 1 then Inr (Not_Blockable (k_reversal_state k), db)
              else if stale_fence a {2} r then Inr (Fence_Lost, db)
              else if top_seq db wid \<noteq> Some seq then Inr (Out_Of_Order (top_seq db wid), db)
              else if ts \<le> w_current_event_ts r then Inr (Event_Time_Skew (ce_defer ce (w_current_event_ts r)), db)
              else bind_res (update_checkpoint ce wid seq (blocked_checkpoint ts) db) (\<lambda>db1.
                   bind_res (publish ce wid (reverse_blocked_row ce disposition seq ts)
                     (event_of wid ts ''compensation_blocked'' (fa_executor a)
                       (ce_object ce [(''seq'', JA_Num seq), (''disposition'', JA_Num disposition),
                         (''reason'', JA_Text (the (ua_reason a))), (''direction'', JA_Text (lit ''reverse''))])) db1) (\<lambda>db2.
                     Inr (Blocked, db2)))))"

end
