(* ===== verification/Coord_Calls.thy ===== *)
theory Coord_Calls
  imports Coord_Reverse
begin

text \<open>
  The rest of the coordinator's stored procedures that write: the timers that put off or repeat
  the dispatch of an operation or a compensation, and the composition of workflows, in which an
  operation is a whole workflow of its own: submitting a call with its child, refreshing the hint
  about the child, waking the parent, and compensating a call by reopening its child.
\<close>

section \<open>sp_mf_operation_pending_defer\<close>

record pending_args = fenced_args +
  xa_operation_seq :: "int option"
  xa_operation_id :: "bytes option"
  xa_db_now :: "datetime option"
  xa_next_attempt_at :: "datetime option"
  xa_event_ts :: "datetime option"
  xa_after_ms :: "int option"

text \<open>The interval runs from the last dispatch repeated, or from when the operation was first seen pending.\<close>

definition pending_elapsed :: "coord_env \<Rightarrow> datetime option \<Rightarrow> datetime option \<Rightarrow> datetime \<Rightarrow> int" where
  "pending_elapsed ce last_at first_seen now =
     ce_elapsed_ms ce
       (case last_at of
          Some t \<Rightarrow> t
        | None \<Rightarrow> (case first_seen of Some t \<Rightarrow> t | None \<Rightarrow> now)) now"

definition anchored_operation :: "datetime \<Rightarrow> operation_row \<Rightarrow> operation_row" where
  "anchored_operation now x =
     x\<lparr>o_redispatch_first_seen_at := Some (case o_redispatch_first_seen_at x of None \<Rightarrow> now | Some t \<Rightarrow> t),
       o_updated_at := now\<rparr>"

definition redispatched_operation :: "datetime \<Rightarrow> operation_row \<Rightarrow> operation_row" where
  "redispatched_operation now x =
     (anchored_operation now x)\<lparr>o_redispatch_last_at := Some now, o_redispatch_count := o_redispatch_count x + 1\<rparr>"

definition touched_row :: "datetime \<Rightarrow> datetime \<Rightarrow> workflow_row \<Rightarrow> workflow_row" where
  "touched_row ts now r = r\<lparr>w_current_event_ts := ts, w_updated_at := now\<rparr>"

definition pending_payload :: "coord_env \<Rightarrow> string \<Rightarrow> pending_args \<Rightarrow> int \<Rightarrow> int \<Rightarrow> str" where
  "pending_payload ce reason a count elapsed =
     ce_object ce [(''reason'', JA_Text (lit reason)), (''operation_seq'', JA_Num (the (xa_operation_seq a))),
       (''operation_id'', JA_Text (hex (the (xa_operation_id a)))), (''redispatch_count'', JA_Num count),
       (''elapsed_ms'', JA_Num elapsed)]"

definition sp_operation_pending_defer ::
    "coord_env \<Rightarrow> pending_args \<Rightarrow> database \<Rightarrow> coord_fault + coord_outcome \<times> database" where
  "sp_operation_pending_defer ce a db =
     bind_res (guards (fence_guards a @
       [(at_least 1 (xa_operation_seq a), ''MfOperationSeqInvalid''),
        (id16 (xa_operation_id a), ''MfOperationIdInvalid''),
        (xa_db_now a \<noteq> None \<and> xa_next_attempt_at a \<noteq> None \<and> xa_event_ts a \<noteq> None, ''MfTimestampInvalid''),
        (at_least 0 (xa_after_ms a), ''MfPendingAfterInvalid''),
        (after (xa_db_now a) (xa_next_attempt_at a), ''MfNextAttemptNotFuture'')])) (\<lambda>_.
     with_workflow a db (\<lambda>wid r.
       let seq = the (xa_operation_seq a); now = the (xa_db_now a); ts = the (xa_event_ts a);
           due = the (xa_next_attempt_at a)
       in if stale_fence a {1} r then Inr (Fence_Lost, db)
          else case find_operation db wid seq of
            None \<Rightarrow> Inr (Operation_Not_Found, db)
          | Some x \<Rightarrow>
              if o_operation_id x \<noteq> the (xa_operation_id a) then Inr (Operation_Conflict, db)
              else if o_status x \<noteq> 1 then Inr (Operation_Not_Requested (o_status x), db)
              else
                let count = o_redispatch_count x;
                    elapsed = pending_elapsed ce (o_redispatch_last_at x) (o_redispatch_first_seen_at x) now
                in if elapsed \<ge> the (xa_after_ms a)
                   then if count + 1 \<ge> 2 ^ 31 then Inl Out_Of_Range
                        else bind_res (update_operation ce wid seq (redispatched_operation now) db) (\<lambda>db1.
                          if ts \<le> w_current_event_ts r then Inr (Pending_Redispatch (count + 1) False, db1)
                          else bind_res (publish ce wid (touched_row ts now)
                                 (event_of wid ts ''pending_redispatch'' (fa_executor a)
                                   (pending_payload ce ''pending_redispatch'' a (count + 1) elapsed)) db1) (\<lambda>db2.
                                 Inr (Pending_Redispatch (count + 1) True, db2)))
                   else bind_res (update_operation ce wid seq (anchored_operation now) db) (\<lambda>db1.
                          if ts \<le> w_current_event_ts r
                          then bind_res (update_workflow ce wid (deferred_row due (w_current_event_ts r) now) db1) (\<lambda>db2.
                                 Inr (Pending_Deferred count False, db2))
                          else bind_res (publish ce wid (deferred_row due ts now)
                                 (event_of wid ts ''pending_deferred'' (fa_executor a)
                                   (pending_payload ce ''pending_deferred'' a count elapsed)) db1) (\<lambda>db2.
                                 Inr (Pending_Deferred count True, db2)))))"

section \<open>sp_mf_checkpoint_pending_defer and sp_mf_checkpoint_reconcile_defer\<close>

text \<open>
  Both look the checkpoint up the same way before they do anything: its binding first, then its
  state, then the fence and its place at the top of the stack.
\<close>

record checkpoint_timer_args = fenced_args +
  ja_seq :: "int option"
  ja_reverse_id :: "bytes option"
  ja_db_now :: "datetime option"
  ja_next_attempt_at :: "datetime option"
  ja_event_ts :: "datetime option"

definition checkpoint_timer_guards :: "'a checkpoint_timer_args_scheme \<Rightarrow> (bool \<times> string) list" where
  "checkpoint_timer_guards a = fence_guards a @
     [(at_least 1 (ja_seq a), ''MfSeqInvalid''),
      (id16 (ja_reverse_id a), ''MfReverseIdInvalid''),
      (ja_db_now a \<noteq> None \<and> ja_next_attempt_at a \<noteq> None \<and> ja_event_ts a \<noteq> None, ''MfTimestampInvalid'')]"

definition with_timer_checkpoint ::
    "'a checkpoint_timer_args_scheme \<Rightarrow> database \<Rightarrow>
     (bytes \<Rightarrow> workflow_row \<Rightarrow> checkpoint_row \<Rightarrow> coord_fault + coord_outcome \<times> database) \<Rightarrow>
     coord_fault + coord_outcome \<times> database" where
  "with_timer_checkpoint a db k =
     with_workflow a db (\<lambda>wid r.
       case find_checkpoint db wid (the (ja_seq a)) of
         None \<Rightarrow> Inr (Checkpoint_Not_Found, db)
       | Some x \<Rightarrow>
           if k_reverse_invocation_id x = None then Inr (Not_Requested, db)
           else if k_reverse_invocation_id x \<noteq> ja_reverse_id a then Inr (Reverse_Id_Mismatch, db)
           else if k_reversal_state x = 3 then Inr (Already_Blocked, db)
           else if k_reversal_state x \<noteq> 1 then Inr (Checkpoint_Not_Active (k_reversal_state x), db)
           else if stale_fence a {2} r then Inr (Fence_Lost, db)
           else if top_seq db wid \<noteq> Some (the (ja_seq a)) then Inr (Out_Of_Order (top_seq db wid), db)
           else k wid r x)"

record pending_reverse_args = checkpoint_timer_args +
  ja_after_ms :: "int option"

definition anchored_checkpoint :: "datetime \<Rightarrow> checkpoint_row \<Rightarrow> checkpoint_row" where
  "anchored_checkpoint now x =
     x\<lparr>k_redispatch_first_seen_at := Some (case k_redispatch_first_seen_at x of None \<Rightarrow> now | Some t \<Rightarrow> t),
       k_updated_at := now\<rparr>"

definition redispatched_checkpoint :: "datetime \<Rightarrow> checkpoint_row \<Rightarrow> checkpoint_row" where
  "redispatched_checkpoint now x =
     (anchored_checkpoint now x)\<lparr>k_redispatch_last_at := Some now, k_redispatch_count := k_redispatch_count x + 1\<rparr>"

definition pending_reverse_payload :: "coord_env \<Rightarrow> string \<Rightarrow> int \<Rightarrow> int \<Rightarrow> int \<Rightarrow> str" where
  "pending_reverse_payload ce reason seq count elapsed =
     ce_object ce [(''reason'', JA_Text (lit reason)), (''seq'', JA_Num seq), (''direction'', JA_Text (lit ''reverse'')),
       (''redispatch_count'', JA_Num count), (''elapsed_ms'', JA_Num elapsed)]"

definition sp_checkpoint_pending_defer ::
    "coord_env \<Rightarrow> pending_reverse_args \<Rightarrow> database \<Rightarrow> coord_fault + coord_outcome \<times> database" where
  "sp_checkpoint_pending_defer ce a db =
     bind_res (guards (checkpoint_timer_guards a @
       [(at_least 0 (ja_after_ms a), ''MfPendingAfterInvalid''),
        (after (ja_db_now a) (ja_next_attempt_at a), ''MfNextAttemptNotFuture'')])) (\<lambda>_.
     with_timer_checkpoint a db (\<lambda>wid r x.
       let seq = the (ja_seq a); now = the (ja_db_now a); ts = the (ja_event_ts a); due = the (ja_next_attempt_at a);
           count = k_redispatch_count x;
           elapsed = pending_elapsed ce (k_redispatch_last_at x) (k_redispatch_first_seen_at x) now
       in if elapsed \<ge> the (ja_after_ms a)
          then if count + 1 \<ge> 2 ^ 31 then Inl Out_Of_Range
               else bind_res (update_checkpoint ce wid seq (redispatched_checkpoint now) db) (\<lambda>db1.
                 if ts \<le> w_current_event_ts r then Inr (Pending_Redispatch (count + 1) False, db1)
                 else bind_res (publish ce wid (touched_row ts now)
                        (event_of wid ts ''pending_redispatch'' (fa_executor a)
                          (pending_reverse_payload ce ''pending_redispatch'' seq (count + 1) elapsed)) db1) (\<lambda>db2.
                        Inr (Pending_Redispatch (count + 1) True, db2)))
          else bind_res (update_checkpoint ce wid seq (anchored_checkpoint now) db) (\<lambda>db1.
                 if ts \<le> w_current_event_ts r
                 then bind_res (update_workflow ce wid (deferred_row due (w_current_event_ts r) now) db1) (\<lambda>db2.
                        Inr (Pending_Deferred count False, db2))
                 else bind_res (publish ce wid (deferred_row due ts now)
                        (event_of wid ts ''pending_deferred'' (fa_executor a)
                          (pending_reverse_payload ce ''pending_deferred'' seq count elapsed)) db1) (\<lambda>db2.
                        Inr (Pending_Deferred count True, db2)))))"

record reconcile_reverse_args = checkpoint_timer_args +
  ja_max_elapsed_ms :: "int option"
  ja_min_attempts :: "int option"

definition budget_checkpoint :: "datetime \<Rightarrow> checkpoint_row \<Rightarrow> checkpoint_row" where
  "budget_checkpoint now x =
     x\<lparr>k_reconcile_attempts := k_reconcile_attempts x + 1,
       k_reconcile_first_seen_at := Some (case k_reconcile_first_seen_at x of None \<Rightarrow> now | Some t \<Rightarrow> t),
       k_reconcile_last_seen_at := Some now, k_reconcile_reason := Some (lit ''participant_route_404''),
       k_updated_at := now\<rparr>"

definition reverse_route_unknown_row :: "coord_env \<Rightarrow> int \<Rightarrow> datetime \<Rightarrow> workflow_row \<Rightarrow> workflow_row" where
  "reverse_route_unknown_row ce seq ts r =
     r\<lparr>w_state := 3, w_current_disposition := 4,
       w_continuation := ce_object ce [(''pos'', JA_Text (lit ''blocked'')), (''seq'', JA_Num seq),
         (''direction'', JA_Text (lit ''reverse'')), (''reason'', JA_Text (lit ''participant_route_unknown''))],
       w_lease_owner := None, w_lease_expires_at := None, w_current_event_ts := ts, w_updated_at := ts\<rparr>"

definition sp_checkpoint_reconcile_defer ::
    "coord_env \<Rightarrow> reconcile_reverse_args \<Rightarrow> database \<Rightarrow> coord_fault + coord_outcome \<times> database" where
  "sp_checkpoint_reconcile_defer ce a db =
     bind_res (guards (checkpoint_timer_guards a @
       [(at_least 0 (ja_max_elapsed_ms a) \<and> at_least 1 (ja_min_attempts a), ''MfBudgetInvalid''),
        (after (ja_db_now a) (ja_next_attempt_at a), ''MfNextAttemptNotFuture'')])) (\<lambda>_.
     with_timer_checkpoint a db (\<lambda>wid r x.
       let seq = the (ja_seq a); now = the (ja_db_now a); ts = the (ja_event_ts a); due = the (ja_next_attempt_at a);
           attempts = k_reconcile_attempts x + 1;
           elapsed = ce_elapsed_ms ce (case k_reconcile_first_seen_at x of None \<Rightarrow> now | Some t \<Rightarrow> t) now;
           exhausted = (elapsed \<ge> the (ja_max_elapsed_ms a) \<and> attempts \<ge> the (ja_min_attempts a))
       in if attempts \<ge> 2 ^ 31 then Inl Out_Of_Range
          else if exhausted \<and> ts \<le> w_current_event_ts r
          then Inr (Event_Time_Skew (ce_defer ce (w_current_event_ts r)), db)
          else bind_res (update_checkpoint ce wid seq (budget_checkpoint now) db) (\<lambda>db1.
            if exhausted
            then bind_res (update_checkpoint ce wid seq (blocked_checkpoint ts) db1) (\<lambda>db2.
                 bind_res (publish ce wid (reverse_route_unknown_row ce seq ts)
                   (event_of wid ts ''participant_route_unknown'' (fa_executor a)
                     (ce_object ce [(''reason'', JA_Text (lit ''participant_route_unknown'')), (''seq'', JA_Num seq),
                       (''direction'', JA_Text (lit ''reverse'')), (''disposition'', JA_Num 4),
                       (''attempts'', JA_Num attempts), (''elapsed_ms'', JA_Num elapsed)])) db2) (\<lambda>db3.
                   Inr (Reverse_Route_Unknown, db3)))
            else if ts \<le> w_current_event_ts r
            then bind_res (update_workflow ce wid (deferred_row due (w_current_event_ts r) now) db1) (\<lambda>db2.
                   Inr (Budget_Deferred attempts False, db2))
            else bind_res (publish ce wid (deferred_row due ts now)
                   (event_of wid ts ''participant_route_404'' (fa_executor a)
                     (ce_object ce [(''reason'', JA_Text (lit ''participant_route_404'')), (''seq'', JA_Num seq),
                       (''direction'', JA_Text (lit ''reverse'')), (''attempt'', JA_Num attempts),
                       (''elapsed_ms'', JA_Num elapsed)])) db1) (\<lambda>db2.
                   Inr (Budget_Deferred attempts True, db2)))))"

section \<open>sp_mf_call_submit\<close>

record submit_args = fenced_args +
  ea_operation_seq :: "int option"
  ea_operation_id :: "bytes option"
  ea_input_json :: "str option"
  ea_input_hash :: "str option"
  ea_new_continuation :: "str option"
  ea_event_ts :: "datetime option"
  ea_event_payload :: "str option"
  ea_child_workflow_id :: "bytes option"
  ea_child_script_name :: "str option"
  ea_child_plan_version :: "str option"
  ea_child_content_hash :: "bytes option"
  ea_child_plan_length :: "int option"
  ea_child_continuation :: "str option"
  ea_child_next_attempt_at :: "datetime option"
  ea_child_event_payload :: "str option"
  ea_parent_node_id :: "str option"
  ea_max_call_depth :: "int option"

definition submit_guards :: "coord_env \<Rightarrow> submit_args \<Rightarrow> (bool \<times> string) list" where
  "submit_guards ce a = fence_guards a @
     [(at_least 1 (ea_operation_seq a), ''MfOperationSeqInvalid''),
      (id16 (ea_operation_id a), ''MfOperationIdInvalid''),
      (object_text ce (ea_input_json a), ''MfInputJsonInvalid''),
      (non_empty ce (ea_input_hash a), ''MfInputHashInvalid''),
      (object_text ce (ea_new_continuation a), ''MfContinuationInvalid''),
      (ea_event_ts a \<noteq> None, ''MfEventTsInvalid''),
      (object_text ce (ea_event_payload a), ''MfEventPayloadInvalid''),
      (id16 (ea_child_workflow_id a), ''MfChildWorkflowIdInvalid''),
      (ea_operation_id a = ea_child_workflow_id a, ''MfOperationIdChildMismatch''),
      (non_empty ce (ea_child_script_name a), ''MfChildScriptNameInvalid''),
      (case ea_child_plan_version a of None \<Rightarrow> False | Some v \<Rightarrow> ce_plan_version ce v, ''MfChildPlanVersionInvalid''),
      (case ea_child_content_hash a of None \<Rightarrow> False | Some h \<Rightarrow> length h = 33, ''MfChildContentHashInvalid''),
      (at_least 1 (ea_child_plan_length a), ''MfChildPlanLengthInvalid''),
      (object_text ce (ea_child_continuation a), ''MfChildContinuationInvalid''),
      (ea_child_next_attempt_at a \<noteq> None, ''MfChildNextAttemptAtInvalid''),
      (object_text ce (ea_child_event_payload a), ''MfChildEventPayloadInvalid''),
      (non_empty ce (ea_parent_node_id a), ''MfParentNodeIdInvalid''),
      (at_least 1 (ea_max_call_depth a), ''MfMaxCallDepthInvalid'')]"

text \<open>A call already submitted at this place, or something else that is in the way.\<close>

definition same_call :: "coord_env \<Rightarrow> submit_args \<Rightarrow> database \<Rightarrow> operation_row \<Rightarrow> call_row \<Rightarrow> bool" where
  "same_call ce a db x c \<longleftrightarrow>
     o_operation_id x = the (ea_operation_id a) \<and> o_call_kind x = 2 \<and>
     ce_same ce (o_input_hash x) (the (ea_input_hash a)) \<and>
     c_child_workflow_id c = the (ea_child_workflow_id a) \<and>
     ce_same ce (c_child_script_name c) (the (ea_child_script_name a)) \<and>
     ce_same ce (c_child_plan_version c) (the (ea_child_plan_version a)) \<and>
     c_child_content_hash c = the (ea_child_content_hash a) \<and>
     (case (select_plan db (c_child_workflow_id c), select_args db (c_child_workflow_id c)) of
        (Some p, Some t) \<Rightarrow> p_plan_length p = the (ea_child_plan_length a) \<and>
          a_args_canonical t = ce_bytes ce (the (ea_input_json a))
      | _ \<Rightarrow> False)"

definition resubmitted :: "coord_env \<Rightarrow> submit_args \<Rightarrow> database \<Rightarrow> bytes \<Rightarrow> operation_row \<Rightarrow> coord_outcome" where
  "resubmitted ce a db wid x =
     (case find_call db wid (the (ea_operation_seq a)) of
        None \<Rightarrow> Call_Conflict
      | Some c \<Rightarrow>
          if same_call ce a db x c then Already_Submitted (hex (c_child_workflow_id c)) else Call_Conflict)"

text \<open>The recursive query: the workflow and those above it, at most so many links up.\<close>

fun ancestors :: "database \<Rightarrow> nat \<Rightarrow> bytes \<Rightarrow> workflow_row list" where
  "ancestors db 0 wid = (case select_workflow db wid of None \<Rightarrow> [] | Some r \<Rightarrow> [r])"
| "ancestors db (Suc n) wid =
     (case select_workflow db wid of
        None \<Rightarrow> []
      | Some r \<Rightarrow> r # (case w_parent_workflow_id r of None \<Rightarrow> [] | Some p \<Rightarrow> ancestors db n p))"

definition same_plan :: "coord_env \<Rightarrow> submit_args \<Rightarrow> database \<Rightarrow> workflow_row \<Rightarrow> bool" where
  "same_plan ce a db r \<longleftrightarrow>
     ce_same ce (w_script_name r) (the (ea_child_script_name a)) \<and>
     (case select_plan db (w_workflow_id r) of
        None \<Rightarrow> False
      | Some p \<Rightarrow> ce_same ce (p_plan_version p) (the (ea_child_plan_version a)) \<and>
          p_content_hash p = the (ea_child_content_hash a))"

definition child_depth :: "workflow_row \<Rightarrow> int" where
  "child_depth r = (case w_call_depth r of None \<Rightarrow> 0 | Some d \<Rightarrow> d) + 1"

definition call_rejected :: "coord_env \<Rightarrow> submit_args \<Rightarrow> database \<Rightarrow> workflow_row \<Rightarrow> string option" where
  "call_rejected ce a db r =
     (if child_depth r > the (ea_max_call_depth a) then Some ''max_call_depth_exceeded''
      else if list_ex (same_plan ce a db) (ancestors db (nat (the (ea_max_call_depth a))) (the (fa_workflow_id a)))
      then Some ''call_cycle''
      else None)"

definition call_operation :: "submit_args \<Rightarrow> operation_row" where
  "call_operation a =
     \<lparr>o_workflow_id = the (fa_workflow_id a), o_operation_seq = the (ea_operation_seq a),
      o_operation_id = the (ea_operation_id a), o_operation_name = the (ea_child_script_name a),
      o_schema_version = 1, o_input_json = the (ea_input_json a), o_input_hash = the (ea_input_hash a),
      o_call_kind = 2, o_status = 1, o_result_json = None,
      o_created_at = the (ea_event_ts a), o_updated_at = the (ea_event_ts a), o_reconcile_attempts = 0,
      o_reconcile_first_seen_at = None, o_reconcile_last_seen_at = None, o_reconcile_reason = None,
      o_redispatch_first_seen_at = None, o_redispatch_last_at = None, o_redispatch_count = 0\<rparr>"

definition child_workflow :: "submit_args \<Rightarrow> workflow_row \<Rightarrow> workflow_row" where
  "child_workflow a r =
     (new_workflow (the (ea_child_workflow_id a)) (the (ea_child_script_name a)) 1 (the (ea_event_ts a))
        (the (ea_child_next_attempt_at a)) (the (ea_child_continuation a)))
     \<lparr>w_parent_workflow_id := fa_workflow_id a, w_parent_node_id := ea_parent_node_id a,
      w_root_workflow_id := Some (case w_root_workflow_id r of None \<Rightarrow> the (fa_workflow_id a) | Some w \<Rightarrow> w),
      w_call_depth := Some (child_depth r)\<rparr>"

definition submitted_call :: "submit_args \<Rightarrow> call_row" where
  "submitted_call a =
     \<lparr>c_workflow_id = the (fa_workflow_id a), c_operation_seq = the (ea_operation_seq a),
      c_child_workflow_id = the (ea_child_workflow_id a), c_child_script_name = the (ea_child_script_name a),
      c_child_plan_version = the (ea_child_plan_version a), c_child_content_hash = the (ea_child_content_hash a),
      c_child_status = 1, c_first_requested_at = the (ea_event_ts a), c_last_inspected_at = None,
      c_created_at = the (ea_event_ts a), c_updated_at = the (ea_event_ts a)\<rparr>"

definition submit_writes :: "coord_env \<Rightarrow> submit_args \<Rightarrow> bytes \<Rightarrow> workflow_row \<Rightarrow> database \<Rightarrow> coord_fault + database" where
  "submit_writes ce a wid r db =
     (let ts = the (ea_event_ts a); child = the (ea_child_workflow_id a)
      in bind_res (insert_operation ce (call_operation a) db) (\<lambda>db1.
         bind_res (insert_workflow ce (child_workflow a r) db1) (\<lambda>db2.
         bind_res (insert_plan ce \<lparr>p_workflow_id = child, p_plan_version = the (ea_child_plan_version a),
           p_content_hash = the (ea_child_content_hash a), p_plan_length = the (ea_child_plan_length a), p_created_at = ts\<rparr> db2) (\<lambda>db3.
         bind_res (insert_args \<lparr>a_workflow_id = child, a_args_canonical = ce_bytes ce (the (ea_input_json a)), a_created_at = ts\<rparr> db3) (\<lambda>db4.
         bind_res (insert_workflow_event ce (event_of child ts ''created'' None (the (ea_child_event_payload a))) db4) (\<lambda>db5.
         bind_res (insert_call (submitted_call a) db5) (\<lambda>db6.
           publish ce wid (advance (the (ea_new_continuation a)) ts)
             (event_of wid ts ''call_submitted'' (fa_executor a) (the (ea_event_payload a))) db6)))))))"

definition sp_call_submit ::
    "coord_env \<Rightarrow> submit_args \<Rightarrow> database \<Rightarrow> coord_fault + coord_outcome \<times> database" where
  "sp_call_submit ce a db =
     bind_res (guards (submit_guards ce a)) (\<lambda>_.
     with_workflow a db (\<lambda>wid r.
       let seq = the (ea_operation_seq a)
       in if stale_fence a {1} r then Inr (Fence_Lost, db)
          else case request_plan_violation db wid seq of
            Some (why, n) \<Rightarrow> Inr (Plan_Violation why n, db)
          | None \<Rightarrow>
              (case find_operation db wid seq of
                 Some x \<Rightarrow> Inr (resubmitted ce a db wid x, db)
               | None \<Rightarrow>
                   (case call_rejected ce a db r of
                      Some why \<Rightarrow> Inr (Call_Rejected why, db)
                    | None \<Rightarrow>
                        if the (ea_event_ts a) \<le> w_current_event_ts r
                        then Inr (Event_Time_Skew (ce_defer ce (w_current_event_ts r)), db)
                        else bind_res (submit_writes ce a wid r db) (\<lambda>db1.
                          Inr (Submitted (hex (the (ea_child_workflow_id a))), db1))))))"

section \<open>sp_mf_call_hint_refresh and sp_mf_child_terminal_notify\<close>

definition one_of :: "int set \<Rightarrow> int option \<Rightarrow> bool" where
  "one_of codes v = (case v of None \<Rightarrow> False | Some x \<Rightarrow> x \<in> codes)"

definition hinted_call :: "int \<Rightarrow> datetime \<Rightarrow> call_row \<Rightarrow> call_row" where
  "hinted_call status ts c = c\<lparr>c_child_status := status, c_last_inspected_at := Some ts, c_updated_at := ts\<rparr>"

definition hint_due :: "datetime \<Rightarrow> call_row \<Rightarrow> bool" where
  "hint_due ts c = (case c_last_inspected_at c of None \<Rightarrow> True | Some t \<Rightarrow> t < ts)"

definition refresh_hint :: "int \<Rightarrow> datetime \<Rightarrow> call_row \<Rightarrow> database \<Rightarrow> coord_fault + database" where
  "refresh_hint status ts c db =
     (if hint_due ts c then update_call (c_workflow_id c) (c_operation_seq c) (hinted_call status ts) db else Inr db)"

record hint_args =
  hi_workflow_id :: "bytes option"
  hi_operation_seq :: "int option"
  hi_child_status :: "int option"
  hi_event_ts :: "datetime option"

definition sp_call_hint_refresh :: "hint_args \<Rightarrow> database \<Rightarrow> coord_fault + coord_outcome \<times> database" where
  "sp_call_hint_refresh a db =
     bind_res (guards
       [(id16 (hi_workflow_id a), ''MfWorkflowIdInvalid''),
        (at_least 1 (hi_operation_seq a), ''MfOperationSeqInvalid''),
        (one_of {1, 2, 3, 4} (hi_child_status a), ''MfChildStatusInvalid''),
        (hi_event_ts a \<noteq> None, ''MfEventTsInvalid'')]) (\<lambda>_.
     case find_call db (the (hi_workflow_id a)) (the (hi_operation_seq a)) of
       None \<Rightarrow> Inr (Call_Not_Found, db)
     | Some c \<Rightarrow>
         bind_res (refresh_hint (the (hi_child_status a)) (the (hi_event_ts a)) c db) (\<lambda>db1.
           Inr (Refreshed, db1)))"

record notify_args =
  no_child_workflow_id :: "bytes option"
  no_child_status :: "int option"
  no_event_ts :: "datetime option"

definition woken_row :: "datetime \<Rightarrow> workflow_row \<Rightarrow> workflow_row" where
  "woken_row ts r = r\<lparr>w_next_attempt_at := min (w_next_attempt_at r) ts\<rparr>"

definition sp_child_terminal_notify ::
    "coord_env \<Rightarrow> notify_args \<Rightarrow> database \<Rightarrow> coord_fault + coord_outcome \<times> database" where
  "sp_child_terminal_notify ce a db =
     bind_res (guards
       [(id16 (no_child_workflow_id a), ''MfChildWorkflowIdInvalid''),
        (one_of {2, 3} (no_child_status a), ''MfChildStatusInvalid''),
        (no_event_ts a \<noteq> None, ''MfEventTsInvalid'')]) (\<lambda>_.
     case find_call_of_child db (the (no_child_workflow_id a)) of
       None \<Rightarrow> Inr (Call_Not_Found, db)
     | Some c \<Rightarrow>
         bind_res (refresh_hint (the (no_child_status a)) (the (no_event_ts a)) c db) (\<lambda>db1.
         bind_res (update_workflow ce (c_workflow_id c) (woken_row (the (no_event_ts a))) db1) (\<lambda>db2.
           Inr (Notified, db2))))"

section \<open>sp_mf_checkpoint_reverse_child_reopen\<close>

record child_args = fenced_args +
  ch_seq :: "int option"
  ch_event_ts :: "datetime option"

definition child_guards :: "child_args \<Rightarrow> (bool \<times> string) list" where
  "child_guards a = fence_guards a @
     [(at_least 1 (ch_seq a), ''MfSeqInvalid''), (ch_event_ts a \<noteq> None, ''MfEventTsInvalid'')]"

definition is_call_checkpoint :: "database \<Rightarrow> bytes \<Rightarrow> int \<Rightarrow> bool" where
  "is_call_checkpoint db wid seq = (case find_operation db wid seq of None \<Rightarrow> False | Some x \<Rightarrow> o_call_kind x = 2)"

definition reopened_row :: "coord_env \<Rightarrow> int \<Rightarrow> datetime \<Rightarrow> workflow_row \<Rightarrow> workflow_row" where
  "reopened_row ce highest ts r =
     r\<lparr>w_state := 2, w_execution_direction := 2, w_current_disposition := 2,
       w_continuation := ce_object ce [(''pos'', JA_Text (lit ''reverse'')), (''seq'', JA_Num highest)],
       w_fencing_token := w_fencing_token r + 1, w_terminal_reason := Some (lit ''parent_compensation''),
       w_workflow_return_json := None, w_next_attempt_at := ts, w_current_event_ts := ts, w_updated_at := ts\<rparr>"

text \<open>Both rows and both event logs move in one transaction.\<close>

definition reopen_writes ::
    "coord_env \<Rightarrow> child_args \<Rightarrow> bytes \<Rightarrow> bytes \<Rightarrow> int \<Rightarrow> database \<Rightarrow> coord_fault + database" where
  "reopen_writes ce a wid child highest db =
     (let seq = the (ch_seq a); ts = the (ch_event_ts a)
      in bind_res (publish ce wid (touched_row ts ts)
           (event_of wid ts ''compensation_requested'' (fa_executor a)
             (ce_object ce [(''seq'', JA_Num seq), (''child_workflow_id'', JA_Text (hex child))])) db) (\<lambda>db1.
         publish ce child (reopened_row ce highest ts)
           (event_of child ts ''compensation_requested_by_parent'' (fa_executor a)
             (ce_object ce [(''parent_workflow_id'', JA_Text (hex wid)), (''parent_operation_seq'', JA_Num seq)])) db1))"

definition sp_checkpoint_reverse_child_reopen ::
    "coord_env \<Rightarrow> child_args \<Rightarrow> database \<Rightarrow> coord_fault + coord_outcome \<times> database" where
  "sp_checkpoint_reverse_child_reopen ce a db =
     bind_res (guards (child_guards a)) (\<lambda>_.
     with_workflow a db (\<lambda>wid r.
       let seq = the (ch_seq a); ts = the (ch_event_ts a)
       in if find_checkpoint db wid seq = None then Inr (Checkpoint_Not_Found, db)
          else if \<not> is_call_checkpoint db wid seq then Inr (Not_Call_Checkpoint, db)
          else case find_call db wid seq of
            None \<Rightarrow> Inr (Call_Sidecar_Not_Found, db)
          | Some c \<Rightarrow>
              (case select_workflow db (c_child_workflow_id c) of
                 None \<Rightarrow> Inr (Child_Not_Found, db)
               | Some k \<Rightarrow>
                   if w_state k \<in> {2, 3, 5, 6} then Inr (Already_Reopened (w_state k), db)
                   else if w_state k \<noteq> 4 then Inr (Child_State_Inconsistent (w_state k), db)
                   else if stale_fence a {2} r then Inr (Fence_Lost, db)
                   else if top_seq db wid \<noteq> Some seq then Inr (Out_Of_Order (top_seq db wid), db)
                   else case top_seq db (c_child_workflow_id c) of
                     None \<Rightarrow> Inr (Child_No_Active_Checkpoint, db)
                   | Some highest \<Rightarrow>
                       if ts \<le> w_current_event_ts r \<or> ts \<le> w_current_event_ts k
                       then Inr (Event_Time_Skew (ce_defer ce (max (w_current_event_ts r) (w_current_event_ts k))), db)
                       else if w_fencing_token k + 1 \<ge> 2 ^ 63 then Inl Out_Of_Range
                       else bind_res (reopen_writes ce a wid (c_child_workflow_id c) highest db) (\<lambda>db1.
                         Inr (Reopened (hex (c_child_workflow_id c)), db1)))))"

section \<open>sp_mf_checkpoint_reverse_child_settle\<close>

definition sp_checkpoint_reverse_child_settle ::
    "coord_env \<Rightarrow> child_args \<Rightarrow> database \<Rightarrow> coord_fault + coord_outcome \<times> database" where
  "sp_checkpoint_reverse_child_settle ce a db =
     bind_res (guards (child_guards a)) (\<lambda>_.
     with_workflow a db (\<lambda>wid r.
       let seq = the (ch_seq a); ts = the (ch_event_ts a)
       in case find_checkpoint db wid seq of
            None \<Rightarrow> Inr (Checkpoint_Not_Found, db)
          | Some k \<Rightarrow>
              if \<not> is_call_checkpoint db wid seq then Inr (Not_Call_Checkpoint, db)
              else if k_reversal_state k = 2 then Inr (Already_Reversed, db)
              else if k_reversal_state k \<noteq> 1 then Inr (Not_Settleable (k_reversal_state k), db)
              else if stale_fence a {2} r then Inr (Fence_Lost, db)
              else if top_seq db wid \<noteq> Some seq then Inr (Out_Of_Order (top_seq db wid), db)
              else case find_call db wid seq of
                None \<Rightarrow> Inr (Call_Sidecar_Not_Found, db)
              | Some c \<Rightarrow>
                  (case select_workflow db (c_child_workflow_id c) of
                     None \<Rightarrow> Inr (Child_Not_Found, db)
                   | Some ch \<Rightarrow>
                       if w_state ch \<in> {2, 3} then Inr (Child_Not_Terminal (w_state ch), db)
                       else if w_state ch \<notin> {5, 6} then Inr (Child_Not_Compensated (w_state ch), db)
                       else if ts \<le> w_current_event_ts r then Inr (Event_Time_Skew (ce_defer ce (w_current_event_ts r)), db)
                       else
                         let about = [(''child_workflow_id'', JA_Text (hex (c_child_workflow_id c))),
                               (''child_state'', JA_Num (w_state ch))]
                         in bind_res (update_checkpoint ce wid seq (reversed_checkpoint ts) db) (\<lambda>db1.
                            case top_seq db1 wid of
                              None \<Rightarrow>
                                bind_res (publish ce wid (reversed_row ce ts)
                                  (event_of wid ts ''compensation_settled'' (fa_executor a)
                                    (ce_object ce ([(''seq'', JA_Num seq), (''terminal'', JA_Text (lit ''reversed''))] @ about))) db1) (\<lambda>db2.
                                  Inr (Reversed (w_terminal_reason r), db2))
                            | Some below \<Rightarrow>
                                bind_res (publish ce wid (advance (reverse_cursor ce ''reverse'' below) ts)
                                  (event_of wid ts ''compensation_settled'' (fa_executor a)
                                    (ce_object ce ([(''seq'', JA_Num seq), (''next_seq'', JA_Num below)] @ about))) db1) (\<lambda>db2.
                                  Inr (Reversing below, db2))))))"

section \<open>Calls\<close>

text \<open>A claim also says which rows other open transactions hold.\<close>

datatype coord_call =
    Create create_args
  | Create_Planned planned_args
  | Claim "bytes \<Rightarrow> bool" claim_args
  | Claim_By_Id "bytes \<Rightarrow> bool" claim_by_id_args
  | Heartbeat heartbeat_args
  | Release release_args
  | Request_Op request_args
  | Settle_Op op_settle_args
  | Fail_Op fail_args
  | Dispatch_Defer defer_args
  | Reconcile_Defer reconcile_args
  | Begin_Reversal begin_args
  | Authored_Fail authored_args
  | Reverse_Request reverse_request_args
  | Reverse_Settle reverse_settle_args
  | Reverse_Block reverse_block_args
  | Pending_Op pending_args
  | Pending_Reverse pending_reverse_args
  | Reconcile_Reverse reconcile_reverse_args
  | Submit_Call submit_args
  | Refresh_Hint hint_args
  | Notify_Parent notify_args
  | Reopen_Child child_args
  | Settle_Child child_args

fun coord_run_call :: "coord_env \<Rightarrow> coord_call \<Rightarrow> database \<Rightarrow> coord_fault + coord_outcome \<times> database" where
  "coord_run_call ce (Create a) db = sp_workflow_create ce a db"
| "coord_run_call ce (Create_Planned a) db = sp_workflow_create_planned ce a db"
| "coord_run_call ce (Claim locked a) db = sp_workflow_claim ce locked a db"
| "coord_run_call ce (Claim_By_Id locked a) db = sp_workflow_claim_by_id ce locked a db"
| "coord_run_call ce (Heartbeat a) db = sp_workflow_heartbeat ce a db"
| "coord_run_call ce (Release a) db = sp_workflow_release ce a db"
| "coord_run_call ce (Request_Op a) db = sp_operation_request ce a db"
| "coord_run_call ce (Settle_Op a) db = sp_operation_settle ce a db"
| "coord_run_call ce (Fail_Op a) db = sp_operation_fail ce a db"
| "coord_run_call ce (Dispatch_Defer a) db = sp_operation_dispatch_defer ce a db"
| "coord_run_call ce (Reconcile_Defer a) db = sp_workflow_reconcile_defer ce a db"
| "coord_run_call ce (Begin_Reversal a) db = sp_workflow_begin_reversal ce a db"
| "coord_run_call ce (Authored_Fail a) db = sp_workflow_authored_fail ce a db"
| "coord_run_call ce (Reverse_Request a) db = sp_checkpoint_reverse_request ce a db"
| "coord_run_call ce (Reverse_Settle a) db = sp_checkpoint_reverse_settle ce a db"
| "coord_run_call ce (Reverse_Block a) db = sp_checkpoint_reverse_block ce a db"
| "coord_run_call ce (Pending_Op a) db = sp_operation_pending_defer ce a db"
| "coord_run_call ce (Pending_Reverse a) db = sp_checkpoint_pending_defer ce a db"
| "coord_run_call ce (Reconcile_Reverse a) db = sp_checkpoint_reconcile_defer ce a db"
| "coord_run_call ce (Submit_Call a) db = sp_call_submit ce a db"
| "coord_run_call ce (Refresh_Hint a) db = sp_call_hint_refresh a db"
| "coord_run_call ce (Notify_Parent a) db = sp_child_terminal_notify ce a db"
| "coord_run_call ce (Reopen_Child a) db = sp_checkpoint_reverse_child_reopen ce a db"
| "coord_run_call ce (Settle_Child a) db = sp_checkpoint_reverse_child_settle ce a db"

end
