(* ===== verification/Coord_Lifecycle.thy ===== *)
theory Coord_Lifecycle
  imports Coord_Calls
begin

text \<open>
  The life of one workflow as a step relation over its own rows, the specification of the
  coordinator (\<open>microflows/doc/microflows_design.md\<close>, the lifecycle states and the checkpoint stack), and the
  proof that a stored procedure that commits makes one step of the workflow it names and leaves
  every other workflow alone.
\<close>

section \<open>The rows of a workflow\<close>

record wf_view =
  v_row :: workflow_row
  v_plan :: "int option"
  v_ops :: "operation_row list"
  v_cps :: "checkpoint_row list"
  v_evs :: "event_row list"

definition view :: "database \<Rightarrow> bytes \<Rightarrow> wf_view option" where
  "view db wid =
     map_option (\<lambda>r. \<lparr>v_row = r, v_plan = map_option p_plan_length (select_plan db wid),
       v_ops = filter (\<lambda>x. o_workflow_id x = wid) (tb_operation db),
       v_cps = filter (\<lambda>x. k_workflow_id x = wid) (tb_checkpoint db),
       v_evs = filter (\<lambda>x. e_workflow_id x = wid) (tb_event db)\<rparr>) (select_workflow db wid)"

section \<open>The lifecycle\<close>

text \<open>Changes of a row that leave its place in the lifecycle and its event pointer alone.\<close>

definition same_life :: "workflow_row \<Rightarrow> workflow_row \<Rightarrow> bool" where
  "same_life r r' \<longleftrightarrow>
     w_workflow_id r' = w_workflow_id r \<and> w_state r' = w_state r \<and>
     w_execution_direction r' = w_execution_direction r \<and> w_current_disposition r' = w_current_disposition r \<and>
     w_reversal_trigger_operation_id r' = w_reversal_trigger_operation_id r \<and>
     w_terminal_reason r' = w_terminal_reason r \<and> w_workflow_return_json r' = w_workflow_return_json r"

definition keeps_lease :: "workflow_row \<Rightarrow> workflow_row \<Rightarrow> bool" where
  "keeps_lease r r' \<longleftrightarrow> w_fencing_token r' = w_fencing_token r \<and> w_lease_owner r' \<in> {None, w_lease_owner r}"

definition active :: "checkpoint_row \<Rightarrow> bool" where
  "active k \<longleftrightarrow> k_reversal_state k = 1"

definition map_seq :: "('a \<Rightarrow> int) \<Rightarrow> int \<Rightarrow> ('a \<Rightarrow> 'a) \<Rightarrow> 'a list \<Rightarrow> 'a list" where
  "map_seq seq n f = map (\<lambda>x. if seq x = n then f x else x)"

text \<open>Timers and budgets change rows of operations and checkpoints, but not what the lifecycle reads of them.\<close>

definition op_key :: "operation_row \<Rightarrow> int \<times> bytes \<times> int \<times> int" where
  "op_key x = (o_operation_seq x, o_operation_id x, o_status x, o_call_kind x)"

definition cp_key :: "checkpoint_row \<Rightarrow> int \<times> bytes \<times> int \<times> bytes option" where
  "cp_key k = (k_seq k, k_operation_id k, k_reversal_state k, k_reverse_invocation_id k)"

definition same_ops :: "operation_row list \<Rightarrow> operation_row list \<Rightarrow> bool" where
  "same_ops xs ys \<longleftrightarrow> map op_key ys = map op_key xs"

definition same_cps :: "checkpoint_row list \<Rightarrow> checkpoint_row list \<Rightarrow> bool" where
  "same_cps xs ys \<longleftrightarrow> map cp_key ys = map cp_key xs"

text \<open>A checkpoint whose undoing is on record: an invocation of its own, or a call that the child undoes.\<close>

definition undo_known :: "operation_row list \<Rightarrow> checkpoint_row \<Rightarrow> bool" where
  "undo_known ops k \<longleftrightarrow>
     k_reverse_invocation_id k \<noteq> None \<or> (\<exists>x \<in> set ops. o_operation_seq x = k_seq k \<and> o_call_kind x = 2)"

text \<open>
  Every step that appends an event moves the row's event pointer to it.  The label of a step is
  the owner and token of the lease it grants, when it is a claim; a claim is of a workflow that is
  due and that nobody holds, or whose lease has run out by the time the claim puts on the row.
\<close>

inductive life_step :: "(bytes \<times> int) option \<Rightarrow> wf_view \<Rightarrow> wf_view \<Rightarrow> bool" where
  claim: "w_state (v_row v) \<in> {1, 2} \<Longrightarrow> same_life (v_row v) r' \<Longrightarrow>
    w_current_event_ts r' = w_current_event_ts (v_row v) \<Longrightarrow>
    w_lease_owner r' = Some ex \<Longrightarrow> w_fencing_token r' = w_fencing_token (v_row v) + 1 \<Longrightarrow>
    w_next_attempt_at (v_row v) \<le> w_updated_at r' \<Longrightarrow>
    w_lease_owner (v_row v) = None \<or> (\<exists>t. w_lease_expires_at (v_row v) = Some t \<and> t < w_updated_at r') \<Longrightarrow>
    life_step (Some (ex, w_fencing_token r')) v (v\<lparr>v_row := r'\<rparr>)"
| lease: "w_state (v_row v) \<in> {1, 2} \<Longrightarrow> same_life (v_row v) r' \<Longrightarrow> keeps_lease (v_row v) r' \<Longrightarrow>
    w_current_event_ts r' = w_current_event_ts (v_row v) \<Longrightarrow>
    same_ops (v_ops v) ops' \<Longrightarrow> same_cps (v_cps v) cps' \<Longrightarrow>
    life_step None v (v\<lparr>v_row := r', v_ops := ops', v_cps := cps'\<rparr>)"
| put_off: "w_state (v_row v) \<in> {1, 2} \<Longrightarrow> same_life (v_row v) r' \<Longrightarrow> keeps_lease (v_row v) r' \<Longrightarrow>
    w_current_event_ts (v_row v) < e_event_ts e \<Longrightarrow> w_current_event_ts r' = e_event_ts e \<Longrightarrow>
    same_ops (v_ops v) ops' \<Longrightarrow> same_cps (v_cps v) cps' \<Longrightarrow>
    life_step None v (v\<lparr>v_row := r', v_ops := ops', v_cps := cps', v_evs := v_evs v @ [e]\<rparr>)"
| request: "w_state (v_row v) = 1 \<Longrightarrow> same_life (v_row v) r' \<Longrightarrow> keeps_lease (v_row v) r' \<Longrightarrow>
    w_current_event_ts (v_row v) < e_event_ts e \<Longrightarrow> w_current_event_ts r' = e_event_ts e \<Longrightarrow>
    o_status x = 1 \<Longrightarrow> 1 \<le> o_operation_seq x \<Longrightarrow> \<forall>y \<in> set (v_ops v). o_operation_seq y \<noteq> o_operation_seq x \<and>
      o_operation_id y \<noteq> o_operation_id x \<Longrightarrow>
    \<forall>n. v_plan v = Some n \<longrightarrow> o_operation_seq x \<le> n \<and> (o_operation_seq x = 1 \<or>
      (\<exists>y \<in> set (v_ops v). o_operation_seq y = o_operation_seq x - 1 \<and> o_status y = 2)) \<Longrightarrow>
    life_step None v (v\<lparr>v_row := r', v_ops := v_ops v @ [x], v_evs := v_evs v @ [e]\<rparr>)"
| settle: "w_state (v_row v) = 1 \<Longrightarrow> keeps_lease (v_row v) r' \<Longrightarrow>
    w_current_event_ts (v_row v) < e_event_ts e \<Longrightarrow> w_current_event_ts r' = e_event_ts e \<Longrightarrow>
    x \<in> set (v_ops v) \<Longrightarrow> o_status x \<noteq> 2 \<Longrightarrow> k_operation_id k = o_operation_id x \<Longrightarrow> active k \<Longrightarrow>
    k_reverse_invocation_id k = None \<Longrightarrow>
    \<forall>y \<in> set (v_cps v). k_seq y \<noteq> k_seq k \<and> k_operation_id y \<noteq> k_operation_id k \<Longrightarrow>
    \<forall>n. v_plan v = Some n \<longrightarrow> k_seq k = o_operation_seq x \<and> (w_state r' = 4 \<longrightarrow> o_operation_seq x = n) \<Longrightarrow>
    same_life (v_row v) r' \<or>
      same_life ((v_row v)\<lparr>w_state := 4, w_current_disposition := 1, w_workflow_return_json := Some result\<rparr>) r' \<and>
      w_lease_owner r' = None \<Longrightarrow>
    life_step None v (v\<lparr>v_row := r', v_ops := map_seq o_operation_seq (o_operation_seq x) (settled_operation a) (v_ops v),
      v_cps := v_cps v @ [k], v_evs := v_evs v @ [e]\<rparr>)"
| block_forward: "w_state (v_row v) = 1 \<Longrightarrow> keeps_lease (v_row v) r' \<Longrightarrow>
    w_current_event_ts (v_row v) < e_event_ts e \<Longrightarrow> w_current_event_ts r' = e_event_ts e \<Longrightarrow>
    dir \<in> {1, w_execution_direction (v_row v)} \<Longrightarrow>
    same_life ((v_row v)\<lparr>w_state := 3, w_execution_direction := dir, w_current_disposition := d\<rparr>) r' \<Longrightarrow>
    w_lease_owner r' = None \<Longrightarrow>
    same_ops (v_ops v) ops' \<Longrightarrow>
    life_step None v (v\<lparr>v_row := r', v_ops := ops', v_evs := v_evs v @ [e]\<rparr>)"
| begin_reversal: "w_state (v_row v) = 1 \<Longrightarrow> keeps_lease (v_row v) r' \<Longrightarrow>
    w_current_event_ts (v_row v) < e_event_ts e \<Longrightarrow> w_current_event_ts r' = e_event_ts e \<Longrightarrow>
    \<exists>k \<in> set (v_cps v). active k \<Longrightarrow>
    same_life ((v_row v)\<lparr>w_state := 2, w_execution_direction := 2, w_current_disposition := 2,
      w_reversal_trigger_operation_id := Some trigger, w_terminal_reason := Some reason\<rparr>) r' \<Longrightarrow>
    life_step None v (v\<lparr>v_row := r', v_evs := v_evs v @ [e]\<rparr>)"
| fail: "w_state (v_row v) = 1 \<Longrightarrow> keeps_lease (v_row v) r' \<Longrightarrow>
    w_current_event_ts (v_row v) < e_event_ts e \<Longrightarrow> w_current_event_ts r' = e_event_ts e \<Longrightarrow>
    \<forall>k \<in> set (v_cps v). \<not> active k \<Longrightarrow>
    same_life ((v_row v)\<lparr>w_state := 7, w_execution_direction := 2, w_current_disposition := 2,
      w_reversal_trigger_operation_id := Some trigger, w_terminal_reason := Some reason\<rparr>) r' \<Longrightarrow>
    w_lease_owner r' = None \<Longrightarrow>
    life_step None v (v\<lparr>v_row := r', v_evs := v_evs v @ [e]\<rparr>)"
| compensate: "w_state (v_row v) = 2 \<Longrightarrow> same_life (v_row v) r' \<Longrightarrow> keeps_lease (v_row v) r' \<Longrightarrow>
    w_current_event_ts (v_row v) < e_event_ts e \<Longrightarrow> w_current_event_ts r' = e_event_ts e \<Longrightarrow>
    k \<in> set (v_cps v) \<Longrightarrow> active k \<Longrightarrow> \<forall>y \<in> set (v_cps v). active y \<longrightarrow> k_seq y \<le> k_seq k \<Longrightarrow>
    k_reverse_invocation_id k = None \<Longrightarrow>
    life_step None v (v\<lparr>v_row := r', v_cps := map_seq k_seq (k_seq k) (bound_checkpoint b) (v_cps v), v_evs := v_evs v @ [e]\<rparr>)"
| reversed: "w_state (v_row v) = 2 \<Longrightarrow> keeps_lease (v_row v) r' \<Longrightarrow>
    w_current_event_ts (v_row v) < e_event_ts e \<Longrightarrow> w_current_event_ts r' = e_event_ts e \<Longrightarrow>
    k \<in> set (v_cps v) \<Longrightarrow> active k \<Longrightarrow> \<forall>y \<in> set (v_cps v). active y \<longrightarrow> k_seq y \<le> k_seq k \<Longrightarrow>
    undo_known (v_ops v) k \<Longrightarrow>
    cps' = map_seq k_seq (k_seq k) (reversed_checkpoint ts) (v_cps v) \<Longrightarrow>
    if \<exists>y \<in> set cps'. active y then same_life (v_row v) r'
    else same_life ((v_row v)\<lparr>w_state := 5\<rparr>) r' \<and> w_lease_owner r' = None \<Longrightarrow>
    life_step None v (v\<lparr>v_row := r', v_cps := cps', v_evs := v_evs v @ [e]\<rparr>)"
| block_reverse: "w_state (v_row v) = 2 \<Longrightarrow> keeps_lease (v_row v) r' \<Longrightarrow>
    w_current_event_ts (v_row v) < e_event_ts e \<Longrightarrow> w_current_event_ts r' = e_event_ts e \<Longrightarrow>
    same_cps (v_cps v) cps' \<Longrightarrow>
    k \<in> set cps' \<Longrightarrow> active k \<Longrightarrow> \<forall>y \<in> set cps'. active y \<longrightarrow> k_seq y \<le> k_seq k \<Longrightarrow>
    k_reverse_invocation_id k \<noteq> None \<Longrightarrow>
    same_life ((v_row v)\<lparr>w_state := 3, w_current_disposition := d\<rparr>) r' \<Longrightarrow> w_lease_owner r' = None \<Longrightarrow>
    life_step None v (v\<lparr>v_row := r', v_cps := map_seq k_seq (k_seq k) (blocked_checkpoint ts) cps',
      v_evs := v_evs v @ [e]\<rparr>)"
| reopen: "w_state (v_row v) = 4 \<Longrightarrow> w_lease_owner r' = w_lease_owner (v_row v) \<Longrightarrow>
    w_fencing_token r' = w_fencing_token (v_row v) + 1 \<Longrightarrow>
    w_current_event_ts (v_row v) < e_event_ts e \<Longrightarrow> w_current_event_ts r' = e_event_ts e \<Longrightarrow>
    \<exists>k \<in> set (v_cps v). active k \<Longrightarrow>
    same_life ((v_row v)\<lparr>w_state := 2, w_execution_direction := 2, w_current_disposition := 2,
      w_terminal_reason := Some reason, w_workflow_return_json := None\<rparr>) r' \<Longrightarrow>
    life_step None v (v\<lparr>v_row := r', v_evs := v_evs v @ [e]\<rparr>)"
| wake: "life_step None v (v\<lparr>v_row := (v_row v)\<lparr>w_next_attempt_at := due\<rparr>\<rparr>)"

text \<open>A workflow before it exists; its first rows.\<close>

definition born :: "wf_view \<Rightarrow> bool" where
  "born v \<longleftrightarrow>
     w_state (v_row v) = 1 \<and> w_execution_direction (v_row v) = 1 \<and> w_fencing_token (v_row v) = 0 \<and>
     w_lease_owner (v_row v) = None \<and> w_reversal_trigger_operation_id (v_row v) = None \<and>
     w_workflow_return_json (v_row v) = None \<and> v_ops v = [] \<and> v_cps v = [] \<and>
     (\<forall>n. v_plan v = Some n \<longrightarrow> 1 \<le> n) \<and> (\<exists>e. v_evs v = [e] \<and> e_event_ts e = w_current_event_ts (v_row v))"

text \<open>One transaction, as one workflow sees it.\<close>

inductive evolves :: "(bytes \<times> int) option \<Rightarrow> wf_view option \<Rightarrow> wf_view option \<Rightarrow> bool" where
  unchanged: "evolves None v v"
| created: "born v \<Longrightarrow> evolves None None (Some v)"
| stepped: "life_step l v v' \<Longrightarrow> evolves l (Some v) (Some v')"

end
