(* ===== verification/Coord_Refine.thy ===== *)
theory Coord_Refine
  imports Coord_Lifecycle
begin

text \<open>
  Every stored procedure that commits makes one step of the lifecycle of the workflow it names,
  and no other workflow sees it.  First what each statement does to the rows of each workflow,
  then one lemma per procedure.
\<close>

section \<open>References between the tables\<close>

text \<open>
  The primary key of the workflows, and the foreign keys: no row of an operation, a checkpoint, an
  event or a plan without its workflow.
\<close>

definition references_ok :: "database \<Rightarrow> bool" where
  "references_ok db \<longleftrightarrow>
     distinct (map w_workflow_id (tb_workflow db)) \<and>
     (\<forall>x \<in> set (tb_operation db). select_workflow db (o_workflow_id x) \<noteq> None) \<and>
     (\<forall>x \<in> set (tb_checkpoint db). select_workflow db (k_workflow_id x) \<noteq> None) \<and>
     (\<forall>x \<in> set (tb_event db). select_workflow db (e_workflow_id x) \<noteq> None) \<and>
     (\<forall>x \<in> set (tb_plan db). select_workflow db (p_workflow_id x) \<noteq> None)"

lemma view_None [simp]: "view db wid = None \<longleftrightarrow> select_workflow db wid = None"
  by (simp add: view_def)

lemma view_Some:
  "select_workflow db wid = Some r \<Longrightarrow>
     view db wid = Some \<lparr>v_row = r, v_plan = map_option p_plan_length (select_plan db wid),
       v_ops = filter (\<lambda>x. o_workflow_id x = wid) (tb_operation db),
       v_cps = filter (\<lambda>x. k_workflow_id x = wid) (tb_checkpoint db),
       v_evs = filter (\<lambda>x. e_workflow_id x = wid) (tb_event db)\<rparr>"
  by (simp add: view_def)

section \<open>Statements\<close>

lemma find_map_key:
  assumes "\<And>x. key (f x) = key x"
  shows "find (\<lambda>x. key x = u) (map (\<lambda>x. if key x = wid then f x else x) xs) =
    map_option (\<lambda>x. if u = wid then f x else x) (find (\<lambda>x. key x = u) xs)"
  by (induction xs) (auto simp: assms)

lemma update_workflow_effect:
  assumes "update_workflow ce wid f db = Inr db'" and "\<And>r. w_workflow_id (f r) = w_workflow_id r"
  shows "select_workflow db' u = map_option (\<lambda>r. if u = wid then f r else r) (select_workflow db u)"
    and "tb_plan db' = tb_plan db" "tb_args db' = tb_args db" "tb_operation db' = tb_operation db"
    and "tb_checkpoint db' = tb_checkpoint db" "tb_event db' = tb_event db" "tb_call db' = tb_call db"
  using assms find_map_key [of w_workflow_id f u wid, OF assms(2)]
  by (auto simp: update_workflow_def select_workflow_def split: if_splits)

lemma update_workflow_ids:
  assumes "update_workflow ce wid f db = Inr db'" and "\<And>r. w_workflow_id (f r) = w_workflow_id r"
  shows "map w_workflow_id (tb_workflow db') = map w_workflow_id (tb_workflow db)"
  using assms by (auto simp: update_workflow_def split: if_splits)

lemma update_workflow_view:
  assumes "update_workflow ce wid f db = Inr db'" and "\<And>r. w_workflow_id (f r) = w_workflow_id r"
  shows "view db' u = map_option (\<lambda>v. if u = wid then v\<lparr>v_row := f (v_row v)\<rparr> else v) (view db u)"
    and "references_ok db \<Longrightarrow> references_ok db'"
  by (auto simp: view_def update_workflow_effect [OF assms] update_workflow_ids [OF assms] select_plan_def option.map_comp o_def references_ok_def
      split: option.splits intro!: map_option_cong)

lemma insert_event_view:
  assumes "insert_workflow_event ce e db = Inr db'"
  shows "view db' u = map_option (\<lambda>v. if u = e_workflow_id e then v\<lparr>v_evs := v_evs v @ [e]\<rparr> else v) (view db u)"
    and "references_ok db \<Longrightarrow> references_ok db'"
  using assms
  by (auto simp: insert_workflow_event_def view_def select_workflow_def select_plan_def references_ok_def
      option.map_ident option.map_comp o_def
      split: if_splits option.splits)

lemma publish_view:
  assumes "publish ce wid f e db = Inr db'" and "\<And>r. w_workflow_id (f r) = w_workflow_id r" and "e_workflow_id e = wid"
  shows "view db' u = map_option (\<lambda>v. if u = wid then v\<lparr>v_row := f (v_row v), v_evs := v_evs v @ [e]\<rparr> else v) (view db u)"
    and "references_ok db \<Longrightarrow> references_ok db'"
proof -
  from assms(1) obtain db1 where 1: "update_workflow ce wid f db = Inr db1" and 2: "insert_workflow_event ce e db1 = Inr db'"
    by (auto simp: publish_def bind_res_eq_Inr)
  show "view db' u = map_option (\<lambda>v. if u = wid then v\<lparr>v_row := f (v_row v), v_evs := v_evs v @ [e]\<rparr> else v) (view db u)"
    by (cases "u = wid")
       (simp_all add: insert_event_view(1) [OF 2] update_workflow_view(1) [OF 1 assms(2)] assms(3) option.map_comp o_def)
  show "references_ok db \<Longrightarrow> references_ok db'"
    by (rule insert_event_view(2) [OF 2 update_workflow_view(2) [OF 1 assms(2)]])
qed

lemma insert_operation_view:
  assumes "insert_operation ce x db = Inr db'"
  shows "view db' u = map_option (\<lambda>v. if u = o_workflow_id x then v\<lparr>v_ops := v_ops v @ [x]\<rparr> else v) (view db u)"
    and "references_ok db \<Longrightarrow> references_ok db'"
    and "\<forall>y \<in> set (tb_operation db). o_operation_id y \<noteq> o_operation_id x \<and>
      (o_workflow_id y = o_workflow_id x \<longrightarrow> o_operation_seq y \<noteq> o_operation_seq x)"
  using assms
  by (auto simp: insert_operation_def view_def select_workflow_def select_plan_def references_ok_def list_ex_iff
      option.map_ident option.map_comp o_def
      split: if_splits option.splits)

lemma filter_map_seq:
  assumes "\<And>x. wid_of (f x) = wid_of x"
  shows "filter (\<lambda>x. wid_of x = u) (map (\<lambda>x. if wid_of x = wid \<and> seq x = n then f x else x) xs) =
    (if u = wid then map_seq seq n f (filter (\<lambda>x. wid_of x = u) xs) else filter (\<lambda>x. wid_of x = u) xs)"
  by (induction xs) (auto simp: map_seq_def assms)

lemma update_operation_view:
  assumes "update_operation ce wid n f db = Inr db'" and "\<And>x. o_workflow_id (f x) = o_workflow_id x"
  shows "view db' u = map_option (\<lambda>v. if u = wid then v\<lparr>v_ops := map_seq o_operation_seq n f (v_ops v)\<rparr> else v) (view db u)"
    and "references_ok db \<Longrightarrow> references_ok db'"
  using assms filter_map_seq [of o_workflow_id f u wid o_operation_seq n "tb_operation db", OF assms(2)]
  by (auto simp: update_operation_def view_def select_workflow_def select_plan_def references_ok_def
      option.map_ident option.map_comp o_def
      split: if_splits option.splits)

lemma insert_checkpoint_view:
  assumes "insert_checkpoint ce x db = Inr db'"
  shows "view db' u = map_option (\<lambda>v. if u = k_workflow_id x then v\<lparr>v_cps := v_cps v @ [x]\<rparr> else v) (view db u)"
    and "references_ok db \<Longrightarrow> references_ok db'"
    and "\<forall>y \<in> set (tb_checkpoint db). k_workflow_id y = k_workflow_id x \<longrightarrow>
      k_seq y \<noteq> k_seq x \<and> k_operation_id y \<noteq> k_operation_id x"
  using assms
  by (auto simp: insert_checkpoint_def view_def select_workflow_def select_plan_def references_ok_def list_ex_iff
      option.map_ident option.map_comp o_def
      split: if_splits option.splits)

lemma update_checkpoint_view:
  assumes "update_checkpoint ce wid n f db = Inr db'" and "\<And>x. k_workflow_id (f x) = k_workflow_id x"
  shows "view db' u = map_option (\<lambda>v. if u = wid then v\<lparr>v_cps := map_seq k_seq n f (v_cps v)\<rparr> else v) (view db u)"
    and "references_ok db \<Longrightarrow> references_ok db'"
  using assms filter_map_seq [of k_workflow_id f u wid k_seq n "tb_checkpoint db", OF assms(2)]
  by (auto simp: update_checkpoint_def view_def select_workflow_def select_plan_def references_ok_def
      option.map_ident option.map_comp o_def
      split: if_splits option.splits)

lemma find_operation_view:
  assumes "view db wid = Some v"
  shows "find_operation db wid n = Some x \<Longrightarrow> x \<in> set (v_ops v) \<and> o_operation_seq x = n"
    and "find_operation db wid n = None \<Longrightarrow> \<forall>y \<in> set (v_ops v). o_operation_seq y \<noteq> n"
  using assms by (auto simp: find_operation_def find_Some_iff find_None_iff view_def)

lemma find_checkpoint_view:
  assumes "view db wid = Some v" and "find_checkpoint db wid n = Some k"
  shows "k \<in> set (v_cps v) \<and> k_seq k = n"
  using assms by (auto simp: find_checkpoint_def find_Some_iff view_def)

lemma max_seq_None: "max_seq xs = None \<longleftrightarrow> xs = []"
  by (simp add: max_seq_def)

lemma max_seq_Some: "max_seq xs = Some n \<longleftrightarrow> n \<in> set xs \<and> (\<forall>y \<in> set xs. y \<le> n)"
proof
  assume "max_seq xs = Some n"
  then have "xs \<noteq> []" "n = Max (set xs)" by (auto simp: max_seq_def split: if_splits)
  then show "n \<in> set xs \<and> (\<forall>y \<in> set xs. y \<le> n)" by simp
next
  assume "n \<in> set xs \<and> (\<forall>y \<in> set xs. y \<le> n)"
  moreover from this have "Max (set xs) = n" by (intro Max_eqI) simp_all
  ultimately show "max_seq xs = Some n" by (auto simp: max_seq_def)
qed

lemma active_seqs_set: "set (active_seqs ks) = {k_seq k |k. k \<in> set ks \<and> active k}"
  by (auto simp: active_seqs_def active_def)

lemma top_seq_view:
  assumes "view db wid = Some v"
  shows "top_seq db wid = None \<longleftrightarrow> (\<forall>k \<in> set (v_cps v). \<not> active k)"
    and "top_seq db wid = Some n \<longleftrightarrow> (\<exists>k \<in> set (v_cps v). active k \<and> k_seq k = n) \<and>
      (\<forall>k \<in> set (v_cps v). active k \<longrightarrow> k_seq k \<le> n)"
proof -
  from assms have top: "top_seq db wid = max_seq (active_seqs (v_cps v))" by (auto simp: top_seq_def view_def)
  have "active_seqs (v_cps v) = [] \<longleftrightarrow> (\<forall>k \<in> set (v_cps v). \<not> active k)"
    using active_seqs_set [of "v_cps v"] by (auto simp flip: set_empty)
  then show "top_seq db wid = None \<longleftrightarrow> (\<forall>k \<in> set (v_cps v). \<not> active k)" by (simp add: top max_seq_None)
  show "top_seq db wid = Some n \<longleftrightarrow> (\<exists>k \<in> set (v_cps v). active k \<and> k_seq k = n) \<and>
      (\<forall>k \<in> set (v_cps v). active k \<longrightarrow> k_seq k \<le> n)"
    by (auto simp: top max_seq_Some active_seqs_set)
qed

section \<open>Moves\<close>

text \<open>The order in which the fields of a view are written.\<close>

lemma view_write_order:
  "v\<lparr>v_ops := x, v_row := r\<rparr> = v\<lparr>v_row := r, v_ops := x\<rparr>"
  "v\<lparr>v_cps := y, v_row := r\<rparr> = v\<lparr>v_row := r, v_cps := y\<rparr>"
  by simp_all

lemma event_of_simps [simp]:
  "e_workflow_id (event_of wid ts kind actor payload) = wid"
  "e_event_ts (event_of wid ts kind actor payload) = ts"
  by (simp_all add: event_of_def)

lemma advance_simps [simp]:
  "w_workflow_id (advance doc ts r) = w_workflow_id r" "w_current_event_ts (advance doc ts r) = ts"
  "same_life r (advance doc ts r)" "keeps_lease r (advance doc ts r)"
  by (simp_all add: advance_def same_life_def keeps_lease_def)

lemma requested_operation_simps [simp]:
  "o_workflow_id (requested_operation a) = the (fa_workflow_id a)"
  "o_operation_seq (requested_operation a) = the (qa_operation_seq a)"
  "o_operation_id (requested_operation a) = the (qa_operation_id a)" "o_status (requested_operation a) = 1"
  by (simp_all add: requested_operation_def)

text \<open>One transaction: a labelled step of one workflow, nothing for the others.\<close>

definition moves :: "(bytes \<times> int) option \<Rightarrow> bytes \<Rightarrow> database \<Rightarrow> database \<Rightarrow> bool" where
  "moves l wid db db' \<longleftrightarrow>
     references_ok db' \<and> evolves l (view db wid) (view db' wid) \<and> (\<forall>u. u \<noteq> wid \<longrightarrow> view db' u = view db u)"

lemma moves_refl: "references_ok db \<Longrightarrow> moves None wid db db"
  by (simp add: moves_def evolves.unchanged)

text \<open>The effect of the statements before the last: \<open>g\<close> on the rows of the workflow.\<close>

definition effect :: "bytes \<Rightarrow> (wf_view \<Rightarrow> wf_view) \<Rightarrow> database \<Rightarrow> database \<Rightarrow> bool" where
  "effect wid g db db' \<longleftrightarrow>
     (references_ok db \<longrightarrow> references_ok db') \<and>
     (\<forall>u. view db' u = map_option (\<lambda>v. if u = wid then g v else v) (view db u))"

lemma effect_refl: "effect wid (\<lambda>v. v) db db"
  by (simp add: effect_def option.map_ident)

lemma effect_trans:
  assumes "effect wid g db db1" and "effect wid h db1 db2"
  shows "effect wid (\<lambda>v. h (g v)) db db2"
  unfolding effect_def
proof (intro conjI allI impI)
  fix u
  show "view db2 u = map_option (\<lambda>v. if u = wid then h (g v) else v) (view db u)"
    using assms by (cases "u = wid") (simp_all add: effect_def option.map_comp o_def)
qed (use assms in \<open>simp add: effect_def\<close>)

lemma effect_update_workflow:
  "update_workflow ce wid f db = Inr db' \<Longrightarrow> (\<And>r. w_workflow_id (f r) = w_workflow_id r) \<Longrightarrow>
     effect wid (\<lambda>v. v\<lparr>v_row := f (v_row v)\<rparr>) db db'"
  using update_workflow_view [of ce wid f db db'] by (simp add: effect_def)

lemma effect_publish:
  "publish ce wid f e db = Inr db' \<Longrightarrow> (\<And>r. w_workflow_id (f r) = w_workflow_id r) \<Longrightarrow> e_workflow_id e = wid \<Longrightarrow>
     effect wid (\<lambda>v. v\<lparr>v_row := f (v_row v), v_evs := v_evs v @ [e]\<rparr>) db db'"
  using publish_view [of ce wid f e db db'] by (simp add: effect_def)

lemma effect_insert_operation:
  "insert_operation ce x db = Inr db' \<Longrightarrow> o_workflow_id x = wid \<Longrightarrow>
     effect wid (\<lambda>v. v\<lparr>v_ops := v_ops v @ [x]\<rparr>) db db'"
  using insert_operation_view(1,2) [of ce x db db'] by (simp add: effect_def)

lemma effect_update_operation:
  "update_operation ce wid n f db = Inr db' \<Longrightarrow> (\<And>x. o_workflow_id (f x) = o_workflow_id x) \<Longrightarrow>
     effect wid (\<lambda>v. v\<lparr>v_ops := map_seq o_operation_seq n f (v_ops v)\<rparr>) db db'"
  using update_operation_view [of ce wid n f db db'] by (simp add: effect_def)

lemma effect_insert_checkpoint:
  "insert_checkpoint ce x db = Inr db' \<Longrightarrow> k_workflow_id x = wid \<Longrightarrow>
     effect wid (\<lambda>v. v\<lparr>v_cps := v_cps v @ [x]\<rparr>) db db'"
  using insert_checkpoint_view(1,2) [of ce x db db'] by (simp add: effect_def)

lemma effect_update_checkpoint:
  "update_checkpoint ce wid n f db = Inr db' \<Longrightarrow> (\<And>x. k_workflow_id (f x) = k_workflow_id x) \<Longrightarrow>
     effect wid (\<lambda>v. v\<lparr>v_cps := map_seq k_seq n f (v_cps v)\<rparr>) db db'"
  using update_checkpoint_view [of ce wid n f db db'] by (simp add: effect_def)

lemma effect_moves:
  assumes "effect wid g db db'" and "references_ok db" and "view db wid = Some v" and "life_step l v (g v)"
  shows "moves l wid db db'"
proof -
  have v: "view db' u = map_option (\<lambda>v. if u = wid then g v else v) (view db u)" for u
    using assms(1) by (simp add: effect_def)
  have "view db' wid = Some (g v)" by (simp add: v assms(3))
  moreover have "view db' u = view db u" if "u \<noteq> wid" for u using that by (simp add: v option.map_ident)
  moreover have "references_ok db'" using assms(1,2) by (simp add: effect_def)
  ultimately show ?thesis by (simp add: moves_def assms(3) evolves.stepped assms(4))
qed

section \<open>The lease\<close>

lemma row_of_view: "view db wid = Some v \<Longrightarrow> select_workflow db wid = Some (v_row v)"
  by (auto simp: view_def)

lemma view_of_row: "select_workflow db wid = Some r \<Longrightarrow> \<exists>v. view db wid = Some v \<and> v_row v = r"
  by (auto simp: view_def)

lemmas proc_elims = bind_res_InrE

lemma install_lease_moves:
  assumes refs: "references_ok db" and r: "select_workflow db (w_workflow_id r) = Some r" "claim_predicate r now"
    and run: "install_lease ce (Some ex) now deadline r db = Inr (out, db')"
  shows "moves (Some (ex, w_fencing_token r + 1)) (w_workflow_id r) db db' \<and>
    out = Claimed (snapshot_of (claimed_row (Some ex) now deadline r))"
proof -
  let ?f = "claimed_row (Some ex) now deadline"
  from run have up: "update_workflow ce (w_workflow_id r) ?f db = Inr db'" and out: "out = Claimed (snapshot_of (?f r))"
    by (auto simp: install_lease_def elim!: bind_res_InrE split: if_splits)
  from view_of_row [OF r(1)] obtain v where v: "view db (w_workflow_id r) = Some v" "v_row v = r" by blast
  have "effect (w_workflow_id r) (\<lambda>v. v\<lparr>v_row := ?f (v_row v)\<rparr>) db db'"
    by (rule effect_update_workflow [OF up]) (simp add: claimed_row_def)
  moreover have "life_step (Some (ex, w_fencing_token (?f r))) v (v\<lparr>v_row := ?f r\<rparr>)"
    using r(2) v(2)
    by (intro life_step.claim) (auto simp: claimed_row_def same_life_def claim_predicate_def split: option.splits)
  ultimately show ?thesis
    using effect_moves [OF _ refs v(1)] v(2) out by (simp add: claimed_row_def)
qed

text \<open>Who takes the lease in a call, and with which token.\<close>

fun claim_executor :: "coord_call \<Rightarrow> bytes option" where
  "claim_executor (Claim locked a) = ca_executor a"
| "claim_executor (Claim_By_Id locked a) = ia_executor a"
| "claim_executor _ = None"

definition grant_of :: "coord_call \<Rightarrow> coord_outcome \<Rightarrow> (bytes \<times> int) option" where
  "grant_of c out =
     (case out of
        Claimed s \<Rightarrow> map_option (\<lambda>ex. (ex, cs_fencing_token s)) (claim_executor c)
      | _ \<Rightarrow> None)"

text \<open>
  A call that commits moves one workflow, and a claim says which; a call that concerns a workflow
  and a child of it moves both, and is no claim.
\<close>

definition moves_both :: "bytes \<Rightarrow> bytes \<Rightarrow> database \<Rightarrow> database \<Rightarrow> bool" where
  "moves_both wid child db db' \<longleftrightarrow>
     wid \<noteq> child \<and> references_ok db' \<and> evolves None (view db wid) (view db' wid) \<and>
     evolves None (view db child) (view db' child) \<and> (\<forall>u. u \<notin> {wid, child} \<longrightarrow> view db' u = view db u)"

definition call_moves :: "coord_call \<Rightarrow> coord_outcome \<Rightarrow> database \<Rightarrow> database \<Rightarrow> bool" where
  "call_moves c out db db' \<longleftrightarrow>
     (\<exists>wid. moves (grant_of c out) wid db db' \<and> (\<forall>s. out = Claimed s \<longrightarrow> cs_workflow_id s = hex wid)) \<or>
     (\<exists>wid child. moves_both wid child db db' \<and> (\<forall>s. out \<noteq> Claimed s))"

lemma grant_of_None [simp]: "(\<And>s. out \<noteq> Claimed s) \<Longrightarrow> grant_of c out = None"
  by (cases out) (auto simp: grant_of_def)

lemma call_moves_same: "references_ok db \<Longrightarrow> (\<And>s. out \<noteq> Claimed s) \<Longrightarrow> call_moves c out db db"
  by (auto simp: call_moves_def intro!: moves_refl)

lemma call_moves_plain: "moves None wid db db' \<Longrightarrow> (\<And>s. out \<noteq> Claimed s) \<Longrightarrow> call_moves c out db db'"
  by (auto simp: call_moves_def)

lemma call_moves_claim:
  assumes "references_ok db" and "select_workflow db (w_workflow_id r) = Some r" and "claim_predicate r now"
    and "install_lease ce (claim_executor c) now deadline r db = Inr (out, db')" and "id16 (claim_executor c)"
  shows "call_moves c out db db'"
proof -
  from assms(5) obtain ex where ex: "claim_executor c = Some ex" by (auto simp: id16_def split: option.splits)
  from install_lease_moves [OF assms(1-3), of ce ex deadline out db'] assms(4)
  show ?thesis
    by (auto simp: call_moves_def grant_of_def ex snapshot_of_def claimed_row_def intro!: exI [of _ "w_workflow_id r"])
qed

lemma claim_by_id_moves:
  assumes refs: "references_ok db" and run: "sp_workflow_claim_by_id ce locked a db = Inr (out, db')"
  shows "call_moves (Claim_By_Id locked a) out db db'"
proof (cases "select_workflow db (the (ia_workflow_id a))")
  case None
  with run refs show ?thesis
    by (auto simp: sp_workflow_claim_by_id_def Let_def elim!: bind_res_InrE intro!: call_moves_same)
next
  case (Some r)
  show ?thesis
  proof (cases "claim_predicate r (the (ia_db_now a)) \<and> \<not> locked (the (ia_workflow_id a))")
    case True
    with run Some refs select_workflow_Some [OF Some] show ?thesis
      by (auto simp: sp_workflow_claim_by_id_def Let_def guards_Inr elim!: bind_res_InrE
          intro!: call_moves_claim [of db r _ ce "Claim_By_Id locked a"])
  next
    case False
    with run Some refs show ?thesis
      by (auto simp: sp_workflow_claim_by_id_def Let_def elim!: bind_res_InrE split: if_split_asm intro!: call_moves_same)
  qed
qed

lemma find_key: "distinct (map key xs) \<Longrightarrow> x \<in> set xs \<Longrightarrow> find (\<lambda>y. key y = key x) xs = Some x"
  by (induction xs) auto

lemma select_of_row:
  "references_ok db \<Longrightarrow> r \<in> set (tb_workflow db) \<Longrightarrow> select_workflow db (w_workflow_id r) = Some r"
  by (simp add: references_ok_def select_workflow_def find_key)

lemma claim_moves:
  assumes refs: "references_ok db" and run: "sp_workflow_claim ce locked a db = Inr (out, db')"
  shows "call_moves (Claim locked a) out db db'"
proof -
  let ?due = "sort_key (\<lambda>r. (w_next_attempt_at r, w_workflow_id r))
    (filter (\<lambda>r. ce_same ce (w_script_name r) (the (ca_script_name a)) \<and> claim_predicate r (the (ca_db_now a)) \<and>
       \<not> locked (w_workflow_id r)) (tb_workflow db))"
  show ?thesis
  proof (cases ?due)
    case Nil
    with run refs show ?thesis
      by (auto simp: sp_workflow_claim_def Let_def elim!: bind_res_InrE intro!: call_moves_same)
  next
    case (Cons r rs)
    then have "r \<in> set ?due" by simp
    then have r: "r \<in> set (tb_workflow db)" "claim_predicate r (the (ca_db_now a))" by simp_all
    with run Cons refs select_of_row [OF refs r(1)] show ?thesis
      by (auto simp: sp_workflow_claim_def Let_def guards_Inr elim!: bind_res_InrE
          intro!: call_moves_claim [of db r _ ce "Claim locked a"])
  qed
qed

section \<open>The fenced procedures\<close>

lemma stale_fenceD:
  assumes "\<not> stale_fence a states r"
  shows "w_lease_owner r = fa_executor a" "w_lease_owner r \<noteq> None" "fa_fencing_token a = Some (w_fencing_token r)"
    "w_state r \<in> states"
  using assms by (auto simp: stale_fence_def fence_lost_def)

lemma with_workflow_cases:
  assumes "with_workflow a db k = Inr (out, db')"
  obtains "out = Workflow_Not_Found" "db' = db"
  | r where "select_workflow db (the (fa_workflow_id a)) = Some r" "k (the (fa_workflow_id a)) r = Inr (out, db')"
  using assms by (auto simp: with_workflow_def split: option.splits)

text \<open>A fenced call whose last statement is the workflow's row, with or without an event.\<close>

lemma fenced_moves:
  assumes "effect wid g db db'" and "references_ok db" and "select_workflow db wid = Some r"
    and "\<And>v. view db wid = Some v \<Longrightarrow> v_row v = r \<Longrightarrow> life_step None v (g v)" and "\<And>s. out \<noteq> Claimed s"
  shows "call_moves c out db db'"
  using effect_moves [OF assms(1,2)] assms(3-5) view_of_row [OF assms(3)] by (blast intro: call_moves_plain)

text \<open>The steps that leave the operations alone.\<close>

lemma life_lease:
  assumes "w_state (v_row v) \<in> {1, 2}" and "same_life (v_row v) r'" and "keeps_lease (v_row v) r'"
    and "w_current_event_ts r' = w_current_event_ts (v_row v)"
  shows "life_step None v (v\<lparr>v_row := r'\<rparr>)"
  using life_step.lease [OF assms, of "v_ops v" "v_cps v"] by (simp add: same_ops_def same_cps_def)

lemma life_put_off:
  assumes "w_state (v_row v) \<in> {1, 2}" and "same_life (v_row v) r'" and "keeps_lease (v_row v) r'"
    and "w_current_event_ts (v_row v) < e_event_ts e" and "w_current_event_ts r' = e_event_ts e"
  shows "life_step None v (v\<lparr>v_row := r', v_evs := v_evs v @ [e]\<rparr>)"
  using life_step.put_off [OF assms, of "v_ops v" "v_cps v"] by (simp add: same_ops_def same_cps_def)

lemma life_block_forward:
  assumes "w_state (v_row v) = 1" and "keeps_lease (v_row v) r'"
    and "w_current_event_ts (v_row v) < e_event_ts e" and "w_current_event_ts r' = e_event_ts e"
    and "dir \<in> {1, w_execution_direction (v_row v)}"
    and "same_life ((v_row v)\<lparr>w_state := 3, w_execution_direction := dir, w_current_disposition := d\<rparr>) r'"
    and "w_lease_owner r' = None"
  shows "life_step None v (v\<lparr>v_row := r', v_evs := v_evs v @ [e]\<rparr>)"
  using life_step.block_forward [OF assms, of "v_ops v"] by (simp add: same_ops_def)

text \<open>The same with timers written on the operations, or on the checkpoints.\<close>

lemma map_key_map_seq: "(\<And>x. key (f x) = key x) \<Longrightarrow> map key (map_seq seq n f xs) = map key xs"
  by (simp add: map_seq_def)

lemma same_ops_map_seq: "(\<And>x. op_key (f x) = op_key x) \<Longrightarrow> same_ops xs (map_seq seq n f xs)"
  by (simp add: same_ops_def map_key_map_seq)

lemma same_cps_map_seq: "(\<And>k. cp_key (g k) = cp_key k) \<Longrightarrow> same_cps ks (map_seq seq n g ks)"
  by (simp add: same_cps_def map_key_map_seq)

lemma life_lease_ops:
  assumes "w_state (v_row v) \<in> {1, 2}" and "same_life (v_row v) r'" and "keeps_lease (v_row v) r'"
    and "w_current_event_ts r' = w_current_event_ts (v_row v)" and "\<And>x. op_key (f x) = op_key x"
  shows "life_step None v (v\<lparr>v_row := r', v_ops := map_seq o_operation_seq n f (v_ops v)\<rparr>)"
  using life_step.lease [OF assms(1-4) same_ops_map_seq [OF assms(5)], where cps' = "v_cps v"] by (simp add: same_cps_def)

lemma life_put_off_ops:
  assumes "w_state (v_row v) \<in> {1, 2}" and "same_life (v_row v) r'" and "keeps_lease (v_row v) r'"
    and "w_current_event_ts (v_row v) < e_event_ts e" and "w_current_event_ts r' = e_event_ts e"
    and "\<And>x. op_key (f x) = op_key x"
  shows "life_step None v (v\<lparr>v_row := r', v_ops := map_seq o_operation_seq n f (v_ops v), v_evs := v_evs v @ [e]\<rparr>)"
  using life_step.put_off [OF assms(1-5) same_ops_map_seq [OF assms(6)], where cps' = "v_cps v"] by (simp add: same_cps_def)

lemma life_lease_cps:
  assumes "w_state (v_row v) \<in> {1, 2}" and "same_life (v_row v) r'" and "keeps_lease (v_row v) r'"
    and "w_current_event_ts r' = w_current_event_ts (v_row v)" and "\<And>k. cp_key (g k) = cp_key k"
  shows "life_step None v (v\<lparr>v_row := r', v_cps := map_seq k_seq n g (v_cps v)\<rparr>)"
  using life_step.lease [OF assms(1-4) _ same_cps_map_seq [OF assms(5)], where ops' = "v_ops v"] by (simp add: same_ops_def)

lemma life_put_off_cps:
  assumes "w_state (v_row v) \<in> {1, 2}" and "same_life (v_row v) r'" and "keeps_lease (v_row v) r'"
    and "w_current_event_ts (v_row v) < e_event_ts e" and "w_current_event_ts r' = e_event_ts e"
    and "\<And>k. cp_key (g k) = cp_key k"
  shows "life_step None v (v\<lparr>v_row := r', v_cps := map_seq k_seq n g (v_cps v), v_evs := v_evs v @ [e]\<rparr>)"
  using life_step.put_off [OF assms(1-5) _ same_cps_map_seq [OF assms(6)], where ops' = "v_ops v"] by (simp add: same_ops_def)

lemma budget_row_key [simp]: "op_key (budget_row now x) = op_key x"
  by (simp add: op_key_def budget_row_def)

lemma heartbeat_moves:
  assumes refs: "references_ok db" and run: "sp_workflow_heartbeat ce a db = Inr (out, db')"
  shows "call_moves (Heartbeat a) out db db'"
proof -
  let ?f = "\<lambda>r. r\<lparr>w_lease_expires_at := ha_lease_expires_at a, w_updated_at := the (ha_db_now a)\<rparr>"
  from run consider "db' = db" "\<And>s. out \<noteq> Claimed s"
    | r where "select_workflow db (the (fa_workflow_id a)) = Some r" "\<not> stale_fence a {1, 2} r"
      "update_workflow ce (the (fa_workflow_id a)) ?f db = Inr db'" "\<And>s. out \<noteq> Claimed s"
    by (auto simp: sp_workflow_heartbeat_def with_workflow_def elim!: bind_res_InrE split: option.split_asm if_split_asm)
  then show ?thesis
  proof cases
    case (2 r)
    have "life_step None v (v\<lparr>v_row := ?f (v_row v)\<rparr>)" if "v_row v = r" for v
      using stale_fenceD [OF 2(2)] that by (intro life_lease) (simp_all add: same_life_def keeps_lease_def)
    with 2(4) show ?thesis by (intro fenced_moves [OF effect_update_workflow [OF 2(3)] refs 2(1)]) auto
  qed (simp add: call_moves_same refs)
qed

lemma release_moves:
  assumes refs: "references_ok db" and run: "sp_workflow_release ce a db = Inr (out, db')"
  shows "call_moves (Release a) out db db'"
proof -
  let ?f = "\<lambda>r. r\<lparr>w_lease_owner := None, w_lease_expires_at := None,
    w_next_attempt_at := the (la_next_attempt_at a), w_updated_at := the (la_db_now a)\<rparr>"
  from run consider "db' = db" "\<And>s. out \<noteq> Claimed s"
    | r where "select_workflow db (the (fa_workflow_id a)) = Some r" "\<not> stale_fence a {1, 2} r"
      "update_workflow ce (the (fa_workflow_id a)) ?f db = Inr db'" "\<And>s. out \<noteq> Claimed s"
    by (auto simp: sp_workflow_release_def with_workflow_def elim!: bind_res_InrE split: option.split_asm if_split_asm)
  then show ?thesis
  proof cases
    case (2 r)
    have "life_step None v (v\<lparr>v_row := ?f (v_row v)\<rparr>)" if "v_row v = r" for v
      using stale_fenceD [OF 2(2)] that by (intro life_lease) (simp_all add: same_life_def keeps_lease_def)
    with 2(4) show ?thesis by (intro fenced_moves [OF effect_update_workflow [OF 2(3)] refs 2(1)]) auto
  qed (simp add: call_moves_same refs)
qed

lemma fail_moves:
  assumes refs: "references_ok db" and run: "sp_operation_fail ce a db = Inr (out, db')"
  shows "call_moves (Fail_Op a) out db db'"
proof -
  let ?wid = "the (fa_workflow_id a)" and ?ts = "the (ba_event_ts a)"
  let ?e = "event_of ?wid ?ts ''operation_failed'' (fa_executor a) (the (ba_event_payload a))"
  from run consider "db' = db" "\<And>s. out \<noteq> Claimed s"
    | r where "select_workflow db ?wid = Some r" "\<not> stale_fence a {1} r" "\<not> ?ts \<le> w_current_event_ts r"
      "publish ce ?wid (failed_row a) ?e db = Inr db'" "\<And>s. out \<noteq> Claimed s"
    by (auto simp: sp_operation_fail_def with_workflow_def Let_def elim!: bind_res_InrE split: option.split_asm if_split_asm)
  then show ?thesis
  proof cases
    case (2 r)
    have "life_step None v (v\<lparr>v_row := failed_row a (v_row v), v_evs := v_evs v @ [?e]\<rparr>)" if "v_row v = r" for v
      using stale_fenceD [OF 2(2)] 2(3) that 
      by (intro life_block_forward [where d = 2 and dir = "w_execution_direction r"])
         (simp_all add: same_life_def keeps_lease_def failed_row_def advance_def event_of_def not_le)
    with 2(5) show ?thesis
      by (intro fenced_moves [OF effect_publish [OF 2(4)] refs 2(1)]) (auto simp: failed_row_def advance_def event_of_def)
  qed (simp add: call_moves_same refs)
qed

lemma dispatch_defer_moves:
  assumes refs: "references_ok db" and run: "sp_operation_dispatch_defer ce a db = Inr (out, db')"
  shows "call_moves (Dispatch_Defer a) out db db'"
proof -
  let ?wid = "the (fa_workflow_id a)" and ?ts = "the (da_event_ts a)"
    and ?f = "deferred_row (the (da_next_attempt_at a))"
  from run consider "db' = db" "\<And>s. out \<noteq> Claimed s"
    | r where "select_workflow db ?wid = Some r" "\<not> stale_fence a {1, 2} r"
      "update_workflow ce ?wid (?f (w_current_event_ts r) (the (da_db_now a))) db = Inr db'" "\<And>s. out \<noteq> Claimed s"
    | r kind payload where "select_workflow db ?wid = Some r" "\<not> stale_fence a {1, 2} r" "\<not> ?ts \<le> w_current_event_ts r"
      "publish ce ?wid (?f ?ts (the (da_db_now a))) (event_of ?wid ?ts kind (fa_executor a) payload) db = Inr db'" "\<And>s. out \<noteq> Claimed s"
    by (auto simp: sp_operation_dispatch_defer_def with_workflow_def Let_def
        elim!: bind_res_InrE split: option.split_asm if_split_asm)
  then show ?thesis
  proof cases
    case (2 r)
    have "life_step None v (v\<lparr>v_row := ?f (w_current_event_ts r) (the (da_db_now a)) (v_row v)\<rparr>)" if "v_row v = r" for v
      using stale_fenceD [OF 2(2)] that
      by (intro life_lease) (simp_all add: same_life_def keeps_lease_def deferred_row_def)
    with 2(4) show ?thesis
      by (intro fenced_moves [OF effect_update_workflow [OF 2(3)] refs 2(1)]) (auto simp: deferred_row_def)
  next
    case (3 r kind payload)
    let ?e = "event_of ?wid ?ts kind (fa_executor a) payload"
    have "life_step None v (v\<lparr>v_row := ?f ?ts (the (da_db_now a)) (v_row v), v_evs := v_evs v @ [?e]\<rparr>)" if "v_row v = r" for v
      using stale_fenceD [OF 3(2)] 3(3) that
      by (intro life_put_off) (simp_all add: same_life_def keeps_lease_def deferred_row_def not_le)
    with 3(5) show ?thesis
      by (intro fenced_moves [OF effect_publish [OF 3(4)] refs 3(1)]) (auto simp: deferred_row_def)
  qed (simp add: call_moves_same refs)
qed

lemma reconcile_defer_moves:
  assumes refs: "references_ok db" and run: "sp_workflow_reconcile_defer ce a db = Inr (out, db')"
  shows "call_moves (Reconcile_Defer a) out db db'"
proof -
  let ?wid = "the (fa_workflow_id a)" and ?ts = "the (za_event_ts a)" and ?n = "the (za_operation_seq a)"
    and ?now = "the (za_db_now a)" and ?f = "deferred_row (the (za_next_attempt_at a))"
  from run consider "db' = db" "\<And>s. out \<noteq> Claimed s"
    | r db1 where "select_workflow db ?wid = Some r" "\<not> stale_fence a {1} r"
      "update_operation ce ?wid ?n (budget_row ?now) db = Inr db1"
      "update_workflow ce ?wid (?f (w_current_event_ts r) ?now) db1 = Inr db'" "\<And>s. out \<noteq> Claimed s"
    | r db1 kind payload where "select_workflow db ?wid = Some r" "\<not> stale_fence a {1} r" "\<not> ?ts \<le> w_current_event_ts r"
      "update_operation ce ?wid ?n (budget_row ?now) db = Inr db1"
      "publish ce ?wid (?f ?ts ?now) (event_of ?wid ?ts kind (fa_executor a) payload) db1 = Inr db'" "\<And>s. out \<noteq> Claimed s"
    | r db1 kind payload where "select_workflow db ?wid = Some r" "\<not> stale_fence a {1} r" "\<not> ?ts \<le> w_current_event_ts r"
      "update_operation ce ?wid ?n (budget_row ?now) db = Inr db1"
      "publish ce ?wid (route_unknown_row ce a) (event_of ?wid ?ts kind (fa_executor a) payload) db1 = Inr db'" "\<And>s. out \<noteq> Claimed s"
    by (auto simp: sp_workflow_reconcile_defer_def with_workflow_def Let_def
        elim!: bind_res_InrE split: option.split_asm if_split_asm)
  then show ?thesis
  proof cases
    case (2 r db1)
    let ?g = "\<lambda>v. v\<lparr>v_row := ?f (w_current_event_ts r) ?now (v_row v), v_ops := map_seq o_operation_seq ?n (budget_row ?now) (v_ops v)\<rparr>"
    have "effect ?wid ?g db db'"
      using effect_trans [OF effect_update_operation [OF 2(3)] effect_update_workflow [OF 2(4)]]
      by (simp add: view_write_order budget_row_def deferred_row_def)
    moreover have "life_step None v (?g v)" if "v_row v = r" for v
      using stale_fenceD [OF 2(2)] that
      by (intro life_lease_ops) (auto simp: same_life_def keeps_lease_def deferred_row_def)
    ultimately show ?thesis using 2(5) by (intro fenced_moves [where g = ?g, OF _ refs 2(1)]) auto
  next
    case (3 r db1 kind payload)
    let ?e = "event_of ?wid ?ts kind (fa_executor a) payload"
    let ?g = "\<lambda>v. v\<lparr>v_row := ?f ?ts ?now (v_row v), v_ops := map_seq o_operation_seq ?n (budget_row ?now) (v_ops v),
      v_evs := v_evs v @ [?e]\<rparr>"
    have "effect ?wid ?g db db'"
      using effect_trans [OF effect_update_operation [OF 3(4)] effect_publish [OF 3(5)]]
      by (simp add: view_write_order budget_row_def deferred_row_def)
    moreover have "life_step None v (?g v)" if "v_row v = r" for v
      using stale_fenceD [OF 3(2)] 3(3) that
      by (intro life_put_off_ops) (auto simp: same_life_def keeps_lease_def deferred_row_def not_le)
    ultimately show ?thesis using 3(6) by (intro fenced_moves [where g = ?g, OF _ refs 3(1)]) auto
  next
    case (4 r db1 kind payload)
    let ?e = "event_of ?wid ?ts kind (fa_executor a) payload"
    let ?g = "\<lambda>v. v\<lparr>v_row := route_unknown_row ce a (v_row v), v_ops := map_seq o_operation_seq ?n (budget_row ?now) (v_ops v),
      v_evs := v_evs v @ [?e]\<rparr>"
    have "effect ?wid ?g db db'"
      using effect_trans [OF effect_update_operation [OF 4(4)] effect_publish [OF 4(5)]]
      by (simp add: view_write_order budget_row_def route_unknown_row_def)
    moreover have "life_step None v (?g v)" if "v_row v = r" for v
      using stale_fenceD [OF 4(2)] 4(3) that
      by (intro life_step.block_forward [where d = 4 and dir = 1])
         (auto simp: same_life_def keeps_lease_def route_unknown_row_def not_le same_ops_map_seq)
    ultimately show ?thesis using 4(6) by (intro fenced_moves [where g = ?g, OF _ refs 4(1)]) auto
  qed (simp add: call_moves_same refs)
qed

text \<open>The plan of a workflow, as its view has it.\<close>

lemma view_plan: "view db wid = Some v \<Longrightarrow> v_plan v = map_option p_plan_length (select_plan db wid)"
  by (auto simp: view_def)

lemma view_ops: "view db wid = Some v \<Longrightarrow> v_ops v = filter (\<lambda>x. o_workflow_id x = wid) (tb_operation db)"
  by (auto simp: view_def)

lemma view_cps: "view db wid = Some v \<Longrightarrow> v_cps v = filter (\<lambda>x. k_workflow_id x = wid) (tb_checkpoint db)"
  by (auto simp: view_def)

lemma request_in_plan:
  assumes "view db wid = Some v" and "request_plan_violation db wid n = None" and "v_plan v = Some len"
  shows "n \<le> len \<and> (n = 1 \<or> (\<exists>y \<in> set (v_ops v). o_operation_seq y = n - 1 \<and> o_status y = 2))"
  using assms(2,3) view_plan [OF assms(1)] find_operation_view(1) [OF assms(1)]
  by (fastforce simp: request_plan_violation_def split: option.split_asm if_split_asm)

lemma request_moves:
  assumes refs: "references_ok db" and run: "sp_operation_request ce a db = Inr (out, db')"
  shows "call_moves (Request_Op a) out db db'"
proof -
  let ?wid = "the (fa_workflow_id a)" and ?ts = "the (qa_event_ts a)" and ?n = "the (qa_operation_seq a)"
    and ?x = "requested_operation a" and ?f = "advance (the (qa_new_continuation a)) (the (qa_event_ts a))"
  let ?e = "event_of ?wid ?ts ''operation_requested'' (fa_executor a) (the (qa_event_payload a))"
  from run consider "db' = db" "\<And>s. out \<noteq> Claimed s"
    | r db1 where "select_workflow db ?wid = Some r" "\<not> stale_fence a {1} r" "\<not> ?ts \<le> w_current_event_ts r"
      "request_plan_violation db ?wid ?n = None" "at_least 1 (qa_operation_seq a)"
      "insert_operation ce ?x db = Inr db1" "publish ce ?wid ?f ?e db1 = Inr db'" "\<And>s. out \<noteq> Claimed s"
    by (auto simp: sp_operation_request_def with_workflow_def Let_def guards_Inr request_guards_def fence_guards_def
        elim!: bind_res_InrE split: option.split_asm if_split_asm)
  then show ?thesis
  proof cases
    case (2 r db1)
    let ?g = "\<lambda>v. v\<lparr>v_row := ?f (v_row v), v_ops := v_ops v @ [?x], v_evs := v_evs v @ [?e]\<rparr>"
    have "effect ?wid ?g db db'"
      using effect_trans [OF effect_insert_operation [OF 2(6), of ?wid] effect_publish [OF 2(7)]]
      by (simp add: view_write_order)
    moreover have "life_step None v (?g v)" if v: "view db ?wid = Some v" "v_row v = r" for v
    proof (rule life_step.request)
      show "1 \<le> o_operation_seq ?x" using 2(5) by (auto simp: at_least_def split: option.splits)
      show "\<forall>y \<in> set (v_ops v). o_operation_seq y \<noteq> o_operation_seq ?x \<and> o_operation_id y \<noteq> o_operation_id ?x"
        using insert_operation_view(3) [OF 2(6)] view_ops [OF v(1)] by auto
      show "\<forall>n. v_plan v = Some n \<longrightarrow> o_operation_seq ?x \<le> n \<and> (o_operation_seq ?x = 1 \<or>
          (\<exists>y \<in> set (v_ops v). o_operation_seq y = o_operation_seq ?x - 1 \<and> o_status y = 2))"
        using request_in_plan [OF v(1) 2(4)] by simp
    qed (use stale_fenceD [OF 2(2)] 2(3) v(2) in
          \<open>simp_all add: not_le\<close>)
    ultimately show ?thesis using 2(8) by (intro fenced_moves [where g = ?g, OF _ refs 2(1)]) auto
  qed (simp add: call_moves_same refs)
qed

lemma settle_in_plan:
  assumes "view db wid = Some v" and "settle_plan_violation a db wid = None" and "v_plan v = Some len"
  shows "the (oa_checkpoint_seq a) = the (oa_operation_seq a) \<and> (oa_is_final a = Some 1 \<longrightarrow> the (oa_operation_seq a) = len)"
  using assms(2,3) view_plan [OF assms(1)]
  by (auto simp: settle_plan_violation_def Let_def split: option.split_asm if_split_asm)

lemma settled_row_life:
  assumes "\<not> (oa_is_final a \<noteq> Some 1) \<longrightarrow> oa_workflow_return_json a = Some result"
  shows "same_life r (settled_row a r) \<or>
      same_life (r\<lparr>w_state := 4, w_current_disposition := 1, w_workflow_return_json := Some result\<rparr>) (settled_row a r) \<and>
      w_lease_owner (settled_row a r) = None"
    and "keeps_lease r (settled_row a r)" and "w_current_event_ts (settled_row a r) = the (oa_event_ts a)"
    and "w_state r = 1 \<Longrightarrow> w_state (settled_row a r) = 4 \<longleftrightarrow> oa_is_final a = Some 1"
    and "w_workflow_id (settled_row a r) = w_workflow_id r"
  using assms by (auto simp: settled_row_def Let_def same_life_def keeps_lease_def advance_def)

lemma new_checkpoint_simps [simp]:
  "k_workflow_id (new_checkpoint a x) = the (fa_workflow_id a)" "k_seq (new_checkpoint a x) = the (oa_checkpoint_seq a)"
  "k_operation_id (new_checkpoint a x) = o_operation_id x" "active (new_checkpoint a x)"
  "k_reverse_invocation_id (new_checkpoint a x) = None"
  by (simp_all add: new_checkpoint_def active_def)

lemma settle_guarded:
  "guards (op_settle_guards ce a) = Inr u \<Longrightarrow> oa_is_final a = Some 1 \<longrightarrow> oa_workflow_return_json a \<noteq> None"
  by (auto simp: guards_Inr op_settle_guards_def object_text_def split: option.split_asm)

lemma settle_moves:
  assumes refs: "references_ok db" and run: "sp_operation_settle ce a db = Inr (out, db')"
  shows "call_moves (Settle_Op a) out db db'"
proof -
  let ?wid = "the (fa_workflow_id a)" and ?ts = "the (oa_event_ts a)" and ?n = "the (oa_operation_seq a)"
  from run consider "db' = db" "\<And>s. out \<noteq> Claimed s"
    | r x db1 db2 kind payload where "select_workflow db ?wid = Some r" "\<not> stale_fence a {1} r"
      "\<not> ?ts \<le> w_current_event_ts r" "settle_plan_violation a db ?wid = None"
      "find_operation db ?wid ?n = Some x" "o_status x \<noteq> 2"
      "oa_is_final a = Some 1 \<longrightarrow> oa_workflow_return_json a \<noteq> None"
      "update_operation ce ?wid ?n (settled_operation a) db = Inr db1" "insert_checkpoint ce (new_checkpoint a x) db1 = Inr db2"
      "publish ce ?wid (settled_row a) (event_of ?wid ?ts kind (fa_executor a) payload) db2 = Inr db'" "\<And>s. out \<noteq> Claimed s"
    by (auto simp: sp_operation_settle_def with_workflow_def Let_def dest: settle_guarded
        elim!: bind_res_InrE split: option.split_asm if_split_asm)
  then show ?thesis
  proof cases
    case (2 r x db1 db2 kind payload)
    let ?e = "event_of ?wid ?ts kind (fa_executor a) payload" and ?k = "new_checkpoint a x"
    let ?g = "\<lambda>v. v\<lparr>v_row := settled_row a (v_row v), v_ops := map_seq o_operation_seq ?n (settled_operation a) (v_ops v),
      v_cps := v_cps v @ [?k], v_evs := v_evs v @ [?e]\<rparr>"
    from 2(7) obtain result where "\<not> (oa_is_final a \<noteq> Some 1) \<longrightarrow> oa_workflow_return_json a = Some result" by auto
    note row = settled_row_life [OF this]
    have cps: "tb_checkpoint db1 = tb_checkpoint db"
      using 2(8) by (auto simp: update_operation_def split: if_splits)
    have "effect ?wid ?g db db'"
      using effect_trans [OF effect_trans [OF effect_update_operation [OF 2(8)] effect_insert_checkpoint [OF 2(9), of ?wid]]
        effect_publish [OF 2(10)]]
      by (simp add: view_write_order row(5) settled_operation_def)
    moreover have "life_step None v (?g v)" if v: "view db ?wid = Some v" "v_row v = r" for v
    proof -
      have x: "x \<in> set (v_ops v)" "o_operation_seq x = ?n" using find_operation_view(1) [OF v(1) 2(5)] by simp_all
      have "life_step None v (v\<lparr>v_row := settled_row a (v_row v),
          v_ops := map_seq o_operation_seq (o_operation_seq x) (settled_operation a) (v_ops v),
          v_cps := v_cps v @ [?k], v_evs := v_evs v @ [?e]\<rparr>)"
      proof (rule life_step.settle [OF _ _ _ _ x(1) 2(6), where result = result])
        show "\<forall>y \<in> set (v_cps v). k_seq y \<noteq> k_seq ?k \<and> k_operation_id y \<noteq> k_operation_id ?k"
          using insert_checkpoint_view(3) [OF 2(9)] view_cps [OF v(1)] by (auto simp: cps)
        show "\<forall>n. v_plan v = Some n \<longrightarrow> k_seq ?k = o_operation_seq x \<and> (w_state (settled_row a (v_row v)) = 4 \<longrightarrow> o_operation_seq x = n)"
          using settle_in_plan [OF v(1) 2(4)] row(4) stale_fenceD(4) [OF 2(2)] v(2) x(2) by simp
      qed (use stale_fenceD [OF 2(2)] 2(3) v(2) row(1-3) in \<open>simp_all add: not_le\<close>)
      then show ?thesis by (simp only: x(2))
    qed
    ultimately show ?thesis using 2(11) by (intro fenced_moves [where g = ?g, OF _ refs 2(1)]) auto
  qed (simp add: call_moves_same refs)
qed

lemma leave_forward_moves:
  assumes refs: "references_ok db" and r: "select_workflow db wid = Some r" "w_state r = 1" "\<not> ts \<le> w_current_event_ts r"
    and run: "leave_forward ce wid actor trigger reason ts origin db = Inr (out, db')"
  shows "call_moves c out db db'"
proof (cases "top_seq db wid")
  case None
  let ?f = "reversal_failed_row ce trigger reason ts"
  from run None obtain kind payload where p: "publish ce wid ?f (event_of wid ts kind actor payload) db = Inr db'"
      "out = Workflow_Failed reason"
    by (auto simp: leave_forward_def elim!: bind_res_InrE)
  have "life_step None v (v\<lparr>v_row := ?f (v_row v), v_evs := v_evs v @ [event_of wid ts kind actor payload]\<rparr>)"
    if v: "view db wid = Some v" "v_row v = r" for v
    using r(2,3) v(2) None top_seq_view(1) [OF v(1)]
    by (intro life_step.fail [where trigger = trigger and reason = reason])
       (simp_all add: reversal_failed_row_def same_life_def keeps_lease_def not_le)
  then show ?thesis
    using p(2) by (intro fenced_moves [OF effect_publish [OF p(1)] refs r(1)]) (auto simp: reversal_failed_row_def)
next
  case (Some n)
  let ?f = "reversal_begun_row ce trigger reason ts n"
  from run Some obtain kind payload where p: "publish ce wid ?f (event_of wid ts kind actor payload) db = Inr db'"
      "out = Reversing n"
    by (auto simp: leave_forward_def elim!: bind_res_InrE)
  have "life_step None v (v\<lparr>v_row := ?f (v_row v), v_evs := v_evs v @ [event_of wid ts kind actor payload]\<rparr>)"
    if v: "view db wid = Some v" "v_row v = r" for v
    using r(2,3) v(2) Some top_seq_view(2) [OF v(1), of n]
    by (intro life_step.begin_reversal [where trigger = trigger and reason = reason])
       (auto simp: reversal_begun_row_def same_life_def keeps_lease_def not_le)
  then show ?thesis
    using p(2) by (intro fenced_moves [OF effect_publish [OF p(1)] refs r(1)]) (auto simp: reversal_begun_row_def)
qed

lemma begin_reversal_moves:
  assumes refs: "references_ok db" and run: "sp_workflow_begin_reversal ce a db = Inr (out, db')"
  shows "call_moves (Begin_Reversal a) out db db'"
proof -
  let ?wid = "the (fa_workflow_id a)" and ?ts = "the (ga_event_ts a)"
  from run consider "db' = db" "\<And>s. out \<noteq> Claimed s"
    | r origin where "select_workflow db ?wid = Some r" "\<not> stale_fence a {1} r" "\<not> ?ts \<le> w_current_event_ts r"
      "leave_forward ce ?wid (fa_executor a) (the (ga_operation_id a)) (the (ga_reason a)) ?ts origin db = Inr (out, db')"
    by (auto simp: sp_workflow_begin_reversal_def with_workflow_def Let_def
        elim!: bind_res_InrE split: option.split_asm if_split_asm)
  then show ?thesis
  proof cases
    case (2 r origin)
    with stale_fenceD(4) [OF 2(2)] show ?thesis by (intro leave_forward_moves [OF refs 2(1) _ 2(3,4)]) simp
  qed (simp add: call_moves_same refs)
qed

lemma authored_fail_moves:
  assumes refs: "references_ok db" and run: "sp_workflow_authored_fail ce a db = Inr (out, db')"
  shows "call_moves (Authored_Fail a) out db db'"
proof -
  let ?wid = "the (fa_workflow_id a)" and ?ts = "the (ya_event_ts a)"
  from run consider "db' = db" "\<And>s. out \<noteq> Claimed s"
    | r origin where "select_workflow db ?wid = Some r" "\<not> stale_fence a {1} r" "\<not> ?ts \<le> w_current_event_ts r"
      "leave_forward ce ?wid (fa_executor a) (the (ya_fail_id a)) (the (ya_reason a)) ?ts origin db = Inr (out, db')"
    by (auto simp: sp_workflow_authored_fail_def with_workflow_def Let_def
        elim!: bind_res_InrE split: option.split_asm if_split_asm)
  then show ?thesis
  proof cases
    case (2 r origin)
    with stale_fenceD(4) [OF 2(2)] show ?thesis by (intro leave_forward_moves [OF refs 2(1) _ 2(3,4)]) simp
  qed (simp add: call_moves_same refs)
qed

text \<open>The checkpoint the order guard lets through is the active one on top.\<close>

lemma top_checkpoint:
  assumes "view db wid = Some v" and "find_checkpoint db wid n = Some k" and "top_seq db wid = Some n"
    and "k_reversal_state k = 1"
  shows "k \<in> set (v_cps v) \<and> k_seq k = n \<and> active k \<and> (\<forall>y \<in> set (v_cps v). active y \<longrightarrow> k_seq y \<le> k_seq k)"
  using find_checkpoint_view [OF assms(1,2)] top_seq_view(2) [OF assms(1), of n] assms(3,4) by (auto simp: active_def)

lemma reverse_request_moves:
  assumes refs: "references_ok db" and run: "sp_checkpoint_reverse_request ce a db = Inr (out, db')"
  shows "call_moves (Reverse_Request a) out db db'"
proof -
  let ?wid = "the (fa_workflow_id a)" and ?ts = "the (va_event_ts a)" and ?n = "the (va_seq a)"
  from run consider "db' = db" "\<And>s. out \<noteq> Claimed s"
    | r k db1 doc kind payload where "select_workflow db ?wid = Some r" "\<not> stale_fence a {2} r" "\<not> ?ts \<le> w_current_event_ts r"
      "find_checkpoint db ?wid ?n = Some k" "k_reversal_state k = 1" "k_reverse_invocation_id k = None"
      "top_seq db ?wid = Some ?n" "update_checkpoint ce ?wid ?n (bound_checkpoint a) db = Inr db1"
      "publish ce ?wid (advance doc ?ts) (event_of ?wid ?ts kind (fa_executor a) payload) db1 = Inr db'" "\<And>s. out \<noteq> Claimed s"
    by (auto simp: sp_checkpoint_reverse_request_def with_workflow_def Let_def
        elim!: bind_res_InrE split: option.split_asm if_split_asm)
  then show ?thesis
  proof cases
    case (2 r k db1 doc kind payload)
    let ?e = "event_of ?wid ?ts kind (fa_executor a) payload"
    let ?g = "\<lambda>v. v\<lparr>v_row := advance doc ?ts (v_row v), v_cps := map_seq k_seq ?n (bound_checkpoint a) (v_cps v),
      v_evs := v_evs v @ [?e]\<rparr>"
    have "effect ?wid ?g db db'"
      using effect_trans [OF effect_update_checkpoint [OF 2(8)] effect_publish [OF 2(9)]]
      by (simp add: view_write_order bound_checkpoint_def)
    moreover have "life_step None v (?g v)" if v: "view db ?wid = Some v" "v_row v = r" for v
    proof -
      note k = top_checkpoint [OF v(1) 2(4,7,5)]
      then have "life_step None v (v\<lparr>v_row := advance doc ?ts (v_row v),
          v_cps := map_seq k_seq (k_seq k) (bound_checkpoint a) (v_cps v), v_evs := v_evs v @ [?e]\<rparr>)"
        using stale_fenceD [OF 2(2)] 2(3,6) v(2) by (intro life_step.compensate) (auto simp: not_le)
      with k show ?thesis by simp
    qed
    ultimately show ?thesis using 2(10) by (intro fenced_moves [where g = ?g, OF _ refs 2(1)]) auto
  qed (simp add: call_moves_same refs)
qed

lemma checkpoint_settled_moves:
  assumes refs: "references_ok db" and row: "select_workflow db wid = Some r" "\<not> stale_fence a {2} r" "\<not> ts \<le> w_current_event_ts r"
    and cp: "find_checkpoint db wid n = Some k" "k_reversal_state k = 1" "top_seq db wid = Some n"
    and undo: "\<And>v. view db wid = Some v \<Longrightarrow> undo_known (v_ops v) k"
    and up: "update_checkpoint ce wid n (reversed_checkpoint ts) db = Inr db1"
    and pub: "publish ce wid f (event_of wid ts kind actor payload) db1 = Inr db'"
    and next_row: "top_seq db1 wid = None \<and> f = reversed_row ce ts \<or>
      (\<exists>below. top_seq db1 wid = Some below \<and> f = advance (reverse_cursor ce ''reverse'' below) ts)"
    and out: "\<And>s. out \<noteq> Claimed s"
  shows "call_moves c out db db'"
proof -
  let ?e = "event_of wid ts kind actor payload"
  let ?c = "\<lambda>v. map_seq k_seq n (reversed_checkpoint ts) (v_cps v)"
  let ?g = "\<lambda>v. v\<lparr>v_row := f (v_row v), v_cps := ?c v, v_evs := v_evs v @ [?e]\<rparr>"
  have f: "w_workflow_id (f x) = w_workflow_id x" "w_current_event_ts (f x) = ts" "keeps_lease x (f x)" for x
    using next_row by (auto simp: reversed_row_def keeps_lease_def advance_def)
  have cps: "effect wid (\<lambda>v. v\<lparr>v_cps := ?c v\<rparr>) db db1"
    by (rule effect_update_checkpoint [OF up]) (simp add: reversed_checkpoint_def)
  have "effect wid ?g db db'"
    using effect_trans [OF cps effect_publish [OF pub f(1)]] by (simp add: view_write_order)
  moreover have "life_step None v (?g v)" if v: "view db wid = Some v" "v_row v = r" for v
  proof -
    note k = top_checkpoint [OF v(1) cp(1,3,2)]
    have "view db1 wid = Some (v\<lparr>v_cps := ?c v\<rparr>)" using cps v(1) by (simp add: effect_def)
    note below = top_seq_view [OF this]
    have life: "if \<exists>y \<in> set (?c v). active y then same_life (v_row v) (f (v_row v))
        else same_life ((v_row v)\<lparr>w_state := 5\<rparr>) (f (v_row v)) \<and> w_lease_owner (f (v_row v)) = None"
      using next_row
    proof
      assume "top_seq db1 wid = None \<and> f = reversed_row ce ts"
      then show ?thesis using below(1) by (simp add: reversed_row_def same_life_def advance_def)
    next
      assume "\<exists>n. top_seq db1 wid = Some n \<and> f = advance (reverse_cursor ce ''reverse'' n) ts"
      then show ?thesis using below(2) by auto
    qed
    have seq: "map_seq k_seq (k_seq k) (reversed_checkpoint ts) (v_cps v) = ?c v" using k by simp
    show ?thesis
      using stale_fenceD [OF row(2)] row(3) v(2) f k life undo [OF v(1)]
      by (intro life_step.reversed [where k = k, OF _ _ _ _ _ _ _ _ seq [symmetric]]) (auto simp: not_le)
  qed
  ultimately show ?thesis using out by (intro fenced_moves [where g = ?g, OF _ refs row(1)]) auto
qed

lemma reverse_settle_moves:
  assumes refs: "references_ok db" and run: "sp_checkpoint_reverse_settle ce a db = Inr (out, db')"
  shows "call_moves (Reverse_Settle a) out db db'"
proof -
  let ?wid = "the (fa_workflow_id a)" and ?ts = "the (ka_event_ts a)" and ?n = "the (ka_seq a)"
  from run consider "db' = db" "\<And>s. out \<noteq> Claimed s"
    | r k db1 f kind payload where "select_workflow db ?wid = Some r" "\<not> stale_fence a {2} r" "\<not> ?ts \<le> w_current_event_ts r"
      "find_checkpoint db ?wid ?n = Some k" "k_reversal_state k = 1" "k_reverse_invocation_id k \<noteq> None"
      "top_seq db ?wid = Some ?n" "update_checkpoint ce ?wid ?n (reversed_checkpoint ?ts) db = Inr db1"
      "publish ce ?wid f (event_of ?wid ?ts kind (fa_executor a) payload) db1 = Inr db'" "\<And>s. out \<noteq> Claimed s"
      "top_seq db1 ?wid = None \<and> f = reversed_row ce ?ts \<or>
        (\<exists>below. top_seq db1 ?wid = Some below \<and> f = advance (reverse_cursor ce ''reverse'' below) ?ts)"
    by (auto simp: sp_checkpoint_reverse_settle_def with_workflow_def Let_def
        elim!: bind_res_InrE split: option.split_asm if_split_asm)
  then show ?thesis
  proof cases
    case (2 r k db1 f kind payload)
    then show ?thesis
      by (intro checkpoint_settled_moves [OF refs 2(1-5,7) _ 2(8,9,11)]) (auto simp: undo_known_def)
  qed (simp add: call_moves_same refs)
qed

lemma reverse_block_moves:
  assumes refs: "references_ok db" and run: "sp_checkpoint_reverse_block ce a db = Inr (out, db')"
  shows "call_moves (Reverse_Block a) out db db'"
proof -
  let ?wid = "the (fa_workflow_id a)" and ?ts = "the (ua_event_ts a)" and ?n = "the (ua_seq a)"
    and ?d = "the (ua_disposition a)"
  let ?f = "reverse_blocked_row ce ?d ?n ?ts"
  from run consider "db' = db" "\<And>s. out \<noteq> Claimed s"
    | r k db1 kind payload where "select_workflow db ?wid = Some r" "\<not> stale_fence a {2} r" "\<not> ?ts \<le> w_current_event_ts r"
      "find_checkpoint db ?wid ?n = Some k" "k_reversal_state k = 1" "k_reverse_invocation_id k \<noteq> None"
      "top_seq db ?wid = Some ?n" "update_checkpoint ce ?wid ?n (blocked_checkpoint ?ts) db = Inr db1"
      "publish ce ?wid ?f (event_of ?wid ?ts kind (fa_executor a) payload) db1 = Inr db'" "\<And>s. out \<noteq> Claimed s"
    by (auto simp: sp_checkpoint_reverse_block_def with_workflow_def Let_def
        elim!: bind_res_InrE split: option.split_asm if_split_asm)
  then show ?thesis
  proof cases
    case (2 r k db1 kind payload)
    let ?e = "event_of ?wid ?ts kind (fa_executor a) payload"
    let ?g = "\<lambda>v. v\<lparr>v_row := ?f (v_row v), v_cps := map_seq k_seq ?n (blocked_checkpoint ?ts) (v_cps v),
      v_evs := v_evs v @ [?e]\<rparr>"
    have f: "w_workflow_id (?f x) = w_workflow_id x" "w_current_event_ts (?f x) = ?ts" "keeps_lease x (?f x)"
      "same_life (x\<lparr>w_state := 3, w_current_disposition := ?d\<rparr>) (?f x)" "w_lease_owner (?f x) = None" for x
      by (simp_all add: reverse_blocked_row_def keeps_lease_def same_life_def advance_def)
    have "effect ?wid ?g db db'"
      using effect_trans [OF effect_update_checkpoint [OF 2(8)] effect_publish [OF 2(9) f(1)]]
      by (simp add: view_write_order blocked_checkpoint_def)
    moreover have "life_step None v (?g v)" if v: "view db ?wid = Some v" "v_row v = r" for v
    proof -
      note k = top_checkpoint [OF v(1) 2(4,7,5)]
      then have "life_step None v (v\<lparr>v_row := ?f (v_row v),
          v_cps := map_seq k_seq (k_seq k) (blocked_checkpoint ?ts) (v_cps v), v_evs := v_evs v @ [?e]\<rparr>)"
        using stale_fenceD [OF 2(2)] 2(3,6) v(2) f
        by (intro life_step.block_reverse [where d = ?d]) (auto simp: not_le same_cps_def)
      with k show ?thesis by simp
    qed
    ultimately show ?thesis using 2(10) by (intro fenced_moves [where g = ?g, OF _ refs 2(1)]) auto
  qed (simp add: call_moves_same refs)
qed

section \<open>Creation\<close>

lemma insert_workflow_view:
  assumes "insert_workflow ce r db = Inr db'" and "references_ok db"
  shows "references_ok db'" and "view db (w_workflow_id r) = None"
    and "view db' u = (if u = w_workflow_id r
      then Some \<lparr>v_row = r, v_plan = None, v_ops = [], v_cps = [], v_evs = []\<rparr> else view db u)"
proof -
  from assms(1) have new: "select_workflow db (w_workflow_id r) = None" and db': "db' = db\<lparr>tb_workflow := tb_workflow db @ [r]\<rparr>"
    by (auto simp: insert_workflow_def split: if_splits)
  then show "view db (w_workflow_id r) = None" by simp
  have sel: "select_workflow db' u = (if u = w_workflow_id r then Some r else select_workflow db u)" for u
    using new by (auto simp: db' select_workflow_def find_append split: option.split)
  have "w_workflow_id r \<notin> w_workflow_id ` set (tb_workflow db)"
    using new by (auto simp: select_workflow_def find_None_iff)
  with assms(2) have "references_ok (db\<lparr>tb_workflow := tb_workflow db @ [r]\<rparr>)"
    using sel unfolding db' by (simp add: references_ok_def)
  then show "references_ok db'" by (simp add: db')
  have "find (\<lambda>x. p_workflow_id x = w_workflow_id r) (tb_plan db) = None"
    "filter (\<lambda>x. o_workflow_id x = w_workflow_id r) (tb_operation db) = []"
    "filter (\<lambda>x. k_workflow_id x = w_workflow_id r) (tb_checkpoint db) = []"
    "filter (\<lambda>x. e_workflow_id x = w_workflow_id r) (tb_event db) = []"
    using assms(2) new by (auto simp: references_ok_def find_None_iff filter_empty_conv)
  then show "view db' u = (if u = w_workflow_id r
      then Some \<lparr>v_row = r, v_plan = None, v_ops = [], v_cps = [], v_evs = []\<rparr> else view db u)"
    by (simp add: view_def sel) (simp add: db' select_plan_def)
qed

lemma insert_plan_view:
  assumes "insert_plan ce p db = Inr db'"
  shows "references_ok db \<Longrightarrow> references_ok db'" and "1 \<le> p_plan_length p"
    and "view db' u = map_option (\<lambda>v. if u = p_workflow_id p then v\<lparr>v_plan := Some (p_plan_length p)\<rparr> else v) (view db u)"
proof -
  from assms have w: "select_workflow db (p_workflow_id p) \<noteq> None" "select_plan db (p_workflow_id p) = None"
    and db': "db' = db\<lparr>tb_plan := tb_plan db @ [p]\<rparr>" and "1 \<le> p_plan_length p"
    by (auto simp: insert_plan_def split: if_splits)
  then show "1 \<le> p_plan_length p" by simp
  have sel: "select_workflow db' u = select_workflow db u"
    "select_plan db' u = (if u = p_workflow_id p then Some p else select_plan db u)" for u
    using w(2) by (auto simp: db' select_workflow_def select_plan_def find_append split: option.split)
  show "references_ok db \<Longrightarrow> references_ok db'"
    using w(1) sel(1) unfolding db' by (auto simp: references_ok_def)
  show "view db' u = map_option (\<lambda>v. if u = p_workflow_id p then v\<lparr>v_plan := Some (p_plan_length p)\<rparr> else v) (view db u)"
    by (simp add: view_def sel option.map_comp o_def) (auto simp: db' cong: map_option_cong)
qed

lemma insert_args_view:
  assumes "insert_args x db = Inr db'"
  shows "references_ok db \<Longrightarrow> references_ok db'" and "view db' u = view db u"
  using assms
  by (auto simp: insert_args_def references_ok_def view_def select_workflow_def select_plan_def split: if_splits)

lemma created_moves:
  assumes refs: "references_ok db" and new: "view db wid = None" and refs': "references_ok db'"
    and v: "\<And>u. view db' u = (if u = wid then Some v else view db u)" and "born v" and "\<And>s. out \<noteq> Claimed s"
  shows "call_moves c out db db'"
proof -
  have "evolves None (view db wid) (view db' wid)"
    using new assms(5) by (simp add: v evolves.created del: view_None)
  with refs' have "moves None wid db db'" by (simp add: moves_def v)
  with assms(6) show ?thesis by (intro call_moves_plain)
qed

lemma new_workflow_id [simp]: "w_workflow_id (new_workflow wid name revision ts due doc) = wid"
  by (simp add: new_workflow_def)

lemma create_moves:
  assumes refs: "references_ok db" and run: "sp_workflow_create ce a db = Inr (out, db')"
  shows "call_moves (Create a) out db db'"
proof -
  let ?wid = "the (wa_workflow_id a)" and ?ts = "the (wa_event_ts a)"
  let ?r = "new_workflow ?wid (the (wa_script_name a)) (the (wa_script_revision a)) ?ts
    (the (wa_next_attempt_at a)) (the (wa_continuation a))"
  let ?e = "event_of ?wid ?ts ''created'' None (the (wa_event_payload a))"
  from run consider "db' = db" "\<And>s. out \<noteq> Claimed s"
    | db1 where "insert_workflow ce ?r db = Inr db1" "insert_workflow_event ce ?e db1 = Inr db'" "\<And>s. out \<noteq> Claimed s"
    by (auto simp: sp_workflow_create_def Let_def elim!: bind_res_InrE split: sum.split_asm if_split_asm)
  then show ?thesis
  proof cases
    case (2 db1)
    note w = insert_workflow_view [OF 2(1) refs] and e = insert_event_view [OF 2(2)]
    show ?thesis
      by (rule created_moves [OF refs w(2) e(2) [OF w(1)], where v = "\<lparr>v_row = ?r, v_plan = None, v_ops = [], v_cps = [], v_evs = [?e]\<rparr>"])
        (use 2(3) in \<open>simp_all add: e(1) w(3) option.map_ident born_def new_workflow_def\<close>)
  qed (simp add: call_moves_same refs)
qed

lemma adopt_plan_not_claimed: "adopt_plan ce a wid db \<noteq> Claimed s"
  by (simp add: adopt_plan_def split: option.split)

lemma create_planned_moves:
  assumes refs: "references_ok db" and run: "sp_workflow_create_planned ce a db = Inr (out, db')"
  shows "call_moves (Create_Planned a) out db db'"
proof -
  let ?wid = "the (na_workflow_id a)" and ?ts = "the (na_event_ts a)"
  let ?r = "new_workflow ?wid (the (na_script_name a)) 1 ?ts (the (na_next_attempt_at a)) (the (na_continuation a))"
  let ?e = "event_of ?wid ?ts ''created'' None (the (na_event_payload a))"
  from run consider "db' = db" "\<And>s. out \<noteq> Claimed s"
    | db1 db2 db3 p x where "insert_workflow ce ?r db = Inr db1" "insert_plan ce p db1 = Inr db2" "p_workflow_id p = ?wid"
      "insert_args x db2 = Inr db3" "insert_workflow_event ce ?e db3 = Inr db'" "\<And>s. out \<noteq> Claimed s"
    using adopt_plan_not_claimed
    by (fastforce simp: sp_workflow_create_planned_def Let_def elim!: bind_res_InrE split: sum.split_asm if_split_asm)
  then show ?thesis
  proof cases
    case (2 db1 db2 db3 p x)
    note w = insert_workflow_view [OF 2(1) refs] and p = insert_plan_view [OF 2(2)] and x = insert_args_view [OF 2(4)]
      and e = insert_event_view [OF 2(5)]
    show ?thesis
      by (rule created_moves [OF refs w(2) e(2) [OF x(1) [OF p(1) [OF w(1)]]],
            where v = "\<lparr>v_row = ?r, v_plan = Some (p_plan_length p), v_ops = [], v_cps = [], v_evs = [?e]\<rparr>"])
        (use 2(3,6) p(2) in \<open>simp_all add: e(1) x(2) p(3) w(3) option.map_comp o_def option.map_ident born_def new_workflow_def\<close>)
  qed (simp add: call_moves_same refs)
qed

end
