(* ===== verification/Coord_Refine_Calls.thy ===== *)
theory Coord_Refine_Calls
  imports Coord_Refine
begin

text \<open>
  The refinement of \<open>Coord_Refine\<close> for the timers and for the composition of workflows, where a
  call may move two workflows at once, and the theorem for every call.
\<close>

section \<open>Timers\<close>

lemma timer_keys [simp]:
  "op_key (anchored_operation now x) = op_key x" "op_key (redispatched_operation now x) = op_key x"
  "cp_key (anchored_checkpoint now k) = cp_key k" "cp_key (redispatched_checkpoint now k) = cp_key k"
  "cp_key (budget_checkpoint now k) = cp_key k"
  by (simp_all add: op_key_def cp_key_def anchored_operation_def redispatched_operation_def anchored_checkpoint_def
      redispatched_checkpoint_def budget_checkpoint_def)

lemma timer_ids [simp]:
  "o_workflow_id (anchored_operation now x) = o_workflow_id x" "o_workflow_id (redispatched_operation now x) = o_workflow_id x"
  "k_workflow_id (anchored_checkpoint now k) = k_workflow_id k"
  "k_workflow_id (redispatched_checkpoint now k) = k_workflow_id k" "k_workflow_id (budget_checkpoint now k) = k_workflow_id k"
  by (simp_all add: anchored_operation_def redispatched_operation_def anchored_checkpoint_def
      redispatched_checkpoint_def budget_checkpoint_def)

lemma touched_row_simps [simp]:
  "w_workflow_id (touched_row ts now r) = w_workflow_id r" "w_current_event_ts (touched_row ts now r) = ts"
  "same_life r (touched_row ts now r)" "keeps_lease r (touched_row ts now r)"
  by (simp_all add: touched_row_def same_life_def keeps_lease_def)

lemma deferred_row_simps [simp]:
  "w_workflow_id (deferred_row due ts now r) = w_workflow_id r" "w_current_event_ts (deferred_row due ts now r) = ts"
  "same_life r (deferred_row due ts now r)" "keeps_lease r (deferred_row due ts now r)"
  by (simp_all add: deferred_row_def same_life_def keeps_lease_def)

lemma same_row [simp]: "same_life r r" "keeps_lease r r"
  by (simp_all add: same_life_def keeps_lease_def)

text \<open>A statement that writes timers: on the operations or the checkpoints of one workflow.\<close>

definition keeps_life :: "(wf_view \<Rightarrow> wf_view) \<Rightarrow> bool" where
  "keeps_life h \<longleftrightarrow>
     (\<forall>v. \<exists>ops' cps'. same_ops (v_ops v) ops' \<and> same_cps (v_cps v) cps' \<and> h v = v\<lparr>v_ops := ops', v_cps := cps'\<rparr>)"

lemma timer_on_op:
  assumes "update_operation ce wid n f db = Inr db1" and "\<And>x. op_key (f x) = op_key x"
    and "\<And>x. o_workflow_id (f x) = o_workflow_id x"
  shows "\<exists>h. keeps_life h \<and> effect wid h db db1"
proof (intro exI conjI)
  show "keeps_life (\<lambda>v. v\<lparr>v_ops := map_seq o_operation_seq n f (v_ops v)\<rparr>)"
    unfolding keeps_life_def
    by (rule allI, rule_tac x = "map_seq o_operation_seq n f (v_ops v)" in exI, rule_tac x = "v_cps v" in exI)
       (simp add: same_ops_map_seq assms(2) same_cps_def)
  show "effect wid (\<lambda>v. v\<lparr>v_ops := map_seq o_operation_seq n f (v_ops v)\<rparr>) db db1"
    by (rule effect_update_operation [OF assms(1,3)])
qed

lemma timer_on_cp:
  assumes "update_checkpoint ce wid n f db = Inr db1" and "\<And>k. cp_key (f k) = cp_key k"
    and "\<And>k. k_workflow_id (f k) = k_workflow_id k"
  shows "\<exists>h. keeps_life h \<and> effect wid h db db1"
proof (intro exI conjI)
  show "keeps_life (\<lambda>v. v\<lparr>v_cps := map_seq k_seq n f (v_cps v)\<rparr>)"
    unfolding keeps_life_def
    by (rule allI, rule_tac x = "v_ops v" in exI, rule_tac x = "map_seq k_seq n f (v_cps v)" in exI)
       (simp add: same_cps_map_seq assms(2) same_ops_def)
  show "effect wid (\<lambda>v. v\<lparr>v_cps := map_seq k_seq n f (v_cps v)\<rparr>) db db1"
    by (rule effect_update_checkpoint [OF assms(1,3)])
qed

text \<open>The timer alone, with the row, or with the row and an event.\<close>

lemma timer_alone:
  assumes "\<exists>h. keeps_life h \<and> effect wid h db db'" and "references_ok db" and "select_workflow db wid = Some r"
    and "w_state r \<in> {1, 2}" and "\<And>s. out \<noteq> Claimed s"
  shows "call_moves c out db db'"
proof -
  from assms(1) obtain h where h: "keeps_life h" "effect wid h db db'" by blast
  have "life_step None v (h v)" if "v_row v = r" for v
  proof -
    from h(1) obtain ops' cps' where k: "same_ops (v_ops v) ops'" "same_cps (v_cps v) cps'" "h v = v\<lparr>v_ops := ops', v_cps := cps'\<rparr>"
      unfolding keeps_life_def by blast
    have "life_step None v (v\<lparr>v_row := v_row v, v_ops := ops', v_cps := cps'\<rparr>)"
      using that assms(4) k(1,2) by (intro life_step.lease) simp_all
    moreover have "v\<lparr>v_row := v_row v, v_ops := ops', v_cps := cps'\<rparr> = h v" by (simp add: k(3))
    ultimately show ?thesis by (simp only:)
  qed
  then show ?thesis using assms(5) by (intro fenced_moves [OF h(2) assms(2,3)])
qed

lemma timer_row:
  assumes "\<exists>h. keeps_life h \<and> effect wid h db db1" and "update_workflow ce wid g db1 = Inr db'"
    and "references_ok db" and "select_workflow db wid = Some r" and "w_state r \<in> {1, 2}"
    and g: "\<And>x. w_workflow_id (g x) = w_workflow_id x" "same_life r (g r)" "keeps_lease r (g r)"
      "w_current_event_ts (g r) = w_current_event_ts r"
    and "\<And>s. out \<noteq> Claimed s"
  shows "call_moves c out db db'"
proof -
  from assms(1) obtain h where h: "keeps_life h" "effect wid h db db1" by blast
  have "life_step None v ((h v)\<lparr>v_row := g (v_row (h v))\<rparr>)" if "v_row v = r" for v
  proof -
    from h(1) obtain ops' cps' where k: "same_ops (v_ops v) ops'" "same_cps (v_cps v) cps'" "h v = v\<lparr>v_ops := ops', v_cps := cps'\<rparr>"
      unfolding keeps_life_def by blast
    have "life_step None v (v\<lparr>v_row := g (v_row v), v_ops := ops', v_cps := cps'\<rparr>)"
      using that assms(5) k(1,2) g by (intro life_step.lease) simp_all
    moreover have "v\<lparr>v_row := g (v_row v), v_ops := ops', v_cps := cps'\<rparr> = (h v)\<lparr>v_row := g (v_row (h v))\<rparr>" by (simp add: k(3))
    ultimately show ?thesis by (simp only:)
  qed
  then show ?thesis
    using assms(10) by (intro fenced_moves [OF effect_trans [OF h(2) effect_update_workflow [OF assms(2) g(1)]] assms(3,4)])
qed

lemma timer_event:
  assumes "\<exists>h. keeps_life h \<and> effect wid h db db1" and "publish ce wid g e db1 = Inr db'"
    and "references_ok db" and "select_workflow db wid = Some r" and "w_state r \<in> {1, 2}"
    and g: "\<And>x. w_workflow_id (g x) = w_workflow_id x" "same_life r (g r)" "keeps_lease r (g r)"
      "w_current_event_ts (g r) = e_event_ts e"
    and e: "e_workflow_id e = wid" "w_current_event_ts r < e_event_ts e"
    and "\<And>s. out \<noteq> Claimed s"
  shows "call_moves c out db db'"
proof -
  from assms(1) obtain h where h: "keeps_life h" "effect wid h db db1" by blast
  have "life_step None v ((h v)\<lparr>v_row := g (v_row (h v)), v_evs := v_evs (h v) @ [e]\<rparr>)" if "v_row v = r" for v
  proof -
    from h(1) obtain ops' cps' where k: "same_ops (v_ops v) ops'" "same_cps (v_cps v) cps'" "h v = v\<lparr>v_ops := ops', v_cps := cps'\<rparr>"
      unfolding keeps_life_def by blast
    have "life_step None v (v\<lparr>v_row := g (v_row v), v_ops := ops', v_cps := cps', v_evs := v_evs v @ [e]\<rparr>)"
      using that assms(5) k(1,2) g e by (intro life_step.put_off) simp_all
    moreover have "v\<lparr>v_row := g (v_row v), v_ops := ops', v_cps := cps', v_evs := v_evs v @ [e]\<rparr> =
        (h v)\<lparr>v_row := g (v_row (h v)), v_evs := v_evs (h v) @ [e]\<rparr>"
      by (simp add: k(3))
    ultimately show ?thesis by (simp only:)
  qed
  then show ?thesis
    using assms(12) by (intro fenced_moves [OF effect_trans [OF h(2) effect_publish [OF assms(2) g(1) e(1)]] assms(3,4)])
qed

lemma pending_defer_moves:
  assumes refs: "references_ok db" and run: "sp_operation_pending_defer ce a db = Inr (out, db')"
  shows "call_moves (Pending_Op a) out db db'"
proof -
  let ?wid = "the (fa_workflow_id a)" and ?ts = "the (xa_event_ts a)" and ?n = "the (xa_operation_seq a)"
    and ?now = "the (xa_db_now a)" and ?due = "the (xa_next_attempt_at a)"
  from run consider "db' = db" "\<And>s. out \<noteq> Claimed s"
    | r where "select_workflow db ?wid = Some r" "\<not> stale_fence a {1} r"
      "update_operation ce ?wid ?n (redispatched_operation ?now) db = Inr db'" "\<And>s. out \<noteq> Claimed s"
    | r db1 payload where "select_workflow db ?wid = Some r" "\<not> stale_fence a {1} r" "\<not> ?ts \<le> w_current_event_ts r"
      "update_operation ce ?wid ?n (redispatched_operation ?now) db = Inr db1"
      "publish ce ?wid (touched_row ?ts ?now) (event_of ?wid ?ts ''pending_redispatch'' (fa_executor a) payload) db1 = Inr db'"
      "\<And>s. out \<noteq> Claimed s"
    | r db1 where "select_workflow db ?wid = Some r" "\<not> stale_fence a {1} r"
      "update_operation ce ?wid ?n (anchored_operation ?now) db = Inr db1"
      "update_workflow ce ?wid (deferred_row ?due (w_current_event_ts r) ?now) db1 = Inr db'" "\<And>s. out \<noteq> Claimed s"
    | r db1 payload where "select_workflow db ?wid = Some r" "\<not> stale_fence a {1} r" "\<not> ?ts \<le> w_current_event_ts r"
      "update_operation ce ?wid ?n (anchored_operation ?now) db = Inr db1"
      "publish ce ?wid (deferred_row ?due ?ts ?now) (event_of ?wid ?ts ''pending_deferred'' (fa_executor a) payload) db1 = Inr db'"
      "\<And>s. out \<noteq> Claimed s"
    by (auto simp: sp_operation_pending_defer_def with_workflow_def Let_def
        elim!: bind_res_InrE split: option.split_asm if_split_asm)
  then show ?thesis
  proof cases
    case (2 r)
    with stale_fenceD(4) [OF 2(2)] show ?thesis by (intro timer_alone [OF timer_on_op [OF 2(3)] refs 2(1)]) simp_all
  next
    case (3 r db1 payload)
    with stale_fenceD(4) [OF 3(2)] show ?thesis
      by (intro timer_event [OF timer_on_op [OF 3(4)] 3(5) refs 3(1)]) (simp_all add: not_le)
  next
    case (4 r db1)
    with stale_fenceD(4) [OF 4(2)] show ?thesis by (intro timer_row [OF timer_on_op [OF 4(3)] 4(4) refs 4(1)]) simp_all
  next
    case (5 r db1 payload)
    with stale_fenceD(4) [OF 5(2)] show ?thesis
      by (intro timer_event [OF timer_on_op [OF 5(4)] 5(5) refs 5(1)]) (simp_all add: not_le)
  qed (simp add: call_moves_same refs)
qed

lemma with_timer_checkpoint_cases:
  assumes "with_timer_checkpoint a db k = Inr (out, db')"
  obtains "db' = db" "\<And>s. out \<noteq> Claimed s"
  | r x where "select_workflow db (the (fa_workflow_id a)) = Some r" "\<not> stale_fence a {2} r"
    "find_checkpoint db (the (fa_workflow_id a)) (the (ja_seq a)) = Some x" "k_reversal_state x = 1"
    "k_reverse_invocation_id x \<noteq> None" "top_seq db (the (fa_workflow_id a)) = Some (the (ja_seq a))"
    "k (the (fa_workflow_id a)) r x = Inr (out, db')"
  using assms by (auto simp: with_timer_checkpoint_def with_workflow_def split: option.split_asm if_split_asm)

lemma pending_reverse_moves:
  assumes refs: "references_ok db" and run: "sp_checkpoint_pending_defer ce a db = Inr (out, db')"
  shows "call_moves (Pending_Reverse a) out db db'"
proof -
  let ?wid = "the (fa_workflow_id a)" and ?ts = "the (ja_event_ts a)" and ?n = "the (ja_seq a)"
    and ?now = "the (ja_db_now a)" and ?due = "the (ja_next_attempt_at a)"
  from run consider "db' = db" "\<And>s. out \<noteq> Claimed s"
    | r where "select_workflow db ?wid = Some r" "\<not> stale_fence a {2} r"
      "update_checkpoint ce ?wid ?n (redispatched_checkpoint ?now) db = Inr db'" "\<And>s. out \<noteq> Claimed s"
    | r db1 payload where "select_workflow db ?wid = Some r" "\<not> stale_fence a {2} r" "\<not> ?ts \<le> w_current_event_ts r"
      "update_checkpoint ce ?wid ?n (redispatched_checkpoint ?now) db = Inr db1"
      "publish ce ?wid (touched_row ?ts ?now) (event_of ?wid ?ts ''pending_redispatch'' (fa_executor a) payload) db1 = Inr db'"
      "\<And>s. out \<noteq> Claimed s"
    | r db1 where "select_workflow db ?wid = Some r" "\<not> stale_fence a {2} r"
      "update_checkpoint ce ?wid ?n (anchored_checkpoint ?now) db = Inr db1"
      "update_workflow ce ?wid (deferred_row ?due (w_current_event_ts r) ?now) db1 = Inr db'" "\<And>s. out \<noteq> Claimed s"
    | r db1 payload where "select_workflow db ?wid = Some r" "\<not> stale_fence a {2} r" "\<not> ?ts \<le> w_current_event_ts r"
      "update_checkpoint ce ?wid ?n (anchored_checkpoint ?now) db = Inr db1"
      "publish ce ?wid (deferred_row ?due ?ts ?now) (event_of ?wid ?ts ''pending_deferred'' (fa_executor a) payload) db1 = Inr db'"
      "\<And>s. out \<noteq> Claimed s"
    unfolding sp_checkpoint_pending_defer_def
    by (auto simp: Let_def elim!: bind_res_InrE with_timer_checkpoint_cases split: if_split_asm)
  then show ?thesis
  proof cases
    case (2 r)
    with stale_fenceD(4) [OF 2(2)] show ?thesis by (intro timer_alone [OF timer_on_cp [OF 2(3)] refs 2(1)]) simp_all
  next
    case (3 r db1 payload)
    with stale_fenceD(4) [OF 3(2)] show ?thesis
      by (intro timer_event [OF timer_on_cp [OF 3(4)] 3(5) refs 3(1)]) (simp_all add: not_le)
  next
    case (4 r db1)
    with stale_fenceD(4) [OF 4(2)] show ?thesis by (intro timer_row [OF timer_on_cp [OF 4(3)] 4(4) refs 4(1)]) simp_all
  next
    case (5 r db1 payload)
    with stale_fenceD(4) [OF 5(2)] show ?thesis
      by (intro timer_event [OF timer_on_cp [OF 5(4)] 5(5) refs 5(1)]) (simp_all add: not_le)
  qed (simp add: call_moves_same refs)
qed

section \<open>The budget of a compensation\<close>

lemma life_reverse_block:
  assumes "w_state (v_row v) = 2" and "keeps_lease (v_row v) r'" and "w_current_event_ts (v_row v) < e_event_ts e"
    and "w_current_event_ts r' = e_event_ts e" and "\<And>k. cp_key (f k) = cp_key k"
    and k: "k \<in> set (v_cps v)" "active k" "\<forall>y \<in> set (v_cps v). active y \<longrightarrow> k_seq y \<le> k_seq k"
      "k_reverse_invocation_id k \<noteq> None"
    and "same_life ((v_row v)\<lparr>w_state := 3, w_current_disposition := d\<rparr>) r'" and "w_lease_owner r' = None"
  shows "life_step None v (v\<lparr>v_row := r', v_cps := map_seq k_seq (k_seq k) (blocked_checkpoint ts)
      (map_seq k_seq (k_seq k) f (v_cps v)), v_evs := v_evs v @ [e]\<rparr>)"
proof -
  let ?cps = "map_seq k_seq (k_seq k) f (v_cps v)"
  have f: "k_seq (f y) = k_seq y" "active (f y) = active y" "k_reverse_invocation_id (f y) = k_reverse_invocation_id y" for y
    using assms(5) [of y] by (simp_all add: cp_key_def active_def)
  have "f k \<in> set ?cps" using k(1) by (force simp: map_seq_def)
  moreover have "\<forall>y \<in> set ?cps. active y \<longrightarrow> k_seq y \<le> k_seq (f k)" using k(3) by (auto simp: map_seq_def f)
  ultimately have "life_step None v (v\<lparr>v_row := r', v_cps := map_seq k_seq (k_seq (f k)) (blocked_checkpoint ts) ?cps,
      v_evs := v_evs v @ [e]\<rparr>)"
    using assms k(2,4) by (intro life_step.block_reverse [where d = d]) (simp_all add: same_cps_map_seq f)
  then show ?thesis by (simp only: f(1))
qed

lemma reconcile_reverse_moves:
  assumes refs: "references_ok db" and run: "sp_checkpoint_reconcile_defer ce a db = Inr (out, db')"
  shows "call_moves (Reconcile_Reverse a) out db db'"
proof -
  let ?wid = "the (fa_workflow_id a)" and ?ts = "the (ja_event_ts a)" and ?n = "the (ja_seq a)"
    and ?now = "the (ja_db_now a)" and ?due = "the (ja_next_attempt_at a)"
  from run consider "db' = db" "\<And>s. out \<noteq> Claimed s"
    | r db1 where "select_workflow db ?wid = Some r" "\<not> stale_fence a {2} r"
      "update_checkpoint ce ?wid ?n (budget_checkpoint ?now) db = Inr db1"
      "update_workflow ce ?wid (deferred_row ?due (w_current_event_ts r) ?now) db1 = Inr db'" "\<And>s. out \<noteq> Claimed s"
    | r db1 payload where "select_workflow db ?wid = Some r" "\<not> stale_fence a {2} r" "\<not> ?ts \<le> w_current_event_ts r"
      "update_checkpoint ce ?wid ?n (budget_checkpoint ?now) db = Inr db1"
      "publish ce ?wid (deferred_row ?due ?ts ?now) (event_of ?wid ?ts ''participant_route_404'' (fa_executor a) payload) db1 = Inr db'"
      "\<And>s. out \<noteq> Claimed s"
    | r k db1 db2 payload where "select_workflow db ?wid = Some r" "\<not> stale_fence a {2} r" "\<not> ?ts \<le> w_current_event_ts r"
      "find_checkpoint db ?wid ?n = Some k" "k_reversal_state k = 1" "k_reverse_invocation_id k \<noteq> None" "top_seq db ?wid = Some ?n"
      "update_checkpoint ce ?wid ?n (budget_checkpoint ?now) db = Inr db1"
      "update_checkpoint ce ?wid ?n (blocked_checkpoint ?ts) db1 = Inr db2"
      "publish ce ?wid (reverse_route_unknown_row ce ?n ?ts)
        (event_of ?wid ?ts ''participant_route_unknown'' (fa_executor a) payload) db2 = Inr db'" "\<And>s. out \<noteq> Claimed s"
    unfolding sp_checkpoint_reconcile_defer_def
    by (auto simp: Let_def elim!: bind_res_InrE with_timer_checkpoint_cases split: if_split_asm)
  then show ?thesis
  proof cases
    case (2 r db1)
    with stale_fenceD(4) [OF 2(2)] show ?thesis by (intro timer_row [OF timer_on_cp [OF 2(3)] 2(4) refs 2(1)]) simp_all
  next
    case (3 r db1 payload)
    with stale_fenceD(4) [OF 3(2)] show ?thesis
      by (intro timer_event [OF timer_on_cp [OF 3(4)] 3(5) refs 3(1)]) (simp_all add: not_le)
  next
    case (4 r k db1 db2 payload)
    let ?f = "reverse_route_unknown_row ce ?n ?ts"
    let ?e = "event_of ?wid ?ts ''participant_route_unknown'' (fa_executor a) payload"
    let ?g = "\<lambda>v. v\<lparr>v_row := ?f (v_row v), v_cps := map_seq k_seq ?n (blocked_checkpoint ?ts)
      (map_seq k_seq ?n (budget_checkpoint ?now) (v_cps v)), v_evs := v_evs v @ [?e]\<rparr>"
    have f: "w_workflow_id (?f x) = w_workflow_id x" "w_current_event_ts (?f x) = ?ts" "keeps_lease x (?f x)"
      "same_life (x\<lparr>w_state := 3, w_current_disposition := 4\<rparr>) (?f x)" "w_lease_owner (?f x) = None" for x
      by (simp_all add: reverse_route_unknown_row_def keeps_lease_def same_life_def)
    have "effect ?wid ?g db db'"
      using effect_trans [OF effect_trans [OF effect_update_checkpoint [OF 4(8)] effect_update_checkpoint [OF 4(9)]]
        effect_publish [OF 4(10) f(1)]]
      by (simp add: view_write_order blocked_checkpoint_def)
    moreover have "life_step None v (?g v)" if v: "view db ?wid = Some v" "v_row v = r" for v
    proof -
      note k = top_checkpoint [OF v(1) 4(4,7,5)]
      then have "life_step None v (v\<lparr>v_row := ?f (v_row v), v_cps := map_seq k_seq (k_seq k) (blocked_checkpoint ?ts)
          (map_seq k_seq (k_seq k) (budget_checkpoint ?now) (v_cps v)), v_evs := v_evs v @ [?e]\<rparr>)"
        using stale_fenceD [OF 4(2)] 4(3,6) v(2) f by (intro life_reverse_block [where d = 4]) (auto simp: not_le)
      with k show ?thesis by simp
    qed
    ultimately show ?thesis using 4(11) by (intro fenced_moves [where g = ?g, OF _ refs 4(1)]) auto
  qed (simp add: call_moves_same refs)
qed

section \<open>Calls of workflows\<close>

lemma quiet_moves:
  assumes "references_ok db'" and "\<And>u. view db' u = view db u" and "\<And>s. out \<noteq> Claimed s"
  shows "call_moves c out db db'"
proof -
  have "moves None wid db db'" for wid using assms(1,2) by (simp add: moves_def evolves.unchanged)
  with assms(3) show ?thesis by (intro call_moves_plain)
qed

lemma insert_call_view:
  assumes "insert_call c db = Inr db'"
  shows "view db' u = view db u" and "references_ok db \<Longrightarrow> references_ok db'"
  using assms by (auto simp: insert_call_def view_def select_workflow_def select_plan_def references_ok_def split: if_splits)

lemma update_call_view:
  assumes "update_call wid n f db = Inr db'"
  shows "view db' u = view db u" and "references_ok db \<Longrightarrow> references_ok db'"
  using assms by (auto simp: update_call_def view_def select_workflow_def select_plan_def references_ok_def split: if_splits)

lemma refresh_hint_view:
  assumes "refresh_hint status ts c db = Inr db'"
  shows "view db' u = view db u" and "references_ok db \<Longrightarrow> references_ok db'"
  using assms update_call_view [of "c_workflow_id c" "c_operation_seq c" "hinted_call status ts" db db']
  by (auto simp: refresh_hint_def split: if_splits)

lemma hint_refresh_moves:
  assumes refs: "references_ok db" and run: "sp_call_hint_refresh a db = Inr (out, db')"
  shows "call_moves (Refresh_Hint a) out db db'"
proof -
  from run consider "db' = db" "\<And>s. out \<noteq> Claimed s"
    | status ts c where "refresh_hint status ts c db = Inr db'" "\<And>s. out \<noteq> Claimed s"
    by (auto simp: sp_call_hint_refresh_def elim!: bind_res_InrE split: option.split_asm)
  then show ?thesis
  proof cases
    case (2 status ts c)
    with refresh_hint_view [OF 2(1)] refs show ?thesis by (intro quiet_moves) simp_all
  qed (simp add: call_moves_same refs)
qed

lemma notify_moves:
  assumes refs: "references_ok db" and run: "sp_child_terminal_notify ce a db = Inr (out, db')"
  shows "call_moves (Notify_Parent a) out db db'"
proof -
  let ?f = "woken_row (the (no_event_ts a))"
  from run consider "db' = db" "\<And>s. out \<noteq> Claimed s"
    | status ts c db1 where "refresh_hint status ts c db = Inr db1" "update_workflow ce (c_workflow_id c) ?f db1 = Inr db'"
      "\<And>s. out \<noteq> Claimed s"
    by (auto simp: sp_child_terminal_notify_def elim!: bind_res_InrE split: option.split_asm)
  then show ?thesis
  proof cases
    case (2 status ts c db1)
    let ?wid = "c_workflow_id c"
    note hint = refresh_hint_view [OF 2(1)]
    have woken: "w_workflow_id (?f r) = w_workflow_id r" for r by (simp add: woken_row_def)
    note row = update_workflow_view [OF 2(2) woken]
    have "evolves None (view db ?wid) (view db' ?wid)"
    proof (cases "view db ?wid")
      case None
      then show ?thesis by (simp add: row(1) hint(1) evolves.unchanged del: view_None)
    next
      case (Some v)
      have "life_step None v (v\<lparr>v_row := ?f (v_row v)\<rparr>)" unfolding woken_row_def by (rule life_step.wake)
      with Some show ?thesis by (simp add: row(1) hint(1) evolves.stepped)
    qed
    moreover have "view db' u = view db u" if "u \<noteq> ?wid" for u
      using that by (simp add: row(1) hint(1) option.map_ident)
    moreover have "references_ok db'" by (rule row(2) [OF hint(2) [OF refs]])
    ultimately have "moves None ?wid db db'" by (simp add: moves_def)
    with 2(3) show ?thesis by (intro call_moves_plain)
  qed (simp add: call_moves_same refs)
qed

lemma call_checkpoint_undo:
  assumes "view db wid = Some v" and "is_call_checkpoint db wid n" and "find_checkpoint db wid n = Some k"
  shows "undo_known (v_ops v) k"
  using assms(2) find_operation_view(1) [OF assms(1), of n] find_checkpoint_view [OF assms(1,3)]
  by (auto simp: is_call_checkpoint_def undo_known_def split: option.split_asm)

lemma child_settle_moves:
  assumes refs: "references_ok db" and run: "sp_checkpoint_reverse_child_settle ce a db = Inr (out, db')"
  shows "call_moves (Settle_Child a) out db db'"
proof -
  let ?wid = "the (fa_workflow_id a)" and ?ts = "the (ch_event_ts a)" and ?n = "the (ch_seq a)"
  from run consider "db' = db" "\<And>s. out \<noteq> Claimed s"
    | r k db1 f payload where "select_workflow db ?wid = Some r" "\<not> stale_fence a {2} r" "\<not> ?ts \<le> w_current_event_ts r"
      "find_checkpoint db ?wid ?n = Some k" "k_reversal_state k = 1" "top_seq db ?wid = Some ?n" "is_call_checkpoint db ?wid ?n"
      "update_checkpoint ce ?wid ?n (reversed_checkpoint ?ts) db = Inr db1"
      "publish ce ?wid f (event_of ?wid ?ts ''compensation_settled'' (fa_executor a) payload) db1 = Inr db'"
      "top_seq db1 ?wid = None \<and> f = reversed_row ce ?ts \<or>
        (\<exists>below. top_seq db1 ?wid = Some below \<and> f = advance (reverse_cursor ce ''reverse'' below) ?ts)" "\<And>s. out \<noteq> Claimed s"
    by (auto simp: sp_checkpoint_reverse_child_settle_def with_workflow_def Let_def
        elim!: bind_res_InrE split: option.split_asm if_split_asm)
  then show ?thesis
  proof cases
    case (2 r k db1 f payload)
    then show ?thesis
      by (intro checkpoint_settled_moves [OF refs 2(1-6) _ 2(8-11)]) (rule call_checkpoint_undo)
  qed (simp add: call_moves_same refs)
qed

lemma effect_other: "effect wid g db db' \<Longrightarrow> u \<noteq> wid \<Longrightarrow> view db' u = view db u"
  by (simp add: effect_def option.map_ident)

lemma effect_here: "effect wid g db db' \<Longrightarrow> view db wid = Some v \<Longrightarrow> view db' wid = Some (g v)"
  by (simp add: effect_def)

lemma effect_refs: "effect wid g db db' \<Longrightarrow> references_ok db \<Longrightarrow> references_ok db'"
  by (simp add: effect_def)

lemma child_workflow_simps [simp]:
  "w_workflow_id (child_workflow a r) = the (ea_child_workflow_id a)"
  "w_current_event_ts (child_workflow a r) = the (ea_event_ts a)"
  by (simp_all add: child_workflow_def new_workflow_def)

lemma call_operation_simps [simp]:
  "o_workflow_id (call_operation a) = the (fa_workflow_id a)" "o_operation_seq (call_operation a) = the (ea_operation_seq a)"
  "o_operation_id (call_operation a) = the (ea_operation_id a)" "o_status (call_operation a) = 1"
  by (simp_all add: call_operation_def)

lemma submit_writes_cases:
  assumes "submit_writes ce a wid r db = Inr db'"
  obtains db1 db2 db3 db4 db5 db6 p t where
    "insert_operation ce (call_operation a) db = Inr db1" "insert_workflow ce (child_workflow a r) db1 = Inr db2"
    "insert_plan ce p db2 = Inr db3" "p_workflow_id p = the (ea_child_workflow_id a)"
    "insert_args t db3 = Inr db4"
    "insert_workflow_event ce (event_of (the (ea_child_workflow_id a)) (the (ea_event_ts a)) ''created'' None
      (the (ea_child_event_payload a))) db4 = Inr db5"
    "insert_call (submitted_call a) db5 = Inr db6"
    "publish ce wid (advance (the (ea_new_continuation a)) (the (ea_event_ts a)))
      (event_of wid (the (ea_event_ts a)) ''call_submitted'' (fa_executor a) (the (ea_event_payload a))) db6 = Inr db'"
  using assms unfolding submit_writes_def Let_def by (elim bind_res_InrE) auto

text \<open>The parent requests its operation, the child is born.\<close>

lemma submit_writes_moves:
  assumes refs: "references_ok db" and v: "view db wid = Some v" and wid: "the (fa_workflow_id a) = wid"
    and run: "submit_writes ce a wid (v_row v) db = Inr db'"
    and v_step: "\<And>e :: event_row. e_event_ts e = the (ea_event_ts a) \<Longrightarrow>
      \<forall>y \<in> set (v_ops v). o_operation_seq y \<noteq> o_operation_seq (call_operation a) \<and>
        o_operation_id y \<noteq> o_operation_id (call_operation a) \<Longrightarrow>
      life_step None v (v\<lparr>v_row := advance (the (ea_new_continuation a)) (the (ea_event_ts a)) (v_row v),
        v_ops := v_ops v @ [call_operation a], v_evs := v_evs v @ [e]\<rparr>)"
  shows "moves_both wid (the (ea_child_workflow_id a)) db db'"
  using run
proof (rule submit_writes_cases)
  fix db1 db2 db3 db4 db5 db6 p t
  let ?child = "the (ea_child_workflow_id a)" and ?ts = "the (ea_event_ts a)"
  let ?ce = "event_of ?child ?ts ''created'' None (the (ea_child_event_payload a))"
    and ?pe = "event_of wid ?ts ''call_submitted'' (fa_executor a) (the (ea_event_payload a))"
  assume 1: "insert_operation ce (call_operation a) db = Inr db1" and 2: "insert_workflow ce (child_workflow a (v_row v)) db1 = Inr db2"
    and 3: "insert_plan ce p db2 = Inr db3" "p_workflow_id p = ?child" and 4: "insert_args t db3 = Inr db4"
    and 5: "insert_workflow_event ce ?ce db4 = Inr db5" and 6: "insert_call (submitted_call a) db5 = Inr db6"
    and 7: "publish ce wid (advance (the (ea_new_continuation a)) ?ts) ?pe db6 = Inr db'"
  have op: "effect wid (\<lambda>v. v\<lparr>v_ops := v_ops v @ [call_operation a]\<rparr>) db db1"
    by (rule effect_insert_operation [OF 1]) (simp add: wid)
  note w = insert_workflow_view [OF 2 effect_refs [OF op refs], unfolded child_workflow_simps]
  note plan = insert_plan_view [OF 3(1)] and args = insert_args_view [OF 4] and ev = insert_event_view [OF 5]
    and call = insert_call_view [OF 6]
  have pub: "effect wid (\<lambda>v. v\<lparr>v_row := advance (the (ea_new_continuation a)) ?ts (v_row v), v_evs := v_evs v @ [?pe]\<rparr>) db6 db'"
    by (rule effect_publish [OF 7]) simp_all
  have here: "view db1 wid = Some (v\<lparr>v_ops := v_ops v @ [call_operation a]\<rparr>)" by (rule effect_here [OF op v])
  have neq: "wid \<noteq> ?child" using w(2) here by (metis option.distinct(1))
  have mid: "view db6 u = (if u = ?child
      then Some \<lparr>v_row = child_workflow a (v_row v), v_plan = Some (p_plan_length p), v_ops = [], v_cps = [], v_evs = [?ce]\<rparr>
      else view db1 u)" for u
    by (simp add: call(1) ev(1) args(2) plan(3) w(3) 3(2) option.map_comp o_def option.map_ident)
  have "references_ok db'" by (intro effect_refs [OF pub] call(2) ev(2) args(1) plan(1) w(1))
  moreover have "evolves None (view db wid) (view db' wid)"
  proof -
    have fresh: "\<forall>y \<in> set (v_ops v). o_operation_seq y \<noteq> o_operation_seq (call_operation a) \<and>
        o_operation_id y \<noteq> o_operation_id (call_operation a)"
      using insert_operation_view(3) [OF 1] view_ops [OF v] wid by auto
    have "view db' wid = Some (v\<lparr>v_row := advance (the (ea_new_continuation a)) ?ts (v_row v),
        v_ops := v_ops v @ [call_operation a], v_evs := v_evs v @ [?pe]\<rparr>)"
      using effect_here [OF pub, of "v\<lparr>v_ops := v_ops v @ [call_operation a]\<rparr>"] mid [of wid] here neq by simp
    then show ?thesis using v_step [OF _ fresh, of ?pe] by (simp add: v evolves.stepped)
  qed
  moreover have "evolves None (view db ?child) (view db' ?child)"
  proof -
    have "view db ?child = None" using w(2) effect_other [OF op, of ?child] neq by simp
    moreover have "view db' ?child = Some \<lparr>v_row = child_workflow a (v_row v), v_plan = Some (p_plan_length p), v_ops = [],
        v_cps = [], v_evs = [?ce]\<rparr>"
      using effect_other [OF pub, of ?child] mid [of ?child] neq by simp
    ultimately show ?thesis
      using plan(2) by (simp add: evolves.created born_def child_workflow_def new_workflow_def del: view_None)
  qed
  moreover have "view db' u = view db u" if "u \<notin> {wid, ?child}" for u
    using that effect_other [OF pub, of u] mid [of u] effect_other [OF op, of u] by simp
  ultimately show ?thesis using neq by (simp add: moves_both_def)
qed

lemma submit_moves:
  assumes refs: "references_ok db" and run: "sp_call_submit ce a db = Inr (out, db')"
  shows "call_moves (Submit_Call a) out db db'"
proof -
  let ?wid = "the (fa_workflow_id a)" and ?ts = "the (ea_event_ts a)" and ?n = "the (ea_operation_seq a)"
  have not_claimed: "resubmitted ce a d wid x \<noteq> Claimed s" for d wid x s
    by (simp add: resubmitted_def split: option.split)
  from run consider "db' = db" "\<And>s. out \<noteq> Claimed s"
    | r where "select_workflow db ?wid = Some r" "\<not> stale_fence a {1} r" "\<not> ?ts \<le> w_current_event_ts r"
      "request_plan_violation db ?wid ?n = None" "at_least 1 (ea_operation_seq a)"
      "submit_writes ce a ?wid r db = Inr db'" "\<And>s. out \<noteq> Claimed s"
    by (auto simp: not_claimed sp_call_submit_def with_workflow_def Let_def guards_Inr submit_guards_def fence_guards_def
        elim!: bind_res_InrE split: option.split_asm if_split_asm)
  then show ?thesis
  proof cases
    case (2 r)
    from view_of_row [OF 2(1)] obtain v where v: "view db ?wid = Some v" "v_row v = r" by blast
    have "moves_both ?wid (the (ea_child_workflow_id a)) db db'"
    proof (rule submit_writes_moves [OF refs v(1) refl])
      show "submit_writes ce a ?wid (v_row v) db = Inr db'" using 2(6) v(2) by simp
      fix e :: event_row
      assume e: "e_event_ts e = ?ts" and fresh: "\<forall>y \<in> set (v_ops v).
        o_operation_seq y \<noteq> o_operation_seq (call_operation a) \<and> o_operation_id y \<noteq> o_operation_id (call_operation a)"
      show "life_step None v (v\<lparr>v_row := advance (the (ea_new_continuation a)) ?ts (v_row v),
          v_ops := v_ops v @ [call_operation a], v_evs := v_evs v @ [e]\<rparr>)"
      proof (rule life_step.request [OF _ _ _ _ _ _ _ fresh])
        show "1 \<le> o_operation_seq (call_operation a)" using 2(5) by (auto simp: at_least_def split: option.splits)
        show "\<forall>n. v_plan v = Some n \<longrightarrow> o_operation_seq (call_operation a) \<le> n \<and> (o_operation_seq (call_operation a) = 1 \<or>
            (\<exists>y \<in> set (v_ops v). o_operation_seq y = o_operation_seq (call_operation a) - 1 \<and> o_status y = 2))"
          using request_in_plan [OF v(1) 2(4)] by simp
      qed (use stale_fenceD [OF 2(2)] 2(3) v(2) e in \<open>simp_all add: not_le\<close>)
    qed
    with 2(7) show ?thesis by (auto simp: call_moves_def)
  qed (simp add: call_moves_same refs)
qed

lemma reopened_row_simps [simp]:
  "w_workflow_id (reopened_row ce n ts r) = w_workflow_id r" "w_current_event_ts (reopened_row ce n ts r) = ts"
  by (simp_all add: reopened_row_def)

text \<open>The parent's log and the child's reopening move together.\<close>

lemma reopen_moves:
  assumes refs: "references_ok db" and run: "sp_checkpoint_reverse_child_reopen ce a db = Inr (out, db')"
  shows "call_moves (Reopen_Child a) out db db'"
proof -
  let ?wid = "the (fa_workflow_id a)" and ?ts = "the (ch_event_ts a)"
  from run consider "db' = db" "\<And>s. out \<noteq> Claimed s"
    | r child k n where "select_workflow db ?wid = Some r" "\<not> stale_fence a {2} r"
      "select_workflow db (child) = Some k" "w_state k = 4" "top_seq db (child) = Some n"
      "\<not> ?ts \<le> w_current_event_ts r" "\<not> ?ts \<le> w_current_event_ts k"
      "reopen_writes ce a ?wid (child) n db = Inr db'" "\<And>s. out \<noteq> Claimed s"
    by (auto simp: sp_checkpoint_reverse_child_reopen_def with_workflow_def Let_def
        elim!: bind_res_InrE split: option.split_asm if_split_asm)
  then show ?thesis
  proof cases
    case (2 r child k n)
    have "w_state r = 2" using stale_fenceD(4) [OF 2(2)] by simp
    with 2(1,3,4) have neq: "?wid \<noteq> child" by auto
    from 2(8) obtain db1 pay1 pay2 where
      1: "publish ce ?wid (touched_row ?ts ?ts) (event_of ?wid ?ts ''compensation_requested'' (fa_executor a) pay1) db = Inr db1"
      and p2: "publish ce child (reopened_row ce n ?ts)
        (event_of child ?ts ''compensation_requested_by_parent'' (fa_executor a) pay2) db1 = Inr db'"
      by (auto simp: reopen_writes_def Let_def elim!: bind_res_InrE)
    let ?e1 = "event_of ?wid ?ts ''compensation_requested'' (fa_executor a) pay1"
      and ?e2 = "event_of child ?ts ''compensation_requested_by_parent'' (fa_executor a) pay2"
    have eff1: "effect ?wid (\<lambda>v. v\<lparr>v_row := touched_row ?ts ?ts (v_row v), v_evs := v_evs v @ [?e1]\<rparr>) db db1"
      by (rule effect_publish [OF 1]) simp_all
    have eff2: "effect child (\<lambda>v. v\<lparr>v_row := reopened_row ce n ?ts (v_row v), v_evs := v_evs v @ [?e2]\<rparr>) db1 db'"
      by (rule effect_publish [OF p2]) simp_all
    from view_of_row [OF 2(1)] obtain v where v: "view db ?wid = Some v" "v_row v = r" by blast
    from view_of_row [OF 2(3)] obtain u where u: "view db child = Some u" "v_row u = k" by blast
    have "evolves None (view db ?wid) (view db' ?wid)"
    proof -
      have "life_step None v (v\<lparr>v_row := touched_row ?ts ?ts (v_row v), v_evs := v_evs v @ [?e1]\<rparr>)"
        using \<open>w_state r = 2\<close> 2(6) v(2) by (intro life_put_off) (simp_all add: not_le)
      then show ?thesis
        using effect_other [OF eff2 neq] effect_here [OF eff1 v(1)] by (simp add: v(1) evolves.stepped)
    qed
    moreover have "evolves None (view db child) (view db' child)"
    proof -
      have "life_step None u (u\<lparr>v_row := reopened_row ce n ?ts (v_row u), v_evs := v_evs u @ [?e2]\<rparr>)"
        using 2(4,7) u(2) top_seq_view(2) [OF u(1), of n] 2(5)
        by (intro life_step.reopen [where reason = "lit ''parent_compensation''"])
           (auto simp: not_le reopened_row_def same_life_def)
      moreover have "view db1 child = Some u" using effect_other [OF eff1, of child] neq u(1) by simp
      ultimately show ?thesis using effect_here [OF eff2] by (simp add: u(1) evolves.stepped)
    qed
    moreover have "references_ok db'" by (rule effect_refs [OF eff2 effect_refs [OF eff1 refs]])
    moreover have "view db' x = view db x" if "x \<notin> {?wid, child}" for x
      using that effect_other [OF eff1, of x] effect_other [OF eff2, of x] by simp
    ultimately have "moves_both ?wid child db db'" using neq by (simp add: moves_both_def)
    with 2(9) show ?thesis by (auto simp: call_moves_def)
  qed (simp add: call_moves_same refs)
qed

section \<open>Every call\<close>

lemma run_call_moves:
  assumes "references_ok db" and "coord_run_call ce c db = Inr (out, db')"
  shows "call_moves c out db db'"
  using assms
  by (cases c) (simp_all add: create_moves create_planned_moves claim_moves claim_by_id_moves heartbeat_moves release_moves
      request_moves settle_moves fail_moves dispatch_defer_moves reconcile_defer_moves begin_reversal_moves
      authored_fail_moves reverse_request_moves reverse_settle_moves reverse_block_moves pending_defer_moves
      pending_reverse_moves reconcile_reverse_moves submit_moves hint_refresh_moves notify_moves reopen_moves child_settle_moves)

end
