(* ===== verification/Coord_Safety.thy ===== *)
theory Coord_Safety
  imports Coord_Refine_Calls Traces
begin

text \<open>
  What the lifecycle keeps, and with it every run of the coordinator's procedures: the events of
  a workflow are in strict chronological order, an operation is settled exactly when it has its
  checkpoint, the checkpoint stack is compensated from the top and completely, a plan is
  followed to its end, and only the holder of the newest grant can publish.
\<close>

section \<open>The invariants of a workflow\<close>

definition chronology_ok :: "wf_view \<Rightarrow> bool" where
  "chronology_ok v \<longleftrightarrow>
     v_evs v \<noteq> [] \<and> sorted_wrt (<) (map e_event_ts (v_evs v)) \<and>
     e_event_ts (last (v_evs v)) = w_current_event_ts (v_row v)"

text \<open>An operation is settled exactly when a checkpoint bears its id.\<close>

definition settled_ok :: "operation_row list \<Rightarrow> checkpoint_row list \<Rightarrow> bool" where
  "settled_ok ops cps \<longleftrightarrow>
     distinct (map o_operation_seq ops) \<and> distinct (map o_operation_id ops) \<and>
     distinct (map k_seq cps) \<and> distinct (map k_operation_id cps) \<and>
     (\<forall>x \<in> set ops. o_status x = 2 \<longleftrightarrow> o_operation_id x \<in> set (map k_operation_id cps)) \<and>
     set (map k_operation_id cps) \<subseteq> set (map o_operation_id ops)"

text \<open>The stack: what is compensated lies above what is not, and the state says how far it went.\<close>

definition compensated :: "checkpoint_row \<Rightarrow> bool" where
  "compensated k \<longleftrightarrow> k_reversal_state k = 2"

definition stuck_checkpoint :: "checkpoint_row \<Rightarrow> bool" where
  "stuck_checkpoint k \<longleftrightarrow> k_reversal_state k = 3"

definition stack_ok :: "int \<Rightarrow> checkpoint_row list \<Rightarrow> bool" where
  "stack_ok st ks \<longleftrightarrow>
     (\<forall>k \<in> set ks. active k \<or> compensated k \<or> stuck_checkpoint k) \<and>
     (\<forall>k \<in> set ks. \<forall>k' \<in> set ks. active k \<longrightarrow> \<not> active k' \<longrightarrow> k_seq k < k_seq k') \<and>
     (\<forall>k \<in> set ks. \<forall>k' \<in> set ks. stuck_checkpoint k \<longrightarrow> compensated k' \<longrightarrow> k_seq k < k_seq k') \<and>
     (st \<in> {1, 4} \<longrightarrow> (\<forall>k \<in> set ks. active k \<and> k_reverse_invocation_id k = None)) \<and>
     (st = 2 \<longrightarrow> (\<exists>k \<in> set ks. active k)) \<and>
     (st \<noteq> 3 \<longrightarrow> (\<forall>k \<in> set ks. \<not> stuck_checkpoint k)) \<and>
     (st = 5 \<longrightarrow> (\<forall>k \<in> set ks. compensated k)) \<and>
     (st = 7 \<longrightarrow> ks = []) \<and> st \<in> {1, 2, 3, 4, 5, 7}"

text \<open>What is compensated or stuck has its undoing on record.\<close>

definition undone_ok :: "operation_row list \<Rightarrow> checkpoint_row list \<Rightarrow> bool" where
  "undone_ok ops ks \<longleftrightarrow> (\<forall>k \<in> set ks. \<not> active k \<longrightarrow> undo_known ops k)"

text \<open>A pinned plan: its operations are requested one after the other, and completing means all are settled.\<close>

definition plan_ok :: "int option \<Rightarrow> int \<Rightarrow> operation_row list \<Rightarrow> bool" where
  "plan_ok plan st ops \<longleftrightarrow>
     (\<forall>n. plan = Some n \<longrightarrow>
        map o_operation_seq ops = [1..int (length ops)] \<and> int (length ops) \<le> n \<and>
        (\<forall>x \<in> set (butlast ops). o_status x = 2) \<and>
        (st = 4 \<longrightarrow> int (length ops) = n \<and> (\<forall>x \<in> set ops. o_status x = 2)))"

definition lease_ok :: "wf_view \<Rightarrow> bool" where
  "lease_ok v \<longleftrightarrow> (w_state (v_row v) \<notin> {1, 2} \<longrightarrow> w_lease_owner (v_row v) = None)"

section \<open>They are kept\<close>

lemma chronology_append:
  assumes "chronology_ok v" and "w_current_event_ts (v_row v) < e_event_ts e" and "w_current_event_ts r' = e_event_ts e"
    and "v_evs v' = v_evs v @ [e]" and "v_row v' = r'"
  shows "chronology_ok v'"
  using assms by (cases "v_evs v" rule: rev_cases) (auto simp: chronology_ok_def sorted_wrt_append intro: less_trans)

lemma life_chronology: "life_step l v v' \<Longrightarrow> chronology_ok v \<Longrightarrow> chronology_ok v'"
proof (induction rule: life_step.induct)
  case (claim v r' ex)
  then show ?case by (simp add: chronology_ok_def)
next
  case (lease v r' ops' cps')
  then show ?case by (simp add: chronology_ok_def)
next
  case (wake v due)
  then show ?case by (simp add: chronology_ok_def)
qed (simp_all add: chronology_append)

lemma life_lease_ok: "life_step l v v' \<Longrightarrow> lease_ok v \<Longrightarrow> lease_ok v'"
  by (induction rule: life_step.induct) (auto simp: lease_ok_def same_life_def split: if_splits)

lemma map_seq_simps [simp]:
  "set (map_seq seq n f xs) = (\<lambda>x. if seq x = n then f x else x) ` set xs" "length (map_seq seq n f xs) = length xs"
  by (simp_all add: map_seq_def)

lemma map_map_seq: "(\<And>x. g (f x) = g x) \<Longrightarrow> map g (map_seq seq n f xs) = map g xs"
  by (simp add: map_seq_def)

text \<open>The invariants read nothing of a row but its key.\<close>

lemma same_ops_cong:
  fixes P :: "operation_row list \<Rightarrow> bool" and x0 :: operation_row
  assumes "same_ops xs ys" and "\<And>zs. P (map (\<lambda>x. x0\<lparr>o_operation_seq := o_operation_seq x, o_operation_id := o_operation_id x,
      o_status := o_status x, o_call_kind := o_call_kind x\<rparr>) zs) = P zs"
  shows "P ys = P xs"
proof -
  let ?row = "\<lambda>(n, i, st, kind). x0\<lparr>o_operation_seq := n, o_operation_id := i, o_status := st, o_call_kind := kind\<rparr>"
  have "map ?row (map op_key ys) = map ?row (map op_key xs)" using assms(1) by (simp add: same_ops_def)
  then have "P (map (?row \<circ> op_key) ys) = P (map (?row \<circ> op_key) xs)" by simp
  then show ?thesis using assms(2) by (simp add: op_key_def o_def)
qed

lemma same_cps_cong:
  fixes P :: "checkpoint_row list \<Rightarrow> bool" and k0 :: checkpoint_row
  assumes "same_cps xs ys" and "\<And>zs. P (map (\<lambda>k. k0\<lparr>k_seq := k_seq k, k_operation_id := k_operation_id k,
      k_reversal_state := k_reversal_state k, k_reverse_invocation_id := k_reverse_invocation_id k\<rparr>) zs) = P zs"
  shows "P ys = P xs"
proof -
  let ?row = "\<lambda>(n, i, st, rid). k0\<lparr>k_seq := n, k_operation_id := i, k_reversal_state := st, k_reverse_invocation_id := rid\<rparr>"
  have "map ?row (map cp_key ys) = map ?row (map cp_key xs)" using assms(1) by (simp add: same_cps_def)
  then have "P (map (?row \<circ> cp_key) ys) = P (map (?row \<circ> cp_key) xs)" by simp
  then show ?thesis using assms(2) by (simp add: cp_key_def o_def)
qed

lemma same_refl [simp]: "same_ops ops ops" "same_cps ks ks"
  by (simp_all add: same_ops_def same_cps_def)

lemma same_cps_seqs: "same_cps ks ks' \<Longrightarrow> map k_seq ks' = map k_seq ks"
proof -
  assume "same_cps ks ks'"
  then have "map fst (map cp_key ks') = map fst (map cp_key ks)" by (simp add: same_cps_def)
  then show ?thesis by (simp add: cp_key_def o_def)
qed

lemma settled_ok_same: "settled_ok ops ks \<Longrightarrow> same_ops ops ops' \<Longrightarrow> same_cps ks ks' \<Longrightarrow> settled_ok ops' ks'"
  using same_ops_cong [where P = "\<lambda>ops. settled_ok ops ks'" and xs = ops and ys = ops']
    same_cps_cong [where P = "settled_ok ops" and xs = ks and ys = ks']
  by (simp add: settled_ok_def o_def)

lemma same_stack_ok: "same_cps ks ks' \<Longrightarrow> stack_ok st ks' = stack_ok st ks"
  by (rule same_cps_cong) (auto simp: stack_ok_def active_def compensated_def stuck_checkpoint_def)

lemma undone_ok_same: "undone_ok ops ks \<Longrightarrow> same_ops ops ops' \<Longrightarrow> same_cps ks ks' \<Longrightarrow> undone_ok ops' ks'"
  using same_ops_cong [where P = "\<lambda>ops. undone_ok ops ks'" and xs = ops and ys = ops']
    same_cps_cong [where P = "undone_ok ops" and xs = ks and ys = ks']
  by (simp add: undone_ok_def undo_known_def active_def)

lemma same_plan_ok: "same_ops ops ops' \<Longrightarrow> plan_ok plan st ops' = plan_ok plan st ops"
  by (rule same_ops_cong) (simp_all add: plan_ok_def o_def flip: map_butlast)

lemma settled_ok_request:
  assumes "settled_ok ops cps" and "o_status x = 1"
    and "\<forall>y \<in> set ops. o_operation_seq y \<noteq> o_operation_seq x \<and> o_operation_id y \<noteq> o_operation_id x"
  shows "settled_ok (ops @ [x]) cps"
  using assms unfolding settled_ok_def by (auto simp: image_iff subset_iff)

lemma settled_ok_settle:
  assumes ok: "settled_ok ops cps" and x: "x \<in> set ops" "k_operation_id k = o_operation_id x"
    and k: "\<forall>y \<in> set cps. k_seq y \<noteq> k_seq k \<and> k_operation_id y \<noteq> k_operation_id k"
  shows "settled_ok (map_seq o_operation_seq (o_operation_seq x) (settled_operation a) ops) (cps @ [k])"
proof -
  let ?ops = "map_seq o_operation_seq (o_operation_seq x) (settled_operation a) ops"
  have maps: "map o_operation_id ?ops = map o_operation_id ops" "map o_operation_seq ?ops = map o_operation_seq ops"
    by (simp_all add: map_map_seq settled_operation_def)
  have same: "o_operation_seq y = o_operation_seq x \<longleftrightarrow> o_operation_id y = o_operation_id x" if "y \<in> set ops" for y
    using ok x(1) that by (auto simp: settled_ok_def distinct_map dest: inj_onD)
  have "\<forall>y \<in> set ?ops. o_status y = 2 \<longleftrightarrow> o_operation_id y \<in> set (map k_operation_id (cps @ [k]))"
    using ok same x(2) by (auto simp: settled_ok_def settled_operation_def)
  moreover have "distinct (map k_seq (cps @ [k]))" "distinct (map k_operation_id (cps @ [k]))"
    using ok k by (auto simp: settled_ok_def image_iff)
  moreover have "set (map k_operation_id (cps @ [k])) \<subseteq> set (map o_operation_id ?ops)"
    using ok x unfolding settled_ok_def maps by auto
  ultimately show ?thesis using ok unfolding settled_ok_def maps by blast
qed

lemma settled_ok_cps:
  "map k_seq cps' = map k_seq cps \<Longrightarrow> map k_operation_id cps' = map k_operation_id cps \<Longrightarrow>
     settled_ok ops cps' = settled_ok ops cps"
  by (simp only: settled_ok_def)

lemma life_settled_ok:
  assumes "life_step l v v'" and "settled_ok (v_ops v) (v_cps v)"
  shows "settled_ok (v_ops v') (v_cps v')"
proof -
  have cps: "settled_ok ops (map_seq k_seq n (bound_checkpoint b) cps) = settled_ok ops cps"
    "settled_ok ops (map_seq k_seq n (reversed_checkpoint ts) cps) = settled_ok ops cps"
    "settled_ok ops (map_seq k_seq n (blocked_checkpoint ts) cps) = settled_ok ops cps" for n b ts ops cps
    by (rule settled_ok_cps; simp add: map_map_seq bound_checkpoint_def reversed_checkpoint_def blocked_checkpoint_def)+
  show ?thesis
    using assms
    by (induction rule: life_step.induct)
       (auto simp: cps settled_ok_request settled_ok_settle intro: settled_ok_same)
qed

text \<open>The kinds of a checkpoint exclude one another.\<close>

lemma checkpoint_kinds:
  "active k \<Longrightarrow> \<not> compensated k \<and> \<not> stuck_checkpoint k" "compensated k \<Longrightarrow> \<not> active k \<and> \<not> stuck_checkpoint k"
  by (simp_all add: active_def compensated_def stuck_checkpoint_def)

lemma bound_checkpoint_kinds [simp]:
  "k_seq (bound_checkpoint b k) = k_seq k" "active (bound_checkpoint b k) = active k"
  by (simp_all add: bound_checkpoint_def active_def)

lemma reversed_checkpoint_kinds:
  "k_seq (reversed_checkpoint ts k) = k_seq k" "\<not> active (reversed_checkpoint ts k)"
  "compensated (reversed_checkpoint ts k)"
  "\<not> stuck_checkpoint (reversed_checkpoint ts k)"
  by (simp_all add: reversed_checkpoint_def active_def compensated_def stuck_checkpoint_def)

lemma blocked_checkpoint_kinds:
  "k_seq (blocked_checkpoint ts k) = k_seq k" "\<not> active (blocked_checkpoint ts k)" "\<not> compensated (blocked_checkpoint ts k)"
  "stuck_checkpoint (blocked_checkpoint ts k)"
  by (simp_all add: blocked_checkpoint_def active_def compensated_def stuck_checkpoint_def)

lemma map_seq_at:
  assumes "distinct (map seq ks)" and "k \<in> set ks"
  shows "set (map_seq seq (seq k) f ks) = insert (f k) (set ks - {k})"
proof -
  have other: "seq y \<noteq> seq k" if "y \<in> set ks - {k}" for y
    using assms that by (auto simp: distinct_map dest: inj_onD)
  let ?g = "\<lambda>x. if seq x = seq k then f x else x"
  have "?g ` set ks = ?g ` insert k (set ks - {k})" using assms(2) by (simp add: insert_absorb)
  also have "\<dots> = insert (f k) (?g ` (set ks - {k}))" by (simp only: image_insert if_True refl)
  also have "?g ` (set ks - {k}) = (\<lambda>x. x) ` (set ks - {k})" using other by (intro image_cong) simp_all
  finally show ?thesis by simp
qed

lemma top_strict:
  assumes "distinct (map k_seq ks)" and "k \<in> set ks" and "\<forall>y \<in> set ks. active y \<longrightarrow> k_seq y \<le> k_seq k"
    and "y \<in> set ks - {k}" and "active y"
  shows "k_seq y < k_seq k"
proof -
  have "k_seq y \<noteq> k_seq k" using assms(1,2,4) by (auto simp: distinct_map dest: inj_onD)
  with assms(3-5) show ?thesis by force
qed

lemma stack_ok_bind:
  assumes ok: "stack_ok 2 ks" and seqs: "distinct (map k_seq ks)" and k: "k \<in> set ks" "active k"
  shows "stack_ok 2 (map_seq k_seq (k_seq k) (bound_checkpoint b) ks)"
proof -
  have all: "\<not> active y \<Longrightarrow> compensated y" "\<not> stuck_checkpoint y" if "y \<in> set ks" for y
    using ok that by (auto simp: stack_ok_def)
  have above: "k_seq y < k_seq y'" if "y \<in> set ks" "y' \<in> set ks" "active y" "\<not> active y'" for y y'
    using ok that by (auto simp: stack_ok_def)
  show ?thesis
    unfolding stack_ok_def map_seq_at [OF seqs k(1)]
    using all above k checkpoint_kinds(1) [of "bound_checkpoint b k"] by (auto dest: checkpoint_kinds)
qed

lemma stack_ok_reverse:
  assumes ok: "stack_ok 2 ks" and seqs: "distinct (map k_seq ks)" and k: "k \<in> set ks" "active k"
    and top: "\<forall>y \<in> set ks. active y \<longrightarrow> k_seq y \<le> k_seq k"
  shows "stack_ok (if \<exists>y \<in> set (map_seq k_seq (k_seq k) (reversed_checkpoint ts) ks). active y then 2 else 5)
    (map_seq k_seq (k_seq k) (reversed_checkpoint ts) ks)"
proof -
  note kinds = reversed_checkpoint_kinds
  have all: "\<not> active y \<Longrightarrow> compensated y" "\<not> stuck_checkpoint y" if "y \<in> set ks" for y
    using ok that by (auto simp: stack_ok_def)
  have above: "k_seq y < k_seq y'" if "y \<in> set ks" "y' \<in> set ks" "active y" "\<not> active y'" for y y'
    using ok that by (auto simp: stack_ok_def)
  note below = top_strict [OF seqs k(1) top]
  show ?thesis
    unfolding stack_ok_def map_seq_at [OF seqs k(1)]
    using all above below kinds [where ts = ts and k = k] k
    by (auto dest: checkpoint_kinds)
qed

lemma stack_ok_block:
  assumes ok: "stack_ok 2 ks" and seqs: "distinct (map k_seq ks)" and k: "k \<in> set ks" "active k"
    and top: "\<forall>y \<in> set ks. active y \<longrightarrow> k_seq y \<le> k_seq k"
  shows "stack_ok 3 (map_seq k_seq (k_seq k) (blocked_checkpoint ts) ks)"
proof -
  note kinds = blocked_checkpoint_kinds
  have all: "\<not> active y \<Longrightarrow> compensated y" "\<not> stuck_checkpoint y" if "y \<in> set ks" for y
    using ok that by (auto simp: stack_ok_def)
  have above: "k_seq y < k_seq y'" if "y \<in> set ks" "y' \<in> set ks" "active y" "\<not> active y'" for y y'
    using ok that by (auto simp: stack_ok_def)
  note below = top_strict [OF seqs k(1) top]
  show ?thesis
    unfolding stack_ok_def map_seq_at [OF seqs k(1)]
    using all above below kinds [where ts = ts and k = k] k
    by (auto dest: checkpoint_kinds)
qed

lemma stack_ok_forward:
  "stack_ok 1 ks \<Longrightarrow> st \<in> {1, 3, 4} \<Longrightarrow> stack_ok st ks" "stack_ok 1 ks \<Longrightarrow> \<exists>k \<in> set ks. active k \<Longrightarrow> stack_ok 2 ks"
  "stack_ok 1 ks \<Longrightarrow> \<forall>k \<in> set ks. \<not> active k \<Longrightarrow> stack_ok 7 ks"
  by (auto simp: stack_ok_def dest: checkpoint_kinds)

lemma stack_ok_reopen: "stack_ok 4 ks \<Longrightarrow> \<exists>k \<in> set ks. active k \<Longrightarrow> stack_ok 2 ks"
  by (auto simp: stack_ok_def dest: checkpoint_kinds)

lemma stack_ok_push:
  assumes "stack_ok 1 ks" and "active k" and "k_reverse_invocation_id k = None" and "st \<in> {1, 4}"
  shows "stack_ok st (ks @ [k])"
  using assms by (auto simp: stack_ok_def dest: checkpoint_kinds)

lemma life_stack_ok:
  assumes "life_step l v v'" and "settled_ok (v_ops v) (v_cps v)" and "stack_ok (w_state (v_row v)) (v_cps v)"
  shows "stack_ok (w_state (v_row v')) (v_cps v')"
  using assms
proof (induction rule: life_step.induct)
  case (settle v r' e x k result a)
  then have "w_state r' \<in> {1, 4}" by (auto simp: same_life_def)
  with settle show ?case by (simp add: stack_ok_push)
next
  case (compensate v r' e k b)
  then show ?case by (simp add: stack_ok_bind settled_ok_def same_life_def)
next
  case (reversed v r' e k cps' ts)
  then have "w_state r' = (if \<exists>y \<in> set cps'. active y then 2 else 5)" by (auto simp: same_life_def split: if_splits)
  with reversed show ?case
    using stack_ok_reverse [of "v_cps v" k ts] by (simp add: settled_ok_def)
next
  case (block_reverse v r' e cps' k d ts)
  then have "w_state r' = 3" by (simp add: same_life_def)
  moreover have "distinct (map k_seq cps')"
    using block_reverse same_cps_seqs [of "v_cps v" cps'] by (simp add: settled_ok_def)
  ultimately show ?case using block_reverse stack_ok_block [of cps' k ts] by (simp add: same_stack_ok)
next
  case (reopen v r' e reason)
  then show ?case by (simp add: same_life_def stack_ok_reopen)
qed (auto simp: same_life_def stack_ok_forward same_stack_ok)

lemma butlast_or_last: "x \<in> set xs \<Longrightarrow> x \<in> set (butlast xs) \<or> x = last xs"
  by (cases xs rule: rev_cases) auto

lemma plan_ok_request:
  assumes ok: "plan_ok plan 1 ops" and "1 \<le> o_operation_seq x" and "\<forall>y \<in> set ops. o_operation_seq y \<noteq> o_operation_seq x"
    and "\<forall>n. plan = Some n \<longrightarrow> o_operation_seq x \<le> n \<and> (o_operation_seq x = 1 \<or>
      (\<exists>y \<in> set ops. o_operation_seq y = o_operation_seq x - 1 \<and> o_status y = 2))"
  shows "plan_ok plan 1 (ops @ [x])"
proof (cases plan)
  case (Some n)
  let ?len = "int (length ops)"
  from ok Some have seqs: "map o_operation_seq ops = [1..?len]" and settled: "\<forall>x \<in> set (butlast ops). o_status x = 2"
    by (simp_all add: plan_ok_def)
  have mem: "o_operation_seq ` set ops = {1..?len}" using arg_cong [OF seqs, of set] by simp
  have fresh: "\<not> o_operation_seq x \<le> ?len"
  proof
    assume "o_operation_seq x \<le> ?len"
    with assms(2) have "o_operation_seq x \<in> o_operation_seq ` set ops" by (simp add: mem)
    with assms(3) show False by auto
  qed
  have "o_operation_seq x = ?len + 1 \<and> (\<forall>y \<in> set ops. o_status y = 2)"
  proof (cases "ops = []")
    case True
    then show ?thesis using assms(4) Some fresh by auto
  next
    case False
    then have "1 \<le> ?len" by (cases ops) simp_all
    with fresh assms(4) Some obtain y where y: "y \<in> set ops" "o_operation_seq y = o_operation_seq x - 1" "o_status y = 2" by auto
    then have "o_operation_seq y \<in> {1..?len}" using mem by blast
    with y(2) fresh have seq: "o_operation_seq x = ?len + 1" "o_operation_seq y = ?len" by auto
    have "o_operation_seq (last ops) = last [1..?len]" using False seqs by (metis last_map)
    then have "o_operation_seq (last ops) = ?len" using \<open>1 \<le> ?len\<close> by (simp add: upto_rec2)
    moreover have "inj_on o_operation_seq (set ops)" using seqs distinct_map [of o_operation_seq ops] by simp
    ultimately have "y = last ops" using y(1) seq(2) False by (simp add: inj_on_def)
    with y(3) settled seq(1) show ?thesis by (auto dest: butlast_or_last)
  qed
  with seqs assms(4) Some show ?thesis by (auto simp: plan_ok_def upto_rec2 add.commute)
qed (simp add: plan_ok_def)

lemma plan_ok_settle:
  assumes ok: "plan_ok plan 1 ops" and x: "x \<in> set ops" "o_status x \<noteq> 2" "distinct (map o_operation_seq ops)"
    and st: "st \<in> {1, 4}" and "\<forall>n. plan = Some n \<longrightarrow> st = 4 \<longrightarrow> o_operation_seq x = n"
  shows "plan_ok plan st (map_seq o_operation_seq (o_operation_seq x) (settled_operation a) ops)"
proof (cases plan)
  case (Some n)
  let ?ops = "map_seq o_operation_seq (o_operation_seq x) (settled_operation a) ops"
  from ok Some have seqs: "map o_operation_seq ops = [1..int (length ops)]" and len: "int (length ops) \<le> n"
    and settled: "\<forall>x \<in> set (butlast ops). o_status x = 2"
    by (simp_all add: plan_ok_def)
  from x(1,2) settled have last: "x = last ops" using butlast_or_last [OF x(1)] by auto
  have all: "\<forall>y \<in> set ?ops. o_status y = 2"
    using settled last butlast_or_last by (fastforce simp: map_seq_at [OF x(3,1)] settled_operation_def)
  moreover have "map o_operation_seq ?ops = [1..int (length ?ops)]"
    using seqs by (simp add: map_map_seq settled_operation_def)
  moreover have "int (length ops) = n" if "st = 4"
  proof -
    have "o_operation_seq x \<in> {1..int (length ops)}" using arg_cong [OF seqs, of set] x(1) by auto
    with that assms(6) Some len show ?thesis by auto
  qed
  ultimately show ?thesis using Some len by (auto simp: plan_ok_def dest: in_set_butlastD)
qed (simp add: plan_ok_def)

lemma plan_ok_state: "plan_ok plan st ops \<Longrightarrow> st' \<noteq> 4 \<Longrightarrow> plan_ok plan st' ops"
  by (simp add: plan_ok_def)

lemma life_plan_ok:
  assumes "life_step l v v'" and "settled_ok (v_ops v) (v_cps v)" and "plan_ok (v_plan v) (w_state (v_row v)) (v_ops v)"
  shows "plan_ok (v_plan v') (w_state (v_row v')) (v_ops v')"
  using assms
proof (induction rule: life_step.induct)
  case (request v r' e x)
  then show ?case by (simp add: same_life_def plan_ok_request)
next
  case (settle v r' e x k result a)
  then have "w_state r' \<in> {1, 4}" by (auto simp: same_life_def)
  with settle show ?case by (simp add: plan_ok_settle settled_ok_def)
qed (auto simp: same_life_def same_plan_ok split: if_splits elim!: plan_ok_state)

lemma undo_known_simps [simp]:
  "undo_known (map_seq o_operation_seq n (settled_operation a) ops) k = undo_known ops k"
  "undo_known ops (reversed_checkpoint ts k) = undo_known ops k" "undo_known ops (blocked_checkpoint ts k) = undo_known ops k"
  by (simp_all add: undo_known_def map_seq_def settled_operation_def reversed_checkpoint_def blocked_checkpoint_def
      if_distrib [of o_operation_seq] if_distrib [of o_call_kind] del: if_image_distrib cong: if_cong)

lemma undone_ok_request: "undone_ok ops ks \<Longrightarrow> undone_ok (ops @ [x]) ks"
  by (auto simp: undone_ok_def undo_known_def)

lemma undone_ok_settle: "undone_ok ops ks \<Longrightarrow> active k \<Longrightarrow> undone_ok (map_seq o_operation_seq n (settled_operation a) ops) (ks @ [k])"
  by (auto simp: undone_ok_def)

lemma undone_ok_at:
  assumes "undone_ok ops ks" and "k \<in> set ks" and "distinct (map k_seq ks)" and "active (f k) \<or> undo_known ops (f k)"
  shows "undone_ok ops (map_seq k_seq (k_seq k) f ks)"
  using assms(1,4) by (auto simp: undone_ok_def map_seq_at [OF assms(3,2)] simp del: map_seq_simps)

lemma life_undone_ok:
  assumes "life_step l v v'" and "settled_ok (v_ops v) (v_cps v)" and "undone_ok (v_ops v) (v_cps v)"
  shows "undone_ok (v_ops v') (v_cps v')"
  using assms
proof (induction rule: life_step.induct)
  case (compensate v r' e k b)
  then show ?case by (simp add: undone_ok_at settled_ok_def)
next
  case (reversed v r' e k cps' ts)
  then show ?case by (simp add: undone_ok_at settled_ok_def)
next
  case (block_reverse v r' e cps' k d ts)
  have "undone_ok (v_ops v) cps'" using block_reverse by (auto intro: undone_ok_same)
  moreover have "distinct (map k_seq cps')"
    using block_reverse same_cps_seqs [of "v_cps v" cps'] by (simp add: settled_ok_def)
  moreover have "undo_known (v_ops v) k" using block_reverse by (simp add: undo_known_def)
  ultimately show ?case using block_reverse by (simp add: undone_ok_at)
qed (auto simp: undone_ok_request undone_ok_settle intro: undone_ok_same)

section \<open>Runs\<close>

definition wf_ok :: "wf_view \<Rightarrow> bool" where
  "wf_ok v \<longleftrightarrow>
     chronology_ok v \<and> settled_ok (v_ops v) (v_cps v) \<and> stack_ok (w_state (v_row v)) (v_cps v) \<and>
     undone_ok (v_ops v) (v_cps v) \<and> plan_ok (v_plan v) (w_state (v_row v)) (v_ops v) \<and> lease_ok v"

lemma born_ok: "born v \<Longrightarrow> wf_ok v"
  by (auto simp: wf_ok_def born_def chronology_ok_def settled_ok_def stack_ok_def undone_ok_def plan_ok_def lease_ok_def)

lemma life_ok: "life_step l v v' \<Longrightarrow> wf_ok v \<Longrightarrow> wf_ok v'"
  by (simp add: wf_ok_def life_chronology life_settled_ok life_stack_ok life_undone_ok life_plan_ok life_lease_ok)

definition coord_step :: "coord_env \<Rightarrow> coord_call \<Rightarrow> database \<Rightarrow> coord_outcome \<Rightarrow> database \<Rightarrow> bool" where
  "coord_step ce c db out db' \<longleftrightarrow> coord_run_call ce c db = Inr (out, db')"

definition coord_run :: "coord_env \<Rightarrow> database \<Rightarrow> (coord_call \<times> coord_outcome) list \<Rightarrow> database \<Rightarrow> bool" where
  "coord_run ce = calls_run (coord_step ce)"

fun coord_execute :: "coord_env \<Rightarrow> coord_call list \<Rightarrow> database \<Rightarrow> (coord_call \<times> coord_outcome) list \<times> database" where
  "coord_execute ce [] db = ([], db)"
| "coord_execute ce (c # cs) db =
     (case coord_run_call ce c db of
        Inl _ \<Rightarrow> coord_execute ce cs db
      | Inr (out, db') \<Rightarrow> (let (tr, db'') = coord_execute ce cs db' in ((c, out) # tr, db'')))"

lemma coord_execute_run: "coord_execute ce cs db = (tr, db') \<Longrightarrow> coord_run ce db tr db'"
proof (induction cs arbitrary: db tr)
  case (Cons c cs)
  show ?case
  proof (cases "coord_run_call ce c db")
    case (Inr r)
    obtain out db1 where r: "r = (out, db1)" by (cases r)
    with Cons.prems Inr obtain tr1 where tr: "tr = (c, out) # tr1" "coord_execute ce cs db1 = (tr1, db')"
      by (auto split: prod.splits)
    with Cons.IH [OF tr(2)] Inr r show ?thesis by (simp add: coord_run_def coord_step_def calls_run.intros)
  qed (use Cons in simp)
qed (simp add: coord_run_def)

definition empty_database :: "datetime \<Rightarrow> database" where
  "empty_database now =
     \<lparr>tb_workflow = [], tb_plan = [], tb_args = [], tb_operation = [], tb_call = [], tb_checkpoint = [], tb_event = [],
      db_clock = now\<rparr>"

lemma empty_database_view [simp]: "view (empty_database now) wid = None" "references_ok (empty_database now)"
  by (simp_all add: empty_database_def select_workflow_def references_ok_def)

section \<open>Who holds a workflow\<close>

text \<open>The grants of a workflow in a run: executor and token of each claim of it, in order.\<close>

definition grant_on :: "bytes \<Rightarrow> coord_call \<times> coord_outcome \<Rightarrow> (bytes \<times> int) option" where
  "grant_on wid p =
     (case snd p of
        Claimed s \<Rightarrow> if cs_workflow_id s = hex wid then grant_of (fst p) (snd p) else None
      | _ \<Rightarrow> None)"

definition grants :: "bytes \<Rightarrow> (coord_call \<times> coord_outcome) list \<Rightarrow> (bytes \<times> int) list" where
  "grants wid tr = List.map_filter (grant_on wid) tr"

text \<open>
  Tokens grow with every grant; the reopening of a child takes one without granting it.  Who holds
  the lease holds the newest grant.
\<close>

definition holder_ok :: "(bytes \<times> int) list \<Rightarrow> wf_view option \<Rightarrow> bool" where
  "holder_ok gs vo \<longleftrightarrow>
     sorted_wrt (<) (map snd gs) \<and>
     (case vo of
        None \<Rightarrow> gs = []
      | Some v \<Rightarrow>
          (\<forall>g \<in> set gs. snd g \<le> w_fencing_token (v_row v)) \<and>
          (\<forall>ex. w_lease_owner (v_row v) = Some ex \<longrightarrow> gs \<noteq> [] \<and> last gs = (ex, w_fencing_token (v_row v))))"

lemma life_holder:
  assumes "life_step l v v'" and "lease_ok v" and "holder_ok gs (Some v)"
  shows "holder_ok (gs @ (case l of None \<Rightarrow> [] | Some g \<Rightarrow> [g])) (Some v')"
  using assms
proof (induction rule: life_step.induct)
  case (claim v r' ex)
  then show ?case by (auto simp: holder_ok_def sorted_wrt_append dest!: bspec)
next
  case (reopen v r' e reason)
  then show ?case by (auto simp: holder_ok_def lease_ok_def dest!: bspec)
qed (auto simp: holder_ok_def keeps_lease_def)

lemma evolves_holder:
  assumes "evolves l vo vo'" and "\<And>v. vo = Some v \<Longrightarrow> wf_ok v" and "holder_ok gs vo"
  shows "holder_ok (gs @ (case l of None \<Rightarrow> [] | Some g \<Rightarrow> [g])) vo'"
  using assms(1)
proof (cases rule: evolves.cases)
  case (stepped v v')
  with assms(2,3) show ?thesis by (auto simp: life_holder wf_ok_def)
qed (use assms(3) in \<open>auto simp: holder_ok_def born_def\<close>)

lemma evolves_ok:
  assumes "evolves l vo vo'" and "\<And>v. vo = Some v \<Longrightarrow> wf_ok v" and "vo' = Some v'"
  shows "wf_ok v'"
  using assms by (cases rule: evolves.cases) (auto intro: life_ok born_ok)

text \<open>A run keeps the tables linked, every workflow well formed, and the newest grant in charge.\<close>

definition coord_ok :: "(coord_call \<times> coord_outcome) list \<Rightarrow> database \<Rightarrow> bool" where
  "coord_ok tr db \<longleftrightarrow>
     references_ok db \<and> (\<forall>wid v. view db wid = Some v \<longrightarrow> wf_ok v) \<and> (\<forall>wid. holder_ok (grants wid tr) (view db wid))"

lemma grants_append: "grants wid (tr @ [p]) = grants wid tr @ (case grant_on wid p of None \<Rightarrow> [] | Some g \<Rightarrow> [g])"
  by (simp add: grants_def map_filter_def split: option.split)

lemma call_moves_each:
  assumes "call_moves c out db db'"
  shows "references_ok db'" and "evolves (grant_on wid (c, out)) (view db wid) (view db' wid)"
proof -
  have "references_ok db' \<and> evolves (grant_on wid (c, out)) (view db wid) (view db' wid)"
    using assms unfolding call_moves_def
  proof (elim disjE exE conjE)
    fix w
    assume w: "moves (grant_of c out) w db db'" "\<forall>s. out = Claimed s \<longrightarrow> cs_workflow_id s = hex w"
    have "grant_on wid (c, out) = (if wid = w then grant_of c out else None)"
      using w(2) by (cases out) (auto simp: grant_on_def)
    with w(1) show ?thesis by (cases "wid = w") (simp_all add: moves_def evolves.unchanged)
  next
    fix w child
    assume w: "moves_both w child db db'" "\<forall>s. out \<noteq> Claimed s"
    then have "grant_on wid (c, out) = None" by (cases out) (simp_all add: grant_on_def)
    with w(1) show ?thesis
      by (cases "wid = w"; cases "wid = child") (simp_all add: moves_both_def evolves.unchanged)
  qed
  then show "references_ok db'" "evolves (grant_on wid (c, out)) (view db wid) (view db' wid)" by simp_all
qed

lemma coord_ok_step:
  assumes "coord_ok tr db" and "coord_step ce c db out db'"
  shows "coord_ok (tr @ [(c, out)]) db'"
proof -
  from assms have "call_moves c out db db'" by (simp add: coord_ok_def coord_step_def run_call_moves)
  note each = call_moves_each [OF this]
  have ok: "wf_ok v" if "view db wid = Some v" for wid v
    using assms(1) that by (simp add: coord_ok_def)
  have "wf_ok v" if "view db' wid = Some v" for wid v
    using evolves_ok [OF each(2) [of wid] ok that] .
  moreover have "holder_ok (grants wid (tr @ [(c, out)])) (view db' wid)" for wid
    using evolves_holder [OF each(2) [of wid] ok] assms(1) by (simp add: coord_ok_def grants_append del: view_None)
  ultimately show ?thesis using each(1) by (simp add: coord_ok_def)
qed

lemma coord_ok_run: "calls_run (coord_step ce) db tr db' \<Longrightarrow> coord_ok tr0 db \<Longrightarrow> coord_ok (tr0 @ tr) db'"
proof (induction arbitrary: tr0 rule: calls_run.induct)
  case (one_call c db out db1 tr db')
  from one_call.IH [OF coord_ok_step [OF one_call.prems one_call.hyps(1)]] show ?case by simp
qed simp

lemma coord_reachable:
  assumes "coord_run ce (empty_database now) tr db"
  shows "coord_ok tr db"
proof -
  have "coord_ok [] (empty_database now)" by (simp add: coord_ok_def grants_def map_filter_def holder_ok_def)
  from coord_ok_run [OF assms [unfolded coord_run_def] this] show ?thesis by simp
qed

text \<open>Rows of a reachable workflow.\<close>

lemma reachable_view:
  assumes "coord_run ce (empty_database now) tr db" and "select_workflow db wid = Some r"
  obtains v where "view db wid = Some v" "v_row v = r" "wf_ok v"
  using coord_reachable [OF assms(1)] view_of_row [OF assms(2)] by (auto simp: coord_ok_def)

text \<open>A settled operation has its checkpoint, and a stack compensated to the bottom covers them all.\<close>

lemma settled_kept:
  "settled_ok ops ks \<Longrightarrow> x \<in> set ops \<Longrightarrow> o_status x = 2 \<Longrightarrow> \<exists>k \<in> set ks. k_operation_id k = o_operation_id x"
  unfolding settled_ok_def by (metis imageE set_map)

lemma reversed_complete:
  assumes "settled_ok ops ks" and "stack_ok 5 ks" and "undone_ok ops ks" and "x \<in> set ops" and "o_status x = 2"
  shows "\<exists>k \<in> set ks. k_operation_id k = o_operation_id x \<and> compensated k \<and> undo_known ops k"
  using settled_kept [OF assms(1,4,5)] assms(2,3) checkpoint_kinds(2) unfolding stack_ok_def undone_ok_def by blast

end
