(* ===== verification/Coord_Runs.thy ===== *)
theory Coord_Runs
  imports Coord_Safety
begin

text \<open>
  Runs of the coordinator: any workers, any calls, any order, and time as the workers report it.
  The properties of its stored procedures, with two runs that show them: one workflow completed
  after its first worker lost the lease, and one whose checkpoints are compensated.
\<close>

section \<open>The coordinator as a service\<close>

definition workflows_ok :: "database \<Rightarrow> bool" where
  "workflows_ok db \<longleftrightarrow> references_ok db \<and> (\<forall>wid v. view db wid = Some v \<longrightarrow> wf_ok v)"

definition wf_events :: "bytes \<Rightarrow> database \<Rightarrow> event_row list" where
  "wf_events wid db = (case view db wid of None \<Rightarrow> [] | Some v \<Rightarrow> v_evs v)"

lemma life_events: "life_step l v v' \<Longrightarrow> \<exists>es. v_evs v' = v_evs v @ es"
  by (induction rule: life_step.induct) auto

lemma evolves_events:
  "evolves l vo vo' \<Longrightarrow> \<exists>es. (case vo' of None \<Rightarrow> [] | Some v \<Rightarrow> v_evs v) = (case vo of None \<Rightarrow> [] | Some v \<Rightarrow> v_evs v) @ es"
  by (induction rule: evolves.induct) (auto dest: life_events)

lemma step_evolves:
  assumes "workflows_ok db" and "coord_step ce c db out db'"
  shows "references_ok db'" and "evolves (grant_on wid (c, out)) (view db wid) (view db' wid)"
proof -
  from assms have "call_moves c out db db'" by (simp add: workflows_ok_def coord_step_def run_call_moves)
  from call_moves_each [OF this]
  show "references_ok db'" "evolves (grant_on wid (c, out)) (view db wid) (view db' wid)" by simp_all
qed

interpretation coordinator: logged_service workflows_ok "coord_step ce" wf_events for ce
proof unfold_locales
  fix db c out db' wid
  assume ok: "workflows_ok db" and step: "coord_step ce c db out db'"
  note each = step_evolves [OF this]
  show "workflows_ok db'"
    using each(1) evolves_ok [OF each(2)] ok by (simp add: workflows_ok_def)
  show "\<exists>es. wf_events wid db' = wf_events wid db @ es"
    using evolves_events [OF each(2)] by (simp add: wf_events_def)
qed

lemma reachable_workflows_ok:
  assumes "coord_run ce (empty_database now) tr db"
  shows "workflows_ok db"
  using coordinator.run_ok [of ce "empty_database now" tr db] assms by (simp add: coord_run_def workflows_ok_def)

text \<open>
  What stays once a workflow has left forward execution: its operations and the stack of its
  checkpoints.  One that has ended other than by completing is not touched again, but for being
  woken.
\<close>

definition past_forward :: "wf_view \<Rightarrow> wf_view \<Rightarrow> bool" where
  "past_forward v v' \<longleftrightarrow>
     w_state (v_row v') \<noteq> 1 \<and> same_ops (v_ops v) (v_ops v') \<and>
     map (\<lambda>k. (k_seq k, k_operation_id k)) (v_cps v') = map (\<lambda>k. (k_seq k, k_operation_id k)) (v_cps v) \<and>
     (w_state (v_row v) \<in> {3, 5, 7} \<longrightarrow> (\<exists>t. v' = v\<lparr>v_row := (v_row v)\<lparr>w_next_attempt_at := t\<rparr>\<rparr>))"

lemma past_forward_refl: "w_state (v_row v) \<noteq> 1 \<Longrightarrow> past_forward v v"
  unfolding past_forward_def by (auto intro: exI [of _ "w_next_attempt_at (v_row v)"])

lemma past_forward_ended:
  assumes "past_forward v v'" and "w_state (v_row v) \<in> {3, 5, 7}"
  obtains t where "v' = v\<lparr>v_row := (v_row v)\<lparr>w_next_attempt_at := t\<rparr>\<rparr>"
  using assms unfolding past_forward_def by blast

lemma past_forward_kept:
  assumes "past_forward v v'"
  shows "w_state (v_row v') \<noteq> 1" "same_ops (v_ops v) (v_ops v')"
    "map (\<lambda>k. (k_seq k, k_operation_id k)) (v_cps v') = map (\<lambda>k. (k_seq k, k_operation_id k)) (v_cps v)"
  using assms unfolding past_forward_def by blast+

lemma past_forward_trans:
  assumes "past_forward v v'" and "past_forward v' v''"
  shows "past_forward v v''"
  unfolding past_forward_def
proof (intro conjI impI)
  show "same_ops (v_ops v) (v_ops v'')"
    using past_forward_kept(2) [OF assms(1)] past_forward_kept(2) [OF assms(2)] by (simp add: same_ops_def)
  show "w_state (v_row v'') \<noteq> 1" by (rule past_forward_kept(1) [OF assms(2)])
  show "map (\<lambda>k. (k_seq k, k_operation_id k)) (v_cps v'') = map (\<lambda>k. (k_seq k, k_operation_id k)) (v_cps v)"
    using past_forward_kept(3) [OF assms(1)] past_forward_kept(3) [OF assms(2)] by simp
  assume st: "w_state (v_row v) \<in> {3, 5, 7}"
  from past_forward_ended [OF assms(1) st] obtain t where t: "v' = v\<lparr>v_row := (v_row v)\<lparr>w_next_attempt_at := t\<rparr>\<rparr>" .
  with st have "w_state (v_row v') \<in> {3, 5, 7}" by simp
  from past_forward_ended [OF assms(2) this] obtain t' where "v'' = v'\<lparr>v_row := (v_row v')\<lparr>w_next_attempt_at := t'\<rparr>\<rparr>" .
  with t have "v'' = v\<lparr>v_row := (v_row v)\<lparr>w_next_attempt_at := t'\<rparr>\<rparr>" by simp
  then show "\<exists>t. v'' = v\<lparr>v_row := (v_row v)\<lparr>w_next_attempt_at := t\<rparr>\<rparr>" ..
qed

lemma map_seq_pairs:
  assumes "\<And>k. k_seq (f k) = k_seq k \<and> k_operation_id (f k) = k_operation_id k"
  shows "map (\<lambda>k. (k_seq k, k_operation_id k)) (map_seq k_seq n f ks) = map (\<lambda>k. (k_seq k, k_operation_id k)) ks"
  using assms by (simp add: map_seq_def)

lemma same_cps_pairs:
  assumes "same_cps ks ks'"
  shows "map (\<lambda>k. (k_seq k, k_operation_id k)) ks' = map (\<lambda>k. (k_seq k, k_operation_id k)) ks"
proof -
  have "map (\<lambda>(n, i, st, rid). (n, i)) (map cp_key ks') = map (\<lambda>(n, i, st, rid). (n, i)) (map cp_key ks)"
    using assms by (simp add: same_cps_def)
  then show ?thesis by (simp add: cp_key_def o_def)
qed

lemma life_past_forward: "life_step l v v' \<Longrightarrow> w_state (v_row v) \<noteq> 1 \<Longrightarrow> past_forward v v'"
proof (induction rule: life_step.induct)
  case (compensate v r' e k b)
  then show ?case by (simp add: past_forward_def same_life_def map_seq_pairs bound_checkpoint_def)
next
  case (reversed v r' e k cps' ts)
  then have "w_state r' \<in> {2, 5}" by (auto simp: same_life_def split: if_splits)
  with reversed show ?case by (auto simp: past_forward_def map_seq_pairs reversed_checkpoint_def)
next
  case (block_reverse v r' e cps' k d ts)
  then show ?case by (simp add: past_forward_def same_life_def map_seq_pairs blocked_checkpoint_def same_cps_pairs)
next
  case (wake v due)
  then show ?case by (auto simp: past_forward_def)
qed (auto simp: past_forward_def same_life_def same_cps_pairs)

lemma run_past_forward:
  "calls_run (coord_step ce) db tr db' \<Longrightarrow> workflows_ok db \<Longrightarrow> view db wid = Some v \<Longrightarrow>
     w_state (v_row v) \<noteq> 1 \<Longrightarrow> \<exists>v'. view db' wid = Some v' \<and> past_forward v v'"
proof (induction arbitrary: v rule: calls_run.induct)
  case (one_call c db out db1 tr db')
  have "\<exists>v1. view db1 wid = Some v1 \<and> past_forward v v1"
    using step_evolves(2) [OF one_call.prems(1) one_call.hyps(1), where wid = wid] one_call.prems(2,3)
    by (cases rule: evolves.cases) (auto simp: past_forward_refl life_past_forward)
  then obtain v1 where v1: "view db1 wid = Some v1" "past_forward v v1" by blast
  then have "w_state (v_row v1) \<noteq> 1" by (simp add: past_forward_def)
  with one_call.IH [OF coordinator.step_ok [OF one_call.prems(1) one_call.hyps(1)] v1(1)] v1(2)
  show ?case by (blast intro: past_forward_trans)
qed (simp add: past_forward_refl)

text \<open>A workflow never disappears.\<close>

lemma evolves_exists: "evolves l (Some v) vo' \<Longrightarrow> vo' \<noteq> None"
  by (cases rule: evolves.cases) auto

lemma run_exists:
  "calls_run (coord_step ce) db tr db' \<Longrightarrow> workflows_ok db \<Longrightarrow> view db wid = Some v \<Longrightarrow> \<exists>v'. view db' wid = Some v'"
proof (induction arbitrary: v rule: calls_run.induct)
  case (one_call c db out db1 tr db')
  have "view db1 wid \<noteq> None"
    using evolves_exists step_evolves(2) [OF one_call.prems(1) one_call.hyps(1), where wid = wid] one_call.prems(2) by metis
  with one_call coordinator.step_ok show ?case by blast
qed simp

section \<open>The fence\<close>

text \<open>The workflow, executor and token a fenced call presents.\<close>

definition fence_args :: "'a fenced_args_scheme \<Rightarrow> bytes \<times> bytes \<times> int" where
  "fence_args a = (the (fa_workflow_id a), the (fa_executor a), the (fa_fencing_token a))"

fun call_fence :: "coord_call \<Rightarrow> (bytes \<times> bytes \<times> int) option" where
  "call_fence (Create a) = None"
| "call_fence (Create_Planned a) = None"
| "call_fence (Claim locked a) = None"
| "call_fence (Claim_By_Id locked a) = None"
| "call_fence (Heartbeat a) = Some (fence_args a)"
| "call_fence (Release a) = Some (fence_args a)"
| "call_fence (Request_Op a) = Some (fence_args a)"
| "call_fence (Settle_Op a) = Some (fence_args a)"
| "call_fence (Fail_Op a) = Some (fence_args a)"
| "call_fence (Dispatch_Defer a) = Some (fence_args a)"
| "call_fence (Reconcile_Defer a) = Some (fence_args a)"
| "call_fence (Begin_Reversal a) = Some (fence_args a)"
| "call_fence (Authored_Fail a) = Some (fence_args a)"
| "call_fence (Reverse_Request a) = Some (fence_args a)"
| "call_fence (Reverse_Settle a) = Some (fence_args a)"
| "call_fence (Reverse_Block a) = Some (fence_args a)"
| "call_fence (Pending_Op a) = Some (fence_args a)"
| "call_fence (Pending_Reverse a) = Some (fence_args a)"
| "call_fence (Reconcile_Reverse a) = Some (fence_args a)"
| "call_fence (Submit_Call a) = Some (fence_args a)"
| "call_fence (Refresh_Hint a) = None"
| "call_fence (Notify_Parent a) = None"
| "call_fence (Reopen_Child a) = Some (fence_args a)"
| "call_fence (Settle_Child a) = Some (fence_args a)"

definition holds_lease :: "database \<Rightarrow> bytes \<times> bytes \<times> int \<Rightarrow> bool" where
  "holds_lease db f =
     (case f of (wid, ex, tok) \<Rightarrow>
        \<exists>r. select_workflow db wid = Some r \<and> w_lease_owner r = Some ex \<and> w_fencing_token r = tok)"

lemma fence_holds:
  assumes "\<not> stale_fence a states r" and "select_workflow db (the (fa_workflow_id a)) = Some r"
  shows "holds_lease db (fence_args a)"
  using stale_fenceD [OF assms(1)] assms(2) by (auto simp: holds_lease_def fence_args_def)

lemmas fenced_proc_defs = with_workflow_def Let_def

lemma heartbeat_fenced: "sp_workflow_heartbeat ce a db = Inr (out, db') \<Longrightarrow> db' = db \<or> holds_lease db (fence_args a)"
  by (auto simp: sp_workflow_heartbeat_def fenced_proc_defs elim!: bind_res_InrE split: option.split_asm if_split_asm
      dest: fence_holds)

lemma release_fenced: "sp_workflow_release ce a db = Inr (out, db') \<Longrightarrow> db' = db \<or> holds_lease db (fence_args a)"
  by (auto simp: sp_workflow_release_def fenced_proc_defs elim!: bind_res_InrE split: option.split_asm if_split_asm
      dest: fence_holds)

lemma operation_fenced:
  "sp_operation_request ce qa db = Inr (out, db') \<Longrightarrow> db' = db \<or> holds_lease db (fence_args qa)"
  "sp_operation_settle ce oa db = Inr (out, db') \<Longrightarrow> db' = db \<or> holds_lease db (fence_args oa)"
  "sp_operation_fail ce ba db = Inr (out, db') \<Longrightarrow> db' = db \<or> holds_lease db (fence_args ba)"
  by (auto simp: sp_operation_request_def sp_operation_settle_def sp_operation_fail_def fenced_proc_defs
      elim!: bind_res_InrE split: option.split_asm if_split_asm dest: fence_holds)

lemma defer_fenced:
  "sp_operation_dispatch_defer ce da db = Inr (out, db') \<Longrightarrow> db' = db \<or> holds_lease db (fence_args da)"
  "sp_workflow_reconcile_defer ce za db = Inr (out, db') \<Longrightarrow> db' = db \<or> holds_lease db (fence_args za)"
  by (auto simp: sp_operation_dispatch_defer_def sp_workflow_reconcile_defer_def fenced_proc_defs
      elim!: bind_res_InrE split: option.split_asm if_split_asm dest: fence_holds)

lemma reversal_fenced:
  "sp_workflow_begin_reversal ce ga db = Inr (out, db') \<Longrightarrow> db' = db \<or> holds_lease db (fence_args ga)"
  "sp_workflow_authored_fail ce ya db = Inr (out, db') \<Longrightarrow> db' = db \<or> holds_lease db (fence_args ya)"
  by (auto simp: sp_workflow_begin_reversal_def sp_workflow_authored_fail_def fenced_proc_defs
      elim!: bind_res_InrE split: option.split_asm if_split_asm dest: fence_holds)

lemma compensation_fenced:
  "sp_checkpoint_reverse_request ce va db = Inr (out, db') \<Longrightarrow> db' = db \<or> holds_lease db (fence_args va)"
  "sp_checkpoint_reverse_settle ce ka db = Inr (out, db') \<Longrightarrow> db' = db \<or> holds_lease db (fence_args ka)"
  "sp_checkpoint_reverse_block ce ua db = Inr (out, db') \<Longrightarrow> db' = db \<or> holds_lease db (fence_args ua)"
  by (auto simp: sp_checkpoint_reverse_request_def sp_checkpoint_reverse_settle_def sp_checkpoint_reverse_block_def
      fenced_proc_defs elim!: bind_res_InrE split: option.split_asm if_split_asm dest: fence_holds)

lemma timer_fenced:
  "sp_operation_pending_defer ce xa db = Inr (out, db') \<Longrightarrow> db' = db \<or> holds_lease db (fence_args xa)"
  "sp_checkpoint_pending_defer ce pa db = Inr (out, db') \<Longrightarrow> db' = db \<or> holds_lease db (fence_args pa)"
  "sp_checkpoint_reconcile_defer ce ra db = Inr (out, db') \<Longrightarrow> db' = db \<or> holds_lease db (fence_args ra)"
  by (auto simp: sp_operation_pending_defer_def sp_checkpoint_pending_defer_def sp_checkpoint_reconcile_defer_def
      with_timer_checkpoint_def fenced_proc_defs
      elim!: bind_res_InrE split: option.split_asm if_split_asm dest: fence_holds)

lemma composition_fenced:
  "sp_call_submit ce ea db = Inr (out, db') \<Longrightarrow> db' = db \<or> holds_lease db (fence_args ea)"
  "sp_checkpoint_reverse_child_reopen ce ca db = Inr (out, db') \<Longrightarrow> db' = db \<or> holds_lease db (fence_args ca)"
  "sp_checkpoint_reverse_child_settle ce ca db = Inr (out, db') \<Longrightarrow> db' = db \<or> holds_lease db (fence_args ca)"
  by (auto simp: sp_call_submit_def sp_checkpoint_reverse_child_reopen_def sp_checkpoint_reverse_child_settle_def
      fenced_proc_defs elim!: bind_res_InrE split: option.split_asm if_split_asm dest: fence_holds)

lemmas call_fenced = heartbeat_fenced release_fenced operation_fenced defer_fenced reversal_fenced compensation_fenced
  timer_fenced composition_fenced

lemma fenced_call_holds:
  assumes "coord_step ce c db out db'" and "call_fence c = Some f" and "db' \<noteq> db"
  shows "holds_lease db f"
  using assms by (cases c) (auto simp: coord_step_def dest: call_fenced)

section \<open>Two runs\<close>

definition plain_env :: coord_env where
  "plain_env = \<lparr>ce_document = (\<lambda>t. take 1 t = [123]), ce_same = (=), ce_object = (\<lambda>_. [123, 125]), ce_defer = id,
     ce_elapsed_ms = (\<lambda>_ _. 0), ce_reason = (\<lambda>_. None), ce_plan_version = (\<lambda>_. True),
     ce_bytes = map word_of_nat\<rparr>"

definition show_time :: "nat \<Rightarrow> datetime" where
  "show_time s = DateTime 2026 1 2 3 4 s 0"

definition show_doc :: "str option" where
  "show_doc = Some [123, 125]"

definition show_id :: "8 word \<Rightarrow> bytes option" where
  "show_id b = Some (replicate 16 b)"

definition show_fence :: "8 word \<Rightarrow> 8 word \<Rightarrow> int \<Rightarrow> fenced_args" where
  "show_fence w ex tok = \<lparr>fa_workflow_id = show_id w, fa_executor = show_id ex, fa_fencing_token = Some tok\<rparr>"

definition show_create :: "8 word \<Rightarrow> int \<Rightarrow> planned_args" where
  "show_create w n =
     \<lparr>na_workflow_id = show_id w, na_script_name = Some [112], na_plan_version = Some [118],
      na_event_ts = Some (show_time 0), na_next_attempt_at = Some (show_time 0), na_continuation = show_doc,
      na_event_payload = show_doc, na_content_hash = Some (replicate 33 0), na_plan_length = Some n, na_args = Some [123, 125]\<rparr>"

definition show_claim :: "8 word \<Rightarrow> 8 word \<Rightarrow> nat \<Rightarrow> coord_call" where
  "show_claim w ex s = Claim_By_Id (\<lambda>_. False)
     \<lparr>ia_workflow_id = show_id w, ia_executor = show_id ex, ia_db_now = Some (show_time s),
      ia_lease_expires_at = Some (show_time (s + 10))\<rparr>"

definition show_request :: "8 word \<Rightarrow> 8 word \<Rightarrow> int \<Rightarrow> int \<Rightarrow> 8 word \<Rightarrow> nat \<Rightarrow> coord_call" where
  "show_request w ex tok n opid s = Request_Op (fenced_args.extend (show_fence w ex tok)
     (request_args.fields (Some n) (show_id opid) (Some [111]) (Some 1) show_doc (Some [104]) show_doc (Some (show_time s)) show_doc))"

definition show_settle :: "8 word \<Rightarrow> 8 word \<Rightarrow> int \<Rightarrow> int \<Rightarrow> 8 word \<Rightarrow> nat \<Rightarrow> bool \<Rightarrow> coord_call" where
  "show_settle w ex tok n opid s final = Settle_Op (fenced_args.extend (show_fence w ex tok)
     (op_settle_args.fields (Some n) (show_id opid) (Some n) show_doc show_doc (if final then show_doc else None) show_doc
       (Some (show_time s)) show_doc (Some (if final then 1 else 0))))"

definition show_begin :: "8 word \<Rightarrow> 8 word \<Rightarrow> int \<Rightarrow> int \<Rightarrow> 8 word \<Rightarrow> nat \<Rightarrow> coord_call" where
  "show_begin w ex tok n opid s = Begin_Reversal (fenced_args.extend (show_fence w ex tok)
     (begin_args.fields (Some n) (show_id opid) (Some (show_time s)) (Some [114])))"

definition show_compensate :: "8 word \<Rightarrow> 8 word \<Rightarrow> int \<Rightarrow> int \<Rightarrow> 8 word \<Rightarrow> nat \<Rightarrow> coord_call list" where
  "show_compensate w ex tok n rid s =
     [Reverse_Request (fenced_args.extend (show_fence w ex tok)
        (reverse_request_args.fields (Some n) (show_id rid) (Some [117]) (Some 1) show_doc (Some [104]) (Some (show_time s)))),
      Reverse_Settle (fenced_args.extend (show_fence w ex tok)
        (reverse_settle_args.fields (Some n) (show_id rid) show_doc (Some (show_time (s + 1)))))]"

text \<open>Worker 8 loses the lease of workflow 1 to worker 9, who completes its plan of two operations.\<close>

definition show_completion :: "coord_call list" where
  "show_completion =
     [Create_Planned (show_create 1 2), show_claim 1 8 1, show_request 1 8 1 1 21 2, show_claim 1 9 20,
      show_settle 1 8 1 1 21 21 False, show_settle 1 9 2 1 21 21 False, show_request 1 9 2 2 22 22,
      show_settle 1 9 2 2 22 23 True]"

text \<open>Workflow 3 settles two of its three operations, the last fails, and both are compensated.\<close>

definition show_reversal :: "coord_call list" where
  "show_reversal =
     [Create_Planned (show_create 3 3), show_claim 3 8 1, show_request 3 8 1 1 31 2, show_settle 3 8 1 1 31 3 False,
      show_request 3 8 1 2 32 4, show_settle 3 8 1 2 32 5 False, show_request 3 8 1 3 33 6, show_begin 3 8 1 3 33 7] @
     show_compensate 3 8 1 2 42 10 @ show_compensate 3 8 1 1 41 12"

lemmas show_defs = plain_env_def show_time_def show_doc_def show_id_def show_fence_def show_create_def show_claim_def
  show_request_def show_settle_def show_begin_def show_compensate_def fenced_args.defs request_args.defs op_settle_args.defs
  begin_args.defs reverse_request_args.defs reverse_settle_args.defs

lemmas coord_proc_defs = sp_workflow_create_def sp_workflow_create_planned_def sp_workflow_claim_def sp_workflow_claim_by_id_def
  sp_workflow_heartbeat_def sp_workflow_release_def sp_operation_request_def sp_operation_settle_def sp_operation_fail_def
  sp_workflow_begin_reversal_def sp_workflow_authored_fail_def leave_forward_def sp_checkpoint_reverse_request_def
  sp_checkpoint_reverse_settle_def sp_checkpoint_reverse_block_def

lemmas coord_eval = coord_proc_defs guards.simps fence_guards_def request_guards_def op_settle_guards_def
  id16_def at_least_def object_text_def non_empty_def after_def args_document_def with_workflow_def stale_fence_def
  fence_lost_def install_lease_def claimed_row_def claim_predicate_def snapshot_of_def new_workflow_def event_of_def
  insert_workflow_def update_workflow_def insert_workflow_event_def insert_operation_def update_operation_def
  insert_checkpoint_def update_checkpoint_def insert_plan_def insert_args_def workflow_row_ok_def operation_row_ok_def
  checkpoint_row_ok_def find_operation_def find_checkpoint_def top_seq_def max_seq_def active_seqs_def publish_def
  advance_def requested_operation_def request_plan_violation_def settle_plan_violation_def same_request_def
  settled_operation_def new_checkpoint_def settled_row_def select_workflow_def select_plan_def select_args_def reversal_begun_row_def reversal_failed_row_def
  reverse_cursor_def bound_checkpoint_def reversed_checkpoint_def reversed_row_def same_binding_def

lemma show_args_text: "utf8_strict [123, 125] = Some [123, 125]"
  by code_simp

lemmas show_eval = show_defs coord_eval empty_database_def less_eq_datetime_def less_datetime_def Let_def show_args_text

definition show_start :: database where
  "show_start = empty_database (show_time 0)"

text \<open>A workflow's rows in short, and what the two runs answer and leave.\<close>

definition in_short :: "wf_view \<Rightarrow> int \<times> int option \<times> (int \<times> int) list \<times> (int \<times> int) list \<times> nat" where
  "in_short v = (w_state (v_row v), v_plan v, map (\<lambda>x. (o_operation_seq x, o_status x)) (v_ops v),
     map (\<lambda>k. (k_seq k, k_reversal_state k)) (v_cps v), length (v_evs v))"

lemma show_completed:
  "map_option in_short (view (snd (coord_execute plain_env show_completion show_start)) (replicate 16 1)) =
     Some (4, Some 2, [(1, 2), (2, 2)], [(1, 1), (2, 1)], 5)"
  by (simp add: show_completion_def show_start_def show_eval view_def in_short_def)

lemma show_reversed:
  "map_option in_short (view (snd (coord_execute plain_env show_reversal show_start)) (replicate 16 3)) =
     Some (5, Some 3, [(1, 2), (2, 2), (3, 1)], [(1, 2), (2, 2)], 11)"
  by (simp add: show_reversal_def show_start_def show_eval view_def in_short_def)

lemma show_runs:
  "coord_run plain_env show_start (fst (coord_execute plain_env cs show_start)) (snd (coord_execute plain_env cs show_start))"
  by (rule coord_execute_run [of _ cs]) simp

text \<open>Worker 8's settlement is refused for its token, worker 9's commits.\<close>

definition show_taken_over :: "(coord_call \<times> coord_outcome) list \<times> database" where
  "show_taken_over = coord_execute plain_env (take 4 show_completion) show_start"

lemma show_midway:
  "map_option in_short (view (snd show_taken_over) (replicate 16 1)) = Some (1, Some 2, [(1, 1)], [], 2)"
  by (simp add: show_taken_over_def show_completion_def show_start_def show_eval view_def in_short_def)

lemma show_late:
  "coord_run_call plain_env (show_settle 1 8 1 1 21 21 False) (snd show_taken_over) = Inr (Fence_Lost, snd show_taken_over)"
  by (simp add: show_taken_over_def show_completion_def show_start_def show_eval)

lemma show_taker:
  "\<exists>db'. coord_run_call plain_env (show_settle 1 9 2 1 21 21 False) (snd show_taken_over) = Inr (Operation_Settled [123, 125], db') \<and>
     length (tb_checkpoint db') = length (tb_checkpoint (snd show_taken_over)) + 1"
  by (simp add: show_taken_over_def show_completion_def show_start_def show_eval)

section \<open>Properties\<close>

text \<open>
  C13. The stored procedures refine the lifecycle: whatever calls have committed, the next that
  commits changes nothing for a workflow, gives it its first rows, or is a step of its
  lifecycle, labelled with the owner and token of the lease when it grants one; at most two
  workflows see a change, a grant concerns one.
\<close>

theorem coord_refines_lifecycle:
  assumes "coord_run ce (empty_database now) tr db" and "coord_step ce c db out db'"
  shows "(\<forall>wid. evolves (grant_on wid (c, out)) (view db wid) (view db' wid)) \<and>
    (\<exists>w1 w2. \<forall>wid. wid \<notin> {w1, w2} \<longrightarrow> view db' wid = view db wid \<and> grant_on wid (c, out) = None)"
proof -
  have ok: "workflows_ok db" by (rule reachable_workflows_ok [OF assms(1)])
  then have "call_moves c out db db'"
    using assms(2) by (simp add: workflows_ok_def coord_step_def run_call_moves)
  then have "\<exists>w1 w2. \<forall>wid. wid \<notin> {w1, w2} \<longrightarrow> view db' wid = view db wid \<and> grant_on wid (c, out) = None"
    unfolding call_moves_def moves_def moves_both_def
  proof (elim disjE exE conjE)
    fix w
    assume w: "\<forall>u. u \<noteq> w \<longrightarrow> view db' u = view db u" "\<forall>s. out = Claimed s \<longrightarrow> cs_workflow_id s = hex w"
    have "grant_on u (c, out) = None" if "u \<noteq> w" for u
      using w(2) that by (cases out) (auto simp: grant_on_def)
    with w(1) show ?thesis by (intro exI [of _ w]) simp
  next
    fix w child
    assume w: "\<forall>u. u \<notin> {w, child} \<longrightarrow> view db' u = view db u" "\<forall>s. out \<noteq> Claimed s"
    then have "grant_on u (c, out) = None" for u by (cases out) (simp_all add: grant_on_def)
    with w(1) show ?thesis by blast
  qed
  with step_evolves(2) [OF ok assms(2)] show ?thesis by blast
qed

theorem coord_refines_lifecycle_witness:
  "\<exists>out db'. coord_step plain_env (show_settle 1 9 2 1 21 21 False) (snd show_taken_over) out db' \<and>
     (\<forall>wid. evolves (grant_on wid (show_settle 1 9 2 1 21 21 False, out)) (view (snd show_taken_over) wid) (view db' wid))"
proof -
  from show_taker obtain out db' where s: "coord_step plain_env (show_settle 1 9 2 1 21 21 False) (snd show_taken_over) out db'"
    by (auto simp: coord_step_def)
  from coord_refines_lifecycle [OF show_runs [unfolded show_start_def] s [unfolded show_taken_over_def show_start_def]] s
  show ?thesis by (auto simp: show_taken_over_def show_start_def)
qed

text \<open>
  C14. Compensation goes down the stack and is complete: what is not yet compensated lies below
  what is, nothing is requested to be undone while the workflow runs forward or once it has
  completed, a workflow ends \<open>reversed\<close> only when every operation it settled has a compensated
  checkpoint whose undoing is on record (an invocation, or a call, which its child undoes), and
  \<open>failed\<close> only when it had settled none.
\<close>

theorem compensation_ordered_and_complete:
  assumes "coord_run ce (empty_database now) tr db" and "view db wid = Some v"
  shows "(\<forall>k \<in> set (v_cps v). \<forall>k' \<in> set (v_cps v). active k \<longrightarrow> \<not> active k' \<longrightarrow> k_seq k < k_seq k') \<and>
    (w_state (v_row v) \<in> {1, 4} \<longrightarrow> (\<forall>k \<in> set (v_cps v). active k \<and> k_reverse_invocation_id k = None)) \<and>
    (w_state (v_row v) = 5 \<longrightarrow> (\<forall>x \<in> set (v_ops v). o_status x = 2 \<longrightarrow>
      (\<exists>k \<in> set (v_cps v). k_operation_id k = o_operation_id x \<and> compensated k \<and> undo_known (v_ops v) k))) \<and>
    (w_state (v_row v) = 7 \<longrightarrow> (\<forall>x \<in> set (v_ops v). o_status x \<noteq> 2))"
proof -
  have ok: "settled_ok (v_ops v) (v_cps v)" "stack_ok (w_state (v_row v)) (v_cps v)" "undone_ok (v_ops v) (v_cps v)"
    using reachable_workflows_ok [OF assms(1)] assms(2) by (auto simp: workflows_ok_def wf_ok_def)
  have "\<exists>k \<in> set (v_cps v). k_operation_id k = o_operation_id x \<and> compensated k \<and> undo_known (v_ops v) k"
    if "w_state (v_row v) = 5" "x \<in> set (v_ops v)" "o_status x = 2" for x
    using reversed_complete [OF ok(1) _ ok(3) that(2,3)] ok(2) that(1) by simp
  moreover have "o_status x \<noteq> 2" if "w_state (v_row v) = 7" "x \<in> set (v_ops v)" for x
    using settled_kept [OF ok(1) that(2)] ok(2) that(1) by (auto simp: stack_ok_def)
  moreover have "\<forall>k \<in> set (v_cps v). \<forall>k' \<in> set (v_cps v). active k \<longrightarrow> \<not> active k' \<longrightarrow> k_seq k < k_seq k'"
    "w_state (v_row v) \<in> {1, 4} \<longrightarrow> (\<forall>k \<in> set (v_cps v). active k \<and> k_reverse_invocation_id k = None)"
    using ok(2) by (simp_all add: stack_ok_def)
  ultimately show ?thesis by (intro conjI) simp_all
qed

theorem compensation_ordered_and_complete_witness:
  "\<exists>v. view (snd (coord_execute plain_env show_reversal show_start)) (replicate 16 3) = Some v \<and> w_state (v_row v) = 5 \<and>
     v_ops v \<noteq> [] \<and> (\<forall>x \<in> set (v_ops v). o_status x = 2 \<longrightarrow>
      (\<exists>k \<in> set (v_cps v). k_operation_id k = o_operation_id x \<and> compensated k))"
proof -
  from show_reversed obtain v where v: "view (snd (coord_execute plain_env show_reversal show_start)) (replicate 16 3) = Some v"
    "w_state (v_row v) = 5" "v_ops v \<noteq> []"
    by (auto simp: in_short_def)
  from compensation_ordered_and_complete [OF show_runs [unfolded show_start_def] v(1) [unfolded show_start_def]] v show ?thesis by blast
qed

text \<open>
  C15. A plan is followed to its end: a workflow created with a plan of \<open>n\<close> operations completes
  only with exactly the operations 1 to \<open>n\<close>, in that order, each settled and each with its
  checkpoint, and at any time it has requested the first so many of them, all but the last of
  them settled.
\<close>

theorem plan_followed_to_its_end:
  assumes "coord_run ce (empty_database now) tr db" and "view db wid = Some v" and "v_plan v = Some n"
  shows "map o_operation_seq (v_ops v) = [1..int (length (v_ops v))] \<and> int (length (v_ops v)) \<le> n \<and>
    (\<forall>x \<in> set (butlast (v_ops v)). o_status x = 2) \<and>
    (w_state (v_row v) = 4 \<longrightarrow> int (length (v_ops v)) = n \<and>
      (\<forall>x \<in> set (v_ops v). o_status x = 2 \<and> (\<exists>k \<in> set (v_cps v). k_operation_id k = o_operation_id x \<and> active k)))"
proof -
  have ok: "settled_ok (v_ops v) (v_cps v)" "stack_ok (w_state (v_row v)) (v_cps v)" "plan_ok (v_plan v) (w_state (v_row v)) (v_ops v)"
    using reachable_workflows_ok [OF assms(1)] assms(2) by (auto simp: workflows_ok_def wf_ok_def)
  have "\<exists>k \<in> set (v_cps v). k_operation_id k = o_operation_id x \<and> active k"
    if "x \<in> set (v_ops v)" "o_status x = 2" "w_state (v_row v) = 4" for x
  proof -
    have "o_operation_id x \<in> k_operation_id ` set (v_cps v)" using ok(1) that(1,2) by (simp add: settled_ok_def)
    with ok(2) that(3) show ?thesis by (auto simp: stack_ok_def)
  qed
  with ok(3) assms(3) show ?thesis by (simp add: plan_ok_def)
qed

theorem plan_followed_to_its_end_witness:
  "\<exists>v. view (snd (coord_execute plain_env show_completion show_start)) (replicate 16 1) = Some v \<and> v_plan v = Some 2 \<and>
     w_state (v_row v) = 4 \<and> map o_operation_seq (v_ops v) = [1..2] \<and>
     (\<forall>x \<in> set (v_ops v). o_status x = 2 \<and> (\<exists>k \<in> set (v_cps v). k_operation_id k = o_operation_id x \<and> active k))"
proof -
  from show_completed obtain v where v: "view (snd (coord_execute plain_env show_completion show_start)) (replicate 16 1) = Some v"
    "v_plan v = Some 2" "w_state (v_row v) = 4"
    by (auto simp: in_short_def)
  from plan_followed_to_its_end [OF show_runs [unfolded show_start_def] v(1) [unfolded show_start_def] v(2)] v show ?thesis
    by auto
qed

text \<open>
  C16. Only the newest grant publishes: the tokens granted on a workflow grow from grant to grant,
  and a fenced call that changes the tables presents the executor and token of the last of
  them; a worker that was superseded, or never granted the workflow, changes nothing.
\<close>

theorem only_newest_grant_publishes:
  assumes "coord_run ce (empty_database now) tr db" and "coord_step ce c db out db'"
    and "call_fence c = Some (wid, ex, tok)" and "db' \<noteq> db"
  shows "grants wid tr \<noteq> [] \<and> last (grants wid tr) = (ex, tok) \<and> sorted_wrt (<) (map snd (grants wid tr))"
proof -
  from fenced_call_holds [OF assms(2-4)] obtain r where r: "select_workflow db wid = Some r" "w_lease_owner r = Some ex"
      "w_fencing_token r = tok"
    by (auto simp: holds_lease_def)
  from view_of_row [OF r(1)] obtain v where v: "view db wid = Some v" "v_row v = r" by blast
  have "holder_ok (grants wid tr) (view db wid)" using coord_reachable [OF assms(1)] by (simp add: coord_ok_def)
  with v r(2,3) show ?thesis by (auto simp: holder_ok_def)
qed

theorem only_newest_grant_publishes_witness:
  "\<exists>db'. coord_step plain_env (show_settle 1 9 2 1 21 21 False) (snd show_taken_over) (Operation_Settled [123, 125]) db' \<and>
     last (grants (replicate 16 1) (fst show_taken_over)) = (replicate 16 9, 2) \<and>
     sorted_wrt (<) (map snd (grants (replicate 16 1) (fst show_taken_over)))"
proof -
  from show_taker obtain db' where s: "coord_step plain_env (show_settle 1 9 2 1 21 21 False) (snd show_taken_over)
      (Operation_Settled [123, 125]) db'" "length (tb_checkpoint db') \<noteq> length (tb_checkpoint (snd show_taken_over))"
    by (auto simp: coord_step_def)
  then have "db' \<noteq> snd show_taken_over" by auto
  moreover have "call_fence (show_settle 1 9 2 1 21 21 False) = Some (replicate 16 1, replicate 16 9, 2)"
    by (simp add: show_settle_def fence_args_def show_fence_def show_id_def fenced_args.defs op_settle_args.defs)
  moreover have "coord_run plain_env (empty_database (show_time 0)) (fst show_taken_over) (snd show_taken_over)"
    using show_runs by (simp add: show_taken_over_def show_start_def)
  ultimately show ?thesis using only_newest_grant_publishes [OF _ s(1)] s(1) by blast
qed

text \<open>
  C17. The event log is a chronicle: the events of a workflow are in strictly increasing time,
  the row points at the last, and whatever is committed later only adds to them.
\<close>

theorem events_are_chronicle:
  assumes "coord_run ce (empty_database now) tr db" and "view db wid = Some v" and "coord_run ce db tr' db'"
  shows "\<exists>v' es. view db' wid = Some v' \<and> v_evs v' = v_evs v @ es \<and> v_evs v \<noteq> [] \<and>
    sorted_wrt (<) (map e_event_ts (v_evs v')) \<and> w_current_event_ts (v_row v') = e_event_ts (last (v_evs v'))"
proof -
  have ok: "workflows_ok db" by (rule reachable_workflows_ok [OF assms(1)])
  note run = assms(3) [unfolded coord_run_def]
  from run_exists [OF run ok assms(2)] obtain v' where v': "view db' wid = Some v'" by blast
  obtain es where es: "wf_events wid db' = wf_events wid db @ es" using coordinator.run_log [OF run ok] by blast
  have "chronology_ok v" "chronology_ok v'"
    using ok coordinator.run_ok [OF run ok] assms(2) v' by (auto simp: workflows_ok_def wf_ok_def)
  with es v' assms(2) show ?thesis by (auto simp: chronology_ok_def wf_events_def)
qed

theorem events_are_chronicle_witness:
  "\<exists>v v' es. view (snd show_taken_over) (replicate 16 1) = Some v \<and> length (v_evs v) = 2 \<and>
     view (snd (coord_execute plain_env (drop 4 show_completion) (snd show_taken_over))) (replicate 16 1) = Some v' \<and>
     v_evs v' = v_evs v @ es \<and> sorted_wrt (<) (map e_event_ts (v_evs v')) \<and>
     w_current_event_ts (v_row v') = e_event_ts (last (v_evs v'))"
proof -
  from show_midway obtain v where v: "view (snd show_taken_over) (replicate 16 1) = Some v" "length (v_evs v) = 2"
    by (auto simp: in_short_def)
  have "coord_run plain_env (empty_database (show_time 0)) (fst show_taken_over) (snd show_taken_over)"
    using show_runs by (simp add: show_taken_over_def show_start_def)
  from events_are_chronicle [OF this v(1) coord_execute_run [of plain_env "drop 4 show_completion" "snd show_taken_over",
      OF prod.collapse [symmetric]]] v
  show ?thesis by blast
qed

text \<open>
  What the design calls a blocked resolution (\<open>microflows/doc/microflows_design.md\<close> 3.1, and
  \<open>transition_target\<close> of \<open>state.drift\<close>: an operator sends a blocked workflow forward, into reversal or
  to the state 6) is the work of no stored procedure: to all of them together a blocked workflow is
  out of reach, but for the time at which it is next looked at.
\<close>

lemma blocked_is_never_resolved:
  assumes "coord_run ce (empty_database now) tr db" and "view db wid = Some v" and "w_state (v_row v) = 3"
    and "coord_run ce db tr' db'"
  shows "\<exists>t. view db' wid = Some (v\<lparr>v_row := (v_row v)\<lparr>w_next_attempt_at := t\<rparr>\<rparr>)"
  using run_past_forward [OF assms(4) [unfolded coord_run_def] reachable_workflows_ok [OF assms(1)] assms(2)] assms(3)
  by (auto simp: past_forward_def)

text \<open>
  C18. There is no way back: once a workflow is being undone, is completed, reversed or failed, or
  is blocked while it was being undone, whatever calls follow, it never runs forward again, no
  operation is added to it or settled and its stack of checkpoints stays the same but for their
  state; and once it is reversed or failed, nothing of it changes any more but the time at which it
  is next looked at.  A workflow that is blocked while it ran forward is not in the statement: the
  design lets an operator send it forward again.
\<close>

theorem no_way_back:
  assumes "coord_run ce (empty_database now) tr db" and "view db wid = Some v" and "w_state (v_row v) \<noteq> 1"
    and "w_state (v_row v) = 3 \<Longrightarrow> w_execution_direction (v_row v) = 2"
    and "coord_run ce db tr' db'"
  shows "\<exists>v'. view db' wid = Some v' \<and> w_state (v_row v') \<noteq> 1 \<and> same_ops (v_ops v) (v_ops v') \<and>
    map (\<lambda>k. (k_seq k, k_operation_id k)) (v_cps v') = map (\<lambda>k. (k_seq k, k_operation_id k)) (v_cps v) \<and>
    (w_state (v_row v) \<in> {5, 7} \<longrightarrow> (\<exists>t. v' = v\<lparr>v_row := (v_row v)\<lparr>w_next_attempt_at := t\<rparr>\<rparr>))"
  using run_past_forward [OF assms(5) [unfolded coord_run_def] reachable_workflows_ok [OF assms(1)] assms(2,3)]
  by (auto simp: past_forward_def)

theorem no_way_back_witness:
  "\<exists>v v' tr db'. coord_execute plain_env [show_claim 3 8 50, show_request 3 8 3 3 23 50]
      (snd (coord_execute plain_env show_reversal show_start)) = (tr, db') \<and>
     view (snd (coord_execute plain_env show_reversal show_start)) (replicate 16 3) = Some v \<and> w_state (v_row v) = 5 \<and>
     view db' (replicate 16 3) = Some v' \<and> v_ops v' = v_ops v \<and> v_evs v' = v_evs v"
proof -
  from show_reversed obtain v where v: "view (snd (coord_execute plain_env show_reversal show_start)) (replicate 16 3) = Some v"
    "w_state (v_row v) = 5"
    by (auto simp: in_short_def)
  obtain tr db' where e: "coord_execute plain_env [show_claim 3 8 50, show_request 3 8 3 3 23 50]
      (snd (coord_execute plain_env show_reversal show_start)) = (tr, db')"
    by fastforce
  from no_way_back [OF show_runs [unfolded show_start_def] v(1) [unfolded show_start_def] _ _
      coord_execute_run [OF e [unfolded show_start_def]]] v
  obtain v' t where "view db' (replicate 16 3) = Some v'" "v' = v\<lparr>v_row := (v_row v)\<lparr>w_next_attempt_at := t\<rparr>\<rparr>"
    by auto
  with v e show ?thesis by auto
qed

end
