(* ===== verification/Coord_Kept.thy ===== *)
theory Coord_Kept
  imports Coord_Runs
begin

text \<open>
  What every stored procedure keeps because each of its statements does.  The locale \<open>kept\<close> is the
  contract of a relation between two states of the tables: reflexive, transitive, and kept by each
  INSERT and by each UPDATE that leaves the identifying columns alone.  Its lemmas go through the
  procedures once; \<open>kept_by_all\<close> adds the insertion of a call and so covers every run.
  \<open>documents_kept\<close> is such a relation: what a workflow was created and requested with stays.
\<close>

section \<open>Columns no procedure rewrites\<close>

definition row_identity :: "workflow_row \<Rightarrow> bytes \<times> str \<times> bytes option \<times> int option" where
  "row_identity r = (w_workflow_id r, w_script_name r, w_parent_workflow_id r, w_call_depth r)"

definition request_of :: "operation_row \<Rightarrow> (bytes \<times> int) \<times> bytes \<times> str \<times> int \<times> str \<times> str \<times> int" where
  "request_of x = ((o_workflow_id x, o_operation_seq x), o_operation_id x, o_operation_name x, o_schema_version x,
     o_input_json x, o_input_hash x, o_call_kind x)"

definition op_counts :: "operation_row \<Rightarrow> bool" where
  "op_counts x \<longleftrightarrow> 0 \<le> o_reconcile_attempts x \<and> 0 \<le> o_redispatch_count x"

definition cp_counts :: "checkpoint_row \<Rightarrow> bool" where
  "cp_counts k \<longleftrightarrow> 0 \<le> k_reconcile_attempts k \<and> 0 \<le> k_redispatch_count k"

definition keeps_row :: "(workflow_row \<Rightarrow> workflow_row) \<Rightarrow> bool" where
  "keeps_row f \<longleftrightarrow> (\<forall>r. row_identity (f r) = row_identity r)"

definition keeps_request :: "(operation_row \<Rightarrow> operation_row) \<Rightarrow> bool" where
  "keeps_request g \<longleftrightarrow> (\<forall>x. request_of (g x) = request_of x \<and> (op_counts x \<longrightarrow> op_counts (g x)))"

definition keeps_checkpoint :: "(checkpoint_row \<Rightarrow> checkpoint_row) \<Rightarrow> bool" where
  "keeps_checkpoint h \<longleftrightarrow> (\<forall>k. (k_workflow_id (h k), k_seq (h k)) = (k_workflow_id k, k_seq k) \<and> (cp_counts k \<longrightarrow> cp_counts (h k)))"

text \<open>What the procedures write on the rows.\<close>

lemmas written_rows = claimed_row_def advance_def failed_row_def deferred_row_def settled_row_def Let_def
  route_unknown_row_def reversal_failed_row_def reversal_begun_row_def reversed_row_def reverse_blocked_row_def
  touched_row_def reverse_route_unknown_row_def woken_row_def reopened_row_def
  requested_operation_def settled_operation_def budget_row_def anchored_operation_def redispatched_operation_def
  new_checkpoint_def bound_checkpoint_def reversed_checkpoint_def blocked_checkpoint_def anchored_checkpoint_def
  redispatched_checkpoint_def budget_checkpoint_def

lemmas keeps_columns = keeps_row_def row_identity_def keeps_request_def request_of_def op_counts_def
  keeps_checkpoint_def cp_counts_def written_rows

section \<open>Relations that every statement keeps\<close>

text \<open>Whatever a procedure answers, the tables it leaves are in the relation with the first ones.\<close>

definition answer_keeps ::
    "(database \<Rightarrow> database \<Rightarrow> bool) \<Rightarrow> database \<Rightarrow> coord_fault + coord_outcome \<times> database \<Rightarrow> bool" where
  "answer_keeps keeps db0 res \<longleftrightarrow> (\<forall>out db'. res = Inr (out, db') \<longrightarrow> keeps db0 db')"

lemma answer_rules:
  "keeps db0 db \<Longrightarrow> answer_keeps keeps db0 (Inr (out, db))"
  "answer_keeps keeps db0 (Inl e)"
  "(P \<Longrightarrow> answer_keeps keeps db0 x) \<Longrightarrow> (\<not> P \<Longrightarrow> answer_keeps keeps db0 y) \<Longrightarrow>
     answer_keeps keeps db0 (if P then x else y)"
  "(v = None \<Longrightarrow> answer_keeps keeps db0 x) \<Longrightarrow> (\<And>w. v = Some w \<Longrightarrow> answer_keeps keeps db0 (f w)) \<Longrightarrow>
     answer_keeps keeps db0 (case v of None \<Rightarrow> x | Some w \<Rightarrow> f w)"
  "(\<And>a b. p = (a, b) \<Longrightarrow> answer_keeps keeps db0 (g a b)) \<Longrightarrow> answer_keeps keeps db0 (case p of (a, b) \<Rightarrow> g a b)"
  "answer_keeps keeps db0 (k ()) \<Longrightarrow> answer_keeps keeps db0 (bind_res (m :: coord_fault + unit) k)"
  by (auto simp: answer_keeps_def bind_res_eq_Inr split: option.split prod.split)

locale kept =
  fixes keeps :: "database \<Rightarrow> database \<Rightarrow> bool"
  assumes keeps_refl: "keeps db db"
    and keeps_trans: "keeps db db1 \<Longrightarrow> keeps db1 db2 \<Longrightarrow> keeps db db2"
    and update_workflow_keeps: "update_workflow ce wid f db = Inr db' \<Longrightarrow> keeps_row f \<Longrightarrow> keeps db db'"
    and update_operation_keeps: "update_operation ce wid n g db = Inr db' \<Longrightarrow> keeps_request g \<Longrightarrow> keeps db db'"
    and update_checkpoint_keeps: "update_checkpoint ce wid n h db = Inr db' \<Longrightarrow> keeps_checkpoint h \<Longrightarrow> keeps db db'"
    and insert_workflow_keeps: "insert_workflow ce r db = Inr db' \<Longrightarrow> keeps db db'"
    and insert_operation_keeps: "insert_operation ce x db = Inr db' \<Longrightarrow> op_counts x \<Longrightarrow> keeps db db'"
    and insert_checkpoint_keeps: "insert_checkpoint ce k db = Inr db' \<Longrightarrow> cp_counts k \<Longrightarrow> keeps db db'"
    and insert_event_keeps: "insert_workflow_event ce e db = Inr db' \<Longrightarrow> keeps db db'"
    and insert_plan_keeps: "insert_plan ce p db = Inr db' \<Longrightarrow> keeps db db'"
    and insert_args_keeps: "insert_args t db = Inr db' \<Longrightarrow> keeps db db'"
    and hint_keeps: "update_call wid n (hinted_call status ts) db = Inr db' \<Longrightarrow> keeps db db'"
begin

lemma publish_keeps: "publish ce wid f e db = Inr db' \<Longrightarrow> keeps_row f \<Longrightarrow> keeps db db'"
  unfolding publish_def by (erule bind_res_InrE) (blast intro: keeps_trans update_workflow_keeps insert_event_keeps)

lemma refresh_keeps: "refresh_hint status ts c db = Inr db' \<Longrightarrow> keeps db db'"
  by (auto simp: refresh_hint_def keeps_refl intro: hint_keeps split: if_splits)

text \<open>One statement, then the rest of the procedure.\<close>

lemma answer_statement:
  assumes "\<And>db1. m = Inr db1 \<Longrightarrow> keeps db db1" and "keeps db0 db"
    and "\<And>db1. keeps db0 db1 \<Longrightarrow> answer_keeps keeps db0 (k db1)"
  shows "answer_keeps keeps db0 (bind_res (m :: coord_fault + database) k)"
  using assms keeps_trans [OF assms(2)] by (auto simp: answer_keeps_def bind_res_eq_Inr)

lemma answer_changes:
  "keeps_row f \<Longrightarrow> keeps db0 db \<Longrightarrow> (\<And>db1. keeps db0 db1 \<Longrightarrow> answer_keeps keeps db0 (k db1)) \<Longrightarrow>
    answer_keeps keeps db0 (bind_res (update_workflow ce wid f db) k)"
  "keeps_row f \<Longrightarrow> keeps db0 db \<Longrightarrow> (\<And>db1. keeps db0 db1 \<Longrightarrow> answer_keeps keeps db0 (k db1)) \<Longrightarrow>
    answer_keeps keeps db0 (bind_res (publish ce wid f e db) k)"
  "keeps_request g \<Longrightarrow> keeps db0 db \<Longrightarrow> (\<And>db1. keeps db0 db1 \<Longrightarrow> answer_keeps keeps db0 (k db1)) \<Longrightarrow>
    answer_keeps keeps db0 (bind_res (update_operation ce wid n g db) k)"
  "keeps_checkpoint h \<Longrightarrow> keeps db0 db \<Longrightarrow> (\<And>db1. keeps db0 db1 \<Longrightarrow> answer_keeps keeps db0 (k db1)) \<Longrightarrow>
    answer_keeps keeps db0 (bind_res (update_checkpoint ce wid n h db) k)"
  "op_counts x \<Longrightarrow> keeps db0 db \<Longrightarrow> (\<And>db1. keeps db0 db1 \<Longrightarrow> answer_keeps keeps db0 (k db1)) \<Longrightarrow>
    answer_keeps keeps db0 (bind_res (insert_operation ce x db) k)"
  "cp_counts y \<Longrightarrow> keeps db0 db \<Longrightarrow> (\<And>db1. keeps db0 db1 \<Longrightarrow> answer_keeps keeps db0 (k db1)) \<Longrightarrow>
    answer_keeps keeps db0 (bind_res (insert_checkpoint ce y db) k)"
  by (rule answer_statement [where db = db], erule update_workflow_keeps publish_keeps update_operation_keeps
      update_checkpoint_keeps insert_operation_keeps insert_checkpoint_keeps; assumption)+

lemma answer_inserts:
  "keeps db0 db \<Longrightarrow> (\<And>db1. keeps db0 db1 \<Longrightarrow> answer_keeps keeps db0 (k db1)) \<Longrightarrow>
    answer_keeps keeps db0 (bind_res (insert_workflow_event ce e db) k)"
  "keeps db0 db \<Longrightarrow> (\<And>db1. keeps db0 db1 \<Longrightarrow> answer_keeps keeps db0 (k db1)) \<Longrightarrow>
    answer_keeps keeps db0 (bind_res (insert_plan ce p db) k)"
  "keeps db0 db \<Longrightarrow> (\<And>db1. keeps db0 db1 \<Longrightarrow> answer_keeps keeps db0 (k db1)) \<Longrightarrow>
    answer_keeps keeps db0 (bind_res (insert_args t db) k)"
  "keeps db0 db \<Longrightarrow> (\<And>db1. keeps db0 db1 \<Longrightarrow> answer_keeps keeps db0 (k db1)) \<Longrightarrow>
    answer_keeps keeps db0 (bind_res (refresh_hint status ts c db) k)"
  by (rule answer_statement [where db = db], erule insert_event_keeps insert_plan_keeps insert_args_keeps refresh_keeps;
      assumption)+

text \<open>Creation answers a duplicate key itself.\<close>

lemma answer_insert_workflow:
  assumes "keeps db0 db" and "\<And>e. answer_keeps keeps db0 (f e)"
    and "\<And>db1. keeps db0 db1 \<Longrightarrow> answer_keeps keeps db0 (k db1)"
  shows "answer_keeps keeps db0 (case insert_workflow ce r db of Inl e \<Rightarrow> f e | Inr db1 \<Rightarrow> k db1)"
  using assms keeps_trans [OF assms(1) insert_workflow_keeps, of ce r] by (simp split: sum.split)

lemmas answer_steps = answer_rules answer_changes answer_inserts answer_insert_workflow

lemma keeps_lease_calls:
  "answer_keeps keeps db (sp_workflow_heartbeat ce ha db)" "answer_keeps keeps db (sp_workflow_release ce la db)"
  "answer_keeps keeps db (sp_operation_dispatch_defer ce da db)" "answer_keeps keeps db (sp_operation_fail ce ba db)"
  unfolding sp_workflow_heartbeat_def sp_workflow_release_def sp_operation_dispatch_defer_def sp_operation_fail_def
    with_workflow_def Let_def
  by (intro answer_steps; simp add: keeps_refl keeps_columns)+

lemma keeps_claims:
  "answer_keeps keeps db (sp_workflow_claim ce locked ca db)" "answer_keeps keeps db (sp_workflow_claim_by_id ce locked ia db)"
proof -
  have lease: "answer_keeps keeps db (install_lease ce ex now deadline r db)" for ex now deadline r
    unfolding install_lease_def by (intro answer_steps; simp add: keeps_refl keeps_columns)
  show "answer_keeps keeps db (sp_workflow_claim ce locked ca db)"
    unfolding sp_workflow_claim_def Let_def
    by (rule answer_rules(6)) (auto simp: lease answer_rules keeps_refl split: list.split)
  show "answer_keeps keeps db (sp_workflow_claim_by_id ce locked ia db)"
    unfolding sp_workflow_claim_by_id_def Let_def by (intro answer_rules lease; simp add: keeps_refl)
qed

lemma keeps_creations:
  "answer_keeps keeps db (sp_workflow_create ce wa db)" "answer_keeps keeps db (sp_workflow_create_planned ce na db)"
  unfolding sp_workflow_create_def sp_workflow_create_planned_def Let_def by (intro answer_steps; simp add: keeps_refl)+

lemma keeps_operation_calls:
  "answer_keeps keeps db (sp_operation_request ce qa db)" "answer_keeps keeps db (sp_operation_settle ce oa db)"
  "answer_keeps keeps db (sp_workflow_reconcile_defer ce za db)" "answer_keeps keeps db (sp_operation_pending_defer ce xa db)"
  unfolding sp_operation_request_def sp_operation_settle_def sp_workflow_reconcile_defer_def sp_operation_pending_defer_def
    with_workflow_def Let_def
  by (intro answer_steps; simp add: keeps_refl keeps_columns)+

lemma keeps_reversals:
  "answer_keeps keeps db (sp_workflow_begin_reversal ce ga db)" "answer_keeps keeps db (sp_workflow_authored_fail ce ya db)"
proof -
  have leave: "answer_keeps keeps db (leave_forward ce wid actor trigger reason ts origin db)" for wid actor trigger reason ts origin
    unfolding leave_forward_def by (intro answer_steps; simp add: keeps_refl keeps_columns)
  show "answer_keeps keeps db (sp_workflow_begin_reversal ce ga db)" "answer_keeps keeps db (sp_workflow_authored_fail ce ya db)"
    unfolding sp_workflow_begin_reversal_def sp_workflow_authored_fail_def with_workflow_def Let_def
    by (intro answer_rules leave; simp add: keeps_refl)+
qed

lemma keeps_compensations:
  "answer_keeps keeps db (sp_checkpoint_reverse_request ce va db)" "answer_keeps keeps db (sp_checkpoint_reverse_settle ce ka db)"
  "answer_keeps keeps db (sp_checkpoint_reverse_block ce ua db)" "answer_keeps keeps db (sp_checkpoint_reverse_child_settle ce ch db)"
  unfolding sp_checkpoint_reverse_request_def sp_checkpoint_reverse_settle_def sp_checkpoint_reverse_block_def
    sp_checkpoint_reverse_child_settle_def with_workflow_def Let_def
  by (intro answer_steps; simp add: keeps_refl keeps_columns)+

lemma keeps_checkpoint_timers:
  "answer_keeps keeps db (sp_checkpoint_pending_defer ce pa db)" "answer_keeps keeps db (sp_checkpoint_reconcile_defer ce ra db)"
  unfolding sp_checkpoint_pending_defer_def sp_checkpoint_reconcile_defer_def with_timer_checkpoint_def with_workflow_def Let_def
  by (intro answer_steps; simp add: keeps_refl keeps_columns)+

lemma keeps_hints:
  "answer_keeps keeps db (sp_call_hint_refresh hi db)" "answer_keeps keeps db (sp_child_terminal_notify ce nt db)"
  unfolding sp_call_hint_refresh_def sp_child_terminal_notify_def
  by (intro answer_steps; simp add: keeps_refl keeps_columns)+

text \<open>Two rows and their events in one transaction.\<close>

lemma keeps_reopen: "answer_keeps keeps db (sp_checkpoint_reverse_child_reopen ce ch db)"
proof -
  have writes: "keeps db db'" if "reopen_writes ce ch wid child n db = Inr db'" for wid child n db'
  proof -
    have rows: "keeps_row (touched_row ts ts')" "keeps_row (reopened_row ce n ts)" for ts ts'
      by (simp_all add: keeps_columns)
    from that [unfolded reopen_writes_def Let_def] show ?thesis
      by (rule bind_res_InrE) (rule keeps_trans; erule publish_keeps, rule rows)
  qed
  show ?thesis
    unfolding sp_checkpoint_reverse_child_reopen_def with_workflow_def Let_def
    by (intro answer_rules answer_statement [OF writes]; simp add: keeps_refl)
qed

lemmas keeps_procedures = keeps_lease_calls keeps_claims keeps_creations keeps_operation_calls keeps_reversals
  keeps_compensations keeps_checkpoint_timers keeps_hints keeps_reopen

text \<open>Every call but the submission of one.\<close>

lemma keeps_call: "\<forall>a. c \<noteq> Submit_Call a \<Longrightarrow> answer_keeps keeps db (coord_run_call ce c db)"
  by (cases c) (simp_all add: keeps_procedures)

end

locale kept_by_all = kept +
  assumes insert_call_keeps: "insert_call c db = Inr db' \<Longrightarrow> keeps db db'"
begin

lemma keeps_submit: "answer_keeps keeps db (sp_call_submit ce a db)"
proof -
  have writes: "keeps db db'" if "submit_writes ce a wid r db = Inr db'" for wid r db'
    using that
  proof (rule submit_writes_cases)
    fix db1 db2 db3 db4 db5 db6 p t
    let ?child = "the (ea_child_workflow_id a)" and ?ts = "the (ea_event_ts a)"
    assume 1: "insert_operation ce (call_operation a) db = Inr db1" and 2: "insert_workflow ce (child_workflow a r) db1 = Inr db2"
      and 3: "insert_plan ce p db2 = Inr db3" and 4: "insert_args t db3 = Inr db4"
      and 5: "insert_workflow_event ce (event_of ?child ?ts ''created'' None (the (ea_child_event_payload a))) db4 = Inr db5"
      and 6: "insert_call (submitted_call a) db5 = Inr db6"
      and 7: "publish ce wid (advance (the (ea_new_continuation a)) ?ts)
        (event_of wid ?ts ''call_submitted'' (fa_executor a) (the (ea_event_payload a))) db6 = Inr db'"
    have "keeps db db1" by (rule insert_operation_keeps [OF 1]) (simp add: call_operation_def op_counts_def)
    moreover have "keeps db6 db'" by (rule publish_keeps [OF 7]) (simp add: keeps_columns)
    ultimately show ?thesis
      using insert_workflow_keeps [OF 2] insert_plan_keeps [OF 3] insert_args_keeps [OF 4] insert_event_keeps [OF 5]
        insert_call_keeps [OF 6] keeps_trans by blast
  qed
  show ?thesis
    unfolding sp_call_submit_def with_workflow_def Let_def
    by (intro answer_rules answer_statement [OF writes]; simp add: keeps_refl)
qed

lemma keeps_step: "coord_step ce c db out db' \<Longrightarrow> keeps db db'"
proof -
  have "answer_keeps keeps db (coord_run_call ce c db)"
    by (cases "\<exists>a. c = Submit_Call a") (auto intro: keeps_submit keeps_call)
  then show "coord_step ce c db out db' \<Longrightarrow> keeps db db'" by (simp add: coord_step_def answer_keeps_def)
qed

lemma keeps_run: "calls_run (coord_step ce) db tr db' \<Longrightarrow> keeps db db'"
  by (induction rule: calls_run.induct) (auto intro: keeps_refl keeps_trans keeps_step)

end

section \<open>What a workflow was submitted with\<close>

definition documents_kept :: "database \<Rightarrow> database \<Rightarrow> bool" where
  "documents_kept db db' \<longleftrightarrow>
     (\<forall>u r. select_workflow db u = Some r \<longrightarrow>
        (\<exists>r'. select_workflow db' u = Some r' \<and> row_identity r' = row_identity r)) \<and>
     (\<forall>u p. select_plan db u = Some p \<longrightarrow> select_plan db' u = Some p) \<and>
     (\<forall>u t. select_args db u = Some t \<longrightarrow> select_args db' u = Some t) \<and>
     (\<forall>u n x. find_operation db u n = Some x \<longrightarrow>
        (\<exists>x'. find_operation db' u n = Some x' \<and> request_of x' = request_of x))"

lemma documents_keptD:
  assumes "documents_kept db db'"
  shows "select_workflow db u = Some r \<Longrightarrow> \<exists>r'. select_workflow db' u = Some r' \<and> row_identity r' = row_identity r"
    and "select_plan db u = Some p \<Longrightarrow> select_plan db' u = Some p"
    and "select_args db u = Some t \<Longrightarrow> select_args db' u = Some t"
    and "find_operation db u n = Some x \<Longrightarrow> \<exists>x'. find_operation db' u n = Some x' \<and> request_of x' = request_of x"
  using assms by (simp_all add: documents_kept_def)

lemma documents_kept_trans:
  assumes "documents_kept db db1" and "documents_kept db1 db2"
  shows "documents_kept db db2"
  unfolding documents_kept_def [of db db2]
proof (intro conjI allI impI)
  note one = documents_keptD [OF assms(1)] and two = documents_keptD [OF assms(2)]
  show "\<exists>r'. select_workflow db2 u = Some r' \<and> row_identity r' = row_identity r" if "select_workflow db u = Some r" for u r
    using one(1) [OF that] two(1) by fastforce
  show "select_plan db2 u = Some p" if "select_plan db u = Some p" for u p by (rule two(2) [OF one(2) [OF that]])
  show "select_args db2 u = Some t" if "select_args db u = Some t" for u t by (rule two(3) [OF one(3) [OF that]])
  show "\<exists>x'. find_operation db2 u n = Some x' \<and> request_of x' = request_of x" if "find_operation db u n = Some x" for u n x
    using one(4) [OF that] two(4) by fastforce
qed

lemma documents_kept_same:
  "tb_workflow db' = tb_workflow db \<Longrightarrow> tb_plan db' = tb_plan db \<Longrightarrow> tb_args db' = tb_args db \<Longrightarrow>
     tb_operation db' = tb_operation db \<Longrightarrow> documents_kept db db'"
  by (simp add: documents_kept_def select_workflow_def select_plan_def select_args_def find_operation_def)

lemma documents_kept_workflow: "update_workflow ce wid f db = Inr db' \<Longrightarrow> keeps_row f \<Longrightarrow> documents_kept db db'"
proof -
  assume run: "update_workflow ce wid f db = Inr db'" and row: "keeps_row f"
  then have "w_workflow_id (f r) = w_workflow_id r" for r by (simp add: keeps_row_def row_identity_def)
  note effect = update_workflow_effect [OF run this]
  from run have "tb_plan db' = tb_plan db" "tb_args db' = tb_args db" "tb_operation db' = tb_operation db"
    by (auto simp: update_workflow_def split: if_splits)
  with effect row show ?thesis
    by (auto simp: documents_kept_def keeps_row_def select_plan_def select_args_def find_operation_def)
qed

lemma documents_kept_operation: "update_operation ce wid n g db = Inr db' \<Longrightarrow> keeps_request g \<Longrightarrow> documents_kept db db'"
proof -
  assume "update_operation ce wid n g db = Inr db'" and req: "keeps_request g"
  then have db': "db' = db\<lparr>tb_operation :=
      map (\<lambda>r. if o_workflow_id r = wid \<and> o_operation_seq r = n then g r else r) (tb_operation db)\<rparr>"
    by (auto simp: update_operation_def split: if_splits)
  have key: "request_of (g x) = request_of x" "o_workflow_id (g x) = o_workflow_id x" "o_operation_seq (g x) = o_operation_seq x" for x
    using req by (auto simp: keeps_request_def request_of_def)
  have "find (\<lambda>r. o_workflow_id r = u \<and> o_operation_seq r = m)
      (map (\<lambda>r. if o_workflow_id r = wid \<and> o_operation_seq r = n then g r else r) xs) =
    map_option (\<lambda>r. if o_workflow_id r = wid \<and> o_operation_seq r = n then g r else r)
      (find (\<lambda>r. o_workflow_id r = u \<and> o_operation_seq r = m) xs)" for u m xs
    by (induction xs) (auto simp: key)
  then show ?thesis
    by (auto simp: documents_kept_def db' select_workflow_def select_plan_def select_args_def find_operation_def key(1))
qed

lemma documents_kept_inserts:
  "insert_workflow ce r db = Inr db' \<Longrightarrow> documents_kept db db'" "insert_operation ce x db = Inr db' \<Longrightarrow> documents_kept db db'"
  "insert_plan ce p db = Inr db' \<Longrightarrow> documents_kept db db'" "insert_args t db = Inr db' \<Longrightarrow> documents_kept db db'"
  by (auto simp: insert_workflow_def insert_operation_def insert_plan_def insert_args_def documents_kept_def
      select_workflow_def select_plan_def select_args_def find_operation_def find_append split: if_splits)

lemma documents_kept_others:
  "update_checkpoint ce wid n h db = Inr db' \<Longrightarrow> documents_kept db db'" "insert_checkpoint ce k db = Inr db' \<Longrightarrow> documents_kept db db'"
  "insert_workflow_event ce e db = Inr db' \<Longrightarrow> documents_kept db db'" "update_call wid n c db = Inr db' \<Longrightarrow> documents_kept db db'"
  "insert_call cr db = Inr db' \<Longrightarrow> documents_kept db db'"
  by (auto simp: update_checkpoint_def insert_checkpoint_def insert_workflow_event_def update_call_def insert_call_def
      intro: documents_kept_same split: if_splits)

interpretation documents: kept_by_all documents_kept
proof unfold_locales
  show "documents_kept db db" for db by (rule documents_kept_same) simp_all
  show "documents_kept db db2" if "documents_kept db db1" "documents_kept db1 db2" for db db1 db2
    by (rule documents_kept_trans [OF that])
qed (auto intro: documents_kept_workflow documents_kept_operation documents_kept_inserts documents_kept_others)

end
