(* ===== verification/Coord_Tree.thy ===== *)
theory Coord_Tree
  imports Coord_Kept
begin

text \<open>
  The calls between workflows: every call belongs to an operation of its workflow and to a child
  created with it, one level deeper.  The calls therefore form a forest, and a parent undoes a
  call only after its child has undone itself.
\<close>

section \<open>Calls and their children\<close>

text \<open>Counters of the timers never go below zero.\<close>

definition counts_ok :: "database \<Rightarrow> bool" where
  "counts_ok db \<longleftrightarrow>
     (\<forall>x \<in> set (tb_operation db). op_counts x) \<and> (\<forall>k \<in> set (tb_checkpoint db). cp_counts k)"

definition op_link :: "operation_row \<Rightarrow> bytes \<times> int \<times> bytes \<times> int" where
  "op_link x = (o_workflow_id x, o_operation_seq x, o_operation_id x, o_call_kind x)"

definition call_key :: "call_row \<Rightarrow> bytes \<times> int \<times> bytes" where
  "call_key c = (c_workflow_id c, c_operation_seq c, c_child_workflow_id c)"

definition call_ok :: "database \<Rightarrow> bytes \<times> int \<times> bytes \<Rightarrow> bool" where
  "call_ok db c \<longleftrightarrow>
     (case c of (wid, seq, child) \<Rightarrow>
        length child = 16 \<and> (wid, seq, child, 2) \<in> op_link ` set (tb_operation db) \<and>
        (\<exists>p k. select_workflow db wid = Some p \<and> select_workflow db child = Some k \<and>
           w_parent_workflow_id k = Some wid \<and> w_call_depth k = Some (child_depth p)))"

definition tree_ok :: "database \<Rightarrow> bool" where
  "tree_ok db \<longleftrightarrow>
     (\<forall>c \<in> call_key ` set (tb_call db). call_ok db c) \<and> distinct (map c_child_workflow_id (tb_call db)) \<and> counts_ok db"

text \<open>What a statement that submits no call keeps.\<close>

definition keeps_tree :: "database \<Rightarrow> database \<Rightarrow> bool" where
  "keeps_tree db db' \<longleftrightarrow>
     (\<forall>u r. select_workflow db u = Some r \<longrightarrow> (\<exists>r'. select_workflow db' u = Some r' \<and>
        w_parent_workflow_id r' = w_parent_workflow_id r \<and> w_call_depth r' = w_call_depth r)) \<and>
     op_link ` set (tb_operation db) \<subseteq> op_link ` set (tb_operation db') \<and>
     map call_key (tb_call db') = map call_key (tb_call db) \<and> (counts_ok db \<longrightarrow> counts_ok db')"

lemma keeps_tree_refl [simp]: "keeps_tree db db"
  by (simp add: keeps_tree_def)

lemma keeps_tree_trans:
  assumes "keeps_tree db db1" and "keeps_tree db1 db2"
  shows "keeps_tree db db2"
  unfolding keeps_tree_def
proof (intro conjI allI impI)
  fix u r
  assume "select_workflow db u = Some r"
  with assms(1) obtain r1 where r1: "select_workflow db1 u = Some r1"
    "w_parent_workflow_id r1 = w_parent_workflow_id r" "w_call_depth r1 = w_call_depth r"
    unfolding keeps_tree_def by blast
  with assms(2) obtain r2 where "select_workflow db2 u = Some r2"
    "w_parent_workflow_id r2 = w_parent_workflow_id r1" "w_call_depth r2 = w_call_depth r1"
    unfolding keeps_tree_def by blast
  with r1 show "\<exists>r'. select_workflow db2 u = Some r' \<and>
      w_parent_workflow_id r' = w_parent_workflow_id r \<and> w_call_depth r' = w_call_depth r" by simp
next
  show "op_link ` set (tb_operation db) \<subseteq> op_link ` set (tb_operation db2)"
    using assms unfolding keeps_tree_def by (meson subset_trans)
next
  show "map call_key (tb_call db2) = map call_key (tb_call db)" using assms by (simp add: keeps_tree_def)
next
  assume "counts_ok db"
  then show "counts_ok db2" using assms by (simp add: keeps_tree_def)
qed

lemma call_ok_kept: "call_ok db c \<Longrightarrow> keeps_tree db db' \<Longrightarrow> call_ok db' c"
proof -
  assume ok: "call_ok db c" and keeps: "keeps_tree db db'"
  obtain wid seq child where c: "c = (wid, seq, child)" by (cases c)
  from ok c obtain p k where p: "select_workflow db wid = Some p" and k: "select_workflow db child = Some k"
      "w_parent_workflow_id k = Some wid" "w_call_depth k = Some (child_depth p)"
    by (auto simp: call_ok_def)
  from keeps p obtain p' where p': "select_workflow db' wid = Some p'" "w_call_depth p' = w_call_depth p"
    unfolding keeps_tree_def by blast
  from keeps k(1) obtain k' where k': "select_workflow db' child = Some k'"
      "w_parent_workflow_id k' = w_parent_workflow_id k" "w_call_depth k' = w_call_depth k"
    unfolding keeps_tree_def by blast
  from p'(2) have "child_depth p' = child_depth p" by (simp add: child_depth_def)
  with ok c k k' p' keeps show ?thesis by (auto simp: call_ok_def keeps_tree_def)
qed

lemma tree_ok_kept:
  assumes "tree_ok db" and "keeps_tree db db'"
  shows "tree_ok db'"
proof -
  have keys: "map call_key (tb_call db') = map call_key (tb_call db)" using assms(2) by (simp add: keeps_tree_def)
  then have "set (map call_key (tb_call db')) = set (map call_key (tb_call db))" by (rule arg_cong)
  moreover have "map (\<lambda>(w, s, ch). ch) (map call_key (tb_call db')) = map (\<lambda>(w, s, ch). ch) (map call_key (tb_call db))"
    by (simp only: keys)
  ultimately show ?thesis
    using assms call_ok_kept [OF _ assms(2)] by (simp add: tree_ok_def call_key_def o_def keeps_tree_def)
qed

section \<open>Statements\<close>

lemma keeps_tables:
  "tb_workflow db' = tb_workflow db \<Longrightarrow> tb_operation db' = tb_operation db \<Longrightarrow> tb_call db' = tb_call db \<Longrightarrow>
     tb_checkpoint db' = tb_checkpoint db \<Longrightarrow> keeps_tree db db'"
  by (simp add: keeps_tree_def select_workflow_def counts_ok_def)

lemma keeps_tree_workflow: "update_workflow ce wid f db = Inr db' \<Longrightarrow> keeps_row f \<Longrightarrow> keeps_tree db db'"
proof -
  assume run: "update_workflow ce wid f db = Inr db'" and row: "keeps_row f"
  then have "w_workflow_id (f r) = w_workflow_id r" for r by (simp add: keeps_row_def row_identity_def)
  from update_workflow_effect [OF run this] row show ?thesis
    by (auto simp: keeps_tree_def counts_ok_def keeps_row_def row_identity_def)
qed

lemma keeps_tree_operation: "update_operation ce wid n g db = Inr db' \<Longrightarrow> keeps_request g \<Longrightarrow> keeps_tree db db'"
proof -
  assume run: "update_operation ce wid n g db = Inr db'" and req: "keeps_request g"
  then have db': "db' = db\<lparr>tb_operation :=
      map (\<lambda>r. if o_workflow_id r = wid \<and> o_operation_seq r = n then g r else r) (tb_operation db)\<rparr>"
    by (auto simp: update_operation_def split: if_splits)
  have link: "op_link (g x) = op_link x" for x
    using req by (auto simp: keeps_request_def request_of_def op_link_def)
  have "op_link ` set (tb_operation db') = op_link ` set (tb_operation db)"
    by (simp add: db' image_image if_distrib [of op_link] link del: if_image_distrib cong: if_cong)
  moreover have "counts_ok db \<longrightarrow> counts_ok db'" using req by (auto simp: counts_ok_def keeps_request_def db')
  moreover have "tb_workflow db' = tb_workflow db" "tb_call db' = tb_call db" by (simp_all add: db')
  ultimately show ?thesis by (simp add: keeps_tree_def select_workflow_def)
qed

lemma keeps_tree_checkpoint: "update_checkpoint ce wid n h db = Inr db' \<Longrightarrow> keeps_checkpoint h \<Longrightarrow> keeps_tree db db'"
  by (auto simp: update_checkpoint_def keeps_tree_def keeps_checkpoint_def select_workflow_def counts_ok_def split: if_splits)

lemma keeps_tree_inserts:
  "insert_workflow ce r db = Inr db' \<Longrightarrow> keeps_tree db db'"
  "insert_operation ce x db = Inr db' \<Longrightarrow> op_counts x \<Longrightarrow> keeps_tree db db'"
  "insert_checkpoint ce k db = Inr db' \<Longrightarrow> cp_counts k \<Longrightarrow> keeps_tree db db'"
  by (auto simp: insert_workflow_def insert_operation_def insert_checkpoint_def keeps_tree_def select_workflow_def
      find_append counts_ok_def split: if_splits)

lemma keeps_tree_others:
  "insert_workflow_event ce e db = Inr db' \<Longrightarrow> keeps_tree db db'" "insert_plan ce p db = Inr db' \<Longrightarrow> keeps_tree db db'"
  "insert_args t db = Inr db' \<Longrightarrow> keeps_tree db db'"
  by (auto simp: insert_workflow_event_def insert_plan_def insert_args_def intro: keeps_tables split: if_splits)

lemma keeps_tree_hint: "update_call wid n (hinted_call status ts) db = Inr db' \<Longrightarrow> keeps_tree db db'"
  by (auto simp: update_call_def keeps_tree_def select_workflow_def counts_ok_def call_key_def hinted_call_def
      split: if_splits)

interpretation tree: kept keeps_tree
  by unfold_locales (auto intro: keeps_tree_trans keeps_tree_workflow keeps_tree_operation keeps_tree_checkpoint
      keeps_tree_inserts keeps_tree_others keeps_tree_hint)

section \<open>Submitting a call\<close>

lemma insert_call_tree:
  assumes "insert_call c db = Inr db'" and "tree_ok db" and "call_ok db (call_key c)"
  shows "tree_ok db'"
proof -
  from assms(1) have db': "db' = db\<lparr>tb_call := tb_call db @ [c]\<rparr>"
    and fresh: "c_child_workflow_id c \<notin> set (map c_child_workflow_id (tb_call db))"
    by (auto simp: insert_call_def list_ex_iff split: if_splits)
  have same: "call_ok db' key = call_ok db key" for key
    by (simp add: db' call_ok_def select_workflow_def)
  show ?thesis
    using assms(2,3) fresh by (auto simp: tree_ok_def same) (auto simp: db' counts_ok_def)
qed

lemma submit_tree:
  assumes run: "submit_writes ce a wid r db = Inr db'" and ok: "tree_ok db" and r: "select_workflow db wid = Some r"
    and ids: "fa_workflow_id a = Some wid" "ea_operation_id a = ea_child_workflow_id a" "id16 (ea_child_workflow_id a)"
  shows "tree_ok db'"
  using run
proof (rule submit_writes_cases)
  fix db1 db2 db3 db4 db5 db6 p t
  let ?child = "the (ea_child_workflow_id a)" and ?ts = "the (ea_event_ts a)"
  let ?key = "(wid, the (ea_operation_seq a), ?child)"
  assume 1: "insert_operation ce (call_operation a) db = Inr db1" and 2: "insert_workflow ce (child_workflow a r) db1 = Inr db2"
    and 3: "insert_plan ce p db2 = Inr db3" and 4: "insert_args t db3 = Inr db4"
    and 5: "insert_workflow_event ce (event_of ?child ?ts ''created'' None (the (ea_child_event_payload a))) db4 = Inr db5"
    and 6: "insert_call (submitted_call a) db5 = Inr db6"
    and 7: "publish ce wid (advance (the (ea_new_continuation a)) ?ts)
      (event_of wid ?ts ''call_submitted'' (fa_executor a) (the (ea_event_payload a))) db6 = Inr db'"
  have k1: "keeps_tree db db1" by (rule keeps_tree_inserts(2) [OF 1]) (simp add: call_operation_def op_counts_def)
  have k2: "keeps_tree db1 db2" by (rule keeps_tree_inserts(1) [OF 2])
  have k5: "keeps_tree db2 db5"
    using keeps_tree_others(2) [OF 3] keeps_tree_others(3) [OF 4] keeps_tree_others(1) [OF 5] keeps_tree_trans by blast
  have op: "op_link (call_operation a) \<in> op_link ` set (tb_operation db2)"
    using 1 2 by (auto simp: insert_operation_def insert_workflow_def split: if_splits)
  have child: "select_workflow db2 ?child = Some (child_workflow a r)"
    using 2 by (auto simp: insert_workflow_def select_workflow_def find_append child_workflow_def new_workflow_def split: if_splits)
  obtain p' where p': "select_workflow db2 wid = Some p'" "w_call_depth p' = w_call_depth r"
    using keeps_tree_trans [OF k1 k2] r unfolding keeps_tree_def by blast
  have "child_depth p' = child_depth r" using p'(2) by (simp add: child_depth_def)
  then have "call_ok db2 ?key"
    using op child p' ids
    by (auto simp: call_ok_def op_link_def call_operation_def child_workflow_def id16_def split: option.splits)
  then have new: "call_ok db5 ?key" by (rule call_ok_kept [OF _ k5])
  have "tree_ok db5" by (rule tree_ok_kept [OF ok keeps_tree_trans [OF k1 keeps_tree_trans [OF k2 k5]]])
  then have "tree_ok db6"
    by (rule insert_call_tree [OF 6]) (use new ids(1) in \<open>simp add: call_key_def submitted_call_def\<close>)
  then show "tree_ok db'"
    by (rule tree_ok_kept) (rule tree.publish_keeps [OF 7], simp add: keeps_columns)
qed

lemma call_submit_tree:
  assumes "sp_call_submit ce a db = Inr (out, db')" and "tree_ok db"
  shows "tree_ok db'"
proof -
  let ?wid = "the (fa_workflow_id a)"
  from assms(1) have "list_all fst (submit_guards ce a)"
    by (cases "guards (submit_guards ce a)") (auto simp: sp_call_submit_def guards_Inr)
  then have ids: "id16 (fa_workflow_id a)" "ea_operation_id a = ea_child_workflow_id a" "id16 (ea_child_workflow_id a)"
    by (simp_all add: submit_guards_def fence_guards_def)
  then have wid: "fa_workflow_id a = Some ?wid" by (simp add: id16_def split: option.splits)
  from assms(1) consider "db' = db"
    | r where "select_workflow db ?wid = Some r" "submit_writes ce a ?wid r db = Inr db'"
    by (auto simp: sp_call_submit_def with_workflow_def Let_def elim!: bind_res_InrE split: option.split_asm if_split_asm)
  then show ?thesis using assms(2) submit_tree [OF _ _ _ wid ids(2,3)] by cases auto
qed

section \<open>Every run\<close>

lemma coord_step_tree:
  assumes "coord_step ce c db out db'" and "tree_ok db"
  shows "tree_ok db'"
proof (cases "\<exists>a. c = Submit_Call a")
  case True
  with assms show ?thesis by (auto simp: coord_step_def intro: call_submit_tree)
next
  case False
  then have "answer_keeps keeps_tree db (coord_run_call ce c db)" by (intro tree.keeps_call) blast
  with assms show ?thesis by (auto simp: coord_step_def answer_keeps_def intro: tree_ok_kept)
qed

lemma reachable_tree_ok:
  assumes "coord_run ce (empty_database now) tr db"
  shows "tree_ok db"
proof -
  have "tree_ok db0 \<Longrightarrow> tree_ok db1" if "calls_run (coord_step ce) db0 tr db1" for db0 db1
    using that by (induction rule: calls_run.induct) (auto dest: coord_step_tree)
  moreover have "tree_ok (empty_database now)" by (simp add: tree_ok_def counts_ok_def empty_database_def)
  ultimately show ?thesis using assms by (simp add: coord_run_def)
qed

text \<open>Depths along the calls.\<close>

definition depth_of :: "database \<Rightarrow> bytes \<Rightarrow> int" where
  "depth_of db wid = (case select_workflow db wid of None \<Rightarrow> 0 | Some r \<Rightarrow> child_depth r)"

definition call_edges :: "database \<Rightarrow> (bytes \<times> bytes) set" where
  "call_edges db = (\<lambda>c. (c_workflow_id c, c_child_workflow_id c)) ` set (tb_call db)"

lemma tree_call:
  assumes "tree_ok db" and "c \<in> set (tb_call db)"
  shows "call_ok db (c_workflow_id c, c_operation_seq c, c_child_workflow_id c)"
proof -
  have "call_key c \<in> call_key ` set (tb_call db)" using assms(2) by blast
  then have "call_ok db (call_key c)" using assms(1) unfolding tree_ok_def by blast
  then show ?thesis by (simp add: call_key_def)
qed

lemma edge_deeper:
  assumes "tree_ok db" and "(p, ch) \<in> call_edges db"
  shows "depth_of db ch = depth_of db p + 1"
proof -
  from assms(2) obtain c where "c \<in> set (tb_call db)" "p = c_workflow_id c" "ch = c_child_workflow_id c"
    by (auto simp: call_edges_def)
  with tree_call [OF assms(1) this(1)] show ?thesis by (auto simp: call_ok_def depth_of_def child_depth_def)
qed

lemma call_edges_acyclic: "tree_ok db \<Longrightarrow> acyclic (call_edges db)"
proof (rule acyclicI, intro allI notI)
  fix x
  assume ok: "tree_ok db" and cyc: "(x, x) \<in> (call_edges db)\<^sup>+"
  have "depth_of db p < depth_of db ch" if "(p, ch) \<in> (call_edges db)\<^sup>+" for p ch
    using that by (induction rule: trancl_induct) (auto dest: edge_deeper [OF ok])
  from this [OF cyc] show False by simp
qed

text \<open>What a call's compensation settles on.\<close>

lemma settled_child:
  assumes "sp_checkpoint_reverse_child_settle ce a db = Inr (out, db')" and "db' \<noteq> db"
  shows "\<exists>c k. find_call db (the (fa_workflow_id a)) (the (ch_seq a)) = Some c \<and>
    select_workflow db (c_child_workflow_id c) = Some k \<and> w_state k \<in> {5, 6} \<and>
    fa_workflow_id a \<noteq> None \<and> ch_seq a \<noteq> None"
proof -
  from assms(1) have "list_all fst (child_guards a)"
    by (cases "guards (child_guards a)") (auto simp: sp_checkpoint_reverse_child_settle_def guards_Inr)
  then have "fa_workflow_id a \<noteq> None" "ch_seq a \<noteq> None"
    by (cases "fa_workflow_id a"; cases "ch_seq a"; simp add: child_guards_def fence_guards_def id16_def at_least_def)+
  with assms show ?thesis
    by (auto simp: sp_checkpoint_reverse_child_settle_def with_workflow_def Let_def
        elim!: bind_res_InrE split: option.split_asm if_split_asm)
qed

section \<open>A family of workflows\<close>

text \<open>
  Workflow 1 calls workflow 31, which completes; when the second operation of workflow 1 fails,
  its child is reopened, undoes its one operation, and only then the call is settled as undone.
\<close>

definition show_call :: "8 word \<Rightarrow> 8 word \<Rightarrow> int \<Rightarrow> int \<Rightarrow> 8 word \<Rightarrow> nat \<Rightarrow> coord_call" where
  "show_call w ex tok n child s = Submit_Call (fenced_args.extend (show_fence w ex tok)
     (submit_args.fields (Some n) (show_id child) show_doc (Some [104]) show_doc (Some (show_time s)) show_doc
       (show_id child) (Some [113]) (Some [118]) (Some (replicate 33 1)) (Some 1) show_doc (Some (show_time s)) show_doc
       (Some [110]) (Some 4)))"

definition show_child_args :: "8 word \<Rightarrow> 8 word \<Rightarrow> int \<Rightarrow> int \<Rightarrow> nat \<Rightarrow> child_args" where
  "show_child_args w ex tok n s =
     fenced_args.extend (show_fence w ex tok) (child_args.fields (Some n) (Some (show_time s)))"

definition show_family :: "coord_call list" where
  "show_family =
     [Create_Planned (show_create 1 2), show_claim 1 9 1, show_call 1 9 1 1 31 2, show_claim 31 8 3,
      show_request 31 8 1 1 41 4, show_settle 31 8 1 1 41 5 True, show_settle 1 9 1 1 31 6 False,
      show_request 1 9 1 2 22 7, show_begin 1 9 1 2 22 8, Reopen_Child (show_child_args 1 9 1 1 9), show_claim 31 8 10] @
     show_compensate 31 8 3 1 51 11"

definition show_settled_family :: database where
  "show_settled_family = snd (coord_execute plain_env show_family show_start)"

lemmas show_family_eval = show_family_def show_call_def show_child_args_def show_start_def show_eval submit_args.defs
  child_args.defs sp_call_submit_def submit_guards_def call_rejected_def child_depth_def submit_writes_def
  call_operation_def child_workflow_def submitted_call_def insert_call_def same_plan_def find_call_def
  sp_checkpoint_reverse_child_reopen_def child_guards_def is_call_checkpoint_def reopen_writes_def reopened_row_def
  touched_row_def sp_checkpoint_reverse_child_settle_def

lemma show_ancestors:
  "list_ex P (ancestors db 4 wid) = (case select_workflow db wid of None \<Rightarrow> False
     | Some r \<Rightarrow> P r \<or> (case w_parent_workflow_id r of None \<Rightarrow> False | Some p \<Rightarrow> list_ex P (ancestors db 3 p)))"
  by (simp add: numeral_eq_Suc split: option.split)

lemma show_family_steps:
  "case coord_execute plain_env show_family show_start of (tr, db) \<Rightarrow>
     map_option in_short (view db (replicate 16 31)) = Some (5, Some 1, [(1, 2)], [(1, 2)], 6) \<and>
     map_option in_short (view db (replicate 16 1)) = Some (2, Some 2, [(1, 2), (2, 1)], [(1, 1)], 6) \<and>
     map c_child_workflow_id (tb_call db) = [replicate 16 31] \<and>
     map a_args_canonical (tb_args db) = [[123, 125], [123, 125]] \<and>
     (\<exists>db'. coord_step plain_env (Settle_Child (show_child_args 1 9 1 1 13)) db (Reversed (Some [114])) db' \<and>
       length (tb_event db') = Suc (length (tb_event db)))"
  by (simp add: show_family_eval show_ancestors view_def in_short_def coord_step_def)

lemma show_settled_family:
  "map_option in_short (view show_settled_family (replicate 16 31)) = Some (5, Some 1, [(1, 2)], [(1, 2)], 6)"
  "map_option in_short (view show_settled_family (replicate 16 1)) = Some (2, Some 2, [(1, 2), (2, 1)], [(1, 1)], 6)"
  "map c_child_workflow_id (tb_call show_settled_family) = [replicate 16 31]"
  "map a_args_canonical (tb_args show_settled_family) = [[123, 125], [123, 125]]"
  "\<exists>db'. coord_step plain_env (Settle_Child (show_child_args 1 9 1 1 13)) show_settled_family (Reversed (Some [114])) db' \<and>
     length (tb_event db') = Suc (length (tb_event show_settled_family))"
  using show_family_steps by (simp_all add: show_settled_family_def split: prod.splits)

lemma show_family_run:
  "coord_run plain_env (empty_database (show_time 0)) (fst (coord_execute plain_env show_family show_start)) show_settled_family"
  unfolding show_settled_family_def show_start_def by (rule show_runs [unfolded show_start_def])

section \<open>Properties\<close>

text \<open>
  C19. Calls form a forest: every call belongs to an operation of its workflow that bears the
  child's id, the child names that workflow as its parent and lies one level deeper, no two calls
  share a child, and no chain of calls leads from a workflow back to itself.
\<close>

theorem calls_form_a_forest:
  assumes "coord_run ce (empty_database now) tr db"
  shows "acyclic (call_edges db) \<and> distinct (map c_child_workflow_id (tb_call db)) \<and>
    (\<forall>c \<in> set (tb_call db). \<exists>x p k. x \<in> set (tb_operation db) \<and>
       op_link x = (c_workflow_id c, c_operation_seq c, c_child_workflow_id c, 2) \<and>
       select_workflow db (c_workflow_id c) = Some p \<and> select_workflow db (c_child_workflow_id c) = Some k \<and>
       w_parent_workflow_id k = Some (c_workflow_id c) \<and> w_call_depth k = Some (child_depth p))"
proof -
  have ok: "tree_ok db" by (rule reachable_tree_ok [OF assms])
  have "\<exists>x p k. x \<in> set (tb_operation db) \<and> op_link x = (c_workflow_id c, c_operation_seq c, c_child_workflow_id c, 2) \<and>
      select_workflow db (c_workflow_id c) = Some p \<and> select_workflow db (c_child_workflow_id c) = Some k \<and>
      w_parent_workflow_id k = Some (c_workflow_id c) \<and> w_call_depth k = Some (child_depth p)"
    if "c \<in> set (tb_call db)" for c
    using tree_call [OF ok that] unfolding call_ok_def by (auto simp: image_iff)
  then show ?thesis using ok call_edges_acyclic [OF ok] by (simp add: tree_ok_def)
qed

theorem calls_form_a_forest_witness:
  "acyclic (call_edges show_settled_family) \<and> call_edges show_settled_family \<noteq> {}"
  using calls_form_a_forest [OF show_family_run] show_settled_family by (auto simp: call_edges_def)

text \<open>
  C20. A parent waits for its child: settling the compensation of a call changes the tables only
  once the child is reversed, every operation the child settled compensated and its undoing on
  record, and whatever follows, the child stays as it is but for being woken.
\<close>

theorem parent_waits_for_child:
  assumes "coord_run ce (empty_database now) tr db" and "coord_step ce (Settle_Child a) db out db'" and "db' \<noteq> db"
  shows "\<exists>c v. c \<in> set (tb_call db) \<and> fa_workflow_id a = Some (c_workflow_id c) \<and> ch_seq a = Some (c_operation_seq c) \<and>
    view db (c_child_workflow_id c) = Some v \<and> w_state (v_row v) = 5 \<and>
    (\<forall>x \<in> set (v_ops v). o_status x = 2 \<longrightarrow>
      (\<exists>k \<in> set (v_cps v). k_operation_id k = o_operation_id x \<and> compensated k \<and> undo_known (v_ops v) k)) \<and>
    (\<forall>tr' db2. coord_run ce db tr' db2 \<longrightarrow>
      (\<exists>t. view db2 (c_child_workflow_id c) = Some (v\<lparr>v_row := (v_row v)\<lparr>w_next_attempt_at := t\<rparr>\<rparr>)))"
proof -
  have all: "workflows_ok db" by (rule reachable_workflows_ok [OF assms(1)])
  from settled_child [of ce a db out db'] assms(2,3) obtain c k where
    c: "find_call db (the (fa_workflow_id a)) (the (ch_seq a)) = Some c" and
    k: "select_workflow db (c_child_workflow_id c) = Some k" "w_state k \<in> {5, 6}" and
    args: "fa_workflow_id a \<noteq> None" "ch_seq a \<noteq> None"
    by (auto simp: coord_step_def)
  from view_of_row [OF k(1)] obtain v where v: "view db (c_child_workflow_id c) = Some v" "v_row v = k" by blast
  have "wf_ok v" using all v(1) unfolding workflows_ok_def by blast
  then have ok: "settled_ok (v_ops v) (v_cps v)" "stack_ok (w_state k) (v_cps v)" "undone_ok (v_ops v) (v_cps v)"
    by (simp_all add: wf_ok_def v(2))
  from ok(2) have "w_state k \<in> {1, 2, 3, 4, 5, 7}" unfolding stack_ok_def by (elim conjE)
  with k(2) have five: "w_state k = 5" by auto
  have "\<exists>t. view db2 (c_child_workflow_id c) = Some (v\<lparr>v_row := (v_row v)\<lparr>w_next_attempt_at := t\<rparr>\<rparr>)"
    if "coord_run ce db tr' db2" for tr' db2
    using run_past_forward [OF that [unfolded coord_run_def] all v(1)] five v(2) by (auto simp: past_forward_def)
  moreover have "c \<in> set (tb_call db)" "fa_workflow_id a = Some (c_workflow_id c)" "ch_seq a = Some (c_operation_seq c)"
    using c args by (auto simp: find_call_def find_Some_iff)
  ultimately show ?thesis
    using v five reversed_complete [OF ok(1) _ ok(3)] ok(2) by (intro exI [of _ c] exI [of _ v]) auto
qed

theorem parent_waits_for_child_witness:
  "\<exists>c v. c \<in> set (tb_call show_settled_family) \<and> view show_settled_family (c_child_workflow_id c) = Some v \<and>
     w_state (v_row v) = 5 \<and> c_workflow_id c = replicate 16 1"
proof -
  obtain db' where "coord_step plain_env (Settle_Child (show_child_args 1 9 1 1 13)) show_settled_family (Reversed (Some [114])) db'"
    "db' \<noteq> show_settled_family"
    using show_settled_family(5) n_not_Suc_n by metis
  from parent_waits_for_child [OF show_family_run this] show ?thesis
    by (auto simp: show_child_args_def show_fence_def show_id_def fenced_args.defs child_args.defs)
qed

end
