(* ===== verification/Claim_Verdict.thy ===== *)
theory Claim_Verdict
  imports Stuck Coord_Runs
begin

text \<open>
  Where the viewer and the coordinator meet: \<open>stuck_workflow\<close> of \<open>mfviz/dbq.py\<close> says whether a
  workflow is claimable now, and \<open>sp_mf_workflow_claim_by_id\<close> is what a worker would run.  Both read
  the same rows; the viewer's answer predicts the coordinator's, but for one microsecond.
\<close>

lemma row_ok_state_lease:
  assumes "workflow_row_ok ce row"
  shows "w_state row \<in> {1, 2, 3, 4, 5, 6, 7} \<and> (w_lease_owner row = None \<longleftrightarrow> w_lease_expires_at row = None)"
  using assms unfolding workflow_row_ok_def by blast

lemma classify_claim:
  assumes "workflow_row_ok ce row"
  shows "classify db seen now row = K_Claimable_Now \<Longrightarrow>
      claim_predicate row now \<longleftrightarrow> w_lease_expires_at row \<noteq> Some now"
    and "classify db seen now row \<in> {K_Terminal, K_Blocked_Resolution, K_Running_Under_Lease, K_Scheduled_Retry} \<Longrightarrow>
      \<not> claim_predicate row now"
  using row_ok_state_lease [OF assms]
  by (auto simp: classify_def claim_predicate_def leased_at_def not_less order.order_iff_strict
      split: if_splits option.splits)

text \<open>A well-formed claim of one workflow by id, and what comes of it.\<close>

definition claim_guards_ok :: "claim_by_id_args \<Rightarrow> bool" where
  "claim_guards_ok a \<longleftrightarrow>
     id16 (ia_workflow_id a) \<and> id16 (ia_executor a) \<and> after (ia_db_now a) (ia_lease_expires_at a)"

lemma claim_by_id_answer:
  assumes "claim_guards_ok a" and "ia_workflow_id a = Some wid" and "ia_db_now a = Some now"
    and "select_workflow db wid = Some row" and "\<not> locked wid"
  shows "sp_workflow_claim_by_id ce locked a db =
    (if claim_predicate row now then install_lease ce (ia_executor a) now (ia_lease_expires_at a) row db
     else Inr (Not_Claimable, db))"
  using assms by (simp add: sp_workflow_claim_by_id_def claim_guards_ok_def guards.simps Let_def)

lemma install_lease_answer:
  assumes "workflow_row_ok ce row" and "w_fencing_token row + 1 < 2 ^ 63" and "deadline \<noteq> None" and "ex \<noteq> None"
    and "select_workflow db (w_workflow_id row) = Some row" and "distinct (map w_workflow_id (tb_workflow db))"
  shows "\<exists>db'. install_lease ce ex now deadline row db = Inr (Claimed (snapshot_of (claimed_row ex now deadline row)), db')"
proof -
  from assms(3,4) obtain d e where "deadline = Some d" "ex = Some e" by auto
  with assms(1) have "workflow_row_ok ce (claimed_row ex now deadline row)"
    by (simp add: workflow_row_ok_def claimed_row_def)
  moreover have "r = row" if "r \<in> set (tb_workflow db)" "w_workflow_id r = w_workflow_id row" for r
    using assms(6) that select_workflow_Some [OF assms(5)] by (auto simp: distinct_map dest: inj_onD)
  ultimately show ?thesis
    using assms(2) by (auto simp: install_lease_def update_workflow_def list_all_iff)
qed

section \<open>Property\<close>

text \<open>
  C12. The viewer's verdict predicts the claim: for a workflow whose row satisfies the schema's
  constraints and is not locked by another transaction, a worker claiming it by id at the very
  clock of the verdict \<open>claimable_now\<close> gets it, under the next fencing token, unless its lease
  expires at that microsecond, when it is told \<open>not_claimable\<close>; after a verdict terminal,
  blocked, running under lease or scheduled it is told \<open>not_claimable\<close> too.
\<close>

theorem verdict_predicts_claim:
  assumes "call_ids_ok db" and "counters_ok db"
    and "fromhex h = Some wid" and "length wid = 16" and "select_workflow db wid = Some row"
    and "workflow_row_ok ce row" and "w_fencing_token row + 1 < 2 ^ 63" and "distinct (map w_workflow_id (tb_workflow db))"
    and "stuck_workflow db h {} None = Inr n"
    and "claim_guards_ok a" and "ia_workflow_id a = Some wid" and "ia_db_now a = Some (db_clock db)" and "\<not> locked wid"
  shows "(kind_of n = K_Claimable_Now \<and> w_lease_expires_at row \<noteq> Some (db_clock db) \<longrightarrow>
      (\<exists>s db'. sp_workflow_claim_by_id ce locked a db = Inr (Claimed s, db') \<and>
        cs_fencing_token s = w_fencing_token row + 1)) \<and>
    (kind_of n = K_Claimable_Now \<and> w_lease_expires_at row = Some (db_clock db) \<or>
     kind_of n \<in> {K_Terminal, K_Blocked_Resolution, K_Running_Under_Lease, K_Scheduled_Retry} \<longrightarrow>
      sp_workflow_claim_by_id ce locked a db = Inr (Not_Claimable, db))"
proof -
  have kind: "kind_of n = classify db {h} (db_clock db) row"
    using stuck_classified [OF assms(1-5)] assms(9) by auto
  have id: "w_workflow_id row = wid" using select_workflow_Some [OF assms(5)] by simp
  note answer = claim_by_id_answer [where locked = locked and ce = ce, OF assms(10-12,5,13)]
  have "ia_lease_expires_at a \<noteq> None" "ia_executor a \<noteq> None"
    using assms(10) by (auto simp: claim_guards_ok_def after_def id16_def split: option.splits)
  from install_lease_answer [OF assms(6,7) this, of db "db_clock db"] assms(5,8) id obtain db' where
    lease: "install_lease ce (ia_executor a) (db_clock db) (ia_lease_expires_at a) row db =
      Inr (Claimed (snapshot_of (claimed_row (ia_executor a) (db_clock db) (ia_lease_expires_at a) row)), db')"
    by auto
  have "cs_fencing_token (snapshot_of (claimed_row (ia_executor a) (db_clock db) (ia_lease_expires_at a) row)) =
      w_fencing_token row + 1"
    by (simp add: snapshot_of_def claimed_row_def)
  with kind answer lease classify_claim [OF assms(6), of db "{h}" "db_clock db"] show ?thesis by auto
qed

section \<open>The property at the example\<close>

definition ex_claim :: "8 word \<Rightarrow> claim_by_id_args" where
  "ex_claim b = \<lparr>ia_workflow_id = Some (ex_id b), ia_executor = Some (ex_id 9), ia_db_now = Some (ex_time 30),
     ia_lease_expires_at = Some (ex_time 50)\<rparr>"

theorem verdict_predicts_claim_witness:
  "\<exists>n s db'. stuck_workflow ex_db (hex (ex_id 0xe4)) {} None = Inr n \<and> kind_of n = K_Claimable_Now \<and>
     sp_workflow_claim_by_id plain_env (\<lambda>_. False) (ex_claim 0xe4) ex_db = Inr (Claimed s, db') \<and> cs_fencing_token s = 2"
proof -
  have row: "select_workflow ex_db (ex_id 0xe4) = Some (ex_workflow 0xe4 1 2)"
    by (simp add: select_workflow_def ex_db_def ex_workflow_def ex_id_def)
  have id: "fromhex (hex (ex_id 0xe4)) = Some (ex_id 0xe4)" "length (ex_id 0xe4) = 16"
    by (simp_all add: ex_id_def)
  have "classify ex_db {hex (ex_id 0xe4)} (db_clock ex_db) (ex_workflow 0xe4 1 2) = K_Claimable_Now"
    by code_simp
  then obtain n where n: "stuck_workflow ex_db (hex (ex_id 0xe4)) {} None = Inr n" "kind_of n = K_Claimable_Now"
    using stuck_classified [OF ex_call_ids_ok ex_counters_ok id row] by auto
  have "workflow_row_ok plain_env (ex_workflow 0xe4 1 2)"
    by (simp add: workflow_row_ok_def ex_workflow_def plain_env_def)
  moreover have "distinct (map w_workflow_id (tb_workflow ex_db))"
    by (simp add: ex_db_def ex_workflow_def ex_id_def)
  moreover have "claim_guards_ok (ex_claim 0xe4)"
    by (simp add: claim_guards_ok_def ex_claim_def id16_def after_def ex_id_def ex_time_def less_eq_datetime_def)
  ultimately show ?thesis
    using verdict_predicts_claim [OF ex_call_ids_ok ex_counters_ok id row _ _ _ n(1), of plain_env "ex_claim 0xe4" "\<lambda>_. False"] n
    by (simp add: ex_workflow_def ex_claim_def ex_db_def)
qed

end
