(* ===== verification/Coord_View.thy ===== *)
theory Coord_View
  imports Coord_Tree Claim_Verdict
begin

text \<open>
  The viewer over the coordinator's own tables: on every database that calls of the stored
  procedures can produce, what \<open>mfviz/dbq.py\<close> assumes of the call graph holds, so its guards
  against cycles and missing children never fire and its verdicts are the classification.
\<close>

section \<open>What the walks assume\<close>

lemma reachable_call_ids: "tree_ok db \<Longrightarrow> call_ids_ok db"
  by (auto simp: call_ids_ok_def list_all_iff call_ok_def dest: tree_call)

lemma reachable_counters: "tree_ok db \<Longrightarrow> counters_ok db"
  by (simp add: tree_ok_def counts_ok_def op_counts_def cp_counts_def counters_ok_def list_all_iff)

text \<open>Results without stubs other than those of the depth limit.\<close>

fun whole :: "'a call_node \<Rightarrow> bool" where
  "whole (Node h a ns) \<longleftrightarrow> list_all whole ns"
| "whole (Truncated h) \<longleftrightarrow> True"
| "whole (Not_Found h) \<longleftrightarrow> False"
| "whole (Cycle_Detected h) \<longleftrightarrow> False"

definition depth_of_id :: "database \<Rightarrow> str \<Rightarrow> int" where
  "depth_of_id db h = depth_of db (the (fromhex h))"

definition stored :: "database \<Rightarrow> str \<Rightarrow> bool" where
  "stored db h \<longleftrightarrow> (\<exists>b. fromhex h = Some b \<and> select_workflow db b \<noteq> None)"

lemma child_stored:
  assumes "tree_ok db" and "stored db h" and "c \<in> set (child_ids db h)"
  shows "stored db c" and "depth_of_id db c = depth_of_id db h + 1"
proof -
  from assms(2) obtain b where b: "fromhex h = Some b" by (auto simp: stored_def)
  with assms(3) obtain r where r: "r \<in> set (tb_call db)" "c_workflow_id r = b" "c = hex (c_child_workflow_id r)"
    by (auto simp: child_ids_def set_fetch_child_ids)
  from tree_call [OF assms(1) r(1)] have "select_workflow db (c_child_workflow_id r) \<noteq> None" by (auto simp: call_ok_def)
  with r(3) show "stored db c" by (auto simp: stored_def)
  have "(b, c_child_workflow_id r) \<in> call_edges db" using r by (auto simp: call_edges_def)
  from edge_deeper [OF assms(1) this] b r(3) show "depth_of_id db c = depth_of_id db h + 1"
    by (simp add: depth_of_id_def)
qed

lemma inspect_node_stored: "stored db h \<Longrightarrow> inspect_node loads db h \<noteq> Inr None"
  using fetch_workflow_None by (auto simp: stored_def inspect_node_def bind_res_eq_Inr hex_bytes_def split: option.splits)

lemma inspection_whole:
  assumes "tree_ok db"
  shows "inspect_workflow loads db max_depth h depth seen = Inr n \<Longrightarrow> stored db h \<Longrightarrow>
    (\<forall>s \<in> seen. depth_of_id db s < depth_of_id db h) \<Longrightarrow> whole n"
proof (induction rule: inspect.walk_induct)
  case (not_found h depth seen)
  then show ?case using inspect_node_stored by blast
next
  case (node h depth seen a ns)
  have "whole m" if m: "m \<in> set ns" for m
  proof -
    obtain c where c: "c \<in> set (child_ids db h)"
        "walk_child max_depth (inspect_workflow loads db max_depth) depth (insert h seen) c = Inr m"
      "c \<notin> insert h seen \<and> depth + 1 \<le> max_depth \<Longrightarrow> stored db c \<Longrightarrow>
        (\<forall>s \<in> insert h seen. depth_of_id db s < depth_of_id db c) \<Longrightarrow> whole m"
      using list_all2_mem2 [OF node(2) m] by blast
    note child = child_stored [OF assms node.prems(1) c(1)]
    have deeper: "\<forall>s \<in> insert h seen. depth_of_id db s < depth_of_id db c"
      using child(2) node.prems(2) by force
    then have "c \<notin> insert h seen" by blast
    with c(2,3) child(1) deeper show ?thesis by (auto simp: walk_child_def split: if_splits)
  qed
  then show ?case by (simp add: list_all_iff)
qed

section \<open>Properties\<close>

text \<open>
  C24. The viewer is never at a loss on the coordinator's data: on every database the procedures
  can produce, a stored workflow with a whole id whose tables hold readable documents has an
  inspection, in which no cycle stub and no missing child occurs, and a verdict, which is its
  classification at the clock of the database.
\<close>

theorem viewer_reads_coordinator:
  assumes "coord_run ce (empty_database now) tr db" and "documents_ok loads db"
    and "fromhex h = Some b" and "length b = 16" and "select_workflow db b = Some row"
  shows "(\<exists>n. inspect_workflow loads db max_depth h 0 {} = Inr n \<and> whole n) \<and>
    (\<exists>n. stuck_workflow db h {} None = Inr n \<and> kind_of n = classify db {h} (db_clock db) row)"
proof -
  have tree: "tree_ok db" by (rule reachable_tree_ok [OF assms(1)])
  note ids = reachable_call_ids [OF tree] and counters = reachable_counters [OF tree]
  from inspect_total [OF assms(2) ids] assms(3,4) obtain n where n: "inspect_workflow loads db max_depth h 0 {} = Inr n" by blast
  moreover have "whole n"
    by (rule inspection_whole [OF tree n]) (use assms(3,5) in \<open>auto simp: stored_def\<close>)
  ultimately show ?thesis using stuck_classified [OF ids counters assms(3-5)] by blast
qed

definition show_loads :: "str \<Rightarrow> json result" where
  "show_loads t = Inr (JObj [])"

theorem viewer_reads_coordinator_witness:
  "\<exists>n m. inspect_workflow show_loads show_settled_family 10 (hex (replicate 16 1)) 0 {} = Inr n \<and> whole n \<and>
     stuck_workflow show_settled_family (hex (replicate 16 1)) {} None = Inr m"
proof -
  obtain row where row: "select_workflow show_settled_family (replicate 16 1) = Some row"
    using show_settled_family(2) row_of_view by (auto dest!: row_of_view)
  have args: "a_args_canonical t = [123, 125]" if "t \<in> set (tb_args show_settled_family)" for t
  proof -
    have "a_args_canonical t \<in> set (map a_args_canonical (tb_args show_settled_family))" using that by simp
    then show ?thesis using show_settled_family(4) by auto
  qed
  have "documents_ok show_loads show_settled_family"
    by (simp add: documents_ok_def list_all_iff args accepts_blob_def accepts_opt_def accepts_def show_loads_def show_args_text
        split: option.split)
  from viewer_reads_coordinator [OF show_family_run this _ _ row, of "hex (replicate 16 1)" 10]
  show ?thesis by auto
qed

end
