(* ===== verification/Coord_Read.thy ===== *)
theory Coord_Read
  imports Coord_Calls
begin

text \<open>
  The coordinator's stored procedures that only read: what a restarted worker resumes from (plan,
  arguments, requests, results, the head of the checkpoint stack), what a driver asks about a
  workflow or a call, the clock, and the list of stalled plans.  They take no lock and present no
  fence.  A document is given by its text.  \<open>NOW\<close> is the argument \<open>now\<close> and \<open>add_seconds\<close> is
  \<open>DATE_ADD\<close> of seconds.
\<close>

section \<open>Outcomes\<close>

record inspected_call =
  cv_child_workflow_id :: str
  cv_child_status :: int
  cv_state :: int
  cv_execution_direction :: int
  cv_current_disposition :: int
  cv_is_terminal :: bool
  cv_terminal_reason :: "str option"
  cv_workflow_return_json :: "str option"

record inspected_workflow =
  wv_state :: int
  wv_execution_direction :: int
  wv_current_disposition :: int
  wv_is_terminal :: bool
  wv_leased :: bool
  wv_continuation :: str
  wv_terminal_reason :: "str option"
  wv_workflow_return_json :: "str option"

record stalled_plan =
  st_workflow_id :: str
  st_script_name :: str
  st_plan_version :: str
  st_content_hash :: str
  st_plan_length :: int
  st_state :: int
  st_execution_direction :: int
  st_current_event_ts :: datetime
  st_next_attempt_at :: datetime
  st_reason :: "str option"

datatype read_outcome =
    Nothing_Found
  | Clock_Read datetime datetime
  | Args_Found "str option"
  | Plan_Found str str str int
  | Request_Found str str int str str int
  | Result_Succeeded "str option"
  | Result_Requested
  | None_Active
  | Head_Pending int str str int
  | Head_Dispatched int str str "str option" "int option" "str option" "str option"
  | Call_Found inspected_call
  | Workflow_Found inspected_workflow

section \<open>sp_mf_clock_read\<close>

definition sp_clock_read ::
    "(datetime \<Rightarrow> int \<Rightarrow> datetime) \<Rightarrow> datetime \<Rightarrow> int option \<Rightarrow> coord_fault + read_outcome" where
  "sp_clock_read add_seconds now seconds =
     bind_res (guards [(at_least 1 seconds, ''MfLeaseSecondsInvalid'')]) (\<lambda>_.
       Inr (Clock_Read now (add_seconds now (the seconds))))"

section \<open>sp_mf_args_get and sp_mf_plan_get\<close>

definition sp_args_get :: "bytes option \<Rightarrow> database \<Rightarrow> coord_fault + read_outcome" where
  "sp_args_get w db =
     bind_res (guards [(id16 w, ''MfWorkflowIdInvalid'')]) (\<lambda>_.
       case select_args db (the w) of
         None \<Rightarrow> Inr Nothing_Found
       | Some t \<Rightarrow> Inr (Args_Found (utf8_strict (map unat (a_args_canonical t)))))"

text \<open>The plan joined to its workflow.\<close>

definition sp_plan_get :: "bytes option \<Rightarrow> database \<Rightarrow> coord_fault + read_outcome" where
  "sp_plan_get w db =
     bind_res (guards [(id16 w, ''MfWorkflowIdInvalid'')]) (\<lambda>_.
       case (select_plan db (the w), select_workflow db (the w)) of
         (Some p, Some r) \<Rightarrow>
           Inr (Plan_Found (w_script_name r) (p_plan_version p) (hex (p_content_hash p)) (p_plan_length p))
       | _ \<Rightarrow> Inr Nothing_Found)"

section \<open>sp_mf_operation_request_get and sp_mf_operation_result\<close>

definition read_guards :: "bytes option \<Rightarrow> int option \<Rightarrow> (bool \<times> string) list" where
  "read_guards w n = [(id16 w, ''MfWorkflowIdInvalid''), (at_least 1 n, ''MfOperationSeqInvalid'')]"

definition sp_operation_request_get :: "bytes option \<Rightarrow> int option \<Rightarrow> database \<Rightarrow> coord_fault + read_outcome" where
  "sp_operation_request_get w n db =
     bind_res (guards (read_guards w n)) (\<lambda>_.
       case find_operation db (the w) (the n) of
         None \<Rightarrow> Inr Nothing_Found
       | Some x \<Rightarrow> Inr (Request_Found (hex (o_operation_id x)) (o_operation_name x) (o_schema_version x)
           (o_input_json x) (o_input_hash x) (o_status x)))"

definition sp_operation_result :: "bytes option \<Rightarrow> int option \<Rightarrow> database \<Rightarrow> coord_fault + read_outcome" where
  "sp_operation_result w n db =
     bind_res (guards (read_guards w n)) (\<lambda>_.
       case find_operation db (the w) (the n) of
         None \<Rightarrow> Inr Nothing_Found
       | Some x \<Rightarrow> Inr (if o_status x = 2 then Result_Succeeded (o_result_json x) else Result_Requested))"

section \<open>sp_mf_checkpoint_reverse_head\<close>

text \<open>\<open>ORDER BY seq DESC LIMIT 1\<close> over the active checkpoints.\<close>

definition head_checkpoint :: "database \<Rightarrow> bytes \<Rightarrow> checkpoint_row option" where
  "head_checkpoint db wid =
     (case sort_key (\<lambda>r. - k_seq r) (filter (\<lambda>r. k_workflow_id r = wid \<and> k_reversal_state r = 1) (tb_checkpoint db)) of
        [] \<Rightarrow> None
      | r # _ \<Rightarrow> Some r)"

definition sp_checkpoint_reverse_head :: "bytes option \<Rightarrow> database \<Rightarrow> coord_fault + read_outcome" where
  "sp_checkpoint_reverse_head w db =
     bind_res (guards [(id16 w, ''MfWorkflowIdInvalid'')]) (\<lambda>_.
       case head_checkpoint db (the w) of
         None \<Rightarrow> Inr None_Active
       | Some k \<Rightarrow>
           (case k_reverse_invocation_id k of
              None \<Rightarrow> Inr (Head_Pending (k_seq k) (k_operation_name k) (k_payload k)
                (case find_operation db (the w) (k_seq k) of None \<Rightarrow> 1 | Some x \<Rightarrow> o_call_kind x))
            | Some rid \<Rightarrow> Inr (Head_Dispatched (k_seq k) (k_operation_name k) (hex rid) (k_reverse_operation_name k)
                (k_reverse_schema_version k) (k_reverse_input_json k) (k_reverse_input_hash k))))"

section \<open>sp_mf_call_inspect and sp_mf_workflow_inspect\<close>

definition sp_call_inspect :: "bytes option \<Rightarrow> int option \<Rightarrow> database \<Rightarrow> coord_fault + read_outcome" where
  "sp_call_inspect w n db =
     bind_res (guards (read_guards w n)) (\<lambda>_.
       case find_call db (the w) (the n) of
         None \<Rightarrow> Inr Nothing_Found
       | Some c \<Rightarrow>
           (case select_workflow db (c_child_workflow_id c) of
              None \<Rightarrow> Inr Nothing_Found
            | Some r \<Rightarrow> Inr (Call_Found
                \<lparr>cv_child_workflow_id = hex (c_child_workflow_id c), cv_child_status = c_child_status c,
                 cv_state = w_state r, cv_execution_direction = w_execution_direction r,
                 cv_current_disposition = w_current_disposition r, cv_is_terminal = (w_state r \<in> {4, 5, 6, 7}),
                 cv_terminal_reason = w_terminal_reason r, cv_workflow_return_json = w_workflow_return_json r\<rparr>)))"

text \<open>A lease is held up to and including the microsecond at which it expires.\<close>

definition held_at :: "datetime \<Rightarrow> workflow_row \<Rightarrow> bool" where
  "held_at now r \<longleftrightarrow> w_lease_owner r \<noteq> None \<and> (case w_lease_expires_at r of None \<Rightarrow> False | Some t \<Rightarrow> now \<le> t)"

definition sp_workflow_inspect :: "bytes option \<Rightarrow> datetime option \<Rightarrow> database \<Rightarrow> coord_fault + read_outcome" where
  "sp_workflow_inspect w now db =
     bind_res (guards [(id16 w, ''MfWorkflowIdInvalid''), (now \<noteq> None, ''MfDbNowInvalid'')]) (\<lambda>_.
       case select_workflow db (the w) of
         None \<Rightarrow> Inr Nothing_Found
       | Some r \<Rightarrow> Inr (Workflow_Found
           \<lparr>wv_state = w_state r, wv_execution_direction = w_execution_direction r,
            wv_current_disposition = w_current_disposition r, wv_is_terminal = (w_state r \<in> {4, 5, 6, 7}),
            wv_leased = held_at (the now) r, wv_continuation = w_continuation r,
            wv_terminal_reason = w_terminal_reason r, wv_workflow_return_json = w_workflow_return_json r\<rparr>))"

section \<open>sp_mf_plan_stalled\<close>

definition stalled_event :: "coord_env \<Rightarrow> event_row \<Rightarrow> bool" where
  "stalled_event ce e \<longleftrightarrow>
     ce_same ce (e_kind e) (lit ''operation_dispatch_deferred'') \<and>
     (case ce_reason ce (e_payload e) of None \<Rightarrow> False | Some why \<Rightarrow> ce_same ce why (lit ''revision_unavailable''))"

definition stalled_row :: "coord_env \<Rightarrow> workflow_row \<Rightarrow> plan_row \<Rightarrow> event_row \<Rightarrow> stalled_plan" where
  "stalled_row ce r p e =
     \<lparr>st_workflow_id = hex (w_workflow_id r), st_script_name = w_script_name r, st_plan_version = p_plan_version p,
      st_content_hash = hex (p_content_hash p), st_plan_length = p_plan_length p, st_state = w_state r,
      st_execution_direction = w_execution_direction r, st_current_event_ts = w_current_event_ts r,
      st_next_attempt_at = w_next_attempt_at r, st_reason = ce_reason ce (e_payload e)\<rparr>"

text \<open>The join of workflows, plans and newest events; the order of the array is the server's.\<close>

definition sp_plan_stalled :: "coord_env \<Rightarrow> database \<Rightarrow> stalled_plan list" where
  "sp_plan_stalled ce db =
     [stalled_row ce r p e.
        r \<leftarrow> tb_workflow db, w_state r \<in> {1, 2} \<and> w_lease_owner r = None,
        p \<leftarrow> tb_plan db, p_workflow_id p = w_workflow_id r,
        e \<leftarrow> tb_event db, e_workflow_id e = w_workflow_id r \<and> e_event_ts e = w_current_event_ts r \<and> stalled_event ce e]"

section \<open>The head is the top of the stack\<close>

lemma head_checkpoint_None: "head_checkpoint db wid = None \<longleftrightarrow> top_seq db wid = None"
proof -
  let ?ks = "filter (\<lambda>r. k_workflow_id r = wid \<and> k_reversal_state r = 1) (tb_checkpoint db)"
  have "head_checkpoint db wid = None \<longleftrightarrow> ?ks = []"
    by (auto simp: head_checkpoint_def split: list.split dest: arg_cong [of _ _ set])
  moreover have "top_seq db wid = None \<longleftrightarrow> ?ks = []"
    by (simp add: top_seq_def max_seq_def active_seqs_def filter_empty_conv)
  ultimately show ?thesis by simp
qed

lemma head_checkpoint_top:
  assumes "head_checkpoint db wid = Some k"
  shows "k \<in> set (tb_checkpoint db) \<and> k_workflow_id k = wid \<and> k_reversal_state k = 1 \<and> top_seq db wid = Some (k_seq k)"
proof -
  let ?ks = "filter (\<lambda>r. k_workflow_id r = wid \<and> k_reversal_state r = 1) (tb_checkpoint db)"
  from assms obtain rest where sorted_rows: "sort_key (\<lambda>r. - k_seq r) ?ks = k # rest"
    by (auto simp: head_checkpoint_def split: list.splits)
  have "set ?ks = set (sort_key (\<lambda>r. - k_seq r) ?ks)" by simp
  also have "\<dots> = insert k (set rest)" unfolding sorted_rows by simp
  finally have rows: "set ?ks = insert k (set rest)" .
  have "sorted (map (\<lambda>r. - k_seq r) (k # rest))" unfolding sorted_rows [symmetric] by simp
  then have "\<forall>r \<in> insert k (set rest). k_seq r \<le> k_seq k" by auto
  then have "\<forall>r \<in> set ?ks. k_seq r \<le> k_seq k" unfolding rows .
  moreover have in_rows: "k \<in> set ?ks" unfolding rows by simp
  ultimately have "Max (k_seq ` set ?ks) = k_seq k" by (intro Max_eqI) auto
  moreover have "set (active_seqs (filter (\<lambda>r. k_workflow_id r = wid) (tb_checkpoint db))) = k_seq ` set ?ks"
    by (auto simp: active_seqs_def)
  ultimately show ?thesis using in_rows by (auto simp: top_seq_def max_seq_def)
qed

end
