(* ===== verification/Coord_Resume.thy ===== *)
theory Coord_Resume
  imports Coord_Kept Coord_Read
begin

text \<open>
  What a restarted worker reads is what was written: the plan, the arguments and the requests a
  workflow was given read back whatever calls came after, and the head of the checkpoint stack is
  the cursor of the compensation.
\<close>

section \<open>What creation and request write\<close>

lemma planned_written:
  assumes "sp_workflow_create_planned ce a db = Inr (Plan_Created s v h n, db')"
  shows "id16 (na_workflow_id a) \<and> args_document ce (na_args a) \<and> s = the (na_script_name a) \<and>
    (\<exists>r p t. select_workflow db' (the (na_workflow_id a)) = Some r \<and> w_script_name r = s \<and>
       select_plan db' (the (na_workflow_id a)) = Some p \<and> p_plan_version p = v \<and> hex (p_content_hash p) = h \<and>
       p_plan_length p = n \<and> v = the (na_plan_version a) \<and> h = hex (the (na_content_hash a)) \<and>
       n = the (na_plan_length a) \<and>
       select_args db' (the (na_workflow_id a)) = Some t \<and> a_args_canonical t = the (na_args a))"
proof -
  have fresh: "adopt_plan ce a wid db \<noteq> Plan_Created s v h n" for wid
    by (simp add: adopt_plan_def split: option.split)
  from assms have "id16 (na_workflow_id a) \<and> args_document ce (na_args a)"
    unfolding sp_workflow_create_planned_def by (elim bind_res_InrE) (simp add: guards_Inr)
  with assms fresh show ?thesis
    unfolding sp_workflow_create_planned_def Let_def
    by (elim bind_res_InrE)
       (auto simp: insert_workflow_def insert_plan_def insert_args_def insert_workflow_event_def select_workflow_def
          select_plan_def select_args_def find_append new_workflow_def elim!: bind_res_InrE split: sum.splits if_splits)
qed

lemma request_written:
  assumes "sp_operation_request ce a db = Inr (Operation_Requested i, db')"
  shows "id16 (fa_workflow_id a) \<and> at_least 1 (qa_operation_seq a) \<and> i = hex (the (qa_operation_id a)) \<and>
    find_operation db' (the (fa_workflow_id a)) (the (qa_operation_seq a)) = Some (requested_operation a)"
proof -
  let ?wid = "the (fa_workflow_id a)" and ?n = "the (qa_operation_seq a)"
  from assms have "id16 (fa_workflow_id a) \<and> at_least 1 (qa_operation_seq a)"
    unfolding sp_operation_request_def by (elim bind_res_InrE) (simp add: guards_Inr request_guards_def fence_guards_def)
  moreover from assms obtain db1 f e where "find_operation db ?wid ?n = None"
      and 1: "insert_operation ce (requested_operation a) db = Inr db1" and 2: "publish ce ?wid f e db1 = Inr db'"
      and "i = hex (the (qa_operation_id a))"
    by (auto simp: sp_operation_request_def with_workflow_def Let_def elim!: bind_res_InrE split: option.split_asm if_split_asm)
  moreover have "tb_operation db' = tb_operation db1"
    using 2 by (auto simp: publish_def update_workflow_def insert_workflow_event_def elim!: bind_res_InrE split: if_splits)
  ultimately show ?thesis
    using 1 by (auto simp: insert_operation_def find_operation_def find_append requested_operation_def split: if_splits)
qed

section \<open>The head of the stack\<close>

lemma same_key_same_checkpoint:
  assumes "coord_run ce (empty_database now) tr db" and "select_workflow db wid \<noteq> None"
    and "k \<in> set (tb_checkpoint db)" "k' \<in> set (tb_checkpoint db)"
    and "k_workflow_id k = wid" "k_workflow_id k' = wid" "k_seq k = k_seq k'"
  shows "k = k'"
proof -
  from assms(2) obtain r v where v: "view db wid = Some v" using view_of_row by blast
  have "wf_ok v" using reachable_workflows_ok [OF assms(1)] v unfolding workflows_ok_def by blast
  then have "distinct (map k_seq (v_cps v))" by (simp add: wf_ok_def settled_ok_def)
  then show ?thesis using assms(3-7) view_cps [OF v] by (simp add: distinct_map inj_on_def)
qed

lemma head_found:
  assumes "coord_run ce (empty_database now) tr db" and "select_workflow db wid \<noteq> None"
    and "find_checkpoint db wid n = Some k" and "top_seq db wid = Some n"
  shows "head_checkpoint db wid = Some k"
proof -
  from assms(4) head_checkpoint_None [of db wid] obtain k' where k': "head_checkpoint db wid = Some k'" by auto
  from head_checkpoint_top [OF this] assms(4) have "k' \<in> set (tb_checkpoint db)" "k_workflow_id k' = wid" "k_seq k' = n" by auto
  moreover have "k \<in> set (tb_checkpoint db)" "k_workflow_id k = wid" "k_seq k = n"
    using assms(3) by (auto simp: find_checkpoint_def find_Some_iff)
  ultimately show ?thesis using same_key_same_checkpoint [OF assms(1,2)] k' by simp
qed

text \<open>The rows of the checkpoints are untouched by a publication; binding one leaves the stack as it is.\<close>

lemma publish_checkpoints: "publish ce wid f e db = Inr db' \<Longrightarrow> tb_checkpoint db' = tb_checkpoint db"
  by (auto simp: publish_def update_workflow_def insert_workflow_event_def elim!: bind_res_InrE split: if_splits)

lemma same_checkpoints:
  assumes "tb_checkpoint db' = tb_checkpoint db"
  shows "top_seq db' wid = top_seq db wid" "find_checkpoint db' wid n = find_checkpoint db wid n"
    "head_checkpoint db' wid = head_checkpoint db wid"
  by (simp_all add: top_seq_def find_checkpoint_def head_checkpoint_def assms)

lemma bound_columns:
  "k_workflow_id (bound_checkpoint a k) = k_workflow_id k" "k_seq (bound_checkpoint a k) = k_seq k"
  "k_reversal_state (bound_checkpoint a k) = k_reversal_state k"
  by (simp_all add: bound_checkpoint_def)

lemma reversed_columns: "k_reversal_state (reversed_checkpoint ts k) \<noteq> 1"
  by (simp add: reversed_checkpoint_def)

lemma update_bound:
  assumes "update_checkpoint ce wid n (bound_checkpoint a) db = Inr db'"
  shows "top_seq db' u = top_seq db u" and "find_checkpoint db wid n = Some k \<Longrightarrow> find_checkpoint db' wid n = Some (bound_checkpoint a k)"
proof -
  define h where "h = (\<lambda>r. if k_workflow_id r = wid \<and> k_seq r = n then bound_checkpoint a r else r)"
  have h: "k_workflow_id (h r) = k_workflow_id r" "k_seq (h r) = k_seq r" "k_reversal_state (h r) = k_reversal_state r" for r
    by (simp_all add: h_def bound_columns)
  from assms have db': "tb_checkpoint db' = map h (tb_checkpoint db)" by (auto simp: update_checkpoint_def h_def split: if_splits)
  have "active_seqs (filter (\<lambda>r. k_workflow_id r = u) (map h xs)) = active_seqs (filter (\<lambda>r. k_workflow_id r = u) xs)" for xs
    unfolding active_seqs_def by (induction xs) (simp_all add: h)
  then show "top_seq db' u = top_seq db u" by (simp add: top_seq_def db')
  have "find (\<lambda>r. k_workflow_id r = wid \<and> k_seq r = n) (map h xs) =
      map_option h (find (\<lambda>r. k_workflow_id r = wid \<and> k_seq r = n) xs)" for xs
    by (induction xs) (simp_all add: h)
  then show "find_checkpoint db wid n = Some k \<Longrightarrow> find_checkpoint db' wid n = Some (bound_checkpoint a k)"
    by (auto simp: find_checkpoint_def db' find_Some_iff h_def)
qed

text \<open>Compensating the top leaves only what is below.\<close>

lemma update_reversed:
  assumes "update_checkpoint ce wid n (reversed_checkpoint ts) db = Inr db'" and "top_seq db wid = Some n"
    and "head_checkpoint db' wid = Some k"
  shows "k_seq k < n"
proof -
  from assms(1) have db': "tb_checkpoint db' =
      map (\<lambda>r. if k_workflow_id r = wid \<and> k_seq r = n then reversed_checkpoint ts r else r) (tb_checkpoint db)"
    by (auto simp: update_checkpoint_def split: if_splits)
  note top = head_checkpoint_top [OF assms(3)]
  then obtain r where r: "r \<in> set (tb_checkpoint db)"
      "k = (if k_workflow_id r = wid \<and> k_seq r = n then reversed_checkpoint ts r else r)"
    unfolding db' set_map by blast
  with top have k: "k = r" "\<not> (k_workflow_id r = wid \<and> k_seq r = n)"
    using reversed_columns [of ts r] by (cases "k_workflow_id r = wid \<and> k_seq r = n"; simp)+
  have "k_seq r \<le> n" if "r \<in> set (tb_checkpoint db)" "k_workflow_id r = wid" "k_reversal_state r = 1" for r
  proof -
    have "n = Max (set (active_seqs (filter (\<lambda>r. k_workflow_id r = wid) (tb_checkpoint db))))"
      using assms(2) by (simp add: top_seq_def max_seq_def split: if_splits)
    moreover have "k_seq r \<in> set (active_seqs (filter (\<lambda>r. k_workflow_id r = wid) (tb_checkpoint db)))"
      using that by (auto simp: active_seqs_def)
    ultimately show ?thesis by simp
  qed
  from this [OF r(1)] k top show ?thesis by auto
qed

lemma reverse_request_steps:
  assumes "sp_checkpoint_reverse_request ce a db = Inr (Compensation_Requested rid, db')"
  obtains r k db1 f e where "select_workflow db (the (fa_workflow_id a)) = Some r"
    "find_checkpoint db (the (fa_workflow_id a)) (the (va_seq a)) = Some k" "k_reverse_invocation_id k = None"
    "top_seq db (the (fa_workflow_id a)) = Some (the (va_seq a))"
    "update_checkpoint ce (the (fa_workflow_id a)) (the (va_seq a)) (bound_checkpoint a) db = Inr db1"
    "publish ce (the (fa_workflow_id a)) f e db1 = Inr db'"
    "rid = hex (the (va_reverse_id a))" "va_reverse_id a \<noteq> None" "id16 (fa_workflow_id a)"
proof -
  from assms have ids: "id16 (fa_workflow_id a)" "va_reverse_id a \<noteq> None"
    unfolding sp_checkpoint_reverse_request_def
    by (elim bind_res_InrE, auto simp: guards_Inr fence_guards_def id16_def split: option.split_asm)+
  from assms show thesis
    by (auto simp: sp_checkpoint_reverse_request_def with_workflow_def Let_def intro: that [OF _ _ _ _ _ _ _ ids(2,1)]
        elim!: bind_res_InrE split: option.split_asm if_split_asm)
qed

lemma reverse_settle_steps:
  assumes "sp_checkpoint_reverse_settle ce a db = Inr (out, db')" and "\<exists>why n. out = Reversed why \<or> out = Reversing n"
  obtains db1 f e where "top_seq db (the (fa_workflow_id a)) = Some (the (ka_seq a))"
    "update_checkpoint ce (the (fa_workflow_id a)) (the (ka_seq a)) (reversed_checkpoint (the (ka_event_ts a))) db = Inr db1"
    "publish ce (the (fa_workflow_id a)) f e db1 = Inr db'"
    "top_seq db1 (the (fa_workflow_id a)) = None \<and> (\<exists>why. out = Reversed why) \<or>
     (\<exists>n. top_seq db1 (the (fa_workflow_id a)) = Some n \<and> out = Reversing n)"
  using assms
  by (auto simp: sp_checkpoint_reverse_settle_def with_workflow_def Let_def
      elim!: bind_res_InrE split: option.split_asm if_split_asm)

section \<open>Steps of the two runs\<close>

lemma show_submits:
  "\<exists>s v h n db1. coord_run_call plain_env (Create_Planned (show_create 1 2)) show_start = Inr (Plan_Created s v h n, db1)"
  by (simp add: show_start_def show_eval)

definition show_claimed :: database where
  "show_claimed = snd (coord_execute plain_env (take 2 show_completion) show_start)"

lemma show_requests:
  "\<exists>i db1. coord_run_call plain_env (show_request 1 8 1 1 21 2) show_claimed = Inr (Operation_Requested i, db1)"
  by (simp add: show_claimed_def show_completion_def show_start_def show_eval)

definition show_begun :: "(coord_call \<times> coord_outcome) list \<times> database" where
  "show_begun = coord_execute plain_env (take 8 show_reversal) show_start"

lemma show_compensates:
  "\<exists>rid db'. coord_run_call plain_env (hd (show_compensate 3 8 1 2 42 10)) (snd show_begun) = Inr (Compensation_Requested rid, db')"
  by (simp add: show_begun_def show_reversal_def show_start_def show_eval)

section \<open>Properties\<close>

text \<open>
  C21. What was submitted is what is resumed: once a workflow was created with a plan, then whatever
  calls follow, \<open>sp_mf_plan_get\<close> answers with the script, version, hash and length it was created
  with and \<open>sp_mf_args_get\<close> with the document of its arguments.
\<close>

theorem submission_reads_back:
  assumes "coord_step ce (Create_Planned a) db (Plan_Created s v h n) db1" and "coord_run ce db1 tr db2"
  shows "s = the (na_script_name a) \<and> v = the (na_plan_version a) \<and> h = hex (the (na_content_hash a)) \<and>
    n = the (na_plan_length a) \<and> sp_plan_get (na_workflow_id a) db2 = Inr (Plan_Found s v h n) \<and>
    (\<exists>t. utf8_strict (map unat (the (na_args a))) = Some t \<and> ce_document ce t \<and>
       sp_args_get (na_workflow_id a) db2 = Inr (Args_Found (Some t)))"
proof -
  from assms(1) have "sp_workflow_create_planned ce a db = Inr (Plan_Created s v h n, db1)" by (simp add: coord_step_def)
  note w = planned_written [OF this]
  then obtain r p t where r: "select_workflow db1 (the (na_workflow_id a)) = Some r" "w_script_name r = s"
      and p: "select_plan db1 (the (na_workflow_id a)) = Some p" "p_plan_version p = v" "hex (p_content_hash p) = h" "p_plan_length p = n"
      and t: "select_args db1 (the (na_workflow_id a)) = Some t" "a_args_canonical t = the (na_args a)"
    by blast
  note kept = documents_keptD [OF documents.keeps_run [OF assms(2) [unfolded coord_run_def]]]
  from kept(1) [OF r(1)] r(2) obtain r' where r': "select_workflow db2 (the (na_workflow_id a)) = Some r'" "w_script_name r' = s"
    by (auto simp: row_identity_def)
  have "sp_plan_get (na_workflow_id a) db2 = Inr (Plan_Found s v h n)"
    using w r' kept(2) [OF p(1)] p by (simp add: sp_plan_get_def guards.simps)
  moreover from w obtain x where "utf8_strict (map unat (the (na_args a))) = Some x" "ce_document ce x"
    by (auto simp: args_document_def split: option.splits)
  moreover have "sp_args_get (na_workflow_id a) db2 = Inr (Args_Found (utf8_strict (map unat (the (na_args a)))))"
    using w kept(3) [OF t(1)] t(2) by (simp add: sp_args_get_def guards.simps)
  ultimately show ?thesis using w by auto
qed

theorem submission_reads_back_witness:
  "\<exists>s v h n db1. coord_run_call plain_env (Create_Planned (show_create 1 2)) show_start = Inr (Plan_Created s v h n, db1) \<and>
     sp_plan_get (show_id 1) (snd (coord_execute plain_env (tl show_completion) db1)) = Inr (Plan_Found s v h n)"
proof -
  from show_submits obtain s v h n db1
    where c: "coord_run_call plain_env (Create_Planned (show_create 1 2)) show_start = Inr (Plan_Created s v h n, db1)" by blast
  then have "coord_step plain_env (Create_Planned (show_create 1 2)) show_start (Plan_Created s v h n) db1"
    by (simp add: coord_step_def)
  from submission_reads_back [OF this coord_execute_run [of _ "tl show_completion", OF prod.collapse [symmetric]]] c
  show ?thesis by (auto simp: show_create_def)
qed

text \<open>
  C22. A request is durable: once an operation was requested, then whatever calls follow,
  \<open>sp_mf_operation_request_get\<close> answers with the id, name, schema version, input and hash it was
  requested with, so a worker that resumes never derives them anew.
\<close>

theorem request_reads_back:
  assumes "coord_step ce (Request_Op a) db (Operation_Requested i) db1" and "coord_run ce db1 tr db2"
  shows "i = hex (the (qa_operation_id a)) \<and>
    (\<exists>st. sp_operation_request_get (fa_workflow_id a) (qa_operation_seq a) db2 =
       Inr (Request_Found i (the (qa_operation_name a)) (the (qa_schema_version a)) (the (qa_input_json a))
         (the (qa_input_hash a)) st))"
proof -
  from assms(1) have "sp_operation_request ce a db = Inr (Operation_Requested i, db1)" by (simp add: coord_step_def)
  note w = request_written [OF this]
  then obtain x' where "find_operation db2 (the (fa_workflow_id a)) (the (qa_operation_seq a)) = Some x'"
      "request_of x' = request_of (requested_operation a)"
    using documents_keptD(4) [OF documents.keeps_run [OF assms(2) [unfolded coord_run_def]]] by blast
  then show ?thesis
    using w by (simp add: sp_operation_request_get_def read_guards_def guards.simps request_of_def requested_operation_def)
qed

theorem request_reads_back_witness:
  "\<exists>i st db1. coord_run_call plain_env (show_request 1 8 1 1 21 2) show_claimed = Inr (Operation_Requested i, db1) \<and>
     sp_operation_request_get (show_id 1) (Some 1) (snd (coord_execute plain_env (drop 3 show_completion) db1)) =
       Inr (Request_Found i [111] 1 [123, 125] [104] st)"
proof -
  from show_requests obtain i db1
    where c: "coord_run_call plain_env (show_request 1 8 1 1 21 2) show_claimed = Inr (Operation_Requested i, db1)" by blast
  obtain a where a: "show_request 1 8 1 1 21 2 = Request_Op a" by (simp add: show_request_def)
  from c have "coord_step plain_env (Request_Op a) show_claimed (Operation_Requested i) db1" by (simp add: coord_step_def a)
  from request_reads_back [OF this coord_execute_run [of _ "drop 3 show_completion", OF prod.collapse [symmetric]]] c a
  show ?thesis by (auto simp: show_request_def show_fence_def show_doc_def fenced_args.defs request_args.defs)
qed

text \<open>
  C23. The head of the stack is the cursor of the compensation: when a compensation is requested,
  \<open>sp_mf_checkpoint_reverse_head\<close> named its checkpoint as pending before and answers afterwards
  with exactly the binding that was requested; when a settled one ends the reversal, no
  checkpoint is active any more, and otherwise the head is the next one below.
\<close>

theorem head_is_the_cursor:
  assumes "coord_run ce (empty_database now) tr db"
  shows "(\<forall>a rid db'. coord_step ce (Reverse_Request a) db (Compensation_Requested rid) db' \<longrightarrow>
      (\<exists>name payload kind. sp_checkpoint_reverse_head (fa_workflow_id a) db =
          Inr (Head_Pending (the (va_seq a)) name payload kind) \<and>
        sp_checkpoint_reverse_head (fa_workflow_id a) db' = Inr (Head_Dispatched (the (va_seq a)) name rid
          (va_operation_name a) (va_schema_version a) (va_input_json a) (va_input_hash a)))) \<and>
    (\<forall>a out db'. coord_step ce (Reverse_Settle a) db out db' \<longrightarrow>
      ((\<exists>why. out = Reversed why) \<longrightarrow> head_checkpoint db' (the (fa_workflow_id a)) = None) \<and>
      (\<forall>n. out = Reversing n \<longrightarrow> (\<exists>k. head_checkpoint db' (the (fa_workflow_id a)) = Some k \<and> k_seq k = n \<and> n < the (ka_seq a))))"
proof (intro conjI allI impI)
  fix a :: reverse_request_args and rid db'
  let ?wid = "the (fa_workflow_id a)" and ?n = "the (va_seq a)"
  assume step: "coord_step ce (Reverse_Request a) db (Compensation_Requested rid) db'"
  then have "sp_checkpoint_reverse_request ce a db = Inr (Compensation_Requested rid, db')" by (simp add: coord_step_def)
  then obtain r k db1 f e where r: "select_workflow db ?wid = Some r" and k: "find_checkpoint db ?wid ?n = Some k"
      "k_reverse_invocation_id k = None" and top: "top_seq db ?wid = Some ?n"
      and upd: "update_checkpoint ce ?wid ?n (bound_checkpoint a) db = Inr db1" and pub: "publish ce ?wid f e db1 = Inr db'"
      and ids: "rid = hex (the (va_reverse_id a))" "va_reverse_id a \<noteq> None" "id16 (fa_workflow_id a)"
    by (rule reverse_request_steps)
  have run: "coord_run ce (empty_database now) (tr @ [(Reverse_Request a, Compensation_Requested rid)]) db'"
    using assms step unfolding coord_run_def by (blast intro: calls_run_append calls_run.intros)
  have seq: "k_seq k = ?n" using k(1) by (auto simp: find_checkpoint_def find_Some_iff)
  have before: "head_checkpoint db ?wid = Some k" by (rule head_found [OF assms _ k(1) top]) (simp add: r)
  from documents_keptD(1) [OF documents.keeps_step [OF step] r] have "select_workflow db' ?wid \<noteq> None" by auto
  then have after: "head_checkpoint db' ?wid = Some (bound_checkpoint a k)"
    by (rule head_found [OF run]) (simp_all add: same_checkpoints [OF publish_checkpoints [OF pub]] update_bound [OF upd] k top)
  show "\<exists>name payload kind. sp_checkpoint_reverse_head (fa_workflow_id a) db = Inr (Head_Pending ?n name payload kind) \<and>
      sp_checkpoint_reverse_head (fa_workflow_id a) db' = Inr (Head_Dispatched ?n name rid
        (va_operation_name a) (va_schema_version a) (va_input_json a) (va_input_hash a))"
    using before after ids k(2) seq by (auto simp: sp_checkpoint_reverse_head_def guards.simps bound_checkpoint_def)
next
  fix a :: reverse_settle_args and out db'
  assume step: "coord_step ce (Reverse_Settle a) db out db'"
  have settled: "sp_checkpoint_reverse_settle ce a db = Inr (out, db')" using step by (simp add: coord_step_def)
  let ?wid = "the (fa_workflow_id a)"
  have heads: "(top_seq db1 ?wid = None \<longrightarrow> head_checkpoint db' ?wid = None) \<and>
      (\<forall>n. top_seq db1 ?wid = Some n \<longrightarrow> (\<exists>k. head_checkpoint db' ?wid = Some k \<and> k_seq k = n \<and> n < the (ka_seq a)))"
    if "top_seq db ?wid = Some (the (ka_seq a))"
      "update_checkpoint ce ?wid (the (ka_seq a)) (reversed_checkpoint (the (ka_event_ts a))) db = Inr db1"
      "publish ce ?wid f e db1 = Inr db'" for db1 f e
    using head_checkpoint_None [of db1 ?wid] head_checkpoint_top [of db1 ?wid] update_reversed [OF that(2,1)]
      same_checkpoints(3) [OF publish_checkpoints [OF that(3)]] by (cases "head_checkpoint db1 ?wid") auto
  show "head_checkpoint db' ?wid = None" if "\<exists>why. out = Reversed why"
    by (rule reverse_settle_steps [OF settled]) (use that in \<open>auto dest: heads\<close>)
  show "\<exists>k. head_checkpoint db' ?wid = Some k \<and> k_seq k = n \<and> n < the (ka_seq a)" if "out = Reversing n" for n
    by (rule reverse_settle_steps [OF settled]) (use that in \<open>auto dest: heads\<close>)
qed

theorem head_is_the_cursor_witness:
  "\<exists>name payload kind. sp_checkpoint_reverse_head (show_id 3) (snd show_begun) = Inr (Head_Pending 2 name payload kind)"
proof -
  from show_compensates obtain rid db'
    where c: "coord_run_call plain_env (hd (show_compensate 3 8 1 2 42 10)) (snd show_begun) = Inr (Compensation_Requested rid, db')"
    by blast
  obtain a where a: "hd (show_compensate 3 8 1 2 42 10) = Reverse_Request a" by (simp add: show_compensate_def)
  have run: "coord_run plain_env (empty_database (show_time 0)) (fst show_begun) (snd show_begun)"
    using show_runs by (simp add: show_begun_def show_start_def)
  from c have "coord_step plain_env (Reverse_Request a) (snd show_begun) (Compensation_Requested rid) db'"
    by (simp add: coord_step_def a)
  with head_is_the_cursor [OF run]
  have "\<exists>name payload kind. sp_checkpoint_reverse_head (fa_workflow_id a) (snd show_begun) =
      Inr (Head_Pending (the (va_seq a)) name payload kind)" by blast
  then show ?thesis using a
    by (auto simp: show_compensate_def show_fence_def fenced_args.defs reverse_request_args.defs)
qed

end
