(* ===== verification/Spec2Isabelle.thy ===== *)
theory Spec2Isabelle
  imports Wire Export_Events Emit_Main Gates Zipapp Singular_Safety Coord_View Coord_Resume
begin

text \<open>
  Drift Workflows: a model of the durable-workflow coordinator's and the Singular backend's stored
  procedures, of the read-only viewer over the coordinator's database, and of the Python tooling
  that plans, judges and packages the certification runs.  Paths are relative to \<open>src/\<close>.

  \<^bold>\<open>The program.\<close>  Two services keep their state in MariaDB and change it only through stored
  procedures. \<open>singular/db\<close> grants exactly-once leases on work units (start, resume, extend,
  complete, fail) and keeps their audit history. \<open>microflows/db\<close> is the coordinator: workers
  claim a workflow under a fencing token, request and settle its operations one after the other,
  each settled operation leaving a checkpoint; a definite failure turns the workflow around and the
  checkpoints are compensated from the top; an operation may be a whole workflow of its own.
  The Python code reads these tables and surrounds them with tools. \<open>microflows-viz/src/mfviz\<close>
  serves the state of the coordinator over HTTP (\<open>dbq.py\<close> queries, \<open>server.py\<close> routes, \<open>cli.py\<close>
  starts) and answers, beside plain inspection, why a workflow is not moving. \<open>tools/cert_deps.py\<close> and
  four \<open>emit_test_plan.py\<close> derive dependency flags and emit the test plans the toolchain runs;
  \<open>perf_gate.py\<close>, \<open>perf.py\<close> and \<open>stress.py\<close> judge measurements; \<open>build_zipapp.py\<close> builds the
  viewer's archive; \<open>export_events.py\<close> turns an event log into a demo tape.

  \<^bold>\<open>Common ground.\<close>  \<open>Prelude\<close>: strings as code points, bytes as 8-bit words, results that may raise
  (\<open>'e + 'a\<close>, the error on the left), dictionaries in insertion order.  \<open>PyStr\<close>, \<open>PyUrl\<close>: the parts of
  \<open>str\<close>, \<open>bytes\<close>, \<open>posixpath\<close> and \<open>urllib.parse\<close> the code uses.  \<open>Json\<close> models \<open>json.loads\<close> and
  \<open>json.dumps\<close>, \<open>Json_Round_Trip\<close> shows the printer inverse to the scanner.  \<open>Tooling\<close>: reading
  a command's output, and how a tool ends.  \<open>Traces\<close>: runs of a service that clients call in any
  order, with the locales \<open>logged_service\<close> (an invariant and a history that only grows) and
  \<open>unit_service\<close>, which extends it (each call concerns one unit and answers as an abstract machine).

  \<^bold>\<open>Singular\<close> (\<open>singular/db/schema\<close>, \<open>singular/db/procs\<close>).  \<open>Singular_DB\<close>: the two tables as lists of
  records with their keys and checks, one definition per procedure with its guards in order, the
  outcomes as constructors.  \<open>Singular_Spec\<close>: the protocol of one unit as a machine over
  absent, leased and settled states, and the proof that every procedure refines it.
  \<open>Singular_Safety\<close>: all runs; the backend interprets \<open>unit_service\<close>, whence one grant, one verdict,
  fencing of superseded tokens, recovery after expiry, an append-only history, and soundness of the
  tables.

  \<^bold>\<open>Coordinator\<close> (\<open>microflows/db/schema\<close>, \<open>microflows/db/procs\<close>).  \<open>Coord_DB\<close> has the seven tables, one
  record per table with every column.  \<open>Coord_Tables\<close>: the INSERT and UPDATE statements with primary
  and unique keys, foreign keys and CHECKs, the guards on arguments, the rows procedures read.
  \<open>Coord_Forward\<close> (create, claim, heartbeat, release, request, settle, fail, defer),
  \<open>Coord_Reverse\<close> (reconcile budget, begin reversal, authored fail, compensation) and \<open>Coord_Calls\<close>
  (re-dispatch timers, child workflows, notifications, reopening and settling a child's
  compensation) hold the 24 procedures that write, whole: guards, locks read, every outcome, every
  write.  \<open>Coord_Lifecycle\<close> is the specification: the rows of one workflow and the thirteen kinds of
  step it may make (\<open>life_step\<close>).  \<open>Coord_Refine\<close> and \<open>Coord_Refine_Calls\<close> show, procedure by procedure,
  that a committed call is such a step of at most two workflows and nothing for the others.
  \<open>Coord_Safety\<close> proves the invariants of a workflow by rule induction on the steps (chronology,
  settled exactly when checkpointed, stack discipline, plan followed, lease and token), and
  \<open>Coord_Runs\<close> carries them to every run through the interpretation of \<open>logged_service\<close>, with
  evaluated runs as witnesses.  \<open>Coord_Tree\<close> shows the calls between workflows to form a forest
  in which a parent waits for its child.  \<open>Claim_Verdict\<close> and \<open>Coord_View\<close> connect the viewer to the
  coordinator: what the viewer calls claimable is what a claim gets, and on every database the
  procedures can produce the viewer has an answer.  \<open>Coord_Kept\<close> states once, as the locales \<open>kept\<close>
  and \<open>kept_by_all\<close>, what a property of the tables needs in order to survive every call;
  \<open>Coord_Tree\<close> and \<open>Coord_Resume\<close> interpret them.  \<open>Coord_Read\<close> holds the nine procedures that only
  read, and \<open>Coord_Resume\<close> shows that a restarted worker reads back what was submitted and
  requested, and that the head of the checkpoint stack is the cursor of the compensation.

  \<^bold>\<open>Viewer\<close> (\<open>microflows-viz/src/mfviz\<close>).  \<open>Values\<close>: database values, their decoding, state names.
  \<open>Coord_DB\<close> also has one definition per SELECT of \<open>dbq.py\<close>.  \<open>Call_Walk\<close> states the recursion of
  \<open>inspect_workflow\<close> and \<open>tree_workflow\<close> once, as locales; \<open>Inspect\<close> interprets them for both:
  nothing omitted and exact expansion, both stated on the rows of the call table alone, bounds,
  termination.  \<open>Timeline\<close>: the merged history of a tree.  \<open>Stuck\<close>: the
  verdict, its declarative classification on the tables, termination of the unbounded descent, and the path.
  \<open>Listing\<close>: the bounded search, shown to list the outer join of two tables.  \<open>Server\<close>: a handler as a function of the request, the database
  server and the file system, with the count of open connections.  \<open>Cli\<close>: what \<open>serve\<close> decides.
  \<open>Render\<close>, \<open>Payloads\<close>, \<open>Wire\<close>: the JSON value, headers and bytes of every reply; every reply
  reads back.  \<open>Fixture\<close>: a small database on which properties are evaluated.

  \<^bold>\<open>Tools.\<close>  \<open>Cert_Deps\<close>: \<open>tools/cert_deps.py\<close>.  \<open>Source_Text\<close>, \<open>Manifest\<close>, \<open>Job_Plan\<close>, \<open>Emitters\<close>,
  \<open>Plan_Text\<close>, \<open>Root_Plan\<close>, \<open>Emit_Main\<close>: the four emitters from the sources and manifests they read
  to the JSON they print; the locale \<open>plan_emitter\<close> is the contract of a component plan and is
  interpreted for the three of them.  \<open>Gates\<close>: the performance and stress gates, with the
  locale \<open>baseline_gate\<close>.  \<open>Zipapp\<close>: \<open>build_zipapp.py\<close>, in which any step on the file system
  may raise, the clean-up included.  \<open>Export_Events\<close>: \<open>export_events.py\<close>, its names looked up in the
  scope the function has.

  \<^bold>\<open>Parameters.\<close>  What the sources do not contain is an argument.  \<open>sql_env\<close>, \<open>singular_env\<close> and
  \<open>coord_env\<close>: the server's collations, which texts are JSON objects, the text \<open>JSON_OBJECT\<close>
  builds, date arithmetic; \<open>locked\<close>: which rows another transaction holds when a claim skips them;
  the clock of the caller is an argument of each call, as in the code.  \<open>canon\<close>: the text of a
  float; \<open>py_text\<close>: \<open>isprintable\<close> above ASCII and messages of the interpreter and the driver.  The file
  system, the database driver, \<open>driftc\<close> and \<open>drift\<close>, the database client, started processes and
  the numbers they measure are functions or results handed in.

  \<^bold>\<open>Bounds and termination.\<close>  The JSON scanner runs on fuel \<open>2 * length + 1\<close>, proved enough on every
  text.  The walks recurse on the depth limit; the descent of \<open>stuck_workflow\<close> has a proved measure
  (ids of the call table not yet seen).  The recursive query of \<open>sp_mf_call_submit\<close> is bounded by
  \<open>max_call_depth\<close>, as in the SQL.  Fencing tokens are \<open>bigint\<close> and retry counters \<open>int\<close>: a write beyond their range
  is refused (\<open>Out_Of_Range\<close>), as the server does in strict mode.  Procedures run one
  transaction after the other: each takes the row lock of its workflow first, so committed
  transactions serialise; a refused one is rolled back and leaves no trace.

  \<^bold>\<open>Not modelled.\<close>  The Drift code of both libraries and of the runner, a language of its own; deadlocks and lock timeouts, which roll a transaction back; the widths of text
  columns and of integers other than tokens and retry counters, and the server's own limit on
  recursive queries.  The interpreter's recursion limit, the framing of \<open>http.server\<close> and the socket,
  \<open>argparse\<close>, the zip encoding, the values of floats.  The browser UI (HTML and JavaScript) and the test suites.

  What modelling showed is in the comments of the theorems: no stored procedure is the operator's
  resolution of a blocked workflow that the design describes, so to the procedures such a workflow
  is at its end; the exporter stops at a
  \<open>NameError\<close>, an upper-case id breaks the timeline view, a valueless digit the state filter, and
  at the microsecond a lease expires viewer and claim scan disagree.  The procedure
  \<open>sp_mf_checkpoint_reverse_request\<close> does not ask whether a checkpoint is that of a call, so a caller may bind
  an invocation to one; the child is then not involved, and the head of the stack reports a dispatched binding
  for a call, which the comment of \<open>sp_mf_checkpoint_reverse_head\<close> excludes.
\<close>

end
